(* ===== verification/Prelude.thy ===== *)
theory Prelude
  imports Complex_Main "HOL-Library.Multiset"
begin

text \<open>
  What every component shares: the computations of the services (a state, and a result
  that is an error or a value, as a Go function returning \<open>(T, error)\<close> beside its
  side effects), the rules that say when such a computation succeeds or what it leaves
  alone, the outside world (identifiers, the clock, failing statements), and lemmas on
  lists that several components use.
\<close>

section \<open>Collections of facts\<close>

named_theorems succeeds \<open>when a computation returns a value: equivalences for simp\<close>
named_theorems failing \<open>when a computation returns an error: equivalences for simp\<close>
named_theorems keeping \<open>rules for what a computation leaves unchanged\<close>

section \<open>Computations with an error result\<close>

text \<open>
  A computation takes a state and returns the result together with the new state. The
  state is returned with an error as well: a Go function that fails half way keeps the
  writes it made. Only a database transaction takes writes back.
\<close>

type_synonym ('s, 'e, 'a) comp = "'s \<Rightarrow> ('e + 'a) \<times> 's"

definition ret :: "'a \<Rightarrow> ('s, 'e, 'a) comp" where
  "ret x s = (Inr x, s)"

definition fail :: "'e \<Rightarrow> ('s, 'e, 'a) comp" where
  "fail e s = (Inl e, s)"

definition bnd :: "('s, 'e, 'a) comp \<Rightarrow> ('a \<Rightarrow> ('s, 'e, 'b) comp) \<Rightarrow> ('s, 'e, 'b) comp" where
  "bnd m f s = (case m s of (Inl e, s') \<Rightarrow> (Inl e, s') | (Inr x, s') \<Rightarrow> f x s')"

definition andthen :: "('s, 'e, 'a) comp \<Rightarrow> ('s, 'e, 'b) comp \<Rightarrow> ('s, 'e, 'b) comp" where
  "andthen m n = bnd m (\<lambda>_. n)"

definition check :: "bool \<Rightarrow> 'e \<Rightarrow> ('s, 'e, unit) comp" where
  "check b e = (if b then ret () else fail e)"

definition gets :: "('s \<Rightarrow> 'a) \<Rightarrow> ('s, 'e, 'a) comp" where
  "gets f s = (Inr (f s), s)"

definition modify :: "('s \<Rightarrow> 's) \<Rightarrow> ('s, 'e, unit) comp" where
  "modify f s = (Inr (), f s)"

text \<open>\<open>handle m h\<close> runs \<open>h\<close> on the error of \<open>m\<close>: an \<open>if err != nil\<close> that goes on.\<close>

definition handle :: "('s, 'e, 'a) comp \<Rightarrow> ('e \<Rightarrow> ('s, 'e, 'a) comp) \<Rightarrow> ('s, 'e, 'a) comp" where
  "handle m h s = (case m s of (Inl e, s') \<Rightarrow> h e s' | (Inr x, s') \<Rightarrow> (Inr x, s'))"

text \<open>A \<open>for range\<close> loop whose body may return an error early.\<close>

fun for_each :: "'a list \<Rightarrow> ('a \<Rightarrow> ('s, 'e, unit) comp) \<Rightarrow> ('s, 'e, unit) comp" where
  "for_each [] f = ret ()"
| "for_each (x # xs) f = andthen (f x) (for_each xs f)"

text \<open>A loop that collects a value for every element.\<close>

fun collect :: "'a list \<Rightarrow> ('a \<Rightarrow> ('s, 'e, 'b) comp) \<Rightarrow> ('s, 'e, 'b list) comp" where
  "collect [] f = ret []"
| "collect (x # xs) f = bnd (f x) (\<lambda>y. bnd (collect xs f) (\<lambda>ys. ret (y # ys)))"

lemma ret_iff [succeeds]: "ret x s = (Inr y, s') \<longleftrightarrow> y = x \<and> s' = s"
  by (auto simp: ret_def)

lemma fail_iff [succeeds]: "fail e s = (Inr y, s') \<longleftrightarrow> False"
  by (simp add: fail_def)

lemma bnd_iff [succeeds]:
  "bnd m f s = (Inr y, s') \<longleftrightarrow> (\<exists>x t. m s = (Inr x, t) \<and> f x t = (Inr y, s'))"
  by (auto simp: bnd_def split: prod.splits sum.splits)

lemma andthen_iff [succeeds]:
  "andthen m n s = (Inr y, s') \<longleftrightarrow> (\<exists>x t. m s = (Inr x, t) \<and> n t = (Inr y, s'))"
  by (auto simp: andthen_def succeeds)

lemma check_iff [succeeds]: "check b e s = (Inr y, s') \<longleftrightarrow> b \<and> s' = s"
  by (auto simp: check_def succeeds)

lemma gets_iff [succeeds]: "gets f s = (Inr y, s') \<longleftrightarrow> y = f s \<and> s' = s"
  by (auto simp: gets_def)

lemma modify_iff [succeeds]: "modify f s = (Inr y, s') \<longleftrightarrow> s' = f s"
  by (auto simp: modify_def)

lemma handle_iff [succeeds]:
  "handle m h s = (Inr y, s') \<longleftrightarrow>
     m s = (Inr y, s') \<or> (\<exists>e t. m s = (Inl e, t) \<and> h e t = (Inr y, s'))"
  by (auto simp: handle_def split: prod.splits sum.splits)

lemma ret_Inl [failing]: "ret x s = (Inl e, s') \<longleftrightarrow> False"
  by (simp add: ret_def)

lemma fail_Inl [failing]: "fail d s = (Inl e, s') \<longleftrightarrow> e = d \<and> s' = s"
  by (auto simp: fail_def)

lemma bnd_Inl [failing]:
  "bnd m f s = (Inl e, s') \<longleftrightarrow> m s = (Inl e, s') \<or> (\<exists>x t. m s = (Inr x, t) \<and> f x t = (Inl e, s'))"
  by (auto simp: bnd_def split: prod.splits sum.splits)

lemma andthen_Inl [failing]:
  "andthen m n s = (Inl e, s') \<longleftrightarrow> m s = (Inl e, s') \<or> (\<exists>x t. m s = (Inr x, t) \<and> n t = (Inl e, s'))"
  by (auto simp: andthen_def failing)

lemma check_Inl [failing]: "check b d s = (Inl e, s') \<longleftrightarrow> \<not> b \<and> e = d \<and> s' = s"
  by (auto simp: check_def failing)

lemma gets_Inl [failing]: "gets f s = (Inl e, s') \<longleftrightarrow> False"
  by (simp add: gets_def)

lemma modify_Inl [failing]: "modify f s = (Inl e, s') \<longleftrightarrow> False"
  by (simp add: modify_def)

lemma handle_Inl [failing]:
  "handle m h s = (Inl e, s') \<longleftrightarrow> (\<exists>d t. m s = (Inl d, t) \<and> h d t = (Inl e, s'))"
  by (auto simp: handle_def split: prod.splits sum.splits)

lemmas comp_defs = ret_def fail_def bnd_def andthen_def check_def gets_def modify_def handle_def

subsection \<open>What a computation leaves unchanged\<close>

text \<open>
  \<open>keeps f m\<close>: whatever the outcome, \<open>m\<close> leaves the part \<open>f\<close> of the state alone.
\<close>

definition keeps :: "('s \<Rightarrow> 'b) \<Rightarrow> ('s, 'e, 'a) comp \<Rightarrow> bool" where
  "keeps f m \<longleftrightarrow> (\<forall>s. f (snd (m s)) = f s)"

lemma keepsI: "(\<And>s. f (snd (m s)) = f s) \<Longrightarrow> keeps f m"
  by (simp add: keeps_def)

lemma keepsD: "keeps f m \<Longrightarrow> m s = (r, s') \<Longrightarrow> f s' = f s"
  by (metis keeps_def snd_conv)

lemma keeps_ret [keeping]: "keeps f (ret x)"
  by (simp add: keeps_def ret_def)

lemma keeps_fail [keeping]: "keeps f (fail e)"
  by (simp add: keeps_def fail_def)

lemma keeps_gets [keeping]: "keeps f (gets g)"
  by (simp add: keeps_def gets_def)

lemma keeps_check [keeping]: "keeps f (check b e)"
  by (simp add: keeps_def check_def ret_def fail_def)

lemma keeps_modify [keeping]: "(\<And>s. f (g s) = f s) \<Longrightarrow> keeps f (modify g)"
  by (simp add: keeps_def modify_def)

lemma keeps_bnd [keeping]: "keeps f m \<Longrightarrow> (\<And>x. keeps f (n x)) \<Longrightarrow> keeps f (bnd m n)"
  unfolding keeps_def bnd_def
  by (auto split: prod.splits sum.splits) (metis snd_conv)+

lemma keeps_andthen [keeping]: "keeps f m \<Longrightarrow> keeps f n \<Longrightarrow> keeps f (andthen m n)"
  by (simp add: andthen_def keeps_bnd)

lemma keeps_handle [keeping]: "keeps f m \<Longrightarrow> (\<And>e. keeps f (h e)) \<Longrightarrow> keeps f (handle m h)"
  unfolding keeps_def handle_def
  by (auto split: prod.splits sum.splits) (metis snd_conv)+

lemma keeps_if [keeping]: "keeps f m \<Longrightarrow> keeps f n \<Longrightarrow> keeps f (if b then m else n)"
  by simp

lemma keeps_case_option [keeping]:
  "(x = None \<Longrightarrow> keeps f m) \<Longrightarrow> (\<And>y. x = Some y \<Longrightarrow> keeps f (n y)) \<Longrightarrow>
   keeps f (case x of None \<Rightarrow> m | Some y \<Rightarrow> n y)"
  by (cases x) auto

lemma keeps_for_each [keeping]: "(\<And>x. x \<in> set xs \<Longrightarrow> keeps f (g x)) \<Longrightarrow> keeps f (for_each xs g)"
  by (induction xs) (auto intro: keeping)

lemma keeps_collect [keeping]: "(\<And>x. x \<in> set xs \<Longrightarrow> keeps f (g x)) \<Longrightarrow> keeps f (collect xs g)"
  by (induction xs) (auto intro!: keeping)

text \<open>\<open>maintains P m\<close>: whatever the outcome, \<open>P\<close> holds afterwards if it held before.\<close>

definition maintains :: "('s \<Rightarrow> bool) \<Rightarrow> ('s, 'e, 'a) comp \<Rightarrow> bool" where
  "maintains P m \<longleftrightarrow> (\<forall>s. P s \<longrightarrow> P (snd (m s)))"

lemma maintainsI: "(\<And>s. P s \<Longrightarrow> P (snd (m s))) \<Longrightarrow> maintains P m"
  by (simp add: maintains_def)

lemma maintainsD: "maintains P m \<Longrightarrow> m s = (r, s') \<Longrightarrow> P s \<Longrightarrow> P s'"
  by (metis maintains_def snd_conv)

lemma maintains_ret [keeping]: "maintains P (ret x)"
  by (simp add: maintains_def ret_def)

lemma maintains_fail [keeping]: "maintains P (fail e)"
  by (simp add: maintains_def fail_def)

lemma maintains_gets [keeping]: "maintains P (gets g)"
  by (simp add: maintains_def gets_def)

lemma maintains_check [keeping]: "maintains P (check b e)"
  by (simp add: maintains_def check_def ret_def fail_def)

lemma maintains_bnd [keeping]:
  "maintains P m \<Longrightarrow> (\<And>x. maintains P (n x)) \<Longrightarrow> maintains P (bnd m n)"
  unfolding maintains_def bnd_def
  by (fastforce split: prod.splits sum.splits)

lemma maintains_andthen [keeping]:
  "maintains P m \<Longrightarrow> maintains P n \<Longrightarrow> maintains P (andthen m n)"
  by (simp add: andthen_def maintains_bnd)

lemma maintains_handle [keeping]:
  "maintains P m \<Longrightarrow> (\<And>e. maintains P (h e)) \<Longrightarrow> maintains P (handle m h)"
  unfolding maintains_def handle_def
  by (fastforce split: prod.splits sum.splits)

lemma maintains_if [keeping]:
  "maintains P m \<Longrightarrow> maintains P n \<Longrightarrow> maintains P (if b then m else n)"
  by simp

lemma maintains_for_each [keeping]:
  "(\<And>x. x \<in> set xs \<Longrightarrow> maintains P (g x)) \<Longrightarrow> maintains P (for_each xs g)"
  by (induction xs) (auto intro: keeping)

section \<open>Lists\<close>

text \<open>Rows of a table, found and replaced by a key.\<close>

lemma find_key_Some:
  "find (\<lambda>x. k x = i) xs = Some x \<Longrightarrow> x \<in> set xs \<and> k x = i"
  by (auto simp: find_Some_iff)

lemma find_key_in:
  "distinct (map k xs) \<Longrightarrow> x \<in> set xs \<Longrightarrow> find (\<lambda>y. k y = k x) xs = Some x"
  by (induction xs) (auto simp: rev_image_eqI)

lemma find_key_None: "find (\<lambda>x. k x = i) xs = None \<longleftrightarrow> i \<notin> k ` set xs"
  by (auto simp: find_None_iff)

lemma map_update_absent:
  "i \<notin> k ` set xs \<Longrightarrow> map (\<lambda>y. if k y = i then f y else y) xs = xs"
  by (induction xs) auto

text \<open>The sum of a column changes by what the one row with the key changes.\<close>

lemma sum_list_update_key:
  fixes g :: "'a \<Rightarrow> 'd::ab_group_add"
  assumes "distinct (map k xs)" and "find (\<lambda>y. k y = i) xs = Some x"
  shows "sum_list (map g (map (\<lambda>y. if k y = i then f y else y) xs))
       = sum_list (map g xs) - g x + g (f x)"
  using assms
proof (induction xs)
  case Nil
  then show ?case by simp
next
  case (Cons a xs)
  show ?case
  proof (cases "k a = i")
    case True
    with Cons.prems have "x = a" and absent: "i \<notin> k ` set xs" by auto
    have "map (\<lambda>y. if k y = i then f y else y) (a # xs) = f a # xs"
      using True map_update_absent[OF absent] by simp
    with \<open>x = a\<close> show ?thesis by (simp only: list.map sum_list.Cons) simp
  next
    case False
    with Cons show ?thesis by (simp add: algebra_simps)
  qed
qed

lemma map_key_update:
  "(\<And>x. k (f x) = k x) \<Longrightarrow> map k (map (\<lambda>y. if k y = i then f y else y) xs) = map k xs"
  by (induction xs) auto

lemma set_update_key:
  "y \<in> set (map (\<lambda>y. if k y = i then f y else y) xs) \<Longrightarrow>
   (\<exists>x \<in> set xs. k x = i \<and> y = f x) \<or> (y \<in> set xs \<and> k y \<noteq> i)"
  by (auto split: if_splits)

lemma sorted_wrt_take_drop_insert:
  assumes "sorted_wrt R xs" and "\<forall>x \<in> set (take n xs). R x y" and "\<forall>x \<in> set (drop n xs). R y x"
  shows "sorted_wrt R (take n xs @ y # drop n xs)"
proof -
  have "sorted_wrt R (take n xs @ drop n xs)" using assms(1) by simp
  then show ?thesis using assms(2,3) unfolding sorted_wrt_append by auto
qed

end
