(* ===== verification/DomainTypes.thy ===== *)
theory DomainTypes
  imports Prelude
begin

text \<open>
  The data model of \<open>pkg/domain\<close>, the price bounds of \<open>pkg/decimal\<close>, and the objects of
  the trading process in memory.

  Amounts are of a type \<open>'d\<close>, any linearly ordered field: the package
  \<open>shopspring/decimal\<close> is not part of the repository, and what the code relies on is that
  its addition, subtraction, multiplication and comparison are exact, which are the laws of
  the class. Its division rounds, so where the code divides, the division is an argument of
  the definition; so are the conversions from and to strings.
\<close>

section \<open>Enumerations\<close>

datatype OrderSide = Buy | Sell

datatype OrderStatus = Open | PartiallyFilled | Filled | Cancelled

datatype MarketStatus = MDraft | MOpen | MClosed | MResolved | MCancelled

datatype MarketType = Binary | Multi

datatype UserType = Human | Agent

text \<open>An instant. The zero time of Go is \<open>0\<close>.\<close>

type_synonym time = int

section \<open>Records\<close>

record 'd Order =
  o_ID :: string
  o_UserID :: string
  o_MarketID :: string
  o_OutcomeID :: string
  o_Side :: OrderSide
  o_Price :: 'd
  o_Quantity :: 'd
  o_FilledQty :: 'd
  o_Status :: OrderStatus
  o_CreatedAt :: time
  o_UpdatedAt :: time

record 'd Trade =
  t_ID :: string
  t_MarketID :: string
  t_OutcomeID :: string
  t_MakerOrderID :: string
  t_TakerOrderID :: string
  t_MakerUserID :: string
  t_TakerUserID :: string
  t_Price :: 'd
  t_Quantity :: 'd
  t_CreatedAt :: time

record 'd Position =
  p_ID :: string
  p_UserID :: string
  p_MarketID :: string
  p_OutcomeID :: string
  p_Quantity :: 'd
  p_AvgPrice :: 'd
  p_UpdatedAt :: time

record 'd MintTransaction =
  mt_ID :: string
  mt_UserID :: string
  mt_MarketID :: string
  mt_Quantity :: 'd
  mt_Cost :: 'd
  mt_CreatedAt :: time

record 'd User =
  u_ID :: string
  u_WalletAddress :: string
  u_UserType :: UserType
  u_Balance :: 'd
  u_LockedBalance :: 'd
  u_IsAdmin :: bool
  u_CreatedAt :: time

record Market =
  m_ID :: string
  m_Title :: string
  m_Description :: string
  m_Category :: string
  m_MarketType :: MarketType
  m_Status :: MarketStatus
  m_CreatorID :: string
  m_ResolvedOutcomeID :: "string option"
  m_CreatedAt :: time
  m_UpdatedAt :: time
  m_ClosesAt :: "time option"

record Outcome =
  oc_ID :: string
  oc_MarketID :: string
  oc_Label :: string
  oc_Index :: int
  oc_IsWinner :: bool

text \<open>An event; its payload is a JSON object of strings, given as its fields in order.\<close>

record DomainEvent =
  ev_ID :: string
  ev_Type :: string
  ev_Payload :: "(string \<times> string) list"
  ev_Source :: string
  ev_Timestamp :: time
  ev_TraceID :: string
  ev_SpanID :: string

definition EventMarketResolved :: string where
  "EventMarketResolved = ''market.resolved''"

section \<open>Prices\<close>

definition MinPrice :: "'d::linordered_field" where
  "MinPrice = 1 / 100"

definition MaxPrice :: "'d::linordered_field" where
  "MaxPrice = 99 / 100"

definition InitialBalance :: "'d::linordered_field" where
  "InitialBalance = 1000"

definition ValidatePrice :: "'d::linordered_field \<Rightarrow> bool" where
  "ValidatePrice price \<longleftrightarrow> price \<ge> MinPrice \<and> price \<le> MaxPrice"

lemma ValidatePrice_pos: "ValidatePrice p \<Longrightarrow> 0 < p \<and> p < 1"
  by (auto simp: ValidatePrice_def MinPrice_def MaxPrice_def field_simps)

section \<open>Order objects in memory\<close>

text \<open>
  Orders are shared by pointer between the service, the queues and the cancel index, and
  the matching engine changes them in place. A pointer is a number, the memory a function
  from pointers to orders with the next free pointer.
\<close>

type_synonym ref = nat

record 'd mem =
  cell :: "ref \<Rightarrow> 'd Order"
  top :: ref

definition alloc :: "'d Order \<Rightarrow> 'd mem \<Rightarrow> ref \<times> 'd mem" where
  "alloc ord m = (top m, m\<lparr>cell := (cell m)(top m := ord), top := Suc (top m)\<rparr>)"

definition upd :: "ref \<Rightarrow> ('d Order \<Rightarrow> 'd Order) \<Rightarrow> 'd mem \<Rightarrow> 'd mem" where
  "upd r f m = m\<lparr>cell := (cell m)(r := f (cell m r))\<rparr>"

lemma cell_upd [simp]: "cell (upd r f m) = (cell m)(r := f (cell m r))"
  by (simp add: upd_def)

lemma top_upd [simp]: "top (upd r f m) = top m"
  by (simp add: upd_def)

section \<open>The outside world\<close>

text \<open>
  Fresh identifiers (\<open>uuid.New\<close>, \<open>crypto/rand\<close>), the clock, and whether the next statement
  sent to the database fails are read from sources the program does not control, one value
  per use. A theorem about a computation holds for every source.
\<close>

record world =
  w_uuid :: "nat \<Rightarrow> string"
  w_clock :: "nat \<Rightarrow> time"
  w_fault :: "nat \<Rightarrow> bool"
  w_nuuid :: nat
  w_nclock :: nat
  w_nfault :: nat

definition new_uuid :: "world \<Rightarrow> string \<times> world" where
  "new_uuid w = (w_uuid w (w_nuuid w), w\<lparr>w_nuuid := Suc (w_nuuid w)\<rparr>)"

definition time_now :: "world \<Rightarrow> time \<times> world" where
  "time_now w = (w_clock w (w_nclock w), w\<lparr>w_nclock := Suc (w_nclock w)\<rparr>)"

definition next_fault :: "world \<Rightarrow> bool \<times> world" where
  "next_fault w = (w_fault w (w_nfault w), w\<lparr>w_nfault := Suc (w_nfault w)\<rparr>)"

end
