(* ===== verification/OrderQueue.thy ===== *)
theory OrderQueue
  imports DomainTypes
begin

text \<open>
  \<open>services/trading-svc/internal/matching/order_queue.go\<close>: the FIFO queue of the orders at
  one price, a doubly linked list of order pointers with an index from order ids to list
  elements. A list element is a handle, unique within its queue; the list is the sequence of
  handles with the pointers they hold.
\<close>

section \<open>The queue\<close>

type_synonym elem = nat

record OrderQueue =
  q_orders :: "(elem \<times> ref) list"
  q_index :: "string \<rightharpoonup> elem"
  q_fresh :: elem

definition NewOrderQueue :: OrderQueue where
  "NewOrderQueue = \<lparr>q_orders = [], q_index = Map.empty, q_fresh = 0\<rparr>"

text \<open>The operations read order ids through the memory \<open>h\<close>.\<close>

definition OrderQueue_Enqueue :: "(ref \<Rightarrow> 'd Order) \<Rightarrow> ref \<Rightarrow> OrderQueue \<Rightarrow> OrderQueue" where
  "OrderQueue_Enqueue h r q =
     q\<lparr>q_orders := q_orders q @ [(q_fresh q, r)],
       q_index := (q_index q)(o_ID (h r) \<mapsto> q_fresh q),
       q_fresh := Suc (q_fresh q)\<rparr>"

definition OrderQueue_Dequeue :: "(ref \<Rightarrow> 'd Order) \<Rightarrow> OrderQueue \<Rightarrow> ref option \<times> OrderQueue" where
  "OrderQueue_Dequeue h q =
     (case q_orders q of
        [] \<Rightarrow> (None, q)
      | (e, r) # rest \<Rightarrow>
          (Some r, q\<lparr>q_orders := rest, q_index := (q_index q)(o_ID (h r) := None)\<rparr>))"

definition OrderQueue_Peek :: "OrderQueue \<Rightarrow> ref option" where
  "OrderQueue_Peek q = (case q_orders q of [] \<Rightarrow> None | (e, r) # rest \<Rightarrow> Some r)"

definition OrderQueue_Remove :: "string \<Rightarrow> OrderQueue \<Rightarrow> bool \<times> OrderQueue" where
  "OrderQueue_Remove orderID q =
     (case q_index q orderID of
        None \<Rightarrow> (False, q)
      | Some elem \<Rightarrow>
          (True, q\<lparr>q_orders := filter (\<lambda>(e, r). e \<noteq> elem) (q_orders q),
                  q_index := (q_index q)(orderID := None)\<rparr>))"

definition OrderQueue_Len :: "OrderQueue \<Rightarrow> nat" where
  "OrderQueue_Len q = length (q_orders q)"

definition OrderQueue_Orders :: "OrderQueue \<Rightarrow> ref list" where
  "OrderQueue_Orders q = map snd (q_orders q)"

section \<open>Invariant\<close>

text \<open>
  The handles are distinct and older than the next one, the order ids are distinct, and the
  index finds exactly the elements of the list.
\<close>

definition q_ids :: "(ref \<Rightarrow> 'd Order) \<Rightarrow> OrderQueue \<Rightarrow> string list" where
  "q_ids h q = map (\<lambda>(e, r). o_ID (h r)) (q_orders q)"

definition q_inv :: "(ref \<Rightarrow> 'd Order) \<Rightarrow> OrderQueue \<Rightarrow> bool" where
  "q_inv h q \<longleftrightarrow>
     distinct (map fst (q_orders q)) \<and>
     (\<forall>e \<in> set (map fst (q_orders q)). e < q_fresh q) \<and>
     distinct (q_ids h q) \<and>
     q_index q = map_of (map (\<lambda>(e, r). (o_ID (h r), e)) (q_orders q))"

lemma q_ids_Orders: "q_ids h q = map (\<lambda>r. o_ID (h r)) (OrderQueue_Orders q)"
  by (auto simp: q_ids_def OrderQueue_Orders_def)

lemma q_inv_cong:
  assumes "\<And>r. r \<in> set (OrderQueue_Orders q) \<Longrightarrow> o_ID (h r) = o_ID (h' r)"
  shows "q_inv h q = q_inv h' q"
proof -
  have ids: "\<And>e r. (e, r) \<in> set (q_orders q) \<Longrightarrow> o_ID (h r) = o_ID (h' r)"
    using assms by (force simp: OrderQueue_Orders_def)
  have "q_ids h q = q_ids h' q"
    unfolding q_ids_def using ids by (auto intro!: map_cong)
  moreover have "map (\<lambda>(e, r). (o_ID (h r), e)) (q_orders q)
      = map (\<lambda>(e, r). (o_ID (h' r), e)) (q_orders q)"
    using ids by (auto intro!: map_cong)
  ultimately show ?thesis by (simp only: q_inv_def)
qed

lemma map_of_snoc_fresh:
  "k \<notin> fst ` set xs \<Longrightarrow> map_of (xs @ [(k, v)]) = (map_of xs)(k \<mapsto> v)"
  by (induction xs) (auto simp: fun_eq_iff)

lemma map_of_remove_key:
  assumes "distinct (map f xs)" "distinct (map g xs)" "x \<in> set xs"
  shows "map_of (map (\<lambda>y. (f y, g y)) (filter (\<lambda>y. g y \<noteq> g x) xs))
       = (map_of (map (\<lambda>y. (f y, g y)) xs))(f x := None)"
  using assms
proof (induction xs)
  case Nil
  then show ?case by simp
next
  case (Cons y ys)
  show ?case
  proof (cases "y = x")
    case True
    with Cons.prems have "x \<notin> set ys" and "f x \<notin> f ` set ys" and "g x \<notin> g ` set ys"
      by auto
    then have "filter (\<lambda>y. g y \<noteq> g x) ys = ys" and "map_of (map (\<lambda>y. (f y, g y)) ys) (f x) = None"
      by (metis (mono_tags, lifting) filter_True image_eqI, auto simp: map_of_eq_None_iff image_image)
    with True show ?thesis by (auto simp: fun_eq_iff)
  next
    case False
    with Cons.prems have "x \<in> set ys" and "g y \<noteq> g x" and "f y \<noteq> f x" by auto
    with Cons show ?thesis by (auto simp: fun_eq_iff)
  qed
qed

lemma q_inv_New [simp]: "q_inv h NewOrderQueue"
  by (simp add: q_inv_def NewOrderQueue_def q_ids_def)

lemma Orders_New [simp]: "OrderQueue_Orders NewOrderQueue = []"
  by (simp add: OrderQueue_Orders_def NewOrderQueue_def)

lemma Orders_Enqueue [simp]:
  "OrderQueue_Orders (OrderQueue_Enqueue h r q) = OrderQueue_Orders q @ [r]"
  by (simp add: OrderQueue_Orders_def OrderQueue_Enqueue_def)

lemma q_inv_Enqueue:
  assumes "q_inv h q" and "o_ID (h r) \<notin> set (q_ids h q)"
  shows "q_inv h (OrderQueue_Enqueue h r q)"
proof -
  let ?g = "\<lambda>(e, r). (o_ID (h r), e)"
  have "q_fresh q \<notin> fst ` set (q_orders q)"
    using assms(1) by (force simp: q_inv_def)
  moreover have "o_ID (h r) \<notin> fst ` set (map ?g (q_orders q))"
    using assms(2) by (force simp: q_ids_def)
  then have "map_of (map ?g (q_orders q) @ [(o_ID (h r), q_fresh q)])
      = (map_of (map ?g (q_orders q)))(o_ID (h r) \<mapsto> q_fresh q)"
    by (rule map_of_snoc_fresh)
  ultimately show ?thesis
    using assms by (auto simp: q_inv_def OrderQueue_Enqueue_def q_ids_def)
qed

lemma Peek_hd: "OrderQueue_Peek q =
    (case OrderQueue_Orders q of [] \<Rightarrow> None | r # _ \<Rightarrow> Some r)"
  by (auto simp: OrderQueue_Peek_def OrderQueue_Orders_def split: list.splits)

lemma Dequeue_eq: "OrderQueue_Dequeue h q = (OrderQueue_Peek q, snd (OrderQueue_Dequeue h q))"
  by (auto simp: OrderQueue_Peek_def OrderQueue_Dequeue_def split: list.splits)

lemma Orders_Dequeue [simp]:
  "OrderQueue_Orders (snd (OrderQueue_Dequeue h q)) = tl (OrderQueue_Orders q)"
  by (auto simp: OrderQueue_Dequeue_def OrderQueue_Orders_def split: list.splits)

lemma q_inv_Dequeue:
  assumes "q_inv h q"
  shows "q_inv h (snd (OrderQueue_Dequeue h q))"
proof (cases "q_orders q")
  case Nil
  with assms show ?thesis by (simp add: OrderQueue_Dequeue_def)
next
  case (Cons x rest)
  obtain e r where x: "x = (e, r)" by (cases x)
  let ?g = "\<lambda>(e, r). (o_ID (h r), e)"
  have idx: "q_index q = map_of (map ?g (q_orders q))" and ids: "distinct (q_ids h q)"
    using assms by (auto simp: q_inv_def)
  have "map_of (map ?g rest) (o_ID (h r)) = None"
    using ids Cons x by (force simp: map_of_eq_None_iff q_ids_def)
  with idx Cons x have "(q_index q)(o_ID (h r) := None) = map_of (map ?g rest)"
    by (auto simp: fun_eq_iff)
  with assms Cons x show ?thesis
    by (auto simp: q_inv_def OrderQueue_Dequeue_def q_ids_def)
qed

lemma Len_Orders: "OrderQueue_Len q = length (OrderQueue_Orders q)"
  by (simp add: OrderQueue_Len_def OrderQueue_Orders_def)

text \<open>Removal by id: found exactly when the id is queued, and the other orders stay in place.\<close>

lemma Remove_found:
  assumes "q_inv h q"
  shows "fst (OrderQueue_Remove i q) \<longleftrightarrow> i \<in> set (q_ids h q)"
proof -
  have "q_index q i = None \<longleftrightarrow> i \<notin> set (q_ids h q)"
    using assms by (force simp: q_inv_def map_of_eq_None_iff q_ids_def)
  then show ?thesis by (auto simp: OrderQueue_Remove_def split: option.splits)
qed

lemma Remove_missing: "\<not> fst (OrderQueue_Remove i q) \<Longrightarrow> snd (OrderQueue_Remove i q) = q"
  by (auto simp: OrderQueue_Remove_def split: option.splits)

lemma index_elem:
  assumes "q_inv h q" and "q_index q i = Some e"
  obtains r where "(e, r) \<in> set (q_orders q)" and "o_ID (h r) = i"
proof -
  have "(i, e) \<in> set (map (\<lambda>(e, r). (o_ID (h r), e)) (q_orders q))"
    using assms by (metis map_of_SomeD q_inv_def)
  then show ?thesis using that by auto
qed

lemma handle_id:
  assumes "q_inv h q" "(e, r) \<in> set (q_orders q)" "(e', r') \<in> set (q_orders q)"
  shows "e' = e \<longleftrightarrow> o_ID (h r') = o_ID (h r)"
proof -
  have d1: "distinct (map fst (q_orders q))" and d2: "distinct (map (\<lambda>(e, r). o_ID (h r)) (q_orders q))"
    using assms(1) by (auto simp: q_inv_def q_ids_def)
  show ?thesis
    using assms(2,3) d1 d2 unfolding distinct_map inj_on_def by fastforce
qed

lemma Remove_Orders:
  assumes "q_inv h q"
  shows "OrderQueue_Orders (snd (OrderQueue_Remove i q))
       = filter (\<lambda>r. o_ID (h r) \<noteq> i) (OrderQueue_Orders q)"
proof (cases "q_index q i")
  case None
  with Remove_found[OF assms, of i] have "i \<notin> set (q_ids h q)"
    by (simp add: OrderQueue_Remove_def)
  then have "filter (\<lambda>r. o_ID (h r) \<noteq> i) (OrderQueue_Orders q) = OrderQueue_Orders q"
    by (auto simp: q_ids_Orders intro!: filter_True)
  with None show ?thesis by (simp add: OrderQueue_Remove_def)
next
  case (Some e)
  obtain r where r: "(e, r) \<in> set (q_orders q)" "o_ID (h r) = i"
    using index_elem[OF assms Some] by blast
  have "filter (\<lambda>(e', r'). e' \<noteq> e) (q_orders q) = filter (\<lambda>(e', r'). o_ID (h r') \<noteq> i) (q_orders q)"
    using handle_id[OF assms r(1)] r(2) by (auto intro!: filter_cong)
  with Some show ?thesis
    by (simp add: OrderQueue_Remove_def OrderQueue_Orders_def filter_map o_def case_prod_unfold)
qed

lemma q_inv_Remove:
  assumes "q_inv h q"
  shows "q_inv h (snd (OrderQueue_Remove i q))"
proof (cases "q_index q i")
  case None
  with assms show ?thesis by (simp add: OrderQueue_Remove_def)
next
  case (Some e)
  obtain r where r: "(e, r) \<in> set (q_orders q)" "o_ID (h r) = i"
    using index_elem[OF assms Some] by blast
  let ?g = "\<lambda>(e, r). (o_ID (h r), e)" and ?keep = "filter (\<lambda>(e', r). e' \<noteq> e) (q_orders q)"
  have d1: "distinct (map (\<lambda>(e, r). o_ID (h r)) (q_orders q))" and d2: "distinct (map fst (q_orders q))"
    and idx: "q_index q = map_of (map ?g (q_orders q))"
    using assms by (auto simp: q_inv_def q_ids_def)
  have "map_of (map ?g ?keep) = (q_index q)(i := None)"
    using map_of_remove_key[OF d1 d2 r(1)] r(2) idx by (simp add: case_prod_unfold)
  moreover have "distinct (map fst ?keep)" "distinct (map (\<lambda>(e, r). o_ID (h r)) ?keep)"
    using d1 d2 by (simp_all add: distinct_map_filter)
  ultimately show ?thesis
    using assms Some by (auto simp: q_inv_def OrderQueue_Remove_def q_ids_def)
qed

section \<open>The interface of a queue of identified items\<close>

text \<open>
  What the order book relies on: a queue with a list view, where an item is added at the
  back, taken from the front, and can be removed by its identifier without disturbing the
  others.
\<close>

locale id_queue =
  fixes key :: "'a \<Rightarrow> 'k"
    and items :: "'q \<Rightarrow> 'a list"
    and inv :: "'q \<Rightarrow> bool"
    and new :: 'q
    and enq :: "'a \<Rightarrow> 'q \<Rightarrow> 'q"
    and deq :: "'q \<Rightarrow> 'a option \<times> 'q"
    and peek :: "'q \<Rightarrow> 'a option"
    and remove :: "'k \<Rightarrow> 'q \<Rightarrow> bool \<times> 'q"
    and len :: "'q \<Rightarrow> nat"
  assumes inv_distinct: "inv q \<Longrightarrow> distinct (map key (items q))"
    and inv_new: "inv new"
    and items_new: "items new = []"
    and items_enq: "items (enq x q) = items q @ [x]"
    and inv_enq: "inv q \<Longrightarrow> key x \<notin> key ` set (items q) \<Longrightarrow> inv (enq x q)"
    and peek_items: "peek q = (case items q of [] \<Rightarrow> None | x # _ \<Rightarrow> Some x)"
    and deq_fst: "fst (deq q) = peek q"
    and items_deq: "items (snd (deq q)) = tl (items q)"
    and inv_deq: "inv q \<Longrightarrow> inv (snd (deq q))"
    and remove_found: "inv q \<Longrightarrow> fst (remove k q) \<longleftrightarrow> k \<in> key ` set (items q)"
    and remove_missing: "\<not> fst (remove k q) \<Longrightarrow> snd (remove k q) = q"
    and items_remove: "inv q \<Longrightarrow> items (snd (remove k q)) = filter (\<lambda>x. key x \<noteq> k) (items q)"
    and inv_remove: "inv q \<Longrightarrow> inv (snd (remove k q))"
    and len_items: "len q = length (items q)"
begin

lemma items_enq_all: "items (foldl (\<lambda>q x. enq x q) q xs) = items q @ xs"
  by (induction xs arbitrary: q) (auto simp: items_enq)

lemma items_deq_n: "items (((\<lambda>q. snd (deq q)) ^^ n) q) = drop n (items q)"
  by (induction n) (auto simp: items_deq drop_Suc tl_drop)

lemma peek_nth: "peek q = (if items q = [] then None else Some (items q ! 0))"
  by (auto simp: peek_items split: list.splits)

lemma fifo:
  "fst (deq (((\<lambda>q. snd (deq q)) ^^ n) (foldl (\<lambda>q x. enq x q) new xs)))
   = (if n < length xs then Some (xs ! n) else None)"
  by (auto simp: deq_fst peek_nth items_deq_n items_enq_all items_new)

lemma remove_enq_undo:
  assumes "inv q" and "key x \<notin> key ` set (items q)"
  shows "items (snd (remove (key x) (enq x q))) = items q"
proof -
  have "filter (\<lambda>y. key y \<noteq> key x) (items q) = items q"
    using assms(2) by (metis (mono_tags, lifting) filter_True image_eqI)
  then show ?thesis using items_remove[OF inv_enq[OF assms]] by (simp add: items_enq)
qed

lemma len_zero: "len q = 0 \<longleftrightarrow> peek q = None"
  by (auto simp: len_items peek_items split: list.splits)

end

interpretation oq: id_queue "\<lambda>r. o_ID (h r)" OrderQueue_Orders "q_inv h" NewOrderQueue
  "OrderQueue_Enqueue h" "OrderQueue_Dequeue h" OrderQueue_Peek OrderQueue_Remove OrderQueue_Len
  for h :: "ref \<Rightarrow> 'd Order"
proof unfold_locales
  fix q
  show "q_inv h q \<Longrightarrow> distinct (map (\<lambda>r. o_ID (h r)) (OrderQueue_Orders q))"
    by (simp add: q_inv_def q_ids_Orders)
  show "fst (OrderQueue_Dequeue h q) = OrderQueue_Peek q"
    by (metis Dequeue_eq fst_conv)
qed (auto simp: q_ids_Orders Remove_found Remove_missing Remove_Orders Peek_hd Len_Orders
  intro: q_inv_Enqueue q_inv_Dequeue q_inv_Remove)

section \<open>Properties\<close>

text \<open>
  A queue is first in, first out: after the orders \<open>rs\<close> were put in an empty queue one
  after the other, the \<open>n\<close>-th removal returns the \<open>n\<close>-th order put in, and every removal
  after the last one finds the queue empty.
\<close>

theorem OrderQueue_fifo:
  fixes h :: "ref \<Rightarrow> 'd Order"
  shows "fst (OrderQueue_Dequeue h (((\<lambda>q. snd (OrderQueue_Dequeue h q)) ^^ n)
           (foldl (\<lambda>q r. OrderQueue_Enqueue h r q) NewOrderQueue rs)))
         = (if n < length rs then Some (rs ! n) else None)"
  by (rule oq.fifo)

end
