(* ===== verification/Orderbook.thy ===== *)
theory Orderbook
  imports OrderQueue
begin

text \<open>
  \<open>services/trading-svc/internal/matching/orderbook.go\<close>: the two sides of the book of one
  outcome, each a list of price levels, best price first, found by binary search. The side
  of an order and its pointer are indexed by order id.
\<close>

section \<open>Binary search of the standard library\<close>

text \<open>\<open>sort.Search(n, f)\<close>: bisection for the least index at which \<open>f\<close> holds.\<close>

function search_loop :: "(nat \<Rightarrow> bool) \<Rightarrow> nat \<Rightarrow> nat \<Rightarrow> nat" where
  "search_loop f i j =
     (if i < j then
        let h = (i + j) div 2 in
        if \<not> f h then search_loop f (h + 1) j else search_loop f i h
      else i)"
  by pat_completeness auto
termination
  by (relation "measure (\<lambda>(f, i, j). j - i)") auto

declare search_loop.simps [simp del]

definition sort_Search :: "nat \<Rightarrow> (nat \<Rightarrow> bool) \<Rightarrow> nat" where
  "sort_Search n f = search_loop f 0 n"

lemma search_loop_spec:
  assumes "i \<le> j" "j \<le> n" "\<forall>k < i. \<not> f k" "\<forall>k. j \<le> k \<and> k < n \<longrightarrow> f k"
    and "\<And>a b. a \<le> b \<Longrightarrow> b < n \<Longrightarrow> f a \<Longrightarrow> f b"
  shows "search_loop f i j \<le> n \<and> (\<forall>k < search_loop f i j. \<not> f k) \<and>
         (\<forall>k. search_loop f i j \<le> k \<and> k < n \<longrightarrow> f k)"
  using assms
proof (induction f i j rule: search_loop.induct)
  case (1 f i j)
  note mono = "1.prems"(5)
  show ?case
  proof (cases "i < j")
    case False
    then have "search_loop f i j = i" by (simp add: search_loop.simps[of f i j])
    with False "1.prems" show ?thesis by simp
  next
    case True
    let ?h = "(i + j) div 2"
    have h: "i \<le> ?h" "?h < j" using True by auto
    show ?thesis
    proof (cases "f ?h")
      case False
      have "\<not> f k" if "k < ?h + 1" for k
      proof
        assume "f k"
        from mono[OF _ _ this, of ?h] that h "1.prems"(2) have "f ?h" by simp
        with False show False ..
      qed
      with 1(1)[OF True refl False _ _ _ _ mono] h "1.prems"(1-4)
      show ?thesis using False by (simp add: search_loop.simps[of f i j] True Let_def)
    next
      case hold: True
      have "\<forall>k. ?h \<le> k \<and> k < n \<longrightarrow> f k" using hold mono by blast
      with 1(2)[OF True refl _ _ _ _ _ mono] hold h "1.prems"(1-4)
      show ?thesis by (simp add: search_loop.simps[of f i j] True Let_def)
    qed
  qed
qed

lemma sort_Search_spec:
  assumes "\<And>a b. a \<le> b \<Longrightarrow> b < n \<Longrightarrow> f a \<Longrightarrow> f b"
  shows "sort_Search n f \<le> n \<and> (\<forall>k < sort_Search n f. \<not> f k) \<and>
         (\<forall>k. sort_Search n f \<le> k \<and> k < n \<longrightarrow> f k)"
  unfolding sort_Search_def by (rule search_loop_spec) (use assms in auto)

section \<open>The book\<close>

record 'd PriceLevel =
  pl_Price :: 'd
  pl_Quantity :: 'd
  pl_Count :: nat

record 'd priceQueue =
  pq_price :: 'd
  pq_queue :: OrderQueue

record 'd Orderbook =
  ob_outcomeID :: string
  ob_bids :: "'d priceQueue list"
  ob_asks :: "'d priceQueue list"
  ob_orderSide :: "string \<rightharpoonup> OrderSide"
  ob_orderMap :: "string \<rightharpoonup> ref"

definition NewOrderbook :: "string \<Rightarrow> 'd Orderbook" where
  "NewOrderbook outcomeID =
     \<lparr>ob_outcomeID = outcomeID, ob_bids = [], ob_asks = [],
      ob_orderSide = Map.empty, ob_orderMap = Map.empty\<rparr>"

definition addToBids :: "(ref \<Rightarrow> 'd::linordered_field Order) \<Rightarrow> ref \<Rightarrow> 'd Orderbook \<Rightarrow> 'd Orderbook" where
  "addToBids h r ob =
     (let bids = ob_bids ob;
          idx = sort_Search (length bids) (\<lambda>i. pq_price (bids ! i) < o_Price (h r))
      in if idx > 0 \<and> pq_price (bids ! (idx - 1)) = o_Price (h r)
         then ob\<lparr>ob_bids := bids[idx - 1 := (bids ! (idx - 1))
                 \<lparr>pq_queue := OrderQueue_Enqueue h r (pq_queue (bids ! (idx - 1)))\<rparr>]\<rparr>
         else let pq = \<lparr>pq_price = o_Price (h r), pq_queue = OrderQueue_Enqueue h r NewOrderQueue\<rparr>
              in ob\<lparr>ob_bids := take idx bids @ pq # drop idx bids\<rparr>)"

definition addToAsks :: "(ref \<Rightarrow> 'd::linordered_field Order) \<Rightarrow> ref \<Rightarrow> 'd Orderbook \<Rightarrow> 'd Orderbook" where
  "addToAsks h r ob =
     (let asks = ob_asks ob;
          idx = sort_Search (length asks) (\<lambda>i. pq_price (asks ! i) > o_Price (h r))
      in if idx > 0 \<and> pq_price (asks ! (idx - 1)) = o_Price (h r)
         then ob\<lparr>ob_asks := asks[idx - 1 := (asks ! (idx - 1))
                 \<lparr>pq_queue := OrderQueue_Enqueue h r (pq_queue (asks ! (idx - 1)))\<rparr>]\<rparr>
         else let pq = \<lparr>pq_price = o_Price (h r), pq_queue = OrderQueue_Enqueue h r NewOrderQueue\<rparr>
              in ob\<lparr>ob_asks := take idx asks @ pq # drop idx asks\<rparr>)"

definition addOrderUnlocked ::
    "(ref \<Rightarrow> 'd::linordered_field Order) \<Rightarrow> ref \<Rightarrow> 'd Orderbook \<Rightarrow> 'd Orderbook" where
  "addOrderUnlocked h r ob =
     (let ob1 = ob\<lparr>ob_orderSide := (ob_orderSide ob)(o_ID (h r) \<mapsto> o_Side (h r)),
                   ob_orderMap := (ob_orderMap ob)(o_ID (h r) \<mapsto> r)\<rparr>
      in if o_Side (h r) = Buy then addToBids h r ob1 else addToAsks h r ob1)"

definition Orderbook_AddOrder ::
    "(ref \<Rightarrow> 'd::linordered_field Order) \<Rightarrow> ref \<Rightarrow> 'd Orderbook \<Rightarrow> 'd Orderbook" where
  "Orderbook_AddOrder h r ob = addOrderUnlocked h r ob"

text \<open>The loop of \<open>CancelOrder\<close> over the levels: the first queue that has the order.\<close>

fun cancel_levels :: "string \<Rightarrow> 'd priceQueue list \<Rightarrow> 'd priceQueue list option" where
  "cancel_levels orderID [] = None"
| "cancel_levels orderID (pq # pqs) =
     (case OrderQueue_Remove orderID (pq_queue pq) of
        (True, q) \<Rightarrow> Some (if OrderQueue_Len q = 0 then pqs else pq\<lparr>pq_queue := q\<rparr> # pqs)
      | (False, q) \<Rightarrow> map_option (\<lambda>l. pq # l) (cancel_levels orderID pqs))"

definition Orderbook_CancelOrder :: "string \<Rightarrow> 'd Orderbook \<Rightarrow> (ref option \<times> bool) \<times> 'd Orderbook" where
  "Orderbook_CancelOrder orderID ob =
     (case ob_orderSide ob orderID of
        None \<Rightarrow> ((None, False), ob)
      | Some side \<Rightarrow>
          let order = ob_orderMap ob orderID;
              levels = (if side = Buy then ob_bids ob else ob_asks ob);
              ob1 = ob\<lparr>ob_orderSide := (ob_orderSide ob)(orderID := None),
                       ob_orderMap := (ob_orderMap ob)(orderID := None)\<rparr>
          in case cancel_levels orderID levels of
               Some levels' \<Rightarrow>
                 ((order, True), if side = Buy then ob1\<lparr>ob_bids := levels'\<rparr> else ob1\<lparr>ob_asks := levels'\<rparr>)
             | None \<Rightarrow> ((None, False), ob1))"

definition BestBid :: "'d Orderbook \<Rightarrow> ref option" where
  "BestBid ob = (case ob_bids ob of [] \<Rightarrow> None | pq # _ \<Rightarrow> OrderQueue_Peek (pq_queue pq))"

definition BestAsk :: "'d Orderbook \<Rightarrow> ref option" where
  "BestAsk ob = (case ob_asks ob of [] \<Rightarrow> None | pq # _ \<Rightarrow> OrderQueue_Peek (pq_queue pq))"

definition GetBids :: "'d Orderbook \<Rightarrow> ref list" where
  "GetBids ob = concat (map (\<lambda>pq. OrderQueue_Orders (pq_queue pq)) (ob_bids ob))"

definition GetAsks :: "'d Orderbook \<Rightarrow> ref list" where
  "GetAsks ob = concat (map (\<lambda>pq. OrderQueue_Orders (pq_queue pq)) (ob_asks ob))"

definition aggregateLevels ::
    "(ref \<Rightarrow> 'd::linordered_field Order) \<Rightarrow> 'd priceQueue list \<Rightarrow> nat \<Rightarrow> 'd PriceLevel list" where
  "aggregateLevels h pqs maxLevels =
     map (\<lambda>pq. \<lparr>pl_Price = pq_price pq,
               pl_Quantity = foldl (\<lambda>totalQty r. totalQty + (o_Quantity (h r) - o_FilledQty (h r))) 0
                               (OrderQueue_Orders (pq_queue pq)),
               pl_Count = OrderQueue_Len (pq_queue pq)\<rparr>)
       (take maxLevels pqs)"

definition GetDepth ::
    "(ref \<Rightarrow> 'd::linordered_field Order) \<Rightarrow> nat \<Rightarrow> 'd Orderbook \<Rightarrow> 'd PriceLevel list \<times> 'd PriceLevel list" where
  "GetDepth h levels ob = (aggregateLevels h (ob_bids ob) levels, aggregateLevels h (ob_asks ob) levels)"

section \<open>One side of the book\<close>

text \<open>
  \<open>flat\<close> is the view of a side as the sequence of its orders, best price first and oldest
  first within a price: the order in which they are to be matched. \<open>worse p x\<close> says that a
  level at \<open>x\<close> belongs behind a level at \<open>p\<close>.
\<close>

definition flat :: "'d priceQueue list \<Rightarrow> ref list" where
  "flat pqs = concat (map (\<lambda>pq. OrderQueue_Orders (pq_queue pq)) pqs)"

definition level_inv :: "(ref \<Rightarrow> 'd Order) \<Rightarrow> 'd priceQueue \<Rightarrow> bool" where
  "level_inv h pq \<longleftrightarrow> q_inv h (pq_queue pq) \<and> OrderQueue_Orders (pq_queue pq) \<noteq> [] \<and>
     (\<forall>r \<in> set (OrderQueue_Orders (pq_queue pq)). o_Price (h r) = pq_price pq)"

definition levels_inv :: "('d \<Rightarrow> 'd \<Rightarrow> bool) \<Rightarrow> (ref \<Rightarrow> 'd Order) \<Rightarrow> 'd priceQueue list \<Rightarrow> bool" where
  "levels_inv worse h pqs \<longleftrightarrow>
     sorted_wrt (\<lambda>x y. worse (pq_price x) (pq_price y)) pqs \<and> (\<forall>pq \<in> set pqs. level_inv h pq)"

text \<open>Insertion as both sides do it.\<close>

definition insert_level ::
    "('d \<Rightarrow> 'd \<Rightarrow> bool) \<Rightarrow> (ref \<Rightarrow> 'd Order) \<Rightarrow> ref \<Rightarrow> 'd priceQueue list \<Rightarrow> 'd priceQueue list" where
  "insert_level worse h r pqs =
     (let idx = sort_Search (length pqs) (\<lambda>i. worse (o_Price (h r)) (pq_price (pqs ! i)))
      in if idx > 0 \<and> pq_price (pqs ! (idx - 1)) = o_Price (h r)
         then pqs[idx - 1 := (pqs ! (idx - 1))
                 \<lparr>pq_queue := OrderQueue_Enqueue h r (pq_queue (pqs ! (idx - 1)))\<rparr>]
         else take idx pqs @ \<lparr>pq_price = o_Price (h r), pq_queue = OrderQueue_Enqueue h r NewOrderQueue\<rparr>
                # drop idx pqs)"

lemma addToBids_eq: "addToBids h r ob = ob\<lparr>ob_bids := insert_level (\<lambda>p x. x < p) h r (ob_bids ob)\<rparr>"
  by (simp add: addToBids_def insert_level_def Let_def)

lemma addToAsks_eq: "addToAsks h r ob = ob\<lparr>ob_asks := insert_level (\<lambda>p x. p < x) h r (ob_asks ob)\<rparr>"
  by (simp add: addToAsks_def insert_level_def Let_def)

lemma flat_simps [simp]:
  "flat [] = []"
  "flat (pq # pqs) = OrderQueue_Orders (pq_queue pq) @ flat pqs"
  "flat (xs @ ys) = flat xs @ flat ys"
  by (simp_all add: flat_def)

lemma level_inv_cong:
  assumes "\<And>r. r \<in> set (OrderQueue_Orders (pq_queue pq)) \<Longrightarrow>
      o_ID (h' r) = o_ID (h r) \<and> o_Price (h' r) = o_Price (h r)"
  shows "level_inv h' pq = level_inv h pq"
proof -
  have "q_inv h' (pq_queue pq) = q_inv h (pq_queue pq)"
    by (rule q_inv_cong) (use assms in auto)
  then show ?thesis using assms by (auto simp: level_inv_def)
qed

lemma levels_inv_cong:
  assumes "\<And>r. r \<in> set (flat pqs) \<Longrightarrow> o_ID (h' r) = o_ID (h r) \<and> o_Price (h' r) = o_Price (h r)"
  shows "levels_inv w h' pqs = levels_inv w h pqs"
proof -
  have "level_inv h' pq = level_inv h pq" if "pq \<in> set pqs" for pq
  proof (rule level_inv_cong)
    fix r
    assume "r \<in> set (OrderQueue_Orders (pq_queue pq))"
    with that have "r \<in> set (flat pqs)" by (auto simp: flat_def)
    then show "o_ID (h' r) = o_ID (h r) \<and> o_Price (h' r) = o_Price (h r)" by (rule assms)
  qed
  then show ?thesis by (auto simp: levels_inv_def)
qed

text \<open>The price order of a side: strict, total. Bids and asks are its two instances.\<close>

locale price_priority =
  fixes worse :: "'d \<Rightarrow> 'd \<Rightarrow> bool"
  assumes worse_irrefl: "\<not> worse p p"
    and worse_trans: "worse p x \<Longrightarrow> worse x y \<Longrightarrow> worse p y"
    and worse_total: "p \<noteq> x \<Longrightarrow> worse p x \<or> worse x p"
begin

definition at_or_before :: "(ref \<Rightarrow> 'd Order) \<Rightarrow> 'd \<Rightarrow> ref \<Rightarrow> bool" where
  "at_or_before h p r \<longleftrightarrow> \<not> worse p (o_Price (h r))"

lemma search_index:
  assumes inv: "levels_inv worse h pqs"
    and idx: "idx = sort_Search (length pqs) (\<lambda>i. worse p (pq_price (pqs ! i)))"
  shows "idx \<le> length pqs" and "\<forall>pq \<in> set (take idx pqs). \<not> worse p (pq_price pq)"
    and "\<forall>pq \<in> set (drop idx pqs). worse p (pq_price pq)"
proof -
  have sorted: "sorted_wrt (\<lambda>x y. worse (pq_price x) (pq_price y)) pqs"
    using inv by (simp add: levels_inv_def)
  have "worse p (pq_price (pqs ! b))"
    if "a \<le> b" "b < length pqs" "worse p (pq_price (pqs ! a))" for a b
    using that sorted_wrt_nth_less[OF sorted, of a b] worse_trans by (cases "a = b") auto
  note sp = sort_Search_spec[of "length pqs" "\<lambda>i. worse p (pq_price (pqs ! i))", OF this, folded idx]
  have *: "idx \<le> length pqs" "\<forall>k < idx. \<not> worse p (pq_price (pqs ! k))"
    "\<forall>k. idx \<le> k \<and> k < length pqs \<longrightarrow> worse p (pq_price (pqs ! k))"
    using sp by simp_all
  show "idx \<le> length pqs" by (rule *(1))
  show "\<forall>pq \<in> set (take idx pqs). \<not> worse p (pq_price pq)"
    using *(1,2) by (auto simp: in_set_conv_nth)
  show "\<forall>pq \<in> set (drop idx pqs). worse p (pq_price pq)"
    using *(1,3) by (auto simp: in_set_conv_nth)
qed

lemma price_in_flat:
  assumes "\<forall>pq \<in> set pqs. level_inv h pq" and "r \<in> set (flat pqs)"
  obtains pq where "pq \<in> set pqs" and "o_Price (h r) = pq_price pq"
    and "r \<in> set (OrderQueue_Orders (pq_queue pq))"
  using assms by (force simp: flat_def level_inv_def)

text \<open>The two outcomes of an insertion, with what the search guarantees in each.\<close>

lemma insert_level_cases:
  assumes inv: "levels_inv worse h pqs"
  obtains
    (level) pre pq post where "pqs = pre @ pq # post" "pq_price pq = o_Price (h r)"
      "insert_level worse h r pqs
       = pre @ pq\<lparr>pq_queue := OrderQueue_Enqueue h r (pq_queue pq)\<rparr> # post"
      "\<forall>x \<in> set pre. \<not> worse (o_Price (h r)) (pq_price x)"
      "\<forall>x \<in> set post. worse (o_Price (h r)) (pq_price x)"
  | (fresh) pre post where "pqs = pre @ post"
      "insert_level worse h r pqs
       = pre @ \<lparr>pq_price = o_Price (h r), pq_queue = OrderQueue_Enqueue h r NewOrderQueue\<rparr> # post"
      "\<forall>x \<in> set pre. worse (pq_price x) (o_Price (h r))"
      "\<forall>x \<in> set post. worse (o_Price (h r)) (pq_price x)"
proof -
  let ?p = "o_Price (h r)"
  define idx where "idx = sort_Search (length pqs) (\<lambda>i. worse ?p (pq_price (pqs ! i)))"
  note ix = search_index[OF inv idx_def]
  have sorted: "sorted_wrt (\<lambda>x y. worse (pq_price x) (pq_price y)) pqs"
    using inv by (simp add: levels_inv_def)
  show ?thesis
  proof (cases "idx > 0 \<and> pq_price (pqs ! (idx - 1)) = ?p")
    case True
    then have lt: "idx - 1 < length pqs" and suc: "Suc (idx - 1) = idx" using ix(1) by auto
    have "pqs = take (idx - 1) pqs @ pqs ! (idx - 1) # drop idx pqs"
      using id_take_nth_drop[OF lt] suc by simp
    moreover have "insert_level worse h r pqs = take (idx - 1) pqs @
        (pqs ! (idx - 1))\<lparr>pq_queue := OrderQueue_Enqueue h r (pq_queue (pqs ! (idx - 1)))\<rparr> # drop idx pqs"
      using True upd_conv_take_nth_drop[OF lt] suc
      by (simp add: insert_level_def Let_def flip: idx_def)
    moreover have "\<forall>x \<in> set (take (idx - 1) pqs). \<not> worse ?p (pq_price x)"
      using ix(2) set_take_subset_set_take[of "idx - 1" idx pqs] by auto
    ultimately show ?thesis using level[of "take (idx - 1) pqs"] True ix(3) by blast
  next
    case False
    have "worse (pq_price x) ?p" if "x \<in> set (take idx pqs)" for x
    proof -
      from that obtain k where k: "k < idx" "k < length pqs" "x = pqs ! k"
        by (auto simp: in_set_conv_nth)
      let ?l = "pqs ! (idx - 1)"
      have "?l \<in> set (take idx pqs)"
        unfolding in_set_conv_nth using k ix(1) by (intro exI[of _ "idx - 1"]) auto
      with ix(2) False k have l: "worse (pq_price ?l) ?p"
        using worse_total[of ?p "pq_price ?l"] by auto
      show ?thesis
      proof (cases "k = idx - 1")
        case True
        with l k show ?thesis by simp
      next
        case neq: False
        with k have "worse (pq_price x) (pq_price ?l)"
          using sorted_wrt_nth_less[OF sorted, of k "idx - 1"] ix(1) by auto
        with l show ?thesis by (blast intro: worse_trans)
      qed
    qed
    moreover have "insert_level worse h r pqs = take idx pqs @
        \<lparr>pq_price = ?p, pq_queue = OrderQueue_Enqueue h r NewOrderQueue\<rparr> # drop idx pqs"
      using False by (auto simp: insert_level_def Let_def simp flip: idx_def)
    ultimately show ?thesis using fresh[of "take idx pqs" "drop idx pqs"] ix(3) by auto
  qed
qed

lemma flat_insert_perm:
  assumes "levels_inv worse h pqs"
  shows "mset (flat (insert_level worse h r pqs)) = add_mset r (mset (flat pqs))"
  by (rule insert_level_cases[OF assms, of r]) auto

lemma set_flat_insert:
  assumes "levels_inv worse h pqs"
  shows "set (flat (insert_level worse h r pqs)) = insert r (set (flat pqs))"
  using arg_cong[OF flat_insert_perm[OF assms, of r], of set_mset] by simp

text \<open>
  Price-time priority of an insertion: the new order goes behind every order whose price is
  as good or better, and before every order whose price is worse.
\<close>

lemma flat_insert:
  assumes "levels_inv worse h pqs"
  shows "flat (insert_level worse h r pqs)
       = takeWhile (at_or_before h (o_Price (h r))) (flat pqs) @ r #
         dropWhile (at_or_before h (o_Price (h r))) (flat pqs)"
proof -
  let ?P = "at_or_before h (o_Price (h r))"
  have split: "takeWhile ?P (xs @ ys) = xs \<and> dropWhile ?P (xs @ ys) = ys"
    if "\<forall>x \<in> set xs. ?P x" "\<forall>y \<in> set ys. \<not> ?P y" for xs ys
    using that by (cases ys) (auto simp: takeWhile_append dropWhile_append)
  have levels: "\<forall>pq \<in> set pqs. level_inv h pq" using assms by (simp add: levels_inv_def)
  show ?thesis
  proof (rule insert_level_cases[OF assms, of r])
    fix pre pq post
    assume *: "pqs = pre @ pq # post" "pq_price pq = o_Price (h r)"
      "insert_level worse h r pqs = pre @ pq\<lparr>pq_queue := OrderQueue_Enqueue h r (pq_queue pq)\<rparr> # post"
      "\<forall>x \<in> set pre. \<not> worse (o_Price (h r)) (pq_price x)"
      "\<forall>x \<in> set post. worse (o_Price (h r)) (pq_price x)"
    note behind = *(5)
    have "\<forall>x \<in> set (flat (pre @ [pq])). ?P x"
    proof
      fix x
      assume x: "x \<in> set (flat (pre @ [pq]))"
      have "\<forall>l \<in> set (pre @ [pq]). level_inv h l" using levels *(1) by simp
      from price_in_flat[OF this x]
      obtain l where "l \<in> set (pre @ [pq])" "o_Price (h x) = pq_price l" by blast
      with *(2,4) show "?P x" unfolding at_or_before_def by (auto simp: worse_irrefl)
    qed
    moreover have "\<forall>x \<in> set (flat post). \<not> ?P x"
    proof
      fix x
      assume x: "x \<in> set (flat post)"
      have "\<forall>l \<in> set post. level_inv h l" using levels *(1) by simp
      from price_in_flat[OF this x] obtain l where "l \<in> set post" "o_Price (h x) = pq_price l" by blast
      with behind show "\<not> ?P x" by (simp add: at_or_before_def)
    qed
    ultimately show ?thesis using split[of "flat (pre @ [pq])" "flat post"] *(1,3) by auto
  next
    fix pre post
    assume *: "pqs = pre @ post"
      "insert_level worse h r pqs
       = pre @ \<lparr>pq_price = o_Price (h r), pq_queue = OrderQueue_Enqueue h r NewOrderQueue\<rparr> # post"
      "\<forall>x \<in> set pre. worse (pq_price x) (o_Price (h r))"
      "\<forall>x \<in> set post. worse (o_Price (h r)) (pq_price x)"
    note behind = *(4)
    have "\<forall>x \<in> set (flat pre). ?P x"
    proof
      fix x
      assume x: "x \<in> set (flat pre)"
      have "\<forall>l \<in> set pre. level_inv h l" using levels *(1) by simp
      from price_in_flat[OF this x] obtain l where "l \<in> set pre" "o_Price (h x) = pq_price l" by blast
      with *(3) have "worse (o_Price (h x)) (o_Price (h r))" by simp
      then show "?P x" unfolding at_or_before_def using worse_trans worse_irrefl by blast
    qed
    moreover have "\<forall>x \<in> set (flat post). \<not> ?P x"
    proof
      fix x
      assume x: "x \<in> set (flat post)"
      have "\<forall>l \<in> set post. level_inv h l" using levels *(1) by simp
      from price_in_flat[OF this x] obtain l where "l \<in> set post" "o_Price (h x) = pq_price l" by blast
      with behind show "\<not> ?P x" by (simp add: at_or_before_def)
    qed
    ultimately show ?thesis using split[of "flat pre" "flat post"] *(1,2) by auto
  qed
qed

lemma levels_inv_insert:
  assumes inv: "levels_inv worse h pqs" and new: "o_ID (h r) \<notin> (\<lambda>r. o_ID (h r)) ` set (flat pqs)"
  shows "levels_inv worse h (insert_level worse h r pqs)"
proof (rule insert_level_cases[OF inv, of r])
  fix pre pq post
  assume *: "pqs = pre @ pq # post" "pq_price pq = o_Price (h r)"
    "insert_level worse h r pqs = pre @ pq\<lparr>pq_queue := OrderQueue_Enqueue h r (pq_queue pq)\<rparr> # post"
  have "level_inv h pq" using inv *(1) by (simp add: levels_inv_def)
  moreover have "o_ID (h r) \<notin> set (q_ids h (pq_queue pq))"
    using new *(1) by (auto simp: q_ids_Orders)
  ultimately have "level_inv h (pq\<lparr>pq_queue := OrderQueue_Enqueue h r (pq_queue pq)\<rparr>)"
    using *(2) by (auto simp: level_inv_def q_inv_Enqueue)
  then show ?thesis
    using inv *(1,3) by (auto simp: levels_inv_def sorted_wrt_append)
next
  fix pre post
  assume *: "pqs = pre @ post"
    "insert_level worse h r pqs
     = pre @ \<lparr>pq_price = o_Price (h r), pq_queue = OrderQueue_Enqueue h r NewOrderQueue\<rparr> # post"
    "\<forall>x \<in> set pre. worse (pq_price x) (o_Price (h r))"
    "\<forall>x \<in> set post. worse (o_Price (h r)) (pq_price x)"
  have "level_inv h \<lparr>pq_price = o_Price (h r), pq_queue = OrderQueue_Enqueue h r NewOrderQueue\<rparr>"
    by (simp add: level_inv_def q_inv_Enqueue q_ids_Orders)
  then show ?thesis
    using inv * by (auto simp: levels_inv_def sorted_wrt_append)
qed

text \<open>Every order of the sequence is at least as good as the ones behind it.\<close>

lemma flat_sorted:
  assumes "levels_inv worse h pqs"
  shows "sorted_wrt (\<lambda>x y. \<not> worse (o_Price (h y)) (o_Price (h x))) (flat pqs)"
  using assms
proof (induction pqs)
  case Nil
  then show ?case by simp
next
  case (Cons pq pqs)
  then have tail: "levels_inv worse h pqs" and lv: "level_inv h pq"
    and w: "\<forall>x \<in> set pqs. worse (pq_price pq) (pq_price x)" and lvs: "\<forall>x \<in> set pqs. level_inv h x"
    by (auto simp: levels_inv_def)
  have same: "sorted_wrt (\<lambda>x y. \<not> worse (o_Price (h y)) (o_Price (h x))) xs"
    if "\<forall>r \<in> set xs. o_Price (h r) = pq_price pq" for xs
    using that worse_irrefl by (induction xs) auto
  have "\<not> worse (o_Price (h y)) (o_Price (h x))"
    if x: "x \<in> set (OrderQueue_Orders (pq_queue pq))" and y: "y \<in> set (flat pqs)" for x y
  proof -
    obtain l where "l \<in> set pqs" "o_Price (h y) = pq_price l"
      using price_in_flat[OF lvs y] by blast
    with w lv x show ?thesis using worse_trans worse_irrefl by (metis level_inv_def)
  qed
  with Cons.IH[OF tail] same lv show ?case
    by (auto simp: sorted_wrt_append level_inv_def)
qed

end

interpretation bid_side: price_priority "\<lambda>p x. x < (p :: 'd::linordered_field)"
  by unfold_locales auto

interpretation ask_side: price_priority "\<lambda>p x. p < (x :: 'd::linordered_field)"
  by unfold_locales auto

section \<open>The whole book\<close>

text \<open>
  Both sides are in price order without empty levels, each order stands at the level of its
  price on the side it is for, the ids are distinct over the book, and the two indexes hold
  exactly the orders of the book.
\<close>

definition book_refs :: "'d Orderbook \<Rightarrow> ref list" where
  "book_refs ob = flat (ob_bids ob) @ flat (ob_asks ob)"

definition book_inv :: "(ref \<Rightarrow> 'd::linordered_field Order) \<Rightarrow> 'd Orderbook \<Rightarrow> bool" where
  "book_inv h ob \<longleftrightarrow>
     levels_inv (\<lambda>p x. x < p) h (ob_bids ob) \<and> levels_inv (\<lambda>p x. p < x) h (ob_asks ob) \<and>
     (\<forall>r \<in> set (flat (ob_bids ob)). o_Side (h r) = Buy) \<and>
     (\<forall>r \<in> set (flat (ob_asks ob)). o_Side (h r) = Sell) \<and>
     distinct (map (\<lambda>r. o_ID (h r)) (book_refs ob)) \<and>
     (\<forall>i r. ob_orderMap ob i = Some r \<longleftrightarrow> r \<in> set (book_refs ob) \<and> o_ID (h r) = i) \<and>
     (\<forall>i. ob_orderSide ob i = map_option (\<lambda>r. o_Side (h r)) (ob_orderMap ob i))"

lemma book_inv_New [simp]: "book_inv h (NewOrderbook i)"
  by (simp add: book_inv_def NewOrderbook_def book_refs_def levels_inv_def)

lemma book_inv_cong:
  assumes "\<And>r. r \<in> set (book_refs ob) \<Longrightarrow>
    o_ID (h' r) = o_ID (h r) \<and> o_Price (h' r) = o_Price (h r) \<and> o_Side (h' r) = o_Side (h r)"
  shows "book_inv h' ob = book_inv h ob"
proof -
  have b: "\<And>r. r \<in> set (flat (ob_bids ob)) \<Longrightarrow>
      o_ID (h' r) = o_ID (h r) \<and> o_Price (h' r) = o_Price (h r) \<and> o_Side (h' r) = o_Side (h r)"
    and a: "\<And>r. r \<in> set (flat (ob_asks ob)) \<Longrightarrow>
      o_ID (h' r) = o_ID (h r) \<and> o_Price (h' r) = o_Price (h r) \<and> o_Side (h' r) = o_Side (h r)"
    using assms by (auto simp: book_refs_def)
  have ids: "map (\<lambda>r. o_ID (h' r)) (book_refs ob) = map (\<lambda>r. o_ID (h r)) (book_refs ob)"
    using assms by auto
  have om: "(r \<in> set (book_refs ob) \<and> o_ID (h' r) = i) = (r \<in> set (book_refs ob) \<and> o_ID (h r) = i)" for r i
    using assms by auto
  have side: "map_option (\<lambda>r. o_Side (h' r)) (ob_orderMap ob i) = map_option (\<lambda>r. o_Side (h r)) (ob_orderMap ob i)"
    if "\<forall>i r. ob_orderMap ob i = Some r \<longleftrightarrow> r \<in> set (book_refs ob) \<and> o_ID (h r) = i" for i
  proof (cases "ob_orderMap ob i")
    case (Some a)
    with that have "a \<in> set (book_refs ob)" by blast
    with assms Some show ?thesis by simp
  qed simp
  have l: "levels_inv w h' (ob_bids ob) = levels_inv w h (ob_bids ob)"
    "levels_inv w h' (ob_asks ob) = levels_inv w h (ob_asks ob)" for w
    using a b by (auto intro!: levels_inv_cong)
  show ?thesis
    unfolding book_inv_def l ids om using a b side by (simp cong: conj_cong)
qed

lemma book_invD:
  assumes "book_inv h ob"
  shows "levels_inv (\<lambda>p x. x < p) h (ob_bids ob)" "levels_inv (\<lambda>p x. p < x) h (ob_asks ob)"
    and "r \<in> set (flat (ob_bids ob)) \<Longrightarrow> o_Side (h r) = Buy"
    and "r \<in> set (flat (ob_asks ob)) \<Longrightarrow> o_Side (h r) = Sell"
    and "distinct (map (\<lambda>r. o_ID (h r)) (book_refs ob))"
    and "ob_orderMap ob i = Some r \<longleftrightarrow> r \<in> set (book_refs ob) \<and> o_ID (h r) = i"
    and "ob_orderSide ob i = map_option (\<lambda>r. o_Side (h r)) (ob_orderMap ob i)"
  using assms unfolding book_inv_def by blast+

lemma book_inv_index:
  assumes "book_inv h ob"
  shows "ob_orderMap ob i = None \<longleftrightarrow> i \<notin> (\<lambda>r. o_ID (h r)) ` set (book_refs ob)"
proof (cases "ob_orderMap ob i")
  case None
  with book_invD(6)[OF assms, of i] show ?thesis by auto
next
  case (Some r)
  with book_invD(6)[OF assms, of i r] show ?thesis by auto
qed

lemma book_refs_bids: "mset (book_refs (ob\<lparr>ob_bids := b\<rparr>)) = mset (flat b) + mset (flat (ob_asks ob))"
  by (simp add: book_refs_def)

lemma distinct_map_mset: "mset xs = mset ys \<Longrightarrow> distinct (map f xs) = distinct (map f ys)"
  by (metis mset_eq_imp_distinct_iff mset_map)

lemma addOrderUnlocked_sel [simp]:
  "ob_bids (addOrderUnlocked h r ob) =
     (if o_Side (h r) = Buy then insert_level (\<lambda>p x. x < p) h r (ob_bids ob) else ob_bids ob)"
  "ob_asks (addOrderUnlocked h r ob) =
     (if o_Side (h r) = Buy then ob_asks ob else insert_level (\<lambda>p x. p < x) h r (ob_asks ob))"
  "ob_orderMap (addOrderUnlocked h r ob) = (ob_orderMap ob)(o_ID (h r) \<mapsto> r)"
  "ob_orderSide (addOrderUnlocked h r ob) = (ob_orderSide ob)(o_ID (h r) \<mapsto> o_Side (h r))"
  "ob_outcomeID (addOrderUnlocked h r ob) = ob_outcomeID ob"
  by (simp_all add: addOrderUnlocked_def addToBids_eq addToAsks_eq Let_def)

text \<open>Adding an order: it is in the book, in its place, and nothing else moves.\<close>

lemma book_refs_add:
  assumes "book_inv h ob"
  shows "mset (book_refs (addOrderUnlocked h r ob)) = add_mset r (mset (book_refs ob))"
  using bid_side.flat_insert_perm[OF book_invD(1)[OF assms], of r]
    ask_side.flat_insert_perm[OF book_invD(2)[OF assms], of r]
  by (simp add: book_refs_def)

lemma set_book_refs_add:
  assumes "book_inv h ob"
  shows "set (book_refs (addOrderUnlocked h r ob)) = insert r (set (book_refs ob))"
  using arg_cong[OF book_refs_add[OF assms, of r], of set_mset] by simp

lemma book_inv_add:
  assumes inv: "book_inv h ob" and new: "o_ID (h r) \<notin> (\<lambda>r. o_ID (h r)) ` set (book_refs ob)"
  shows "book_inv h (addOrderUnlocked h r ob)"
proof -
  let ?ob = "addOrderUnlocked h r ob"
  note set_eq = set_book_refs_add[OF inv, of r]
  have dist: "distinct (map (\<lambda>r. o_ID (h r)) (book_refs ?ob))"
  proof -
    have "mset (book_refs ?ob) = mset (r # book_refs ob)"
      using book_refs_add[OF inv] by simp
    from distinct_map_mset[OF this] show ?thesis using book_invD(5)[OF inv] new by auto
  qed
  have lv: "levels_inv (\<lambda>p x. x < p) h (ob_bids ?ob)" "levels_inv (\<lambda>p x. p < x) h (ob_asks ?ob)"
    using bid_side.levels_inv_insert[OF book_invD(1)[OF inv], of r]
      ask_side.levels_inv_insert[OF book_invD(2)[OF inv], of r] new book_invD(1,2)[OF inv]
    by (auto simp: book_refs_def)
  have sides: "\<forall>r \<in> set (flat (ob_bids ?ob)). o_Side (h r) = Buy"
    "\<forall>r \<in> set (flat (ob_asks ?ob)). o_Side (h r) = Sell"
    using bid_side.set_flat_insert[OF book_invD(1)[OF inv], of r]
      ask_side.set_flat_insert[OF book_invD(2)[OF inv], of r] book_invD(3,4)[OF inv]
    by (auto intro: OrderSide.exhaust)
  have om: "ob_orderMap ?ob = (ob_orderMap ob)(o_ID (h r) \<mapsto> r)"
    and os: "ob_orderSide ?ob = (ob_orderSide ob)(o_ID (h r) \<mapsto> o_Side (h r))"
    by auto
  have "ob_orderMap ?ob i = Some x \<longleftrightarrow> x \<in> set (book_refs ?ob) \<and> o_ID (h x) = i" for i x
  proof (cases "i = o_ID (h r)")
    case True
    have "x \<notin> set (book_refs ob)" if "o_ID (h x) = i" using new True that by (metis image_eqI)
    with True show ?thesis unfolding om set_eq by auto
  next
    case False
    with book_invD(6)[OF inv, of i x] show ?thesis unfolding om set_eq by auto
  qed
  moreover have "ob_orderSide ?ob i = map_option (\<lambda>r. o_Side (h r)) (ob_orderMap ?ob i)" for i
    using book_invD(7)[OF inv, of i] unfolding om os by auto
  ultimately show ?thesis unfolding book_inv_def using lv sides dist by blast
qed

text \<open>Removing an order from its level: the others keep their places.\<close>

lemma cancel_levels_spec:
  assumes "\<forall>pq \<in> set pqs. level_inv h pq" and "distinct (map (\<lambda>r. o_ID (h r)) (flat pqs))"
  shows "case cancel_levels i pqs of
      None \<Rightarrow> i \<notin> (\<lambda>r. o_ID (h r)) ` set (flat pqs)
    | Some pqs' \<Rightarrow> i \<in> (\<lambda>r. o_ID (h r)) ` set (flat pqs) \<and>
        flat pqs' = filter (\<lambda>r. o_ID (h r) \<noteq> i) (flat pqs) \<and>
        (\<forall>pq \<in> set pqs'. level_inv h pq) \<and>
        (\<forall>P. sorted_wrt (\<lambda>x y. P (pq_price x) (pq_price y)) pqs \<longrightarrow>
             sorted_wrt (\<lambda>x y. P (pq_price x) (pq_price y)) pqs') \<and>
        pq_price ` set pqs' \<subseteq> pq_price ` set pqs"
  using assms
proof (induction pqs)
  case Nil
  then show ?case by simp
next
  case (Cons pq pqs)
  let ?q = "pq_queue pq"
  have qi: "q_inv h ?q" and lv: "level_inv h pq" using Cons.prems(1) by (auto simp: level_inv_def)
  have d: "distinct (map (\<lambda>r. o_ID (h r)) (flat pqs))" using Cons.prems(2) by simp
  obtain found q' where rm: "OrderQueue_Remove i ?q = (found, q')" by (cases "OrderQueue_Remove i ?q")
  have ords: "OrderQueue_Orders q' = filter (\<lambda>r. o_ID (h r) \<noteq> i) (OrderQueue_Orders ?q)"
    and q': "q_inv h q'" and fnd: "found \<longleftrightarrow> i \<in> (\<lambda>r. o_ID (h r)) ` set (OrderQueue_Orders ?q)"
    using oq.items_remove[OF qi, of i] oq.inv_remove[OF qi, of i] oq.remove_found[OF qi, of i] rm by auto
  show ?case
  proof (cases found)
    case True
    with fnd Cons.prems(2) have out: "i \<notin> (\<lambda>r. o_ID (h r)) ` set (flat pqs)" by auto
    have keep: "filter (\<lambda>r. o_ID (h r) \<noteq> i) (flat pqs) = flat pqs"
      using out by (metis (mono_tags, lifting) filter_True image_eqI)
    have "level_inv h (pq\<lparr>pq_queue := q'\<rparr>)" if "OrderQueue_Orders q' \<noteq> []"
      using that lv q' ords by (auto simp: level_inv_def)
    with True rm fnd ords keep Cons.prems(1) show ?thesis by (auto simp: Len_Orders)
  next
    case False
    with fnd have none: "i \<notin> (\<lambda>r. o_ID (h r)) ` set (OrderQueue_Orders ?q)" by simp
    have keep: "filter (\<lambda>r. o_ID (h r) \<noteq> i) (OrderQueue_Orders ?q) = OrderQueue_Orders ?q"
      using none by (metis (mono_tags, lifting) filter_True image_eqI)
    show ?thesis
    proof (cases "cancel_levels i pqs")
      case None
      with Cons.IH d Cons.prems(1) none rm False show ?thesis by auto
    next
      case (Some pqs')
      with Cons.IH d Cons.prems(1) have IH: "i \<in> (\<lambda>r. o_ID (h r)) ` set (flat pqs)"
        "flat pqs' = filter (\<lambda>r. o_ID (h r) \<noteq> i) (flat pqs)" "\<forall>pq \<in> set pqs'. level_inv h pq"
        "\<forall>P. sorted_wrt (\<lambda>x y. P (pq_price x) (pq_price y)) pqs \<longrightarrow>
             sorted_wrt (\<lambda>x y. P (pq_price x) (pq_price y)) pqs'"
        "pq_price ` set pqs' \<subseteq> pq_price ` set pqs"
        by auto
      have "\<forall>y \<in> set pqs'. P (pq_price pq) (pq_price y)"
        if "\<forall>y \<in> set pqs. P (pq_price pq) (pq_price y)" for P
        using that IH(5) by auto
      with IH Some rm False keep lv show ?thesis by auto
    qed
  qed
qed

lemma levels_inv_cancel:
  assumes "levels_inv w h pqs" and "distinct (map (\<lambda>r. o_ID (h r)) (flat pqs))"
    and "i \<in> (\<lambda>r. o_ID (h r)) ` set (flat pqs)"
  obtains pqs' where "cancel_levels i pqs = Some pqs'" "levels_inv w h pqs'"
    "flat pqs' = filter (\<lambda>r. o_ID (h r) \<noteq> i) (flat pqs)"
  using assms cancel_levels_spec[of pqs h i]
  by (cases "cancel_levels i pqs") (auto simp: levels_inv_def)

text \<open>A book without the order of one id keeps the invariant when its indexes forget the id.\<close>

lemma book_inv_without:
  assumes inv: "book_inv h ob"
    and lv: "levels_inv (\<lambda>p x. x < p) h (ob_bids ob')" "levels_inv (\<lambda>p x. p < x) h (ob_asks ob')"
    and fl: "flat (ob_bids ob') = filter (\<lambda>r. o_ID (h r) \<noteq> i) (flat (ob_bids ob))"
      "flat (ob_asks ob') = filter (\<lambda>r. o_ID (h r) \<noteq> i) (flat (ob_asks ob))"
    and ix: "ob_orderMap ob' = (ob_orderMap ob)(i := None)" "ob_orderSide ob' = (ob_orderSide ob)(i := None)"
  shows "book_inv h ob'"
proof -
  have refs: "book_refs ob' = filter (\<lambda>r. o_ID (h r) \<noteq> i) (book_refs ob)"
    using fl by (simp add: book_refs_def)
  have "ob_orderMap ob' j = Some x \<longleftrightarrow> x \<in> set (book_refs ob') \<and> o_ID (h x) = j" for j x
    using ix book_invD(6)[OF inv, of j x] unfolding refs by auto
  moreover have "ob_orderSide ob' j = map_option (\<lambda>r. o_Side (h r)) (ob_orderMap ob' j)" for j
    using ix book_invD(7)[OF inv, of j] by auto
  moreover have "distinct (map (\<lambda>r. o_ID (h r)) (book_refs ob'))"
    unfolding refs using book_invD(5)[OF inv] by (rule distinct_map_filter)
  ultimately show ?thesis
    unfolding book_inv_def using lv fl book_invD(3,4)[OF inv] by auto
qed

text \<open>
  Cancelling an order of the book: its pointer is returned, it alone leaves the book, and the
  indexes forget it. An id that is not in the book is not found and nothing changes.
\<close>

lemma Orderbook_CancelOrder_missing:
  assumes "book_inv h ob" and "i \<notin> (\<lambda>r. o_ID (h r)) ` set (book_refs ob)"
  shows "Orderbook_CancelOrder i ob = ((None, False), ob)"
proof -
  have "ob_orderSide ob i = None"
    using assms book_inv_index book_invD(7) by fastforce
  then show ?thesis by (simp add: Orderbook_CancelOrder_def)
qed

lemma Orderbook_CancelOrder_found:
  assumes inv: "book_inv h ob" and r: "r \<in> set (book_refs ob)"
  defines "i \<equiv> o_ID (h r)"
  shows "fst (Orderbook_CancelOrder i ob) = (Some r, True)" (is ?res)
    and "book_inv h (snd (Orderbook_CancelOrder i ob))" (is ?inv)
    and "flat (ob_bids (snd (Orderbook_CancelOrder i ob))) = filter (\<lambda>r. o_ID (h r) \<noteq> i) (flat (ob_bids ob))" (is ?bids)
    and "flat (ob_asks (snd (Orderbook_CancelOrder i ob))) = filter (\<lambda>r. o_ID (h r) \<noteq> i) (flat (ob_asks ob))" (is ?asks)
proof -
  let ?f = "\<lambda>r. o_ID (h r)"
  have om: "ob_orderMap ob i = Some r" using book_invD(6)[OF inv] r by (simp add: i_def)
  have os: "ob_orderSide ob i = Some (o_Side (h r))" using book_invD(7)[OF inv, of i] om by simp
  have d: "distinct (map ?f (flat (ob_bids ob)))" "distinct (map ?f (flat (ob_asks ob)))"
    "?f ` set (flat (ob_bids ob)) \<inter> ?f ` set (flat (ob_asks ob)) = {}"
    using book_invD(5)[OF inv] by (auto simp: book_refs_def)
  have keep: "filter (\<lambda>r. ?f r \<noteq> i) xs = xs" if "i \<notin> ?f ` set xs" for xs
    using that by (metis (mono_tags, lifting) filter_True image_eqI)
  have side: "r \<in> set (flat (if o_Side (h r) = Buy then ob_bids ob else ob_asks ob))"
    using r book_invD(3,4)[OF inv] by (auto simp: book_refs_def)
  let ?ob = "snd (Orderbook_CancelOrder i ob)"
  have *: "fst (Orderbook_CancelOrder i ob) = (Some r, True) \<and>
      flat (ob_bids ?ob) = filter (\<lambda>r. ?f r \<noteq> i) (flat (ob_bids ob)) \<and>
      flat (ob_asks ?ob) = filter (\<lambda>r. ?f r \<noteq> i) (flat (ob_asks ob)) \<and>
      levels_inv (\<lambda>p x. x < p) h (ob_bids ?ob) \<and> levels_inv (\<lambda>p x. p < x) h (ob_asks ?ob) \<and>
      ob_orderSide ?ob = (ob_orderSide ob)(i := None) \<and> ob_orderMap ?ob = (ob_orderMap ob)(i := None)"
  proof (cases "o_Side (h r)")
    case Buy
    with side have b: "i \<in> ?f ` set (flat (ob_bids ob))" by (simp add: i_def)
    with d(3) have "i \<notin> ?f ` set (flat (ob_asks ob))" by auto
    note k = keep[OF this]
    obtain pqs' where "cancel_levels i (ob_bids ob) = Some pqs'"
      "levels_inv (\<lambda>p x. x < p) h pqs'" "flat pqs' = filter (\<lambda>r. ?f r \<noteq> i) (flat (ob_bids ob))"
      using levels_inv_cancel[OF book_invD(1)[OF inv] d(1) b] by blast
    with om os Buy k book_invD(2)[OF inv] show ?thesis
      by (simp add: Orderbook_CancelOrder_def Let_def)
  next
    case Sell
    with side have b: "i \<in> ?f ` set (flat (ob_asks ob))" by (simp add: i_def)
    with d(3) have "i \<notin> ?f ` set (flat (ob_bids ob))" by auto
    note k = keep[OF this]
    obtain pqs' where "cancel_levels i (ob_asks ob) = Some pqs'"
      "levels_inv (\<lambda>p x. p < x) h pqs'" "flat pqs' = filter (\<lambda>r. ?f r \<noteq> i) (flat (ob_asks ob))"
      using levels_inv_cancel[OF book_invD(2)[OF inv] d(2) b] by blast
    with om os Sell k book_invD(1)[OF inv] show ?thesis
      by (simp add: Orderbook_CancelOrder_def Let_def)
  qed
  then show ?inv by (intro book_inv_without[OF inv]) auto
  show ?res ?bids ?asks using * by auto
qed

text \<open>Where an added order stands in the lists of the two sides.\<close>

lemma addOrderUnlocked_lists:
  fixes h :: "ref \<Rightarrow> 'd::linordered_field Order"
  assumes "book_inv h ob"
  shows "GetBids (addOrderUnlocked h r ob) =
      (if o_Side (h r) = Buy
       then takeWhile (\<lambda>x. o_Price (h r) \<le> o_Price (h x)) (GetBids ob) @ r #
            dropWhile (\<lambda>x. o_Price (h r) \<le> o_Price (h x)) (GetBids ob)
       else GetBids ob)"
    and "GetAsks (addOrderUnlocked h r ob) =
      (if o_Side (h r) = Buy then GetAsks ob
       else takeWhile (\<lambda>x. o_Price (h x) \<le> o_Price (h r)) (GetAsks ob) @ r #
            dropWhile (\<lambda>x. o_Price (h x) \<le> o_Price (h r)) (GetAsks ob))"
proof -
  have le: "bid_side.at_or_before h p = (\<lambda>x. p \<le> o_Price (h x))"
    "ask_side.at_or_before h p = (\<lambda>x. o_Price (h x) \<le> p)" for p
    by (auto simp: bid_side.at_or_before_def ask_side.at_or_before_def not_less)
  note F = bid_side.flat_insert[OF book_invD(1)[OF assms], of r] ask_side.flat_insert[OF book_invD(2)[OF assms], of r]
  from F show "GetBids (addOrderUnlocked h r ob) =
      (if o_Side (h r) = Buy
       then takeWhile (\<lambda>x. o_Price (h r) \<le> o_Price (h x)) (GetBids ob) @ r #
            dropWhile (\<lambda>x. o_Price (h r) \<le> o_Price (h x)) (GetBids ob)
       else GetBids ob)"
    by (simp add: GetBids_def flat_def le)
  from F show "GetAsks (addOrderUnlocked h r ob) =
      (if o_Side (h r) = Buy then GetAsks ob
       else takeWhile (\<lambda>x. o_Price (h x) \<le> o_Price (h r)) (GetAsks ob) @ r #
            dropWhile (\<lambda>x. o_Price (h x) \<le> o_Price (h r)) (GetAsks ob))"
    by (simp add: GetAsks_def flat_def le)
qed

lemma book_refs_lists: "book_refs ob = GetBids ob @ GetAsks ob"
  by (simp add: book_refs_def flat_def GetBids_def GetAsks_def)

section \<open>Properties\<close>

text \<open>
  C9: adding an order to the book keeps the invariant (price order, no empty level, each
  order on its side and at its price, indexes exact) and gives it price-time priority: on its
  side it stands behind every order whose price is as good or better and before every order
  whose price is worse, the other side does not change, and no order is lost.
\<close>

theorem AddOrder_price_time:
  fixes h :: "ref \<Rightarrow> 'd::linordered_field Order"
  assumes "book_inv h ob" and "o_ID (h r) \<notin> (\<lambda>r. o_ID (h r)) ` set (GetBids ob @ GetAsks ob)"
  defines "ob' \<equiv> Orderbook_AddOrder h r ob"
  shows "book_inv h ob' \<and>
    (if o_Side (h r) = Buy then
       GetAsks ob' = GetAsks ob \<and>
       GetBids ob' = takeWhile (\<lambda>x. o_Price (h r) \<le> o_Price (h x)) (GetBids ob) @ r #
                     dropWhile (\<lambda>x. o_Price (h r) \<le> o_Price (h x)) (GetBids ob)
     else
       GetBids ob' = GetBids ob \<and>
       GetAsks ob' = takeWhile (\<lambda>x. o_Price (h x) \<le> o_Price (h r)) (GetAsks ob) @ r #
                     dropWhile (\<lambda>x. o_Price (h x) \<le> o_Price (h r)) (GetAsks ob))"
proof -
  have "book_inv h ob'"
    unfolding ob'_def Orderbook_AddOrder_def using assms(1,2) by (intro book_inv_add) (simp_all add: book_refs_lists)
  with addOrderUnlocked_lists[OF assms(1), of r] show ?thesis
    by (simp add: ob'_def Orderbook_AddOrder_def)
qed

text \<open>Three bids, the newest between the other two.\<close>

definition ex_bids :: "ref \<Rightarrow> rat Order" where
  "ex_bids r =
     \<lparr>o_ID = if r = 0 then ''a'' else if r = 1 then ''b'' else ''c'', o_UserID = ''u'', o_MarketID = ''m'',
      o_OutcomeID = ''yes'', o_Side = Buy, o_Price = if r = 1 then 1 / 4 else 1 / 2, o_Quantity = 1, o_FilledQty = 0,
      o_Status = Open, o_CreatedAt = 0, o_UpdatedAt = 0\<rparr>"

theorem AddOrder_price_time_witness:
  "GetBids (Orderbook_AddOrder ex_bids 2 (Orderbook_AddOrder ex_bids 1 (Orderbook_AddOrder ex_bids 0 (NewOrderbook ''yes''))))
   = [0, 2, 1]"
proof -
  let ?ob0 = "Orderbook_AddOrder ex_bids 0 (NewOrderbook ''yes'')"
  let ?ob1 = "Orderbook_AddOrder ex_bids 1 ?ob0"
  have new: "GetBids (NewOrderbook ''yes'' :: rat Orderbook) = []" "GetAsks (NewOrderbook ''yes'' :: rat Orderbook) = []"
    by (simp_all add: NewOrderbook_def GetBids_def GetAsks_def)
  have 0: "book_inv ex_bids ?ob0" "GetBids ?ob0 = [0]" "GetAsks ?ob0 = []"
    using AddOrder_price_time[of ex_bids "NewOrderbook ''yes''" 0] new by (simp_all add: ex_bids_def)
  have 1: "book_inv ex_bids ?ob1" "GetBids ?ob1 = [0, 1]" "GetAsks ?ob1 = []"
    using AddOrder_price_time[of ex_bids ?ob0 1] 0 by (simp_all add: ex_bids_def)
  show ?thesis using AddOrder_price_time[of ex_bids ?ob1 2] 1 by (simp add: ex_bids_def)
qed

end
