(* ===== verification/AppErrors.thy ===== *)
theory AppErrors
  imports Prelude
begin

text \<open>
  The error values of \<open>pkg/errors\<close> and the chains Go builds over them. An application
  error has a code, a message and perhaps a cause; any other error is a text with perhaps a
  wrapped cause (\<open>fmt.Errorf\<close> with \<open>%w\<close>), the sentinel error of the database driver for a
  missing row, or any other failure of the driver. A run-time panic ends a call like an error
  no one handles.
\<close>

datatype err =
    AppError string string "err option"
  | Errorf string "err option"
  | ErrNoRows
  | DriverError
  | Panic string

definition app_new :: "string \<Rightarrow> string \<Rightarrow> err" where
  "app_new code message = AppError code message None"

definition app_wrap :: "err \<Rightarrow> string \<Rightarrow> string \<Rightarrow> err" where
  "app_wrap e code message = AppError code message (Some e)"

definition ErrNotFound :: err where
  "ErrNotFound = app_new ''NOT_FOUND'' ''resource not found''"

definition ErrUnauthorized :: err where
  "ErrUnauthorized = app_new ''UNAUTHORIZED'' ''authentication required''"

definition ErrForbidden :: err where
  "ErrForbidden = app_new ''FORBIDDEN'' ''insufficient permissions''"

definition ErrBadRequest :: err where
  "ErrBadRequest = app_new ''BAD_REQUEST'' ''invalid request''"

definition ErrConflict :: err where
  "ErrConflict = app_new ''CONFLICT'' ''resource conflict''"

definition ErrInternalError :: err where
  "ErrInternalError = app_new ''INTERNAL_ERROR'' ''internal server error''"

definition ErrInsufficientBalance :: err where
  "ErrInsufficientBalance = app_new ''INSUFFICIENT_BALANCE'' ''insufficient balance''"

definition ErrMarketClosed :: err where
  "ErrMarketClosed = app_new ''MARKET_CLOSED'' ''market is not open for trading''"

definition ErrInvalidPrice :: err where
  "ErrInvalidPrice = app_new ''INVALID_PRICE'' ''price must be between 0.01 and 0.99''"

text \<open>
  The text of an error. Those of the database driver are its own, an argument; a wrapped cause
  follows its text after a colon.
\<close>

fun AppError_Error :: "(err \<Rightarrow> string) \<Rightarrow> err \<Rightarrow> string" where
  "AppError_Error drv (AppError c m None) = c @ '': '' @ m"
| "AppError_Error drv (AppError c m (Some e)) = c @ '': '' @ m @ '': '' @ AppError_Error drv e"
| "AppError_Error drv (Errorf m None) = m"
| "AppError_Error drv (Errorf m (Some e)) = m @ '': '' @ AppError_Error drv e"
| "AppError_Error drv e = drv e"

text \<open>\<open>errors.As\<close> with an \<open>*AppError\<close> target: the first application error of the chain.\<close>

fun as_app_error :: "err \<Rightarrow> (string \<times> string) option" where
  "as_app_error (AppError c m _) = Some (c, m)"
| "as_app_error (Errorf _ (Some e)) = as_app_error e"
| "as_app_error (Errorf _ None) = None"
| "as_app_error ErrNoRows = None"
| "as_app_error DriverError = None"
| "as_app_error (Panic _) = None"

text \<open>The method \<open>Is\<close> of an application error, and \<open>errors.Is\<close> along the chain.\<close>

definition app_is :: "string \<Rightarrow> err \<Rightarrow> bool" where
  "app_is code target =
     (case as_app_error target of Some (c, _) \<Rightarrow> code = c | None \<Rightarrow> False)"

fun errors_is :: "err \<Rightarrow> err \<Rightarrow> bool" where
  "errors_is (AppError c m None) t = (AppError c m None = t \<or> app_is c t)"
| "errors_is (AppError c m (Some e)) t =
     (AppError c m (Some e) = t \<or> app_is c t \<or> errors_is e t)"
| "errors_is (Errorf m (Some e)) t = (Errorf m (Some e) = t \<or> errors_is e t)"
| "errors_is e t = (e = t)"

definition codeFromError :: "err \<Rightarrow> string" where
  "codeFromError e = (case as_app_error e of Some (c, _) \<Rightarrow> c | None \<Rightarrow> '''')"

definition error_code :: "err \<Rightarrow> string" where
  "error_code e = (case e of AppError c _ _ \<Rightarrow> c | _ \<Rightarrow> '''')"

definition IsNotFound :: "err \<Rightarrow> bool" where
  "IsNotFound e \<longleftrightarrow> codeFromError e = error_code ErrNotFound"

definition IsUnauthorized :: "err \<Rightarrow> bool" where
  "IsUnauthorized e \<longleftrightarrow> codeFromError e = error_code ErrUnauthorized"

definition IsForbidden :: "err \<Rightarrow> bool" where
  "IsForbidden e \<longleftrightarrow> codeFromError e = error_code ErrForbidden"

definition IsBadRequest :: "err \<Rightarrow> bool" where
  "IsBadRequest e \<longleftrightarrow> codeFromError e = error_code ErrBadRequest"

definition IsConflict :: "err \<Rightarrow> bool" where
  "IsConflict e \<longleftrightarrow> codeFromError e = error_code ErrConflict"

definition IsInternalError :: "err \<Rightarrow> bool" where
  "IsInternalError e \<longleftrightarrow> codeFromError e = error_code ErrInternalError"

definition IsInsufficientBalance :: "err \<Rightarrow> bool" where
  "IsInsufficientBalance e \<longleftrightarrow> codeFromError e = error_code ErrInsufficientBalance"

definition IsMarketClosed :: "err \<Rightarrow> bool" where
  "IsMarketClosed e \<longleftrightarrow> codeFromError e = error_code ErrMarketClosed"

definition IsInvalidPrice :: "err \<Rightarrow> bool" where
  "IsInvalidPrice e \<longleftrightarrow> codeFromError e = error_code ErrInvalidPrice"

lemmas sentinel_defs =
  ErrNotFound_def ErrUnauthorized_def ErrForbidden_def ErrBadRequest_def ErrConflict_def
  ErrInternalError_def ErrInsufficientBalance_def ErrMarketClosed_def ErrInvalidPrice_def
  app_new_def

text \<open>Wrapping with text leaves the classification of an error unchanged.\<close>

lemma codeFromError_wrapped [simp]: "codeFromError (Errorf m (Some e)) = codeFromError e"
  by (simp add: codeFromError_def)

lemma codeFromError_app [simp]: "codeFromError (AppError c m w) = c"
  by (simp add: codeFromError_def)

text \<open>
  The outermost code decides the classification, but \<open>errors.Is\<close> looks at every code of
  the chain.
\<close>

fun chain_codes :: "err \<Rightarrow> string set" where
  "chain_codes (AppError c _ None) = {c}"
| "chain_codes (AppError c _ (Some e)) = insert c (chain_codes e)"
| "chain_codes (Errorf _ (Some e)) = chain_codes e"
| "chain_codes _ = {}"

lemma as_app_error_chain: "as_app_error e = Some (c, m) \<Longrightarrow> c \<in> chain_codes e"
  by (induction e rule: chain_codes.induct) auto

lemma errors_is_sentinel:
  "errors_is e (app_new c m) \<longleftrightarrow> c \<in> chain_codes e"
  by (induction e "app_new c m" rule: errors_is.induct) (auto simp: app_is_def app_new_def)

end
