(* ===== verification/Engine.thy ===== *)
theory Engine
  imports Orderbook AppErrors
begin

text \<open>
  \<open>services/trading-svc/internal/matching/engine.go\<close>: the matching engine of one market.
  Matching walks the opposite side of the book best order first, trades at the resting
  order's price, passes over the taker's own orders and puts them back afterwards; what is
  left of the taker rests on the book.
\<close>

section \<open>Events and subscribers\<close>

datatype EventType = EventTrade | EventBookUpdate

text \<open>The book an event points to is named by its outcome.\<close>

record 'd Event =
  ev_Type :: EventType
  ev_MarketID :: string
  ev_OutcomeID :: string
  ev_Trade :: "'d Trade option"
  ev_Orderbook :: "string option"

record 'd channel =
  ch_cap :: nat
  ch_buf :: "'d Event list"

record 'd MatchResult =
  mr_Trades :: "'d Trade list"
  mr_Resting :: "ref option"

record 'd Engine =
  e_marketID :: string
  e_orderbooks :: "string \<rightharpoonup> 'd Orderbook"
  e_subscribers :: "'d channel list"

definition errInvalidPrice :: err where
  "errInvalidPrice = Errorf ''price must be between 0.01 and 0.99 inclusive'' None"

definition errInvalidQuantity :: err where
  "errInvalidQuantity = Errorf ''quantity must be greater than 0'' None"

definition errOrderNotFound :: err where
  "errOrderNotFound = Errorf ''order not found'' None"

definition minPrice :: "'d::linordered_field" where
  "minPrice = 1 / 100"

definition maxPrice :: "'d::linordered_field" where
  "maxPrice = 99 / 100"

definition NewEngine :: "string \<Rightarrow> 'd Engine" where
  "NewEngine marketID = \<lparr>e_marketID = marketID, e_orderbooks = Map.empty, e_subscribers = []\<rparr>"

definition Engine_Subscribe :: "'d channel \<Rightarrow> 'd Engine \<Rightarrow> 'd Engine" where
  "Engine_Subscribe ch e = e\<lparr>e_subscribers := e_subscribers e @ [ch]\<rparr>"

text \<open>A subscriber whose channel is full misses the event.\<close>

definition emit :: "'d Event \<Rightarrow> 'd Engine \<Rightarrow> 'd Engine" where
  "emit event e =
     e\<lparr>e_subscribers := map (\<lambda>ch. if length (ch_buf ch) < ch_cap ch
                                then ch\<lparr>ch_buf := ch_buf ch @ [event]\<rparr> else ch) (e_subscribers e)\<rparr>"

definition GetOrderbook :: "string \<Rightarrow> 'd Engine \<Rightarrow> 'd Orderbook option" where
  "GetOrderbook outcomeID e = e_orderbooks e outcomeID"

definition getOrCreateOrderbook :: "string \<Rightarrow> 'd Engine \<Rightarrow> 'd Orderbook \<times> 'd Engine" where
  "getOrCreateOrderbook outcomeID e =
     (case e_orderbooks e outcomeID of
        Some ob \<Rightarrow> (ob, e)
      | None \<Rightarrow> let ob = NewOrderbook outcomeID
                in (ob, e\<lparr>e_orderbooks := (e_orderbooks e)(outcomeID \<mapsto> ob)\<rparr>))"

section \<open>Matching\<close>

definition bestBidUnlocked :: "'d Orderbook \<Rightarrow> ref option" where
  "bestBidUnlocked ob = (case ob_bids ob of [] \<Rightarrow> None | pq # _ \<Rightarrow> OrderQueue_Peek (pq_queue pq))"

definition bestAskUnlocked :: "'d Orderbook \<Rightarrow> ref option" where
  "bestAskUnlocked ob = (case ob_asks ob of [] \<Rightarrow> None | pq # _ \<Rightarrow> OrderQueue_Peek (pq_queue pq))"

definition dequeueBestBidUnlocked :: "(ref \<Rightarrow> 'd Order) \<Rightarrow> 'd Orderbook \<Rightarrow> 'd Orderbook" where
  "dequeueBestBidUnlocked h ob =
     (case ob_bids ob of
        [] \<Rightarrow> ob
      | pq # rest \<Rightarrow>
          let (front, q) = OrderQueue_Dequeue h (pq_queue pq);
              ob1 = (case front of
                       None \<Rightarrow> ob
                     | Some r \<Rightarrow> ob\<lparr>ob_orderSide := (ob_orderSide ob)(o_ID (h r) := None),
                                   ob_orderMap := (ob_orderMap ob)(o_ID (h r) := None)\<rparr>)
          in if OrderQueue_Len q = 0 then ob1\<lparr>ob_bids := rest\<rparr>
             else ob1\<lparr>ob_bids := pq\<lparr>pq_queue := q\<rparr> # rest\<rparr>)"

definition dequeueBestAskUnlocked :: "(ref \<Rightarrow> 'd Order) \<Rightarrow> 'd Orderbook \<Rightarrow> 'd Orderbook" where
  "dequeueBestAskUnlocked h ob =
     (case ob_asks ob of
        [] \<Rightarrow> ob
      | pq # rest \<Rightarrow>
          let (front, q) = OrderQueue_Dequeue h (pq_queue pq);
              ob1 = (case front of
                       None \<Rightarrow> ob
                     | Some r \<Rightarrow> ob\<lparr>ob_orderSide := (ob_orderSide ob)(o_ID (h r) := None),
                                   ob_orderMap := (ob_orderMap ob)(o_ID (h r) := None)\<rparr>)
          in if OrderQueue_Len q = 0 then ob1\<lparr>ob_asks := rest\<rparr>
             else ob1\<lparr>ob_asks := pq\<lparr>pq_queue := q\<rparr> # rest\<rparr>)"

record 'd matching =
  ms_mem :: "'d mem"
  ms_book :: "'d Orderbook"
  ms_world :: world
  ms_trades :: "'d Trade list"
  ms_skipped :: "ref list"

text \<open>One iteration of the loop of \<open>matchOrder\<close>; \<open>None\<close> is its \<open>break\<close>.\<close>

definition match_step :: "ref \<Rightarrow> 'd::linordered_field matching \<Rightarrow> 'd matching option" where
  "match_step t s =
     (let h = cell (ms_mem s); ob = ms_book s; taker = h t;
          remainingQty = o_Quantity taker - o_FilledQty taker
      in if remainingQty \<le> 0 then None
         else case (if o_Side taker = Buy then bestAskUnlocked ob else bestBidUnlocked ob) of
           None \<Rightarrow> None
         | Some m \<Rightarrow>
             let maker = h m;
                 dequeue = (\<lambda>h ob. if o_Side taker = Buy then dequeueBestAskUnlocked h ob
                                    else dequeueBestBidUnlocked h ob)
             in if (if o_Side taker = Buy then o_Price taker < o_Price maker
                    else o_Price taker > o_Price maker) then None
                else if o_UserID taker = o_UserID maker then
                  Some (s\<lparr>ms_book := dequeue h ob, ms_skipped := ms_skipped s @ [m]\<rparr>)
                else
                  let makerRemainingQty = o_Quantity maker - o_FilledQty maker;
                      tradeQty = min remainingQty makerRemainingQty;
                      (tid, w1) = new_uuid (ms_world s);
                      (now1, w2) = time_now w1;
                      trade = \<lparr>t_ID = tid, t_MarketID = o_MarketID taker, t_OutcomeID = o_OutcomeID taker,
                               t_MakerOrderID = o_ID maker, t_TakerOrderID = o_ID taker,
                               t_MakerUserID = o_UserID maker, t_TakerUserID = o_UserID taker,
                               t_Price = o_Price maker, t_Quantity = tradeQty, t_CreatedAt = now1\<rparr>;
                      mem1 = upd t (\<lambda>x. x\<lparr>o_FilledQty := o_FilledQty x + tradeQty\<rparr>) (ms_mem s);
                      mem2 = upd m (\<lambda>x. x\<lparr>o_FilledQty := o_FilledQty x + tradeQty\<rparr>) mem1;
                      makerNewRemaining = o_Quantity (cell mem2 m) - o_FilledQty (cell mem2 m);
                      (now2, w3) = time_now w2
                  in if makerNewRemaining \<le> 0 then
                       let mem3 = upd m (\<lambda>x. x\<lparr>o_Status := Filled, o_UpdatedAt := now2\<rparr>) mem2
                       in Some (s\<lparr>ms_mem := mem3, ms_book := dequeue (cell mem3) ob,
                                 ms_world := w3, ms_trades := ms_trades s @ [trade]\<rparr>)
                     else
                       let mem3 = upd m (\<lambda>x. x\<lparr>o_Status := PartiallyFilled, o_UpdatedAt := now2\<rparr>) mem2
                       in Some (s\<lparr>ms_mem := mem3, ms_world := w3, ms_trades := ms_trades s @ [trade]\<rparr>))"

subsection \<open>The loop ends\<close>

text \<open>
  Every iteration takes an order off the opposite side or leaves nothing of the taker, so
  the loop ends whatever the book looks like.
\<close>

definition opp :: "OrderSide \<Rightarrow> 'd Orderbook \<Rightarrow> 'd priceQueue list" where
  "opp side ob = (if side = Buy then ob_asks ob else ob_bids ob)"

definition same :: "OrderSide \<Rightarrow> 'd Orderbook \<Rightarrow> 'd priceQueue list" where
  "same side ob = (if side = Buy then ob_bids ob else ob_asks ob)"

definition best_opp :: "OrderSide \<Rightarrow> 'd Orderbook \<Rightarrow> ref option" where
  "best_opp side ob = (if side = Buy then bestAskUnlocked ob else bestBidUnlocked ob)"

definition dequeue_opp :: "OrderSide \<Rightarrow> (ref \<Rightarrow> 'd Order) \<Rightarrow> 'd Orderbook \<Rightarrow> 'd Orderbook" where
  "dequeue_opp side h ob =
     (if side = Buy then dequeueBestAskUnlocked h ob else dequeueBestBidUnlocked h ob)"

definition crosses :: "'d::linordered_field Order \<Rightarrow> 'd Order \<Rightarrow> bool" where
  "crosses taker maker \<longleftrightarrow>
     (if o_Side taker = Buy then o_Price maker \<le> o_Price taker else o_Price taker \<le> o_Price maker)"

definition remaining :: "'d::linordered_field Order \<Rightarrow> 'd" where
  "remaining x = o_Quantity x - o_FilledQty x"

lemma best_opp_Some:
  assumes "best_opp side ob = Some m"
  shows "\<exists>rs. flat (opp side ob) = m # rs"
  using assms
  by (auto simp: best_opp_def opp_def bestAskUnlocked_def bestBidUnlocked_def Peek_hd
      split: list.splits if_splits)

lemma flat_dequeue_opp:
  assumes "best_opp side ob = Some m"
  shows "flat (opp side (dequeue_opp side h ob)) = tl (flat (opp side ob))"
proof -
  obtain pq rest where pq: "opp side ob = pq # rest" and p: "OrderQueue_Peek (pq_queue pq) = Some m"
    using assms by (auto simp: best_opp_def opp_def bestAskUnlocked_def bestBidUnlocked_def
        split: list.splits if_splits)
  obtain rs where rs: "OrderQueue_Orders (pq_queue pq) = m # rs"
    using p by (auto simp: Peek_hd split: list.splits)
  obtain q where q: "OrderQueue_Dequeue h (pq_queue pq) = (Some m, q)" "OrderQueue_Orders q = rs"
    using Dequeue_eq[of h "pq_queue pq"] Orders_Dequeue[of h "pq_queue pq"] p rs
    by (metis list.sel(3) prod.collapse snd_conv)
  show ?thesis
    using pq q rs by (auto simp: dequeue_opp_def opp_def dequeueBestAskUnlocked_def
        dequeueBestBidUnlocked_def Len_Orders Let_def split: if_splits)
qed

text \<open>The three ways an iteration goes on.\<close>

definition fill_maker :: "ref \<Rightarrow> ref \<Rightarrow> 'd::linordered_field matching \<Rightarrow> 'd mem" where
  "fill_maker t m s =
     (let h = cell (ms_mem s); q = min (remaining (h t)) (remaining (h m));
          mem2 = upd m (\<lambda>x. x\<lparr>o_FilledQty := o_FilledQty x + q\<rparr>)
                  (upd t (\<lambda>x. x\<lparr>o_FilledQty := o_FilledQty x + q\<rparr>) (ms_mem s));
          now = fst (time_now (snd (time_now (snd (new_uuid (ms_world s))))))
      in upd m (\<lambda>x. x\<lparr>o_Status := if remaining x \<le> 0 then Filled else PartiallyFilled,
                     o_UpdatedAt := now\<rparr>) mem2)"

definition trade_of :: "ref \<Rightarrow> ref \<Rightarrow> 'd::linordered_field matching \<Rightarrow> 'd Trade" where
  "trade_of t m s =
     (let h = cell (ms_mem s)
      in \<lparr>t_ID = fst (new_uuid (ms_world s)), t_MarketID = o_MarketID (h t), t_OutcomeID = o_OutcomeID (h t),
          t_MakerOrderID = o_ID (h m), t_TakerOrderID = o_ID (h t),
          t_MakerUserID = o_UserID (h m), t_TakerUserID = o_UserID (h t),
          t_Price = o_Price (h m), t_Quantity = min (remaining (h t)) (remaining (h m)),
          t_CreatedAt = fst (time_now (snd (new_uuid (ms_world s))))\<rparr>)"

lemma match_step_cases:
  assumes "match_step t s = Some s'"
  defines "h \<equiv> cell (ms_mem s)"
  obtains m rs where "flat (opp (o_Side (h t)) (ms_book s)) = m # rs" "best_opp (o_Side (h t)) (ms_book s) = Some m"
    "0 < remaining (h t)" "crosses (h t) (h m)" "o_UserID (h t) = o_UserID (h m)"
    "s' = s\<lparr>ms_book := dequeue_opp (o_Side (h t)) h (ms_book s), ms_skipped := ms_skipped s @ [m]\<rparr>"
  | m rs w where "flat (opp (o_Side (h t)) (ms_book s)) = m # rs" "best_opp (o_Side (h t)) (ms_book s) = Some m"
    "0 < remaining (h t)" "crosses (h t) (h m)" "o_UserID (h t) \<noteq> o_UserID (h m)" "t \<noteq> m"
    "remaining (h m) \<le> remaining (h t)"
    "s' = s\<lparr>ms_mem := fill_maker t m s,
             ms_book := dequeue_opp (o_Side (h t)) (cell (fill_maker t m s)) (ms_book s),
             ms_world := w, ms_trades := ms_trades s @ [trade_of t m s]\<rparr>"
  | m rs w where "flat (opp (o_Side (h t)) (ms_book s)) = m # rs" "best_opp (o_Side (h t)) (ms_book s) = Some m"
    "0 < remaining (h t)" "crosses (h t) (h m)" "o_UserID (h t) \<noteq> o_UserID (h m)" "t \<noteq> m"
    "remaining (h t) < remaining (h m)"
    "s' = s\<lparr>ms_mem := fill_maker t m s, ms_world := w, ms_trades := ms_trades s @ [trade_of t m s]\<rparr>"
proof -
  have pos: "0 < remaining (h t)"
    using assms by (auto simp: match_step_def Let_def remaining_def split: if_splits)
  obtain m where m: "best_opp (o_Side (h t)) (ms_book s) = Some m"
    using assms by (auto simp: match_step_def Let_def best_opp_def split: if_splits option.splits)
  obtain rs where rs: "flat (opp (o_Side (h t)) (ms_book s)) = m # rs"
    using best_opp_Some[OF m] by blast
  have cr: "crosses (h t) (h m)"
    using assms(1) pos m unfolding h_def
    by (simp add: match_step_def Let_def best_opp_def remaining_def crosses_def split: if_splits)
  show ?thesis
  proof (cases "o_UserID (h t) = o_UserID (h m)")
    case True
    have "s' = s\<lparr>ms_book := dequeue_opp (o_Side (h t)) h (ms_book s), ms_skipped := ms_skipped s @ [m]\<rparr>"
      using assms(1) pos m cr True unfolding h_def
      by (auto simp: match_step_def Let_def best_opp_def remaining_def crosses_def dequeue_opp_def
          split: if_splits)
    with that(1)[OF rs m pos cr True] show ?thesis by simp
  next
    case False
    then have neq: "t \<noteq> m" by auto
    note unfold = match_step_def Let_def best_opp_def remaining_def crosses_def dequeue_opp_def
      fill_maker_def trade_of_def new_uuid_def time_now_def
    show ?thesis
    proof (cases "remaining (h m) \<le> remaining (h t)")
      case le: True
      have mn: "min (o_Quantity (h t) - o_FilledQty (h t)) (o_Quantity (h m) - o_FilledQty (h m))
          = o_Quantity (h m) - o_FilledQty (h m)"
        using le by (simp add: remaining_def min_def)
      have "\<exists>w. s' = s\<lparr>ms_mem := fill_maker t m s,
               ms_book := dequeue_opp (o_Side (h t)) (cell (fill_maker t m s)) (ms_book s),
               ms_world := w, ms_trades := ms_trades s @ [trade_of t m s]\<rparr>"
        using assms(1) pos m cr False neq mn unfolding h_def
        by (auto simp: unfold upd_def split: if_splits)
      then show ?thesis using that(2)[OF rs m pos cr False neq le] by blast
    next
      case nle: False
      have mn: "min (o_Quantity (h t) - o_FilledQty (h t)) (o_Quantity (h m) - o_FilledQty (h m))
          = o_Quantity (h t) - o_FilledQty (h t)"
        and lt: "\<not> o_Quantity (h m) - (o_FilledQty (h m) + (o_Quantity (h t) - o_FilledQty (h t))) \<le> 0"
        using nle by (auto simp: remaining_def min_def)
      have "\<exists>w. s' = s\<lparr>ms_mem := fill_maker t m s, ms_world := w, ms_trades := ms_trades s @ [trade_of t m s]\<rparr>"
        using assms(1) pos m cr False neq mn lt unfolding h_def
        by (auto simp: unfold upd_def split: if_splits)
      then show ?thesis using that(3)[OF rs m pos cr False neq] nle by auto
    qed
  qed
qed

text \<open>Filling changes the filled quantity, the status and the time stamp of two orders only.\<close>

definition static_of :: "'d Order \<Rightarrow> 'd Order" where
  "static_of x = x\<lparr>o_FilledQty := o_Price x, o_Status := Open, o_UpdatedAt := 0\<rparr>"

lemma static_of_iff:
  "static_of x = static_of y \<longleftrightarrow>
     o_ID x = o_ID y \<and> o_UserID x = o_UserID y \<and> o_MarketID x = o_MarketID y \<and>
     o_OutcomeID x = o_OutcomeID y \<and> o_Side x = o_Side y \<and> o_Price x = o_Price y \<and>
     o_Quantity x = o_Quantity y \<and> o_CreatedAt x = o_CreatedAt y"
  by (cases x; cases y) (auto simp: static_of_def)

lemma fill_maker_static: "static_of (cell (fill_maker t m s) r) = static_of (cell (ms_mem s) r)"
  by (simp add: fill_maker_def Let_def static_of_def)

lemma fill_maker_other: "r \<noteq> t \<Longrightarrow> r \<noteq> m \<Longrightarrow> cell (fill_maker t m s) r = cell (ms_mem s) r"
  by (simp add: fill_maker_def Let_def)

lemma fill_maker_top [simp]: "top (fill_maker t m s) = top (ms_mem s)"
  by (simp add: fill_maker_def Let_def)

lemma fill_maker_filled:
  fixes s :: "'d::linordered_field matching"
  assumes "t \<noteq> m"
  defines "q \<equiv> min (remaining (cell (ms_mem s) t)) (remaining (cell (ms_mem s) m))"
  shows "o_FilledQty (cell (fill_maker t m s) t) = o_FilledQty (cell (ms_mem s) t) + q"
    and "o_FilledQty (cell (fill_maker t m s) m) = o_FilledQty (cell (ms_mem s) m) + q"
  using assms by (simp_all add: fill_maker_def Let_def)

lemma fill_maker_remaining:
  fixes s :: "'d::linordered_field matching"
  assumes "t \<noteq> m"
  defines "q \<equiv> min (remaining (cell (ms_mem s) t)) (remaining (cell (ms_mem s) m))"
  shows "remaining (cell (fill_maker t m s) t) = remaining (cell (ms_mem s) t) - q"
    and "remaining (cell (fill_maker t m s) m) = remaining (cell (ms_mem s) m) - q"
  using assms by (simp_all add: fill_maker_def Let_def remaining_def)

definition match_size :: "ref \<Rightarrow> 'd::linordered_field matching \<Rightarrow> nat" where
  "match_size t s =
     (let x = cell (ms_mem s) t
      in 2 * length (flat (opp (o_Side x) (ms_book s))) + (if 0 < remaining x then 1 else 0))"

lemma match_step_decreases: "match_step t s = Some s' \<Longrightarrow> match_size t s' < match_size t s"
proof (erule match_step_cases)
  fix m rs w
  let ?x = "cell (ms_mem s) t"
  assume "t \<noteq> m" "0 < remaining ?x" "remaining ?x < remaining (cell (ms_mem s) m)"
    "s' = s\<lparr>ms_mem := fill_maker t m s, ms_world := w, ms_trades := ms_trades s @ [trade_of t m s]\<rparr>"
  then show "match_size t s' < match_size t s"
    using fill_maker_static[of t m s t] fill_maker_remaining(1)[of t m s]
    by (simp add: match_size_def Let_def static_of_iff min_def)
next
  fix m rs w
  let ?x = "cell (ms_mem s) t"
  assume "t \<noteq> m" "0 < remaining ?x" "best_opp (o_Side ?x) (ms_book s) = Some m"
    "flat (opp (o_Side ?x) (ms_book s)) = m # rs"
    "s' = s\<lparr>ms_mem := fill_maker t m s,
             ms_book := dequeue_opp (o_Side ?x) (cell (fill_maker t m s)) (ms_book s),
             ms_world := w, ms_trades := ms_trades s @ [trade_of t m s]\<rparr>"
  then show "match_size t s' < match_size t s"
    using fill_maker_static[of t m s t] by (simp add: match_size_def Let_def static_of_iff flat_dequeue_opp)
qed (simp add: match_size_def Let_def flat_dequeue_opp)

function match_loop :: "ref \<Rightarrow> 'd::linordered_field matching \<Rightarrow> 'd matching" where
  "match_loop t s = (case match_step t s of None \<Rightarrow> s | Some s' \<Rightarrow> match_loop t s')"
  by pat_completeness auto
termination
  by (relation "measure (\<lambda>(t, s). match_size t s)") (auto intro: match_step_decreases)

declare match_loop.simps [simp del]

lemma match_loop_stop: "match_step t s = None \<Longrightarrow> match_loop t s = s"
  by (simp add: match_loop.simps)

lemma match_loop_step: "match_step t s = Some s' \<Longrightarrow> match_loop t s = match_loop t s'"
  by (simp add: match_loop.simps[of t s])

text \<open>An invariant of the iterations holds when the loop ends.\<close>

lemma match_loop_invariant:
  assumes "\<And>s s'. P s \<Longrightarrow> match_step t s = Some s' \<Longrightarrow> P s'" and "P s"
  shows "P (match_loop t s) \<and> match_step t (match_loop t s) = None"
  using assms
proof (induction t s rule: match_loop.induct)
  case (1 t s)
  show ?case
  proof (cases "match_step t s")
    case None
    with "1.prems" show ?thesis by (simp add: match_loop_stop)
  next
    case (Some s')
    have "P s'" using "1.prems" Some by blast
    with "1.IH"[OF Some "1.prems"(1)] show ?thesis by (simp add: match_loop_step[OF Some])
  qed
qed

definition matchOrder ::
    "ref \<Rightarrow> 'd::linordered_field mem \<Rightarrow> 'd Orderbook \<Rightarrow> world \<Rightarrow> 'd Trade list \<times> 'd mem \<times> 'd Orderbook \<times> world" where
  "matchOrder t m ob w =
     (let s = match_loop t \<lparr>ms_mem = m, ms_book = ob, ms_world = w, ms_trades = [], ms_skipped = []\<rparr>;
          ob' = foldl (\<lambda>ob r. addOrderUnlocked (cell (ms_mem s)) r ob) (ms_book s) (ms_skipped s)
      in (ms_trades s, ms_mem s, ob', ms_world s))"

section \<open>The operations of the engine\<close>

definition Engine_PlaceOrder ::
    "ref \<Rightarrow> 'd::linordered_field mem \<Rightarrow> world \<Rightarrow> 'd Engine \<Rightarrow> (err + 'd MatchResult) \<times> 'd mem \<times> world \<times> 'd Engine" where
  "Engine_PlaceOrder r m w e =
     (let order = cell m r
      in if o_Price order < minPrice \<or> o_Price order > maxPrice then (Inl errInvalidPrice, m, w, e)
         else if o_Quantity order \<le> 0 then (Inl errInvalidQuantity, m, w, e)
         else
           let (ob, e1) = getOrCreateOrderbook (o_OutcomeID order) e;
               (trades, m1, ob1, w1) = matchOrder r m ob w;
               order1 = cell m1 r;
               remainingQty = o_Quantity order1 - o_FilledQty order1;
               (now, w2) = time_now w1;
               (m2, ob2, resting) =
                 (if remainingQty > 0 then
                    let m2 = upd r (\<lambda>x. x\<lparr>o_Status := if o_FilledQty x > 0 then PartiallyFilled else o_Status x,
                                         o_UpdatedAt := now\<rparr>) m1
                    in (m2, addOrderUnlocked (cell m2) r ob1, Some r)
                  else (upd r (\<lambda>x. x\<lparr>o_Status := Filled, o_UpdatedAt := now\<rparr>) m1, ob1, None));
               e2 = e1\<lparr>e_orderbooks := (e_orderbooks e1)(o_OutcomeID order \<mapsto> ob2)\<rparr>;
               e3 = foldl (\<lambda>e trade. emit \<lparr>ev_Type = EventTrade, ev_MarketID = e_marketID e,
                              ev_OutcomeID = o_OutcomeID order, ev_Trade = Some trade, ev_Orderbook = None\<rparr> e)
                      e2 trades;
               e4 = (if resting \<noteq> None then
                       emit \<lparr>ev_Type = EventBookUpdate, ev_MarketID = e_marketID e3, ev_OutcomeID = o_OutcomeID order,
                             ev_Trade = None, ev_Orderbook = Some (o_OutcomeID order)\<rparr> e3
                     else e3)
           in (Inr \<lparr>mr_Trades = trades, mr_Resting = resting\<rparr>, m2, w2, e4))"

definition Engine_CancelOrder ::
    "string \<Rightarrow> string \<Rightarrow> 'd mem \<Rightarrow> world \<Rightarrow> 'd Engine \<Rightarrow> (err + ref) \<times> 'd mem \<times> world \<times> 'd Engine" where
  "Engine_CancelOrder outcomeID orderID m w e =
     (case e_orderbooks e outcomeID of
        None \<Rightarrow> (Inl errOrderNotFound, m, w, e)
      | Some ob \<Rightarrow>
          let ((order, found), ob') = Orderbook_CancelOrder orderID ob;
              e' = e\<lparr>e_orderbooks := (e_orderbooks e)(outcomeID \<mapsto> ob')\<rparr>
          in if \<not> found then (Inl errOrderNotFound, m, w, e')
             else case order of
               None \<Rightarrow> (Inl (Panic ''nil pointer dereference''), m, w, e')
             | Some r \<Rightarrow>
                 let (now, w') = time_now w
                 in (Inr r, upd r (\<lambda>x. x\<lparr>o_Status := Cancelled, o_UpdatedAt := now\<rparr>) m, w', e'))"

end
