(* ===== verification/Matching.thy ===== *)
theory Matching
  imports Engine
begin

text \<open>
  What matching does, for the engine of \<open>services/trading-svc/internal/matching\<close>: the
  invariant of the book through the iterations, the loop as one sweep over the opposite side
  in price-time order, and the invariant of the engine through its operations.
\<close>

section \<open>Taking the best order off the book\<close>

lemma levels_inv_dequeue:
  assumes "levels_inv w h (pq # rest)"
  defines "q \<equiv> snd (OrderQueue_Dequeue h (pq_queue pq))"
  shows "levels_inv w h (if OrderQueue_Len q = 0 then rest else pq\<lparr>pq_queue := q\<rparr> # rest)"
proof -
  have "level_inv h pq" using assms(1) by (simp add: levels_inv_def)
  then have "q_inv h q" "\<forall>r \<in> set (OrderQueue_Orders q). o_Price (h r) = pq_price pq"
    by (auto simp: level_inv_def q_def q_inv_Dequeue dest: list.set_sel(2)[rotated])
  then show ?thesis using assms(1) by (auto simp: levels_inv_def level_inv_def Len_Orders)
qed

lemma best_opp_levels:
  assumes "best_opp side ob = Some m"
  obtains pq rest where "opp side ob = pq # rest" "OrderQueue_Peek (pq_queue pq) = Some m"
  using assms by (auto simp: best_opp_def opp_def bestAskUnlocked_def bestBidUnlocked_def
      split: list.splits if_splits)

lemma dequeue_opp_sel:
  fixes h :: "ref \<Rightarrow> 'd Order"
  assumes "opp side ob = pq # rest" "OrderQueue_Peek (pq_queue pq) = Some m"
  defines "q \<equiv> snd (OrderQueue_Dequeue h (pq_queue pq))"
  shows "opp side (dequeue_opp side h ob)
       = (if OrderQueue_Len q = 0 then rest else pq\<lparr>pq_queue := q\<rparr> # rest)"
    and "same side (dequeue_opp side h ob) = same side ob"
    and "ob_orderMap (dequeue_opp side h ob) = (ob_orderMap ob)(o_ID (h m) := None)"
    and "ob_orderSide (dequeue_opp side h ob) = (ob_orderSide ob)(o_ID (h m) := None)"
    and "ob_outcomeID (dequeue_opp side h ob) = ob_outcomeID ob"
proof -
  have d: "OrderQueue_Dequeue h (pq_queue pq) = (Some m, q)"
    using Dequeue_eq[of h "pq_queue pq"] assms(2) by (simp add: q_def)
  show "opp side (dequeue_opp side h ob)
       = (if OrderQueue_Len q = 0 then rest else pq\<lparr>pq_queue := q\<rparr> # rest)"
    "same side (dequeue_opp side h ob) = same side ob"
    "ob_orderMap (dequeue_opp side h ob) = (ob_orderMap ob)(o_ID (h m) := None)"
    "ob_orderSide (dequeue_opp side h ob) = (ob_orderSide ob)(o_ID (h m) := None)"
    "ob_outcomeID (dequeue_opp side h ob) = ob_outcomeID ob"
    using assms(1) d by (auto simp: dequeue_opp_def opp_def same_def dequeueBestAskUnlocked_def
        dequeueBestBidUnlocked_def Let_def split: if_splits)
qed

definition worse_opp :: "OrderSide \<Rightarrow> 'd::linordered_field \<Rightarrow> 'd \<Rightarrow> bool" where
  "worse_opp side p x \<longleftrightarrow> (if side = Buy then p < x else x < p)"

lemma book_inv_opp:
  assumes "book_inv h ob"
  shows "levels_inv (worse_opp side) h (opp side ob)"
  using assms by (auto simp: worse_opp_def[abs_def] opp_def book_inv_def)

lemma set_book_refs: "set (book_refs ob) = set (flat (opp side ob)) \<union> set (flat (same side ob))"
  by (auto simp: book_refs_def opp_def same_def)

lemma mset_book_refs: "mset (book_refs ob) = mset (flat (opp side ob)) + mset (flat (same side ob))"
  by (simp add: book_refs_def opp_def same_def)

lemma book_inv_dequeue_opp:
  assumes inv: "book_inv h ob" and m: "best_opp side ob = Some m"
  shows "book_inv h (dequeue_opp side h ob)"
proof -
  obtain pq rest where pq: "opp side ob = pq # rest" "OrderQueue_Peek (pq_queue pq) = Some m"
    using best_opp_levels[OF m] by blast
  note sel = dequeue_opp_sel[OF pq, of h]
  obtain rs where fl: "flat (opp side ob) = m # rs" using best_opp_Some[OF m] by blast
  have fl': "flat (opp side (dequeue_opp side h ob)) = rs"
    using flat_dequeue_opp[OF m, of h] fl by simp
  have "mset (m # (rs @ flat (same side ob))) = mset (book_refs ob)"
    using fl by (simp add: mset_book_refs[of ob side])
  from distinct_map_mset[OF this, of "\<lambda>r. o_ID (h r)"] book_invD(5)[OF inv]
  have out: "o_ID (h m) \<notin> (\<lambda>r. o_ID (h r)) ` set rs" "o_ID (h m) \<notin> (\<lambda>r. o_ID (h r)) ` set (flat (same side ob))"
    by auto
  have keep: "filter (\<lambda>r. o_ID (h r) \<noteq> o_ID (h m)) xs = xs" if "o_ID (h m) \<notin> (\<lambda>r. o_ID (h r)) ` set xs" for xs
    using that by (metis (mono_tags, lifting) filter_True image_eqI)
  have lv: "levels_inv (worse_opp side) h (opp side (dequeue_opp side h ob))"
    unfolding sel(1) using book_inv_opp[OF inv, of side] pq(1) by (intro levels_inv_dequeue) simp
  show ?thesis
  proof (rule book_inv_without[OF inv _ _ _ _ sel(3,4)])
    show "levels_inv (\<lambda>p x. x < p) h (ob_bids (dequeue_opp side h ob))"
      "levels_inv (\<lambda>p x. p < x) h (ob_asks (dequeue_opp side h ob))"
      using lv sel(2) book_invD(1,2)[OF inv] by (cases side; simp add: worse_opp_def[abs_def] opp_def same_def)+
    show "flat (ob_bids (dequeue_opp side h ob)) = filter (\<lambda>r. o_ID (h r) \<noteq> o_ID (h m)) (flat (ob_bids ob))"
      "flat (ob_asks (dequeue_opp side h ob)) = filter (\<lambda>r. o_ID (h r) \<noteq> o_ID (h m)) (flat (ob_asks ob))"
      using fl fl' sel(2) keep[OF out(1)] keep[OF out(2)] by (cases side; simp add: opp_def same_def)+
  qed
qed

lemma book_inv_static:
  assumes "\<And>r. static_of (h' r) = static_of (h r)"
  shows "book_inv h' ob = book_inv h ob"
  using assms by (intro book_inv_cong) (auto simp: static_of_iff)

section \<open>The invariant of the iterations\<close>

text \<open>
  From the memory \<open>m0\<close> and the book \<open>ob0\<close> the loop keeps the book well formed and without
  the taker; nothing but fills, status and time stamps of the taker and of orders of the book
  changes; book and passed-over orders together come from the book, each with something
  left; those passed over are the taker's own.
\<close>

definition match_inv ::
    "ref \<Rightarrow> 'd::linordered_field mem \<Rightarrow> 'd Orderbook \<Rightarrow> 'd matching \<Rightarrow> bool" where
  "match_inv t m0 ob0 s \<longleftrightarrow>
     (let h = cell (ms_mem s); side = o_Side (cell m0 t)
      in book_inv h (ms_book s) \<and>
         (\<forall>x. static_of (h x) = static_of (cell m0 x)) \<and>
         mset (book_refs (ms_book s)) + mset (ms_skipped s) \<subseteq># mset (book_refs ob0) \<and>
         (\<forall>x \<in> set (book_refs (ms_book s)) \<union> set (ms_skipped s). 0 < remaining (h x)) \<and>
         (\<forall>x \<in> set (ms_skipped s). o_UserID (h x) = o_UserID (h t) \<and> x \<in> set (flat (opp side ob0))) \<and>
         (\<forall>x. x \<noteq> t \<and> x \<notin> set (book_refs ob0) \<longrightarrow> h x = cell m0 x) \<and>
         (\<forall>x. o_FilledQty (cell m0 x) \<le> o_FilledQty (h x)) \<and>
         same side (ms_book s) = same side ob0 \<and>
         set (flat (opp side (ms_book s))) \<subseteq> set (flat (opp side ob0)) \<and>
         ob_outcomeID (ms_book s) = ob_outcomeID ob0 \<and> top (ms_mem s) = top m0 \<and> 0 \<le> remaining (h t))"

lemma match_inv_init:
  assumes "book_inv (cell m) ob" and "0 \<le> remaining (cell m t)"
    and "\<forall>x \<in> set (book_refs ob). 0 < remaining (cell m x)"
  shows "match_inv t m ob \<lparr>ms_mem = m, ms_book = ob, ms_world = w, ms_trades = [], ms_skipped = []\<rparr>"
  using assms by (simp add: match_inv_def Let_def)

lemma book_refs_dequeue_opp:
  assumes "best_opp side ob = Some m"
  shows "mset (book_refs ob) = add_mset m (mset (book_refs (dequeue_opp side h ob)))"
proof -
  obtain pq rest where pq: "opp side ob = pq # rest" "OrderQueue_Peek (pq_queue pq) = Some m"
    using best_opp_levels[OF assms] by blast
  obtain rs where "flat (opp side ob) = m # rs" using best_opp_Some[OF assms] by blast
  then show ?thesis
    using flat_dequeue_opp[OF assms, of h] dequeue_opp_sel(2)[OF pq, of h]
    by (simp add: mset_book_refs[of _ side])
qed

lemma fill_maker_left:
  fixes s :: "'d::linordered_field matching"
  assumes "t \<noteq> m" "0 < remaining (cell (ms_mem s) t)" "0 < remaining (cell (ms_mem s) m)"
  shows "0 \<le> remaining (cell (fill_maker t m s) t)"
    and "o_FilledQty (cell (ms_mem s) x) \<le> o_FilledQty (cell (fill_maker t m s) x)"
    and "remaining (cell (ms_mem s) t) < remaining (cell (ms_mem s) m) \<Longrightarrow>
         0 < remaining (cell (fill_maker t m s) m)"
  using fill_maker_filled[OF assms(1), of s] fill_maker_remaining[OF assms(1), of s]
    fill_maker_other[of x t m s] assms
  by (cases "x = t"; cases "x = m"; auto simp: min_def)+

lemma distinct_append_mset: "mset xs + mset ys \<subseteq># mset zs \<Longrightarrow> distinct zs \<Longrightarrow> distinct (xs @ ys)"
proof -
  assume sub: "mset xs + mset ys \<subseteq># mset zs" and d: "distinct zs"
  obtain cs where "mset zs = mset ((xs @ ys) @ cs)"
    using sub by (metis ex_mset mset_append mset_subset_eq_exists_conv)
  with d have "distinct ((xs @ ys) @ cs)" using mset_eq_imp_distinct_iff by blast
  then show "distinct (xs @ ys)" by auto
qed

lemma distinct_map_sub:
  assumes "mset xs \<subseteq># mset zs" and "distinct (map f zs)"
  shows "distinct (map f xs)"
proof -
  have "mset (map f xs) + mset [] \<subseteq># mset (map f zs)" using assms(1) by (simp add: image_mset_subseteq_mono)
  from distinct_append_mset[OF this assms(2)] show ?thesis by simp
qed

lemma match_inv_step:
  fixes s :: "'d::linordered_field matching"
  assumes inv: "match_inv t m0 ob0 s" and step: "match_step t s = Some s'"
    and t: "t \<notin> set (book_refs ob0)" and d0: "distinct (book_refs ob0)"
  shows "match_inv t m0 ob0 s'"
proof -
  let ?h = "cell (ms_mem s)" and ?side = "o_Side (cell m0 t)"
  have bi: "book_inv ?h (ms_book s)" and st: "\<And>x. static_of (?h x) = static_of (cell m0 x)"
    and sub: "mset (book_refs (ms_book s)) + mset (ms_skipped s) \<subseteq># mset (book_refs ob0)"
    and left: "\<And>x. x \<in> set (book_refs (ms_book s)) \<union> set (ms_skipped s) \<Longrightarrow> 0 < remaining (?h x)"
    and own: "\<forall>x \<in> set (ms_skipped s). o_UserID (?h x) = o_UserID (?h t) \<and> x \<in> set (flat (opp ?side ob0))"
    and fr: "\<And>x. x \<noteq> t \<and> x \<notin> set (book_refs ob0) \<Longrightarrow> ?h x = cell m0 x"
    and mono: "\<And>x. o_FilledQty (cell m0 x) \<le> o_FilledQty (?h x)"
    and sm: "same ?side (ms_book s) = same ?side ob0"
    and op: "set (flat (opp ?side (ms_book s))) \<subseteq> set (flat (opp ?side ob0))"
    and oc: "ob_outcomeID (ms_book s) = ob_outcomeID ob0" and tp: "top (ms_mem s) = top m0"
    using inv by (simp_all add: match_inv_def Let_def)
  have side: "o_Side (?h t) = ?side" using st[of t] by (simp add: static_of_iff)
  have subset: "set (book_refs (ms_book s)) \<union> set (ms_skipped s) \<subseteq> set (book_refs ob0)"
    using set_mset_mono[OF sub] by simp
  have dist: "distinct (book_refs (ms_book s) @ ms_skipped s)"
    using sub d0 by (rule distinct_append_mset)
  show ?thesis
  proof (rule match_step_cases[OF step, unfolded side])
    fix m rs
    assume fl: "flat (opp ?side (ms_book s)) = m # rs" and best: "best_opp ?side (ms_book s) = Some m"
      and pos: "0 < remaining (?h t)" and user: "o_UserID (?h t) = o_UserID (?h m)"
      and s': "s' = s\<lparr>ms_book := dequeue_opp ?side ?h (ms_book s), ms_skipped := ms_skipped s @ [m]\<rparr>"
    note rm = book_refs_dequeue_opp[OF best, of ?h]
    obtain pq rest where pq: "opp ?side (ms_book s) = pq # rest" "OrderQueue_Peek (pq_queue pq) = Some m"
      using best_opp_levels[OF best] by blast
    have "book_inv ?h (dequeue_opp ?side ?h (ms_book s))" by (rule book_inv_dequeue_opp[OF bi best])
    moreover have "x \<in> set (book_refs (dequeue_opp ?side ?h (ms_book s))) \<union> set (ms_skipped s @ [m]) \<Longrightarrow>
        0 < remaining (?h x)" for x
      using left arg_cong[OF rm, of set_mset] by auto
    moreover have "\<forall>x \<in> set (ms_skipped s @ [m]). o_UserID (?h x) = o_UserID (?h t) \<and> x \<in> set (flat (opp ?side ob0))"
      using own user op fl by auto
    moreover have "set (flat (opp ?side (dequeue_opp ?side ?h (ms_book s)))) \<subseteq> set (flat (opp ?side ob0))"
      using op fl by (auto simp: flat_dequeue_opp[OF best])
    moreover have "mset (book_refs (dequeue_opp ?side ?h (ms_book s))) + mset (ms_skipped s @ [m])
        \<subseteq># mset (book_refs ob0)"
      using sub rm by simp
    ultimately show ?thesis
      using st fr mono sm oc tp pos dequeue_opp_sel(2,5)[OF pq, of ?h] by (simp add: match_inv_def Let_def s')
  next
    fix m rs w
    assume fl: "flat (opp ?side (ms_book s)) = m # rs" and best: "best_opp ?side (ms_book s) = Some m"
      and pos: "0 < remaining (?h t)" and neq: "t \<noteq> m"
      and s': "s' = s\<lparr>ms_mem := fill_maker t m s,
             ms_book := dequeue_opp ?side (cell (fill_maker t m s)) (ms_book s),
             ms_world := w, ms_trades := ms_trades s @ [trade_of t m s]\<rparr>"
    let ?h' = "cell (fill_maker t m s)"
    let ?ob = "dequeue_opp ?side ?h' (ms_book s)"
    note rm = book_refs_dequeue_opp[OF best, of ?h']
    have m: "m \<in> set (book_refs (ms_book s))" using arg_cong[OF rm, of set_mset] by simp
    obtain pq rest where pq: "opp ?side (ms_book s) = pq # rest" "OrderQueue_Peek (pq_queue pq) = Some m"
      using best_opp_levels[OF best] by blast
    have st': "static_of (?h' x) = static_of (cell m0 x)" for x
      by (simp add: fill_maker_static st)
    have "book_inv ?h' (ms_book s)" using bi book_inv_static[of ?h' ?h] by (simp add: fill_maker_static)
    then have "book_inv ?h' ?ob" by (rule book_inv_dequeue_opp[OF _ best])
    moreover have "0 < remaining (?h' x)" if x: "x \<in> set (book_refs ?ob) \<union> set (ms_skipped s)" for x
    proof -
      have "mset (m # (book_refs ?ob @ ms_skipped s)) = mset (book_refs (ms_book s) @ ms_skipped s)"
        using rm by simp
      then have "distinct (m # (book_refs ?ob @ ms_skipped s))"
        using dist mset_eq_imp_distinct_iff by blast
      then have "x \<noteq> m" using x by auto
      moreover have "x \<in> set (book_refs (ms_book s)) \<union> set (ms_skipped s)"
        using x arg_cong[OF rm, of set_mset] by auto
      moreover from this have "x \<noteq> t" using t subset by auto
      ultimately show ?thesis using left by (simp add: fill_maker_other)
    qed
    moreover have "o_UserID (?h' x) = o_UserID (?h x)" for x
      using fill_maker_static[of t m s x] by (simp add: static_of_iff)
    moreover have "x \<noteq> t \<and> x \<notin> set (book_refs ob0) \<Longrightarrow> ?h' x = cell m0 x" for x
      using fr[of x] m subset by (subst fill_maker_other) auto
    moreover have "o_FilledQty (cell m0 x) \<le> o_FilledQty (?h' x)" for x
      using mono[of x] fill_maker_left(2)[OF neq pos, of x] left m by (meson UnI1 order_trans)
    moreover have "0 \<le> remaining (?h' t)" using fill_maker_left(1)[OF neq pos] left m by blast
    moreover have "mset (book_refs ?ob) + mset (ms_skipped s) \<subseteq># mset (book_refs ob0)"
    proof (rule subset_mset.order_trans[OF _ sub])
      show "mset (book_refs ?ob) + mset (ms_skipped s) \<subseteq># mset (book_refs (ms_book s)) + mset (ms_skipped s)"
        using rm by simp
    qed
    moreover have "set (flat (opp ?side ?ob)) \<subseteq> set (flat (opp ?side ob0))"
      using op fl by (auto simp: flat_dequeue_opp[OF best])
    ultimately show ?thesis
      using st' own sm oc tp dequeue_opp_sel(2,5)[OF pq, of ?h'] by (simp add: match_inv_def Let_def s')
  next
    fix m rs w
    assume fl: "flat (opp ?side (ms_book s)) = m # rs" and best: "best_opp ?side (ms_book s) = Some m"
      and pos: "0 < remaining (?h t)" and neq: "t \<noteq> m" and lt: "remaining (?h t) < remaining (?h m)"
      and s': "s' = s\<lparr>ms_mem := fill_maker t m s, ms_world := w, ms_trades := ms_trades s @ [trade_of t m s]\<rparr>"
    let ?h' = "cell (fill_maker t m s)"
    have m: "m \<in> set (book_refs (ms_book s))" using fl by (simp add: set_book_refs[of _ ?side])
    have st': "static_of (?h' x) = static_of (cell m0 x)" for x
      by (simp add: fill_maker_static st)
    have "book_inv ?h' (ms_book s)" using bi book_inv_static[of ?h' ?h] by (simp add: fill_maker_static)
    moreover have "0 < remaining (?h' x)" if x: "x \<in> set (book_refs (ms_book s)) \<union> set (ms_skipped s)" for x
    proof (cases "x = m")
      case True
      with fill_maker_left(3)[OF neq pos _ lt] left m show ?thesis by blast
    next
      case False
      moreover have "x \<noteq> t" using t subset x by auto
      ultimately show ?thesis using left[OF x] by (simp add: fill_maker_other)
    qed
    moreover have "o_UserID (?h' x) = o_UserID (?h x)" for x
      using fill_maker_static[of t m s x] by (simp add: static_of_iff)
    moreover have "x \<noteq> t \<and> x \<notin> set (book_refs ob0) \<Longrightarrow> ?h' x = cell m0 x" for x
      using fr[of x] m subset by (subst fill_maker_other) auto
    moreover have "o_FilledQty (cell m0 x) \<le> o_FilledQty (?h' x)" for x
      using mono[of x] fill_maker_left(2)[OF neq pos, of x] left m by (meson UnI1 order_trans)
    moreover have "0 \<le> remaining (?h' t)" using fill_maker_left(1)[OF neq pos] left m by blast
    ultimately show ?thesis
      using st' own sm oc tp sub op by (simp add: match_inv_def Let_def s')
  qed
qed

section \<open>The whole of \<open>matchOrder\<close>\<close>

text \<open>The orders passed over come back to the book.\<close>

lemma readd_skipped:
  assumes "book_inv h ob" and "distinct (map (\<lambda>r. o_ID (h r)) (book_refs ob @ sk))"
    and "\<forall>x \<in> set sk. o_Side (h x) \<noteq> side"
  defines "ob' \<equiv> foldl (\<lambda>ob r. addOrderUnlocked h r ob) ob sk"
  shows "book_inv h ob' \<and> mset (book_refs ob') = mset (book_refs ob) + mset sk \<and>
    same side ob' = same side ob \<and> ob_outcomeID ob' = ob_outcomeID ob"
  using assms(1-3) unfolding ob'_def
proof (induction sk arbitrary: ob)
  case Nil
  then show ?case by simp
next
  case (Cons r sk)
  let ?ob = "addOrderUnlocked h r ob"
  have inv: "book_inv h ?ob" using Cons.prems(1,2) by (intro book_inv_add) auto
  note mr = book_refs_add[OF Cons.prems(1), of r]
  then have "mset (book_refs ?ob @ sk) = mset (book_refs ob @ r # sk)" by simp
  from distinct_map_mset[OF this] Cons.prems(2)
  have "distinct (map (\<lambda>r. o_ID (h r)) (book_refs ?ob @ sk))" by blast
  note IH = Cons.IH[OF inv this]
  have "same side ?ob = same side ob" using Cons.prems(3) by (cases side; cases "o_Side (h r)"; simp add: same_def)
  with IH Cons.prems(3) mr show ?case by simp
qed

lemma match_step_None:
  assumes "match_step t s = None"
  defines "h \<equiv> cell (ms_mem s)"
  shows "remaining (h t) \<le> 0 \<or> best_opp (o_Side (h t)) (ms_book s) = None \<or>
    (\<exists>m. best_opp (o_Side (h t)) (ms_book s) = Some m \<and> \<not> crosses (h t) (h m))"
  using assms(1) unfolding h_def
  by (auto simp: match_step_def Let_def remaining_def best_opp_def crosses_def not_le
      new_uuid_def time_now_def split: option.splits if_splits)

lemma best_opp_None:
  assumes "levels_inv w h (opp side ob)" and "best_opp side ob = None"
  shows "flat (opp side ob) = []"
  using assms by (auto simp: best_opp_def opp_def bestAskUnlocked_def bestBidUnlocked_def Peek_hd
      levels_inv_def level_inv_def split: list.splits if_splits)

lemma not_crosses_all:
  assumes inv: "book_inv h ob" and fl: "flat (opp (o_Side tk) ob) = m # rs"
    and m: "\<not> crosses tk (h m)" and x: "x \<in> set (flat (opp (o_Side tk) ob))"
  shows "\<not> crosses tk (h x)"
proof (cases "o_Side tk")
  case Buy
  with ask_side.flat_sorted[OF book_invD(2)[OF inv]] fl m x show ?thesis
    by (auto simp: opp_def crosses_def)
next
  case Sell
  with bid_side.flat_sorted[OF book_invD(1)[OF inv]] fl m x show ?thesis
    by (auto simp: opp_def crosses_def)
qed

lemma matchOrder_spec:
  fixes m :: "'d::linordered_field mem"
  assumes inv: "book_inv (cell m) ob" and t: "t \<notin> set (book_refs ob)" and rem: "0 \<le> remaining (cell m t)"
    and left: "\<forall>x \<in> set (book_refs ob). 0 < remaining (cell m x)"
    and res: "matchOrder t m ob w = (trades, m1, ob1, w1)"
  defines "side \<equiv> o_Side (cell m t)"
  shows "book_inv (cell m1) ob1" "\<forall>x. static_of (cell m1 x) = static_of (cell m x)"
    "mset (book_refs ob1) \<subseteq># mset (book_refs ob)" "\<forall>x \<in> set (book_refs ob1). 0 < remaining (cell m1 x)"
    "\<forall>x. x \<noteq> t \<and> x \<notin> set (book_refs ob) \<longrightarrow> cell m1 x = cell m x"
    "\<forall>x. o_FilledQty (cell m x) \<le> o_FilledQty (cell m1 x)"
    "same side ob1 = same side ob" "set (flat (opp side ob1)) \<subseteq> set (flat (opp side ob))"
    "ob_outcomeID ob1 = ob_outcomeID ob" "top m1 = top m" "0 \<le> remaining (cell m1 t)"
    "0 < remaining (cell m1 t) \<Longrightarrow> \<forall>x \<in> set (flat (opp side ob1)). crosses (cell m1 t) (cell m1 x) \<longrightarrow>
       o_UserID (cell m1 x) = o_UserID (cell m1 t)"
proof -
  define s where "s = match_loop t \<lparr>ms_mem = m, ms_book = ob, ms_world = w, ms_trades = [], ms_skipped = []\<rparr>"
  let ?h = "cell (ms_mem s)"
  have d0: "distinct (book_refs ob)" using book_invD(5)[OF inv] by (simp add: distinct_map)
  have "match_inv t m ob s \<and> match_step t s = None"
    unfolding s_def
  proof (rule match_loop_invariant)
    show "match_inv t m ob s'" if "match_inv t m ob s" "match_step t s = Some s'" for s s'
      using match_inv_step[OF that t d0] .
  qed (rule match_inv_init[OF inv rem left])
  then have mi: "match_inv t m ob s" and stop: "match_step t s = None" by simp_all
  note M = mi[unfolded match_inv_def Let_def]
  have m1: "m1 = ms_mem s" and ob1: "ob1 = foldl (\<lambda>ob r. addOrderUnlocked ?h r ob) (ms_book s) (ms_skipped s)"
    using res by (auto simp: matchOrder_def Let_def s_def)
  have bi: "book_inv ?h (ms_book s)" and st: "\<forall>x. static_of (?h x) = static_of (cell m x)"
    and sub: "mset (book_refs (ms_book s)) + mset (ms_skipped s) \<subseteq># mset (book_refs ob)"
    using M by blast+
  have inv': "book_inv ?h ob" using inv st book_inv_static[of ?h "cell m" ob] by simp
  have sk: "\<forall>x \<in> set (ms_skipped s). o_UserID (?h x) = o_UserID (?h t) \<and> x \<in> set (flat (opp side ob))"
    using M unfolding side_def by blast
  have sks: "\<forall>x \<in> set (ms_skipped s). o_Side (?h x) \<noteq> side"
    using sk book_invD(3,4)[OF inv'] by (cases side) (auto simp: opp_def)
  have dist: "distinct (map (\<lambda>r. o_ID (?h r)) (book_refs (ms_book s) @ ms_skipped s))"
  proof (rule distinct_map_sub)
    show "mset (book_refs (ms_book s) @ ms_skipped s) \<subseteq># mset (book_refs ob)" using sub by simp
  qed (rule book_invD(5)[OF inv'])
  note R = readd_skipped[OF bi dist sks]
  show 1: "book_inv (cell m1) ob1" "\<forall>x. static_of (cell m1 x) = static_of (cell m x)"
    "mset (book_refs ob1) \<subseteq># mset (book_refs ob)" 
    "\<forall>x. x \<noteq> t \<and> x \<notin> set (book_refs ob) \<longrightarrow> cell m1 x = cell m x"
    "\<forall>x. o_FilledQty (cell m x) \<le> o_FilledQty (cell m1 x)"
    "same side ob1 = same side ob" "ob_outcomeID ob1 = ob_outcomeID ob" "top m1 = top m" "0 \<le> remaining (cell m1 t)"
    using R M unfolding m1 ob1 side_def by simp_all
  have refs: "set (book_refs ob1) = set (book_refs (ms_book s)) \<union> set (ms_skipped s)"
  proof -
    have "mset (book_refs ob1) = mset (book_refs (ms_book s) @ ms_skipped s)"
      using R unfolding ob1 by simp
    from arg_cong[OF this, of set_mset] show ?thesis by simp
  qed
  show "\<forall>x \<in> set (book_refs ob1). 0 < remaining (cell m1 x)"
    using M unfolding refs m1 by blast
  have opp1: "set (flat (opp side ob1)) = set (flat (opp side (ms_book s))) \<union> set (ms_skipped s)"
  proof -
    have e: "mset (book_refs ob1) = mset (book_refs (ms_book s)) + mset (ms_skipped s)"
      and sm: "same side ob1 = same side (ms_book s)" using R unfolding ob1 by blast+
    from e sm have "mset (flat (opp side ob1)) + mset (flat (same side ob1))
        = mset (flat (opp side (ms_book s))) + mset (ms_skipped s) + mset (flat (same side ob1))"
      unfolding mset_book_refs[of _ side] by (simp add: ac_simps)
    then have "mset (flat (opp side ob1)) = mset (flat (opp side (ms_book s)) @ ms_skipped s)" by simp
    from arg_cong[OF this, of set_mset] show ?thesis by simp
  qed
  show "set (flat (opp side ob1)) \<subseteq> set (flat (opp side ob))"
  proof -
    have "set (flat (opp side (ms_book s))) \<subseteq> set (flat (opp side ob))"
      using M unfolding side_def by blast
    with sk show ?thesis unfolding opp1 by blast
  qed
  show "\<forall>x \<in> set (flat (opp side ob1)). crosses (cell m1 t) (cell m1 x) \<longrightarrow>
       o_UserID (cell m1 x) = o_UserID (cell m1 t)" if pos: "0 < remaining (cell m1 t)"
  proof -
    have side: "o_Side (?h t) = side" using st by (simp add: static_of_iff side_def)
    have "\<not> crosses (?h t) (?h x)" if x: "x \<in> set (flat (opp side (ms_book s)))" for x
    proof -
      have "best_opp side (ms_book s) \<noteq> None"
        using best_opp_None[OF book_inv_opp[OF bi]] x by fastforce
      then obtain b where b: "best_opp side (ms_book s) = Some b" "\<not> crosses (?h t) (?h b)"
        using match_step_None[OF stop] pos side unfolding m1 by auto
      with not_crosses_all[OF bi, of "?h t" b] best_opp_Some[OF b(1)] x side show ?thesis by auto
    qed
    with sk show ?thesis unfolding opp1 m1 by blast
  qed
qed

section \<open>The invariant of the engine\<close>

text \<open>
  Every book of the engine is well formed and kept under its own outcome; every resting
  order is of that outcome, has a valid price and something left to fill.
\<close>

definition resting_ok :: "'d::linordered_field Order \<Rightarrow> bool" where
  "resting_ok x \<longleftrightarrow> 0 \<le> o_FilledQty x \<and> 0 < remaining x \<and> minPrice \<le> o_Price x \<and> o_Price x \<le> maxPrice"

definition engine_inv :: "'d::linordered_field mem \<Rightarrow> 'd Engine \<Rightarrow> bool" where
  "engine_inv m e \<longleftrightarrow>
     (\<forall>i ob. e_orderbooks e i = Some ob \<longrightarrow>
        book_inv (cell m) ob \<and> ob_outcomeID ob = i \<and>
        (\<forall>r \<in> set (book_refs ob). resting_ok (cell m r) \<and> o_OutcomeID (cell m r) = i \<and> r < top m))"

text \<open>No bid is at or above an ask of another user.\<close>

definition uncrossed :: "(ref \<Rightarrow> 'd::linordered_field Order) \<Rightarrow> 'd Orderbook \<Rightarrow> bool" where
  "uncrossed h ob \<longleftrightarrow>
     (\<forall>b \<in> set (flat (ob_bids ob)). \<forall>a \<in> set (flat (ob_asks ob)).
        o_Price (h b) < o_Price (h a) \<or> o_UserID (h b) = o_UserID (h a))"

definition engine_uncrossed :: "'d::linordered_field mem \<Rightarrow> 'd Engine \<Rightarrow> bool" where
  "engine_uncrossed m e \<longleftrightarrow> (\<forall>i ob. e_orderbooks e i = Some ob \<longrightarrow> uncrossed (cell m) ob)"

text \<open>An order the engine has not seen: its id is on no book, nothing of it is filled.\<close>

definition new_order :: "'d::linordered_field mem \<Rightarrow> 'd Engine \<Rightarrow> ref \<Rightarrow> bool" where
  "new_order m e r \<longleftrightarrow> r < top m \<and> o_FilledQty (cell m r) = 0 \<and>
     (\<forall>i ob. e_orderbooks e i = Some ob \<longrightarrow> o_ID (cell m r) \<notin> (\<lambda>r. o_ID (cell m r)) ` set (book_refs ob))"

definition book_of :: "string \<Rightarrow> 'd Engine \<Rightarrow> 'd Orderbook" where
  "book_of i e = (case e_orderbooks e i of Some ob \<Rightarrow> ob | None \<Rightarrow> NewOrderbook i)"

lemma emit_books [simp]: "e_orderbooks (emit ev e) = e_orderbooks e" "e_marketID (emit ev e) = e_marketID e"
  by (simp_all add: emit_def)

lemma emit_all_books [simp]: "e_orderbooks (foldl (\<lambda>e x. emit (f e x) e) e xs) = e_orderbooks e"
  by (induction xs arbitrary: e) auto

lemma getOrCreateOrderbook_eq:
  "fst (getOrCreateOrderbook i e) = book_of i e"
  "(e_orderbooks (snd (getOrCreateOrderbook i e)))(i \<mapsto> x) = (e_orderbooks e)(i \<mapsto> x)"
  by (auto simp: getOrCreateOrderbook_def book_of_def Let_def split: option.splits)

lemma Engine_PlaceOrder_accepted:
  fixes m :: "'d::linordered_field mem"
  assumes "minPrice \<le> o_Price (cell m r)" "o_Price (cell m r) \<le> maxPrice" "0 < o_Quantity (cell m r)"
    and mo: "matchOrder r m (book_of (o_OutcomeID (cell m r)) e) w = (trades, m1, ob1, w1)"
  obtains st now w' e' where
    "Engine_PlaceOrder r m w e
     = (Inr \<lparr>mr_Trades = trades, mr_Resting = if 0 < remaining (cell m1 r) then Some r else None\<rparr>,
        upd r (\<lambda>x. x\<lparr>o_Status := st, o_UpdatedAt := now\<rparr>) m1, w', e')"
    "e_orderbooks e' = (e_orderbooks e)(o_OutcomeID (cell m r) \<mapsto>
       (if 0 < remaining (cell m1 r)
        then addOrderUnlocked (cell (upd r (\<lambda>x. x\<lparr>o_Status := st, o_UpdatedAt := now\<rparr>) m1)) r ob1 else ob1))"
    "st = (if 0 < remaining (cell m1 r)
           then if 0 < o_FilledQty (cell m1 r) then PartiallyFilled else o_Status (cell m1 r) else Filled)"
proof -
  obtain e1 where g: "getOrCreateOrderbook (o_OutcomeID (cell m r)) e = (book_of (o_OutcomeID (cell m r)) e, e1)"
    by (metis getOrCreateOrderbook_eq(1) prod.collapse)
  have e1: "(e_orderbooks e1)(o_OutcomeID (cell m r) \<mapsto> x) = (e_orderbooks e)(o_OutcomeID (cell m r) \<mapsto> x)" for x
    using getOrCreateOrderbook_eq(2)[of "o_OutcomeID (cell m r)" e x] g by simp
  have *: "upd r (\<lambda>x. x\<lparr>o_Status := if o_FilledQty x > 0 then PartiallyFilled else o_Status x, o_UpdatedAt := n\<rparr>) m1
      = upd r (\<lambda>x. x\<lparr>o_Status := if o_FilledQty (cell m1 r) > 0 then PartiallyFilled else o_Status (cell m1 r), o_UpdatedAt := n\<rparr>) m1"
    for n by (simp add: upd_def)
  show ?thesis
  proof (cases "0 < remaining (cell m1 r)")
    case True
    with assms show ?thesis
      by (intro that[where st = "if 0 < o_FilledQty (cell m1 r) then PartiallyFilled else o_Status (cell m1 r)"
            and now = "fst (time_now w1)" and w' = "snd (time_now w1)"
            and e' = "snd (snd (snd (Engine_PlaceOrder r m w e)))"])
         (simp_all add: Engine_PlaceOrder_def Let_def g mo remaining_def time_now_def * e1)
  next
    case False
    with assms show ?thesis
      by (intro that[where st = Filled and now = "fst (time_now w1)" and w' = "snd (time_now w1)"
            and e' = "snd (snd (snd (Engine_PlaceOrder r m w e)))"])
         (simp_all add: Engine_PlaceOrder_def Let_def g mo remaining_def time_now_def e1)
  qed
qed

text \<open>A rejected order changes nothing.\<close>

lemma Engine_PlaceOrder_rejected:
  assumes "fst (Engine_PlaceOrder r m w e) = Inl err"
  shows "Engine_PlaceOrder r m w e = (Inl err, m, w, e)"
    and "\<not> (minPrice \<le> o_Price (cell m r) \<and> o_Price (cell m r) \<le> maxPrice \<and> 0 < o_Quantity (cell m r))"
  using assms by (auto simp: Engine_PlaceOrder_def Let_def split: if_splits prod.splits)

lemma NewOrderbook_empty [simp]:
  "book_refs (NewOrderbook i) = []" "ob_outcomeID (NewOrderbook i) = i"
  by (simp_all add: NewOrderbook_def book_refs_def)

lemma engine_inv_book_of:
  assumes "engine_inv m e"
  shows "book_inv (cell m) (book_of i e)" "ob_outcomeID (book_of i e) = i"
    "x \<in> set (book_refs (book_of i e)) \<Longrightarrow> resting_ok (cell m x) \<and> o_OutcomeID (cell m x) = i \<and> x < top m"
  using assms by (auto simp: engine_inv_def book_of_def split: option.splits)

lemma new_order_book_of:
  assumes "new_order m e r"
  shows "o_ID (cell m r) \<notin> (\<lambda>r. o_ID (cell m r)) ` set (book_refs (book_of i e))" "r \<notin> set (book_refs (book_of i e))"
proof -
  show "o_ID (cell m r) \<notin> (\<lambda>r. o_ID (cell m r)) ` set (book_refs (book_of i e))"
    using assms by (auto simp: new_order_def book_of_def NewOrderbook_def book_refs_def split: option.splits)
  then show "r \<notin> set (book_refs (book_of i e))" by auto
qed

lemma matchOrder_book_of:
  fixes m :: "'d::linordered_field mem"
  assumes inv: "engine_inv m e" and new: "new_order m e r" and qty: "0 < o_Quantity (cell m r)"
    and mo: "matchOrder r m (book_of (o_OutcomeID (cell m r)) e) w = (trades, m1, ob1, w1)"
  shows "book_inv (cell m1) ob1" "\<forall>x. static_of (cell m1 x) = static_of (cell m x)"
    "set (book_refs ob1) \<subseteq> set (book_refs (book_of (o_OutcomeID (cell m r)) e))"
    "\<forall>x \<in> set (book_refs ob1). resting_ok (cell m1 x)"
    "\<forall>x. x \<noteq> r \<and> x \<notin> set (book_refs (book_of (o_OutcomeID (cell m r)) e)) \<longrightarrow> cell m1 x = cell m x"
    "ob_outcomeID ob1 = o_OutcomeID (cell m r)" "top m1 = top m"
    "0 \<le> remaining (cell m1 r)" "0 \<le> o_FilledQty (cell m1 r)"
    "0 < remaining (cell m1 r) \<Longrightarrow> \<forall>x \<in> set (flat (opp (o_Side (cell m r)) ob1)).
       crosses (cell m r) (cell m x) \<longrightarrow> o_UserID (cell m x) = o_UserID (cell m r)"
proof -
  let ?ob = "book_of (o_OutcomeID (cell m r)) e"
  note bo = engine_inv_book_of[OF inv, where i = "o_OutcomeID (cell m r)"]
  have fq: "o_FilledQty (cell m r) = 0" using new by (simp add: new_order_def)
  then have rem: "0 \<le> remaining (cell m r)" using qty by (simp add: remaining_def)
  have left: "\<forall>x \<in> set (book_refs ?ob). 0 < remaining (cell m x)" using bo(3) by (simp add: resting_ok_def)
  note sp = matchOrder_spec[OF bo(1) new_order_book_of(2)[OF new] rem left mo]
  show 1: "book_inv (cell m1) ob1" "\<forall>x. static_of (cell m1 x) = static_of (cell m x)"
    "\<forall>x. x \<noteq> r \<and> x \<notin> set (book_refs ?ob) \<longrightarrow> cell m1 x = cell m x"
    "ob_outcomeID ob1 = o_OutcomeID (cell m r)" "top m1 = top m" "0 \<le> remaining (cell m1 r)"
    using sp bo(2) by simp_all
  show sub: "set (book_refs ob1) \<subseteq> set (book_refs ?ob)" using set_mset_mono[OF sp(3)] by simp
  show "0 \<le> o_FilledQty (cell m1 r)" using sp(6) fq by metis
  have "crosses (cell m1 r) (cell m1 x) = crosses (cell m r) (cell m x)" "o_UserID (cell m1 x) = o_UserID (cell m x)" for x
    using 1(2) by (simp_all add: crosses_def static_of_iff)
  with sp(12) show "0 < remaining (cell m1 r) \<Longrightarrow> \<forall>x \<in> set (flat (opp (o_Side (cell m r)) ob1)).
       crosses (cell m r) (cell m x) \<longrightarrow> o_UserID (cell m x) = o_UserID (cell m r)" by simp
  show "\<forall>x \<in> set (book_refs ob1). resting_ok (cell m1 x)"
  proof
    fix x
    assume x: "x \<in> set (book_refs ob1)"
    with sub bo(3) have "resting_ok (cell m x)" by blast
    moreover have "o_Price (cell m1 x) = o_Price (cell m x)" using 1(2) by (simp add: static_of_iff)
    moreover have "o_FilledQty (cell m x) \<le> o_FilledQty (cell m1 x)" using sp(6) by blast
    ultimately show "resting_ok (cell m1 x)" using sp(4) x by (auto simp: resting_ok_def)
  qed
qed

lemma Engine_PlaceOrder_books:
  fixes m :: "'d::linordered_field mem"
  assumes inv: "engine_inv m e" and new: "new_order m e r"
    and res: "Engine_PlaceOrder r m w e = (Inr mr, m', w', e')"
  obtains ob' where "e_orderbooks e' = (e_orderbooks e)(o_OutcomeID (cell m r) \<mapsto> ob')"
    "book_inv (cell m') ob'" "ob_outcomeID ob' = o_OutcomeID (cell m r)"
    "set (book_refs ob') \<subseteq> insert r (set (book_refs (book_of (o_OutcomeID (cell m r)) e)))"
    "\<forall>x \<in> set (book_refs ob'). resting_ok (cell m' x)"
    "\<forall>x. static_of (cell m' x) = static_of (cell m x)"
    "\<forall>x. x \<noteq> r \<and> x \<notin> set (book_refs (book_of (o_OutcomeID (cell m r)) e)) \<longrightarrow> cell m' x = cell m x"
    "top m' = top m"
    "r \<in> set (book_refs ob') \<Longrightarrow> \<forall>x \<in> set (flat (opp (o_Side (cell m r)) ob')).
       crosses (cell m r) (cell m x) \<longrightarrow> o_UserID (cell m x) = o_UserID (cell m r)"
proof -
  let ?i = "o_OutcomeID (cell m r)"
  have ok: "minPrice \<le> o_Price (cell m r)" "o_Price (cell m r) \<le> maxPrice" "0 < o_Quantity (cell m r)"
    using res by (auto simp: Engine_PlaceOrder_def Let_def not_less not_le split: if_splits)
  obtain trades m1 ob1 w1 where mo: "matchOrder r m (book_of ?i e) w = (trades, m1, ob1, w1)"
    by (metis prod.collapse)
  note B = matchOrder_book_of[OF inv new ok(3) mo]
  obtain st now w'' e'' where eq: "Engine_PlaceOrder r m w e
     = (Inr \<lparr>mr_Trades = trades, mr_Resting = if 0 < remaining (cell m1 r) then Some r else None\<rparr>,
        upd r (\<lambda>x. x\<lparr>o_Status := st, o_UpdatedAt := now\<rparr>) m1, w'', e'')"
    and books: "e_orderbooks e'' = (e_orderbooks e)(?i \<mapsto>
       (if 0 < remaining (cell m1 r)
        then addOrderUnlocked (cell (upd r (\<lambda>x. x\<lparr>o_Status := st, o_UpdatedAt := now\<rparr>) m1)) r ob1 else ob1))"
    by (rule Engine_PlaceOrder_accepted[OF ok mo]) blast
  let ?m = "upd r (\<lambda>x. x\<lparr>o_Status := st, o_UpdatedAt := now\<rparr>) m1"
  have st: "static_of (cell ?m x) = static_of (cell m x)" for x
    using B(2) by (simp add: static_of_def)
  have st1: "static_of (cell ?m x) = static_of (cell m1 x)" for x by (simp add: static_of_def)
  have same_rest: "remaining (cell ?m x) = remaining (cell m1 x)" "resting_ok (cell ?m x) = resting_ok (cell m1 x)" for x
    by (simp_all add: remaining_def resting_ok_def)
  have inv1: "book_inv (cell ?m) ob1" using B(1) book_inv_static[of "cell ?m" "cell m1" ob1, OF st1] by blast
  have m': "m' = ?m" "e' = e''" using res eq by simp_all
  have out: "o_ID (cell ?m r) \<notin> (\<lambda>r. o_ID (cell ?m r)) ` set (book_refs ob1)"
  proof -
    have "(\<lambda>x. o_ID (cell ?m x)) = (\<lambda>x. o_ID (cell m x))"
      using st by (simp only: static_of_iff)
    moreover from this have "o_ID (cell ?m r) = o_ID (cell m r)" by (rule fun_cong)
    ultimately show ?thesis using new_order_book_of(1)[OF new, of ?i] B(3) by (simp only:) blast
  qed
  show ?thesis
  proof (cases "0 < remaining (cell m1 r)")
    case True
    have "resting_ok (cell ?m r)"
      using True B(9) ok B(2) unfolding same_rest by (simp add: resting_ok_def static_of_iff)
    moreover note set_book_refs_add[OF inv1, of r]
    moreover have "o_Side (cell ?m r) = o_Side (cell m r)" using st[of r] by (simp only: static_of_iff)
    then have "opp (o_Side (cell m r)) (addOrderUnlocked (cell ?m) r ob1) = opp (o_Side (cell m r)) ob1"
      by (auto simp: opp_def)
    ultimately show ?thesis
      using that[of "addOrderUnlocked (cell ?m) r ob1"] True books m' book_inv_add[of "cell ?m" ob1 r, OF inv1 out] B st same_rest
      by auto
  next
    case False
    moreover have "r \<notin> set (book_refs ob1)" using B(3) new_order_book_of(2)[OF new] by blast
    ultimately show ?thesis using that[of ob1] books m' inv1 B st same_rest by auto
  qed
qed

text \<open>Placing an order, accepted or not, keeps the invariant of the engine.\<close>

lemma engine_inv_PlaceOrder:
  fixes m :: "'d::linordered_field mem"
  assumes inv: "engine_inv m e" and new: "new_order m e r"
    and res: "Engine_PlaceOrder r m w e = (res', m', w', e')"
  shows "engine_inv m' e'"
proof (cases res')
  case (Inl err)
  with Engine_PlaceOrder_rejected(1)[of r m w e err] res inv show ?thesis by simp
next
  case (Inr mr)
  let ?i = "o_OutcomeID (cell m r)"
  from Engine_PlaceOrder_books[OF inv new res[unfolded Inr]] obtain ob' where
    books: "e_orderbooks e' = (e_orderbooks e)(?i \<mapsto> ob')" and inv': "book_inv (cell m') ob'" "ob_outcomeID ob' = ?i"
    and sub: "set (book_refs ob') \<subseteq> insert r (set (book_refs (book_of ?i e)))"
    and ok: "\<forall>x \<in> set (book_refs ob'). resting_ok (cell m' x)"
    and st: "\<forall>x. static_of (cell m' x) = static_of (cell m x)"
    and fr: "\<forall>x. x \<noteq> r \<and> x \<notin> set (book_refs (book_of ?i e)) \<longrightarrow> cell m' x = cell m x"
    and tp: "top m' = top m" by metis
  have oc: "o_OutcomeID (cell m' x) = o_OutcomeID (cell m x)" for x using st by (simp add: static_of_iff)
  have rt: "r < top m" using new by (simp add: new_order_def)
  show ?thesis
    unfolding engine_inv_def
  proof (intro allI impI)
    fix i ob
    assume ob: "e_orderbooks e' i = Some ob"
    show "book_inv (cell m') ob \<and> ob_outcomeID ob = i \<and>
      (\<forall>x \<in> set (book_refs ob). resting_ok (cell m' x) \<and> o_OutcomeID (cell m' x) = i \<and> x < top m')"
    proof (cases "i = ?i")
      case True
      with ob books have [simp]: "ob = ob'" by simp
      have "o_OutcomeID (cell m x) = i \<and> x < top m" if "x \<in> set (book_refs ob')" for x
        using sub that engine_inv_book_of(3)[OF inv, of x ?i] rt True by auto
      with True inv' ok oc tp show ?thesis by simp
    next
      case False
      with ob books have old: "e_orderbooks e i = Some ob" by simp
      note I = inv[unfolded engine_inv_def, rule_format, OF old]
      have "cell m' x = cell m x" if "x \<in> set (book_refs ob)" for x
      proof -
        have "o_OutcomeID (cell m x) = i" using I that by blast
        with False have "x \<noteq> r" "x \<notin> set (book_refs (book_of ?i e))"
          using engine_inv_book_of(3)[OF inv, of x ?i] by auto
        with fr show ?thesis by blast
      qed
      with I tp st show ?thesis using book_inv_static[of "cell m'" "cell m" ob] by simp
    qed
  qed
qed

text \<open>Cancelling: the order leaves its book; an order that is not there is not found.\<close>

lemma resting_ok_status:
  "resting_ok (x\<lparr>o_Status := st, o_UpdatedAt := now\<rparr>) = resting_ok x"
  by (simp add: resting_ok_def remaining_def)

lemma Orderbook_CancelOrder_outcome: "ob_outcomeID (snd (Orderbook_CancelOrder i ob)) = ob_outcomeID ob"
  by (auto simp: Orderbook_CancelOrder_def Let_def split: option.splits)

lemma Engine_CancelOrder_cases:
  fixes m :: "'d::linordered_field mem"
  assumes inv: "engine_inv m e"
  obtains
    (missing) "Engine_CancelOrder i oid m w e = (Inl errOrderNotFound, m, w, e)"
      "oid \<notin> (\<lambda>r. o_ID (cell m r)) ` set (book_refs (book_of i e))"
  | (found) r ob ob' now w' where "e_orderbooks e i = Some ob" "r \<in> set (book_refs ob)" "o_ID (cell m r) = oid"
      "Engine_CancelOrder i oid m w e
       = (Inr r, upd r (\<lambda>x. x\<lparr>o_Status := Cancelled, o_UpdatedAt := now\<rparr>) m, w',
          e\<lparr>e_orderbooks := (e_orderbooks e)(i \<mapsto> ob')\<rparr>)"
      "book_inv (cell m) ob'" "ob_outcomeID ob' = ob_outcomeID ob"
      "flat (ob_bids ob') = filter (\<lambda>r. o_ID (cell m r) \<noteq> oid) (flat (ob_bids ob))"
      "flat (ob_asks ob') = filter (\<lambda>r. o_ID (cell m r) \<noteq> oid) (flat (ob_asks ob))"
proof (cases "e_orderbooks e i")
  case None
  then show ?thesis by (intro missing) (simp_all add: Engine_CancelOrder_def book_of_def)
next
  case (Some ob)
  then have bi: "book_inv (cell m) ob" using inv by (simp add: engine_inv_def)
  show ?thesis
  proof (cases "oid \<in> (\<lambda>r. o_ID (cell m r)) ` set (book_refs ob)")
    case False
    note ms = Orderbook_CancelOrder_missing[OF bi False]
    have "e\<lparr>e_orderbooks := (e_orderbooks e)(i \<mapsto> ob)\<rparr> = e" using Some by (simp add: fun_upd_idem)
    with ms False Some show ?thesis
      by (intro missing) (simp_all add: Engine_CancelOrder_def book_of_def)
  next
    case True
    then obtain r where r: "r \<in> set (book_refs ob)" "o_ID (cell m r) = oid" by auto
    note F = Orderbook_CancelOrder_found[OF bi r(1), unfolded r(2)]
    obtain ob' where c: "Orderbook_CancelOrder oid ob = ((Some r, True), ob')"
      using F(1) by (metis prod.collapse)
    show ?thesis
      by (rule found[OF Some r, of "fst (time_now w)" "snd (time_now w)" ob'])
        (use F Some c Orderbook_CancelOrder_outcome[of oid ob] in
          \<open>simp_all add: Engine_CancelOrder_def Let_def time_now_def\<close>)
  qed
qed

lemma engine_inv_CancelOrder:
  fixes m :: "'d::linordered_field mem"
  assumes inv: "engine_inv m e" and res: "Engine_CancelOrder i oid m w e = (res', m', w', e')"
  shows "engine_inv m' e'"
proof (rule Engine_CancelOrder_cases[OF inv, where i = i and oid = oid and w = w])
  assume "Engine_CancelOrder i oid m w e = (Inl errOrderNotFound, m, w, e)"
  with res inv show ?thesis by simp
next
  fix r ob ob' now w''
  assume ob: "e_orderbooks e i = Some ob" and bi: "book_inv (cell m) ob'" "ob_outcomeID ob' = ob_outcomeID ob"
    and fl: "flat (ob_bids ob') = filter (\<lambda>r. o_ID (cell m r) \<noteq> oid) (flat (ob_bids ob))"
      "flat (ob_asks ob') = filter (\<lambda>r. o_ID (cell m r) \<noteq> oid) (flat (ob_asks ob))"
    and eq: "Engine_CancelOrder i oid m w e
       = (Inr r, upd r (\<lambda>x. x\<lparr>o_Status := Cancelled, o_UpdatedAt := now\<rparr>) m, w'',
          e\<lparr>e_orderbooks := (e_orderbooks e)(i \<mapsto> ob')\<rparr>)"
  let ?m = "upd r (\<lambda>x. x\<lparr>o_Status := Cancelled, o_UpdatedAt := now\<rparr>) m"
  have st: "static_of (cell ?m x) = static_of (cell m x)" for x by (simp add: static_of_def)
  have cg: "book_inv (cell ?m) b = book_inv (cell m) b" for b by (rule book_inv_static[OF st])
  have ro: "resting_ok (cell ?m x) = resting_ok (cell m x)" "o_OutcomeID (cell ?m x) = o_OutcomeID (cell m x)" for x
    by (simp_all add: resting_ok_status)
  have sub: "set (book_refs ob') \<subseteq> set (book_refs ob)" using fl by (auto simp: book_refs_def)
  have "m' = ?m" "e' = e\<lparr>e_orderbooks := (e_orderbooks e)(i \<mapsto> ob')\<rparr>" using res eq by simp_all
  with inv ob bi sub show ?thesis
    unfolding engine_inv_def cg ro by (auto simp del: cell_upd simp: cg ro)
qed

text \<open>No two resting orders of different users could trade.\<close>

lemma uncrossed_alt:
  assumes "book_inv h ob"
  shows "uncrossed h ob \<longleftrightarrow>
    (\<forall>x \<in> set (book_refs ob). \<forall>y \<in> set (book_refs ob).
       o_Side (h x) \<noteq> o_Side (h y) \<longrightarrow> crosses (h x) (h y) \<longrightarrow> o_UserID (h x) = o_UserID (h y))"
proof -
  have sides: "\<And>r. r \<in> set (flat (ob_bids ob)) \<Longrightarrow> o_Side (h r) = Buy"
    "\<And>r. r \<in> set (flat (ob_asks ob)) \<Longrightarrow> o_Side (h r) = Sell" using book_invD(3,4)[OF assms] by auto
  show ?thesis
  proof
    assume u: "uncrossed h ob"
    show "\<forall>x \<in> set (book_refs ob). \<forall>y \<in> set (book_refs ob).
       o_Side (h x) \<noteq> o_Side (h y) \<longrightarrow> crosses (h x) (h y) \<longrightarrow> o_UserID (h x) = o_UserID (h y)"
    proof (intro ballI impI)
      fix x y
      assume xy: "x \<in> set (book_refs ob)" "y \<in> set (book_refs ob)" "o_Side (h x) \<noteq> o_Side (h y)" "crosses (h x) (h y)"
      then consider "x \<in> set (flat (ob_bids ob))" "y \<in> set (flat (ob_asks ob))"
        | "y \<in> set (flat (ob_bids ob))" "x \<in> set (flat (ob_asks ob))"
        using sides by (auto simp: book_refs_def)
      then show "o_UserID (h x) = o_UserID (h y)"
      proof cases
        case 1
        with u have "o_Price (h x) < o_Price (h y) \<or> o_UserID (h x) = o_UserID (h y)" by (simp add: uncrossed_def)
        with 1 xy(4) sides show ?thesis by (auto simp: crosses_def)
      next
        case 2
        with u have "o_Price (h y) < o_Price (h x) \<or> o_UserID (h y) = o_UserID (h x)" by (simp add: uncrossed_def)
        with 2 xy(4) sides show ?thesis by (auto simp: crosses_def)
      qed
    qed
  next
    assume u: "\<forall>x \<in> set (book_refs ob). \<forall>y \<in> set (book_refs ob).
       o_Side (h x) \<noteq> o_Side (h y) \<longrightarrow> crosses (h x) (h y) \<longrightarrow> o_UserID (h x) = o_UserID (h y)"
    show "uncrossed h ob"
      unfolding uncrossed_def
    proof (intro ballI)
      fix b a
      assume ba: "b \<in> set (flat (ob_bids ob))" "a \<in> set (flat (ob_asks ob))"
      then have "crosses (h b) (h a) \<longrightarrow> o_UserID (h b) = o_UserID (h a)"
        using u sides by (auto simp: book_refs_def)
      then show "o_Price (h b) < o_Price (h a) \<or> o_UserID (h b) = o_UserID (h a)"
        using sides(1)[OF ba(1)] by (auto simp: crosses_def not_less)
    qed
  qed
qed

lemma crosses_sym: "o_Side x \<noteq> o_Side y \<Longrightarrow> crosses x y = crosses y x"
  by (cases "o_Side x"; cases "o_Side y") (auto simp: crosses_def)

lemma uncrossed_mono:
  assumes "book_inv h ob" "book_inv h' ob'" "set (book_refs ob') \<subseteq> set (book_refs ob)" "uncrossed h ob"
    and "\<And>x. static_of (h' x) = static_of (h x)"
  shows "uncrossed h' ob'"
proof -
  have s: "o_Side (h' x) = o_Side (h x)" "crosses (h' x) (h' y) = crosses (h x) (h y)"
    "o_UserID (h' x) = o_UserID (h x)" for x y
    using assms(5) by (simp_all add: static_of_iff crosses_def)
  show ?thesis
    using assms(3,4) unfolding uncrossed_alt[OF assms(1)] uncrossed_alt[OF assms(2)] s by blast
qed

lemma engine_uncrossed_PlaceOrder:
  fixes m :: "'d::linordered_field mem"
  assumes inv: "engine_inv m e" and new: "new_order m e r" and un: "engine_uncrossed m e"
    and res: "Engine_PlaceOrder r m w e = (res', m', w', e')"
  shows "engine_uncrossed m' e'"
proof (cases res')
  case (Inl err)
  with Engine_PlaceOrder_rejected(1)[of r m w e err] res un show ?thesis by simp
next
  case (Inr mr)
  let ?i = "o_OutcomeID (cell m r)"
  let ?ob = "book_of ?i e"
  from Engine_PlaceOrder_books[OF inv new res[unfolded Inr]] obtain ob' where
    books: "e_orderbooks e' = (e_orderbooks e)(?i \<mapsto> ob')" and inv': "book_inv (cell m') ob'"
    and sub: "set (book_refs ob') \<subseteq> insert r (set (book_refs ?ob))"
    and st: "\<forall>x. static_of (cell m' x) = static_of (cell m x)"
    and rr: "r \<in> set (book_refs ob') \<Longrightarrow> \<forall>x \<in> set (flat (opp (o_Side (cell m r)) ob')).
       crosses (cell m r) (cell m x) \<longrightarrow> o_UserID (cell m x) = o_UserID (cell m r)" by metis
  note bo = engine_inv_book_of(1)[OF inv, of ?i]
  have uo: "uncrossed (cell m) ?ob"
    using un by (auto simp: engine_uncrossed_def book_of_def uncrossed_def NewOrderbook_def split: option.splits)
  have inv'': "book_inv (cell m) ob'" using inv' book_inv_static[of "cell m'" "cell m" ob'] st by blast
  have u': "uncrossed (cell m) ob'"
    unfolding uncrossed_alt[OF inv'']
  proof (intro ballI impI)
    fix x y
    assume x: "x \<in> set (book_refs ob')" and y: "y \<in> set (book_refs ob')"
      and sd: "o_Side (cell m x) \<noteq> o_Side (cell m y)" and c: "crosses (cell m x) (cell m y)"
    have on: "z \<in> set (flat (opp (o_Side (cell m r)) ob'))"
      if "z \<in> set (book_refs ob')" "o_Side (cell m z) \<noteq> o_Side (cell m r)" for z
      using that book_invD(3,4)[OF inv''] by (cases "o_Side (cell m r)") (auto simp: book_refs_def opp_def)
    consider "x = r" | "y = r" | "x \<in> set (book_refs ?ob)" "y \<in> set (book_refs ?ob)" using x y sub by blast
    then show "o_UserID (cell m x) = o_UserID (cell m y)"
    proof cases
      case 1
      with rr x on[OF y] sd c show ?thesis by metis
    next
      case 2
      with rr y on[OF x] sd c crosses_sym[OF sd] show ?thesis by metis
    next
      case 3
      with uo sd c show ?thesis unfolding uncrossed_alt[OF bo] by blast
    qed
  qed
  show ?thesis
    unfolding engine_uncrossed_def
  proof (intro allI impI)
    fix i ob
    assume ob: "e_orderbooks e' i = Some ob"
    have "book_inv (cell m) ob \<and> uncrossed (cell m) ob"
      using ob books inv un inv'' u' by (cases "i = ?i") (auto simp: engine_inv_def engine_uncrossed_def)
    then show "uncrossed (cell m') ob"
      using uncrossed_mono[of "cell m" ob "cell m'" ob] book_inv_static[of "cell m'" "cell m" ob] st by blast
  qed
qed

lemma engine_uncrossed_CancelOrder:
  fixes m :: "'d::linordered_field mem"
  assumes inv: "engine_inv m e" and un: "engine_uncrossed m e"
    and res: "Engine_CancelOrder i oid m w e = (res', m', w', e')"
  shows "engine_uncrossed m' e'"
proof (rule Engine_CancelOrder_cases[OF inv, where i = i and oid = oid and w = w])
  assume "Engine_CancelOrder i oid m w e = (Inl errOrderNotFound, m, w, e)"
  with res un show ?thesis by simp
next
  fix r ob ob' now w''
  assume ob: "e_orderbooks e i = Some ob" and bi: "book_inv (cell m) ob'"
    and fl: "flat (ob_bids ob') = filter (\<lambda>r. o_ID (cell m r) \<noteq> oid) (flat (ob_bids ob))"
      "flat (ob_asks ob') = filter (\<lambda>r. o_ID (cell m r) \<noteq> oid) (flat (ob_asks ob))"
    and eq: "Engine_CancelOrder i oid m w e
       = (Inr r, upd r (\<lambda>x. x\<lparr>o_Status := Cancelled, o_UpdatedAt := now\<rparr>) m, w'',
          e\<lparr>e_orderbooks := (e_orderbooks e)(i \<mapsto> ob')\<rparr>)"
  have m': "m' = upd r (\<lambda>x. x\<lparr>o_Status := Cancelled, o_UpdatedAt := now\<rparr>) m"
    "e_orderbooks e' = (e_orderbooks e)(i \<mapsto> ob')" using res eq by auto
  have st: "static_of (cell m' x) = static_of (cell m x)" for x by (simp add: m' static_of_def)
  have "uncrossed (cell m') b" if "book_inv (cell m) b" "uncrossed (cell m) b" for b
    using uncrossed_mono[of "cell m" b "cell m'" b] book_inv_static[of "cell m'" "cell m" b] st that by blast
  moreover have "uncrossed (cell m) ob'" using un ob fl by (auto simp: engine_uncrossed_def uncrossed_def)
  ultimately show ?thesis
    using inv un bi m'(2) unfolding engine_uncrossed_def engine_inv_def by (metis fun_upd_apply option.inject)
qed

section \<open>The states an engine can reach\<close>

text \<open>
  The engine of a market from its creation on: new orders, cancellations and subscriptions
  in any order, with any results, and other objects allocated in between.
\<close>

inductive reachable :: "string \<Rightarrow> 'd::linordered_field mem \<Rightarrow> 'd Engine \<Rightarrow> bool" for mid where
  start: "reachable mid m (NewEngine mid)"
| place: "reachable mid m e \<Longrightarrow> (r, m1) = alloc x m \<Longrightarrow> o_FilledQty x = 0 \<Longrightarrow>
    (\<forall>i ob. e_orderbooks e i = Some ob \<longrightarrow> o_ID x \<notin> (\<lambda>r. o_ID (cell m r)) ` set (book_refs ob)) \<Longrightarrow>
    Engine_PlaceOrder r m1 w e = (res, m', w', e') \<Longrightarrow> reachable mid m' e'"
| cancel: "reachable mid m e \<Longrightarrow> Engine_CancelOrder i oid m w e = (res, m', w', e') \<Longrightarrow> reachable mid m' e'"
| subscribe: "reachable mid m e \<Longrightarrow> reachable mid m (Engine_Subscribe ch e)"
| other: "reachable mid m e \<Longrightarrow> (r, m') = alloc x m \<Longrightarrow> reachable mid m' e"

lemma alloc_keeps:
  fixes m :: "'d::linordered_field mem"
  assumes "engine_inv m e" and "(r, m1) = alloc x m"
  shows "engine_inv m1 e" "e_orderbooks e i = Some ob \<Longrightarrow> y \<in> set (book_refs ob) \<Longrightarrow> cell m1 y = cell m y"
    "cell m1 r = x" "r = top m" "top m1 = Suc (top m)"
proof -
  have r: "r = top m" "m1 = m\<lparr>cell := (cell m)(top m := x), top := Suc (top m)\<rparr>"
    using assms(2) by (simp_all add: alloc_def)
  then show "cell m1 r = x" "r = top m" "top m1 = Suc (top m)" by simp_all
  have same: "cell m1 y = cell m y" if "e_orderbooks e i = Some ob" "y \<in> set (book_refs ob)" for i ob y
    using assms(1) that by (auto simp: engine_inv_def r)
  then show "e_orderbooks e i = Some ob \<Longrightarrow> y \<in> set (book_refs ob) \<Longrightarrow> cell m1 y = cell m y" .
  show "engine_inv m1 e"
    unfolding engine_inv_def
  proof (intro allI impI)
    fix i ob
    assume ob: "e_orderbooks e i = Some ob"
    with assms(1) have "book_inv (cell m) ob \<and> ob_outcomeID ob = i \<and>
      (\<forall>r \<in> set (book_refs ob). resting_ok (cell m r) \<and> o_OutcomeID (cell m r) = i \<and> r < top m)"
      by (simp add: engine_inv_def)
    moreover from this have "book_inv (cell m1) ob"
      using book_inv_cong[of ob "cell m1" "cell m"] same[OF ob] by simp
    ultimately show "book_inv (cell m1) ob \<and> ob_outcomeID ob = i \<and>
      (\<forall>r \<in> set (book_refs ob). resting_ok (cell m1 r) \<and> o_OutcomeID (cell m1 r) = i \<and> r < top m1)"
      using same[OF ob] r by auto
  qed
qed

lemma alloc_uncrossed:
  fixes m :: "'d::linordered_field mem"
  assumes "engine_inv m e" and "engine_uncrossed m e" and "(r, m1) = alloc x m"
  shows "engine_uncrossed m1 e"
  unfolding engine_uncrossed_def
proof (intro allI impI)
  fix i ob
  assume ob: "e_orderbooks e i = Some ob"
  then have "uncrossed (cell m) ob" using assms(2) by (simp add: engine_uncrossed_def)
  then show "uncrossed (cell m1) ob"
    using alloc_keeps(2)[OF assms(1,3) ob] by (simp add: uncrossed_def book_refs_def)
qed

lemma reachable_ok:
  assumes "reachable mid m e"
  shows "engine_inv m e \<and> engine_uncrossed m e"
  using assms
proof induction
  case (start m)
  then show ?case by (simp add: engine_inv_def engine_uncrossed_def NewEngine_def)
next
  case (place m e r m1 x w res m' w' e')
  then have inv: "engine_inv m e" and un: "engine_uncrossed m e" by auto
  note al = alloc_keeps[OF inv place.hyps(2)]
  have new: "new_order m1 e r"
    unfolding new_order_def
  proof (intro conjI allI impI)
    fix i ob
    assume ob: "e_orderbooks e i = Some ob"
    have "(\<lambda>r. o_ID (cell m1 r)) ` set (book_refs ob) = (\<lambda>r. o_ID (cell m r)) ` set (book_refs ob)"
      using al(2)[OF ob] by auto
    with place.hyps(4) ob al(3) show "o_ID (cell m1 r) \<notin> (\<lambda>r. o_ID (cell m1 r)) ` set (book_refs ob)" by simp
  qed (use al place.hyps(3) in simp_all)
  show ?case
    using engine_inv_PlaceOrder[OF al(1) new place.hyps(5)]
      engine_uncrossed_PlaceOrder[OF al(1) new alloc_uncrossed[OF inv un place.hyps(2)] place.hyps(5)] by blast
next
  case (cancel m e i oid w res m' w' e')
  then show ?case using engine_inv_CancelOrder engine_uncrossed_CancelOrder by blast
next
  case (subscribe m e ch)
  then show ?case by (simp add: engine_inv_def engine_uncrossed_def Engine_Subscribe_def)
next
  case (other m e r m' x)
  then show ?case using alloc_keeps(1) alloc_uncrossed by blast
qed

end
