(* ===== verification/MatchSpec.thy ===== *)
theory MatchSpec
  imports Matching
begin

text \<open>
  What a match is to do, without books, queues or pointers that change: a sweep over the
  opposite orders in price-time order. The loop of \<open>matchOrder\<close> implements it, and the
  properties of the trades of the engine are read off the sweep.
\<close>

section \<open>The sweep\<close>

fun sweep ::
    "(ref \<Rightarrow> 'd::linordered_field Order) \<Rightarrow> 'd Order \<Rightarrow> 'd \<Rightarrow> ref list \<Rightarrow> (ref \<times> 'd) list \<times> ref list \<times> ref list" where
  "sweep h tk rem [] = ([], [], [])"
| "sweep h tk rem (m # ms) =
     (if rem \<le> 0 \<or> \<not> crosses tk (h m) then ([], m # ms, [])
      else if o_UserID tk = o_UserID (h m) then
        let (f, rest, sk) = sweep h tk rem ms in (f, rest, m # sk)
      else if remaining (h m) \<le> rem then
        let (f, rest, sk) = sweep h tk (rem - remaining (h m)) ms in ((m, remaining (h m)) # f, rest, sk)
      else ([(m, rem)], m # ms, []))"

text \<open>The trade of a fill, up to its identifier and time.\<close>

definition untimed :: "'d Trade \<Rightarrow> 'd Trade" where
  "untimed tr = tr\<lparr>t_ID := [], t_CreatedAt := 0\<rparr>"

definition fill_trade :: "(ref \<Rightarrow> 'd Order) \<Rightarrow> ref \<Rightarrow> ref \<times> 'd \<Rightarrow> 'd Trade" where
  "fill_trade h t p =
     \<lparr>t_ID = [], t_MarketID = o_MarketID (h t), t_OutcomeID = o_OutcomeID (h t),
      t_MakerOrderID = o_ID (h (fst p)), t_TakerOrderID = o_ID (h t),
      t_MakerUserID = o_UserID (h (fst p)), t_TakerUserID = o_UserID (h t),
      t_Price = o_Price (h (fst p)), t_Quantity = snd p, t_CreatedAt = 0\<rparr>"

definition filled_by :: "ref \<Rightarrow> (ref \<times> 'd::linordered_field) list \<Rightarrow> 'd" where
  "filled_by x f = sum_list (map snd (filter (\<lambda>p. fst p = x) f))"

definition swept :: "ref \<Rightarrow> 'd::linordered_field matching \<Rightarrow> 'd matching \<Rightarrow> bool" where
  "swept t s s' \<longleftrightarrow>
     (let h = cell (ms_mem s); h' = cell (ms_mem s'); side = o_Side (h t);
          (f, rest, sk) = sweep h (h t) (remaining (h t)) (flat (opp side (ms_book s)))
      in flat (opp side (ms_book s')) = rest \<and> ms_skipped s' = ms_skipped s @ sk \<and>
         map untimed (ms_trades s') = map untimed (ms_trades s) @ map (fill_trade h t) f \<and>
         o_FilledQty (h' t) = o_FilledQty (h t) + sum_list (map snd f) \<and>
         (\<forall>x. x \<noteq> t \<longrightarrow> o_FilledQty (h' x) = o_FilledQty (h x) + filled_by x f))"

lemma sweep_cong:
  assumes "\<And>x. x \<in> set ms \<Longrightarrow> h' x = h x" and "static_of tk' = static_of tk"
  shows "sweep h' tk' rem ms = sweep h tk rem ms"
  using assms
  by (induction ms arbitrary: rem) (auto simp: crosses_def static_of_iff)

lemma sweep_nothing: "rem \<le> 0 \<Longrightarrow> sweep h tk rem ms = ([], ms, [])"
  by (cases ms) auto

lemma sweep_fills_in: "fst ` set (fst (sweep h tk rem ms)) \<subseteq> set ms"
proof (induction ms arbitrary: rem)
  case (Cons m ms)
  from Cons[of rem] Cons[of "rem - remaining (h m)"] show ?case
    by (auto simp: image_subset_iff split: prod.splits)
qed simp

lemma fill_trade_static:
  assumes "\<And>x. static_of (h' x) = static_of (h x)"
  shows "fill_trade h' t = fill_trade h t"
  using assms by (auto simp: fill_trade_def static_of_iff fun_eq_iff)

lemma untimed_trade_of:
  "untimed (trade_of t m s)
   = fill_trade (cell (ms_mem s)) t (m, min (remaining (cell (ms_mem s) t)) (remaining (cell (ms_mem s) m)))"
  by (simp add: untimed_def trade_of_def fill_trade_def Let_def)

lemma filled_by_Cons: "filled_by x (p # f) = (if fst p = x then snd p else 0) + filled_by x f"
  by (simp add: filled_by_def)

lemma filled_by_absent: "x \<notin> fst ` set f \<Longrightarrow> filled_by x f = 0"
  by (induction f) (auto simp: filled_by_def)

text \<open>The loop implements the sweep.\<close>

lemma swept_stop:
  assumes "match_step t s = None"
    and lv: "levels_inv w (cell (ms_mem s)) (opp (o_Side (cell (ms_mem s) t)) (ms_book s))"
  shows "swept t s s"
proof -
  let ?h = "cell (ms_mem s)" and ?side = "o_Side (cell (ms_mem s) t)"
  have "sweep ?h (?h t) (remaining (?h t)) (flat (opp ?side (ms_book s))) = ([], flat (opp ?side (ms_book s)), [])"
  proof (cases "best_opp ?side (ms_book s)")
    case None
    with best_opp_None[OF lv] show ?thesis by simp
  next
    case (Some m)
    with best_opp_Some[OF Some] match_step_None[OF assms(1)] show ?thesis by auto
  qed
  then show ?thesis by (simp add: swept_def filled_by_def)
qed

lemma swept_step:
  fixes s :: "'d::linordered_field matching"
  assumes step: "match_step t s = Some s'" and IH: "swept t s' s''"
    and d: "distinct (flat (opp (o_Side (cell (ms_mem s) t)) (ms_book s)))"
    and t: "t \<notin> set (flat (opp (o_Side (cell (ms_mem s) t)) (ms_book s)))"
  shows "swept t s s''"
proof -
  let ?h = "cell (ms_mem s)" and ?side = "o_Side (cell (ms_mem s) t)"
  show ?thesis
  proof (rule match_step_cases[OF step])
    fix m rs
    assume fl: "flat (opp ?side (ms_book s)) = m # rs" and best: "best_opp ?side (ms_book s) = Some m"
      and pos: "0 < remaining (?h t)" "crosses (?h t) (?h m)" "o_UserID (?h t) = o_UserID (?h m)"
      and s': "s' = s\<lparr>ms_book := dequeue_opp ?side ?h (ms_book s), ms_skipped := ms_skipped s @ [m]\<rparr>"
    have "flat (opp ?side (ms_book s')) = rs" using fl flat_dequeue_opp[OF best] by (simp add: s')
    with IH pos fl show ?thesis
      by (auto simp: swept_def Let_def s' split: prod.splits)
  next
    fix m rs w
    assume fl: "flat (opp ?side (ms_book s)) = m # rs" and best: "best_opp ?side (ms_book s) = Some m"
      and pos: "0 < remaining (?h t)" "crosses (?h t) (?h m)" "o_UserID (?h t) \<noteq> o_UserID (?h m)"
      and neq: "t \<noteq> m" and le: "remaining (?h m) \<le> remaining (?h t)"
      and s': "s' = s\<lparr>ms_mem := fill_maker t m s,
             ms_book := dequeue_opp ?side (cell (fill_maker t m s)) (ms_book s),
             ms_world := w, ms_trades := ms_trades s @ [trade_of t m s]\<rparr>"
    let ?h' = "cell (fill_maker t m s)"
    have st: "static_of (?h' x) = static_of (?h x)" for x by (rule fill_maker_static)
    have fl': "flat (opp ?side (ms_book s')) = rs" using fl flat_dequeue_opp[OF best] by (simp add: s')
    have mn: "min (remaining (?h t)) (remaining (?h m)) = remaining (?h m)" using le by simp
    have rem: "remaining (?h' t) = remaining (?h t) - remaining (?h m)"
      and fq: "o_FilledQty (?h' t) = o_FilledQty (?h t) + remaining (?h m)"
        "o_FilledQty (?h' m) = o_FilledQty (?h m) + remaining (?h m)"
      using fill_maker_remaining[OF neq, of s] fill_maker_filled[OF neq, of s] mn by simp_all
    obtain f rest sk where sw: "sweep ?h (?h t) (remaining (?h t) - remaining (?h m)) rs = (f, rest, sk)"
      by (metis prod.collapse)
    have "sweep ?h' (?h' t) (remaining (?h' t)) rs = (f, rest, sk)"
      unfolding rem sw[symmetric] using d t fl by (intro sweep_cong st fill_maker_other) auto
    moreover have "o_Side (?h' t) = ?side" using st[of t] by (simp add: static_of_iff)
    moreover have "fill_trade ?h' t = fill_trade ?h t" by (rule fill_trade_static[OF st])
    ultimately have IH': "flat (opp ?side (ms_book s'')) = rest" "ms_skipped s'' = ms_skipped s @ sk"
      "map untimed (ms_trades s'') = map untimed (ms_trades s @ [trade_of t m s]) @ map (fill_trade ?h t) f"
      "o_FilledQty (cell (ms_mem s'') t) = o_FilledQty (?h' t) + sum_list (map snd f)"
      "\<forall>x. x \<noteq> t \<longrightarrow> o_FilledQty (cell (ms_mem s'') x) = o_FilledQty (?h' x) + filled_by x f"
      using IH fl' by (simp_all add: swept_def Let_def s')
    have "\<forall>x. x \<noteq> t \<longrightarrow> o_FilledQty (cell (ms_mem s'') x) = o_FilledQty (?h x) + filled_by x ((m, remaining (?h m)) # f)"
      using IH'(5) fq(2) fill_maker_other[of _ t m s] by (auto simp: filled_by_Cons)
    with IH' fq(1) sw fl pos le mn show ?thesis
      by (simp add: swept_def Let_def untimed_trade_of)
  next
    fix m rs w
    assume fl: "flat (opp ?side (ms_book s)) = m # rs" and best: "best_opp ?side (ms_book s) = Some m"
      and pos: "0 < remaining (?h t)" "crosses (?h t) (?h m)" "o_UserID (?h t) \<noteq> o_UserID (?h m)"
      and neq: "t \<noteq> m" and lt: "remaining (?h t) < remaining (?h m)"
      and s': "s' = s\<lparr>ms_mem := fill_maker t m s, ms_world := w, ms_trades := ms_trades s @ [trade_of t m s]\<rparr>"
    let ?h' = "cell (fill_maker t m s)"
    have st: "static_of (?h' x) = static_of (?h x)" for x by (rule fill_maker_static)
    have mn: "min (remaining (?h t)) (remaining (?h m)) = remaining (?h t)" using lt by simp
    have rem: "remaining (?h' t) = 0"
      and fq: "o_FilledQty (?h' t) = o_FilledQty (?h t) + remaining (?h t)"
        "o_FilledQty (?h' m) = o_FilledQty (?h m) + remaining (?h t)"
      using fill_maker_remaining[OF neq, of s] fill_maker_filled[OF neq, of s] mn by simp_all
    moreover have "o_Side (?h' t) = ?side" using st[of t] by (simp add: static_of_iff)
    moreover have "fill_trade ?h' t = fill_trade ?h t" by (rule fill_trade_static[OF st])
    ultimately have IH': "flat (opp ?side (ms_book s'')) = m # rs" "ms_skipped s'' = ms_skipped s"
      "map untimed (ms_trades s'') = map untimed (ms_trades s @ [trade_of t m s])"
      "o_FilledQty (cell (ms_mem s'') t) = o_FilledQty (?h' t)"
      "\<forall>x. x \<noteq> t \<longrightarrow> o_FilledQty (cell (ms_mem s'') x) = o_FilledQty (?h' x)"
      using IH fl by (simp_all add: swept_def Let_def s' sweep_nothing filled_by_def)
    have "\<forall>x. x \<noteq> t \<longrightarrow> o_FilledQty (cell (ms_mem s'') x) = o_FilledQty (?h x) + filled_by x [(m, remaining (?h t))]"
      using IH'(5) fq(2) fill_maker_other[of _ t m s] by (auto simp: filled_by_def)
    with IH' fq(1) fl pos lt mn show ?thesis
      by (simp add: swept_def Let_def untimed_trade_of)
  qed
qed

lemma match_loop_swept:
  assumes mi: "match_inv t m0 ob0 s" and t: "t \<notin> set (book_refs ob0)" and d: "distinct (book_refs ob0)"
  shows "swept t s (match_loop t s)"
  using assms
proof (induction t s rule: match_loop.induct)
  case (1 t s)
  let ?h = "cell (ms_mem s)"
  have bi: "book_inv ?h (ms_book s)" and sub: "mset (book_refs (ms_book s)) + mset (ms_skipped s) \<subseteq># mset (book_refs ob0)"
    using "1.prems"(1) by (simp_all add: match_inv_def Let_def)
  show ?case
  proof (cases "match_step t s")
    case None
    with swept_stop[OF None book_inv_opp[OF bi]] show ?thesis by (simp add: match_loop_stop)
  next
    case (Some s')
    have "match_inv t m0 ob0 s'" by (rule match_inv_step[OF "1.prems"(1) Some "1.prems"(2,3)])
    note IH = "1.IH"[OF Some this "1.prems"(2,3)]
    have "distinct (book_refs (ms_book s))" "set (book_refs (ms_book s)) \<subseteq> set (book_refs ob0)"
      using distinct_append_mset[OF sub "1.prems"(3)] set_mset_mono[OF sub] by auto
    then have "distinct (flat (opp side (ms_book s)))" "t \<notin> set (flat (opp side (ms_book s)))" for side
      using "1.prems"(2) by (auto simp: book_refs_def opp_def)
    with swept_step[OF Some IH] show ?thesis by (simp add: match_loop_step[OF Some])
  qed
qed

text \<open>
  \<open>matchOrder\<close> implements the sweep: its trades are the fills of the sweep over the opposite
  side, at the makers' prices, and the filled quantities grow by the fills.
\<close>

lemma matchOrder_sweep:
  fixes m :: "'d::linordered_field mem"
  assumes inv: "book_inv (cell m) ob" and t: "t \<notin> set (book_refs ob)" and rem: "0 \<le> remaining (cell m t)"
    and left: "\<forall>x \<in> set (book_refs ob). 0 < remaining (cell m x)"
    and res: "matchOrder t m ob w = (trades, m1, ob1, w1)"
    and sw: "sweep (cell m) (cell m t) (remaining (cell m t)) (flat (opp (o_Side (cell m t)) ob)) = (f, rest, sk)"
  shows "map untimed trades = map (fill_trade (cell m) t) f"
    and "o_FilledQty (cell m1 t) = o_FilledQty (cell m t) + sum_list (map snd f)"
    and "x \<noteq> t \<Longrightarrow> o_FilledQty (cell m1 x) = o_FilledQty (cell m x) + filled_by x f"
proof -
  let ?s = "\<lparr>ms_mem = m, ms_book = ob, ms_world = w, ms_trades = [], ms_skipped = []\<rparr>"
  have "distinct (book_refs ob)" using book_invD(5)[OF inv] by (simp add: distinct_map)
  from match_loop_swept[OF match_inv_init[OF inv rem left] t this, of w]
  have "swept t ?s (match_loop t ?s)" .
  moreover have "trades = ms_trades (match_loop t ?s)" "m1 = ms_mem (match_loop t ?s)"
    using res by (simp_all add: matchOrder_def Let_def)
  ultimately show "map untimed trades = map (fill_trade (cell m) t) f"
    "o_FilledQty (cell m1 t) = o_FilledQty (cell m t) + sum_list (map snd f)"
    "x \<noteq> t \<Longrightarrow> o_FilledQty (cell m1 x) = o_FilledQty (cell m x) + filled_by x f"
    using sw by (simp_all add: swept_def Let_def)
qed

section \<open>What a sweep takes\<close>

definition eligible :: "(ref \<Rightarrow> 'd::linordered_field Order) \<Rightarrow> 'd Order \<Rightarrow> ref \<Rightarrow> bool" where
  "eligible h tk m \<longleftrightarrow> o_UserID (h m) \<noteq> o_UserID tk \<and> crosses tk (h m)"

lemma sweep_fills:
  "fst (sweep h tk rem (m # ms)) =
     (if rem \<le> 0 \<or> \<not> crosses tk (h m) then []
      else if o_UserID tk = o_UserID (h m) then fst (sweep h tk rem ms)
      else if remaining (h m) \<le> rem then (m, remaining (h m)) # fst (sweep h tk (rem - remaining (h m)) ms)
      else [(m, rem)])"
  by (simp split: prod.splits)

text \<open>Each fill is of an order of another user that crosses, for a positive part of what it has left.\<close>

lemma sweep_fill_ok:
  assumes "\<forall>m \<in> set ms. 0 < remaining (h m)" and "p \<in> set (fst (sweep h tk rem ms))"
  shows "fst p \<in> set ms \<and> eligible h tk (fst p) \<and> 0 < snd p \<and> snd p \<le> remaining (h (fst p))"
  using assms
proof (induction ms arbitrary: rem)
  case (Cons m ms)
  then show ?case
    by (auto simp: sweep_fills eligible_def simp del: sweep.simps(2) split: if_splits)
qed simp

text \<open>
  The makers are the first orders of other users in price-time order, each but the last
  filled completely: an order is only reached when those before it have nothing left.
\<close>

lemma sweep_prefix:
  "\<exists>ms'. filter (\<lambda>m. o_UserID (h m) \<noteq> o_UserID tk) ms = map fst (fst (sweep h tk rem ms)) @ ms'"
proof (induction ms arbitrary: rem)
  case (Cons m ms)
  from Cons[of rem] Cons[of "rem - remaining (h m)"] show ?case
    by (simp add: sweep_fills del: sweep.simps(2))
qed simp

lemma sweep_butlast:
  "p \<in> set (butlast (fst (sweep h tk rem ms))) \<Longrightarrow> snd p = remaining (h (fst p))"
proof (induction ms arbitrary: rem)
  case (Cons m ms)
  then show ?case
    by (auto simp: sweep_fills simp del: sweep.simps(2) split: if_splits)
qed simp

text \<open>The taker gets all it asks for, or all there is for it.\<close>

lemma sweep_total:
  assumes "0 \<le> rem" and "\<forall>m \<in> set ms. 0 < remaining (h m)"
    and "sorted_wrt (\<lambda>x y. crosses tk (h y) \<longrightarrow> crosses tk (h x)) ms"
  shows "sum_list (map snd (fst (sweep h tk rem ms)))
       = min rem (sum_list (map (\<lambda>m. remaining (h m)) (filter (eligible h tk) ms)))"
  using assms
proof (induction ms arbitrary: rem)
  case (Cons m ms)
  have nn: "0 \<le> sum_list (map (\<lambda>m. remaining (h m)) (filter (eligible h tk) ms))"
    using Cons.prems(2) by (intro sum_list_nonneg) auto
  show ?case
  proof (cases "rem \<le> 0 \<or> \<not> crosses tk (h m)")
    case True
    then consider "rem = 0" | "\<not> crosses tk (h m)" using Cons.prems(1) by fastforce
    then show ?thesis
    proof cases
      case 1
      with nn Cons.prems(2) show ?thesis by (simp add: min_def)
    next
      case 2
      with Cons.prems(3) have "filter (eligible h tk) (m # ms) = []"
        by (auto simp: eligible_def filter_empty_conv)
      with True Cons.prems(1) show ?thesis by simp
    qed
  next
    case False
    then have "eligible h tk m \<longleftrightarrow> o_UserID tk \<noteq> o_UserID (h m)" by (auto simp: eligible_def)
    with False show ?thesis
      using Cons.IH[of rem] Cons.IH[of "rem - remaining (h m)"] Cons.prems nn
      by (auto simp: sweep_fills min_def simp del: sweep.simps(2))
  qed
qed simp

lemma flat_crosses_sorted:
  assumes "book_inv h ob"
  shows "sorted_wrt (\<lambda>x y. crosses tk (h y) \<longrightarrow> crosses tk (h x)) (flat (opp (o_Side tk) ob))"
proof (cases "o_Side tk")
  case Buy
  with ask_side.flat_sorted[OF book_invD(2)[OF assms]] show ?thesis
    by (auto simp: opp_def crosses_def elim!: sorted_wrt_mono_rel[rotated])
next
  case Sell
  with bid_side.flat_sorted[OF book_invD(1)[OF assms]] show ?thesis
    by (auto simp: opp_def crosses_def elim!: sorted_wrt_mono_rel[rotated])
qed

section \<open>A market in use\<close>

text \<open>
  A concrete run for the instances of the properties: Alice's ask of 10 at 0.60 rests, and
  Bob bids for 4 at 0.70.
\<close>

definition ex_order :: "string \<Rightarrow> string \<Rightarrow> OrderSide \<Rightarrow> rat \<Rightarrow> rat \<Rightarrow> rat Order" where
  "ex_order i u sd p q =
     \<lparr>o_ID = i, o_UserID = u, o_MarketID = ''m'', o_OutcomeID = ''yes'', o_Side = sd, o_Price = p,
      o_Quantity = q, o_FilledQty = 0, o_Status = Open, o_CreatedAt = 0, o_UpdatedAt = 0\<rparr>"

definition ex_world :: world where
  "ex_world = \<lparr>w_uuid = \<lambda>n. ''id'', w_clock = int, w_fault = \<lambda>n. False, w_nuuid = 0, w_nclock = 0, w_nfault = 0\<rparr>"

definition ex_ask :: "rat Order" where "ex_ask = ex_order ''a'' ''alice'' Sell (6 / 10) 10"

definition ex_bid :: "rat Order" where "ex_bid = ex_order ''b'' ''bob'' Buy (7 / 10) 4"

definition ex_mem0 :: "rat mem" where "ex_mem0 = \<lparr>cell = (\<lambda>r. ex_ask), top = 0\<rparr>"

definition ex_run1 :: "(err + rat MatchResult) \<times> rat mem \<times> world \<times> rat Engine" where
  "ex_run1 = Engine_PlaceOrder 0 (snd (alloc ex_ask ex_mem0)) ex_world (NewEngine ''m'')"

definition ex_mem1 :: "rat mem" where "ex_mem1 = snd (alloc ex_bid (fst (snd ex_run1)))"

definition ex_e1 :: "rat Engine" where "ex_e1 = snd (snd (snd ex_run1))"

definition ex_run2 :: "(err + rat MatchResult) \<times> rat mem \<times> world \<times> rat Engine" where
  "ex_run2 = Engine_PlaceOrder 1 ex_mem1 ex_world ex_e1"

lemma ex_reachable1: "reachable ''m'' (fst (snd ex_run1)) ex_e1"
proof (rule reachable.place)
  show "reachable ''m'' ex_mem0 (NewEngine ''m'')" by (rule reachable.start)
  show "(0, snd (alloc ex_ask ex_mem0)) = alloc ex_ask ex_mem0" by (simp add: alloc_def ex_mem0_def)
  show "o_FilledQty ex_ask = 0" by (simp add: ex_ask_def ex_order_def)
  show "Engine_PlaceOrder 0 (snd (alloc ex_ask ex_mem0)) ex_world (NewEngine ''m'')
      = (fst ex_run1, fst (snd ex_run1), fst (snd (snd ex_run1)), ex_e1)"
    by (simp add: ex_run1_def ex_e1_def)
qed (simp add: NewEngine_def)

lemma ex_e1_books: "e_orderbooks ex_e1 i = Some ob \<Longrightarrow> i = ''yes'' \<and> book_refs ob = [0]"
proof -
  assume ob: "e_orderbooks ex_e1 i = Some ob"
  have "map_option book_refs (e_orderbooks ex_e1 ''yes'') = Some [0]" by code_simp
  moreover have "i = ''yes''"
  proof (rule ccontr)
    assume "i \<noteq> ''yes''"
    moreover have "minPrice \<le> o_Price (cell (snd (alloc ex_ask ex_mem0)) 0)"
      "o_Price (cell (snd (alloc ex_ask ex_mem0)) 0) \<le> maxPrice" "0 < o_Quantity (cell (snd (alloc ex_ask ex_mem0)) 0)"
      by code_simp+
    moreover obtain tr m1 ob1 w1 where "matchOrder 0 (snd (alloc ex_ask ex_mem0))
        (book_of (o_OutcomeID (cell (snd (alloc ex_ask ex_mem0)) 0)) (NewEngine ''m'')) ex_world = (tr, m1, ob1, w1)"
      by (metis prod.collapse)
    moreover have "o_OutcomeID (cell (snd (alloc ex_ask ex_mem0)) 0) = ''yes''" by code_simp
    ultimately have "e_orderbooks ex_e1 i = e_orderbooks (NewEngine ''m'' :: rat Engine) i"
      using Engine_PlaceOrder_accepted[of "snd (alloc ex_ask ex_mem0)" 0 "NewEngine ''m''" ex_world tr m1 ob1 w1
          "e_orderbooks ex_e1 i = e_orderbooks (NewEngine ''m'' :: rat Engine) i"]
      by (auto simp: ex_e1_def ex_run1_def)
    with ob show False by (simp add: NewEngine_def)
  qed
  ultimately show ?thesis using ob by auto
qed

lemma ex_new: "new_order ex_mem1 ex_e1 1" and ex_inv: "engine_inv ex_mem1 ex_e1"
proof -
  have al: "(1, ex_mem1) = alloc ex_bid (fst (snd ex_run1))"
  proof -
    have "fst (alloc ex_bid (fst (snd ex_run1))) = 1" by code_simp
    then show ?thesis by (simp add: ex_mem1_def prod_eq_iff)
  qed
  show "engine_inv ex_mem1 ex_e1"
    using alloc_keeps(1)[OF _ al] reachable_ok[OF ex_reachable1] by blast
  have "o_ID (cell ex_mem1 1) \<noteq> o_ID (cell ex_mem1 0)" "1 < top ex_mem1" "o_FilledQty (cell ex_mem1 1) = 0"
    by code_simp+
  then show "new_order ex_mem1 ex_e1 1" by (auto simp: new_order_def dest!: ex_e1_books)
qed

section \<open>Properties\<close>

lemma opp_resting:
  assumes "engine_inv m e" and "x \<in> set (flat (opp sd (book_of i e)))"
  shows "resting_ok (cell m x)"
  using engine_inv_book_of(3)[OF assms(1), of x i] assms(2) by (simp add: set_book_refs[of _ sd])

lemma accepted_sweep:
  fixes m :: "'d::linordered_field mem"
  assumes inv: "engine_inv m e" and new: "new_order m e r"
    and res: "Engine_PlaceOrder r m w e = (Inr mr, m', w', e')"
  defines "fs \<equiv> fst (sweep (cell m) (cell m r) (o_Quantity (cell m r))
                   (flat (opp (o_Side (cell m r)) (book_of (o_OutcomeID (cell m r)) e))))"
  shows "map untimed (mr_Trades mr) = map (fill_trade (cell m) r) fs"
    and "o_FilledQty (cell m' r) = sum_list (map snd fs)"
    and "x \<noteq> r \<Longrightarrow> o_FilledQty (cell m' x) = o_FilledQty (cell m x) + filled_by x fs"
    and "mr_Resting mr = (if 0 < remaining (cell m' r) then Some r else None)"
    and "0 < o_Quantity (cell m r)" "minPrice \<le> o_Price (cell m r)" "o_Price (cell m r) \<le> maxPrice"
proof -
  let ?ob = "book_of (o_OutcomeID (cell m r)) e"
  show ok: "0 < o_Quantity (cell m r)" "minPrice \<le> o_Price (cell m r)" "o_Price (cell m r) \<le> maxPrice"
    using res by (auto simp: Engine_PlaceOrder_def Let_def not_less not_le split: if_splits)
  obtain trades m1 ob1 w1 where mo: "matchOrder r m ?ob w = (trades, m1, ob1, w1)" by (metis prod.collapse)
  have fq: "o_FilledQty (cell m r) = 0" using new by (simp add: new_order_def)
  then have rem: "remaining (cell m r) = o_Quantity (cell m r)" by (simp add: remaining_def)
  obtain rest sk where sw: "sweep (cell m) (cell m r) (remaining (cell m r)) (flat (opp (o_Side (cell m r)) ?ob))
      = (fs, rest, sk)" unfolding fs_def rem by (metis prod.collapse)
  have left: "\<forall>x \<in> set (book_refs ?ob). 0 < remaining (cell m x)"
    using engine_inv_book_of(3)[OF inv] by (simp add: resting_ok_def)
  have rem0: "0 \<le> remaining (cell m r)" using ok(1) rem by simp
  note S = matchOrder_sweep[OF engine_inv_book_of(1)[OF inv] new_order_book_of(2)[OF new] rem0 left mo sw]
  obtain st now w'' e'' where eq: "Engine_PlaceOrder r m w e
     = (Inr \<lparr>mr_Trades = trades, mr_Resting = if 0 < remaining (cell m1 r) then Some r else None\<rparr>,
        upd r (\<lambda>x. x\<lparr>o_Status := st, o_UpdatedAt := now\<rparr>) m1, w'', e'')"
    by (rule Engine_PlaceOrder_accepted[OF ok(2,3,1) mo]) blast
  have mr: "mr_Trades mr = trades" "mr_Resting mr = (if 0 < remaining (cell m1 r) then Some r else None)"
    "m' = upd r (\<lambda>x. x\<lparr>o_Status := st, o_UpdatedAt := now\<rparr>) m1"
    using res eq by auto
  show "map untimed (mr_Trades mr) = map (fill_trade (cell m) r) fs" using S(1) mr by simp
  show "o_FilledQty (cell m' r) = sum_list (map snd fs)" using S(2) mr fq by simp
  show "x \<noteq> r \<Longrightarrow> o_FilledQty (cell m' x) = o_FilledQty (cell m x) + filled_by x fs" using S(3) mr by simp
  show "mr_Resting mr = (if 0 < remaining (cell m' r) then Some r else None)"
    using mr by (simp add: remaining_def)
qed

lemma ex_run2_eq: "ex_run2 = (Inr \<lparr>mr_Trades = [ex_trade], mr_Resting = None\<rparr>, fst (snd ex_run2), fst (snd (snd ex_run2)), snd (snd (snd ex_run2)))"
  if "ex_trade = \<lparr>t_ID = ''id'', t_MarketID = ''m'', t_OutcomeID = ''yes'', t_MakerOrderID = ''a'', t_TakerOrderID = ''b'',
     t_MakerUserID = ''alice'', t_TakerUserID = ''bob'', t_Price = 6 / 10, t_Quantity = 4, t_CreatedAt = 0\<rparr>" for ex_trade
proof -
  have "fst ex_run2 = Inr \<lparr>mr_Trades = [\<lparr>t_ID = ''id'', t_MarketID = ''m'', t_OutcomeID = ''yes'', t_MakerOrderID = ''a'', t_TakerOrderID = ''b'',
     t_MakerUserID = ''alice'', t_TakerUserID = ''bob'', t_Price = 6 / 10, t_Quantity = 4, t_CreatedAt = 0\<rparr>], mr_Resting = None\<rparr>" by code_simp
  with that show ?thesis by (simp add: prod_eq_iff)
qed

text \<open>
  C2: an accepted order trades as the sweep says: the trades are the fills of the sweep over
  the opposite side in price-time order, each at the maker's price and with the parties of
  the two orders; the filled quantity of every order grows by exactly its fills, and the
  order rests on the book exactly when something of it is left.
\<close>

theorem PlaceOrder_trades:
  fixes m :: "'d::linordered_field mem"
  assumes "engine_inv m e" and "new_order m e r"
    and "Engine_PlaceOrder r m w e = (Inr mr, m', w', e')"
  defines "fs \<equiv> fst (sweep (cell m) (cell m r) (o_Quantity (cell m r))
                   (flat (opp (o_Side (cell m r)) (book_of (o_OutcomeID (cell m r)) e))))"
  shows "map untimed (mr_Trades mr) = map (fill_trade (cell m) r) fs \<and>
    o_FilledQty (cell m' r) = sum_list (map snd fs) \<and>
    (\<forall>x. x \<noteq> r \<longrightarrow> o_FilledQty (cell m' x) = o_FilledQty (cell m x) + filled_by x fs) \<and>
    mr_Resting mr = (if 0 < remaining (cell m' r) then Some r else None)"
  using accepted_sweep[OF assms(1-3)] unfolding fs_def by blast

theorem PlaceOrder_trades_witness:
  "o_FilledQty (cell (fst (snd ex_run2)) 1) = 4 \<and> o_FilledQty (cell (fst (snd ex_run2)) 0) = 4"
proof -
  note T = PlaceOrder_trades[OF ex_inv ex_new, of ex_world, folded ex_run2_def, OF ex_run2_eq[OF refl]]
  have "fst (sweep (cell ex_mem1) (cell ex_mem1 1) (o_Quantity (cell ex_mem1 1))
      (flat (opp (o_Side (cell ex_mem1 1)) (book_of (o_OutcomeID (cell ex_mem1 1)) ex_e1)))) = [(0, 4)]"
    "o_FilledQty (cell ex_mem1 0) = 0" by code_simp+
  with T show ?thesis by (simp add: filled_by_def)
qed

text \<open>
  C10: the taker is filled as far as the book allows: what it trades is its whole quantity or,
  if that is less, all that orders of other users offer within its limit. No order is filled
  beyond its quantity.
\<close>

theorem PlaceOrder_fills_all_available:
  fixes m :: "'d::linordered_field mem"
  assumes "engine_inv m e" and "new_order m e r"
    and "Engine_PlaceOrder r m w e = (Inr mr, m', w', e')"
  shows "sum_list (map t_Quantity (mr_Trades mr))
      = min (o_Quantity (cell m r))
          (sum_list (map (\<lambda>x. remaining (cell m x))
             (filter (eligible (cell m) (cell m r))
                (flat (opp (o_Side (cell m r)) (book_of (o_OutcomeID (cell m r)) e))))))
    \<and> o_FilledQty (cell m' r) = sum_list (map t_Quantity (mr_Trades mr))
    \<and> o_FilledQty (cell m' r) \<le> o_Quantity (cell m' r)"
proof -
  let ?ob = "book_of (o_OutcomeID (cell m r)) e"
  let ?fs = "fst (sweep (cell m) (cell m r) (o_Quantity (cell m r)) (flat (opp (o_Side (cell m r)) ?ob)))"
  note A = accepted_sweep[OF assms]
  have "map t_Quantity (mr_Trades mr) = map t_Quantity (map untimed (mr_Trades mr))" by (simp add: untimed_def)
  also have "\<dots> = map snd ?fs" unfolding A(1) by (simp add: fill_trade_def)
  finally have q: "map t_Quantity (mr_Trades mr) = map snd ?fs" .
  have left: "\<forall>x \<in> set (flat (opp (o_Side (cell m r)) ?ob)). 0 < remaining (cell m x)"
    using opp_resting[OF assms(1)] by (simp add: resting_ok_def)
  note tot = sweep_total[OF less_imp_le[OF A(5)] left flat_crosses_sorted[OF engine_inv_book_of(1)[OF assms(1)]]]
  obtain ob' where st: "\<forall>x. static_of (cell m' x) = static_of (cell m x)"
    by (rule Engine_PlaceOrder_books[OF assms]) blast
  then have "o_Quantity (cell m' r) = o_Quantity (cell m r)" by (simp add: static_of_iff)
  with tot A(2) q show ?thesis by simp
qed

theorem PlaceOrder_fills_all_available_witness:
  "sum_list (map t_Quantity (case ex_run2 of (Inr mr, _) \<Rightarrow> mr_Trades mr | _ \<Rightarrow> [])) = 4
   \<and> o_FilledQty (cell (fst (snd ex_run2)) 1) = 4"
proof -
  note T = PlaceOrder_fills_all_available[OF ex_inv ex_new, of ex_world, folded ex_run2_def, OF ex_run2_eq[OF refl]]
  from T show ?thesis by (subst ex_run2_eq[OF refl]) simp
qed

text \<open>
  C1: the trades respect price-time priority: the orders traded with are the first orders of
  other users on the opposite side, best price first and oldest first within a price, and
  each but the last is traded to its whole remaining quantity. Every trade is between two
  users, for a positive quantity, and at a price within the taker's limit and the bounds.
\<close>

theorem PlaceOrder_price_time_priority:
  fixes m :: "'d::linordered_field mem"
  assumes "engine_inv m e" and "new_order m e r"
    and "Engine_PlaceOrder r m w e = (Inr mr, m', w', e')"
  shows "(\<exists>makers others. filter (\<lambda>x. o_UserID (cell m x) \<noteq> o_UserID (cell m r))
        (flat (opp (o_Side (cell m r)) (book_of (o_OutcomeID (cell m r)) e))) = makers @ others \<and>
      map t_MakerOrderID (mr_Trades mr) = map (\<lambda>x. o_ID (cell m x)) makers \<and>
      map t_Price (mr_Trades mr) = map (\<lambda>x. o_Price (cell m x)) makers \<and>
      map t_Quantity (butlast (mr_Trades mr)) = map (\<lambda>x. remaining (cell m x)) (butlast makers)) \<and>
    (\<forall>tr \<in> set (mr_Trades mr). t_MakerUserID tr \<noteq> t_TakerUserID tr \<and> 0 < t_Quantity tr \<and>
      minPrice \<le> t_Price tr \<and> t_Price tr \<le> maxPrice \<and>
      (if o_Side (cell m r) = Buy then t_Price tr \<le> o_Price (cell m r) else o_Price (cell m r) \<le> t_Price tr))"
  (is "?prio \<and> ?valid")
proof
  let ?ob = "book_of (o_OutcomeID (cell m r)) e"
  let ?ms = "flat (opp (o_Side (cell m r)) ?ob)"
  let ?fs = "fst (sweep (cell m) (cell m r) (o_Quantity (cell m r)) ?ms)"
  note A = accepted_sweep[OF assms]
  have proj: "map f (mr_Trades mr) = map (\<lambda>p. f (fill_trade (cell m) r p)) ?fs"
    if "\<And>tr. f (untimed tr) = f tr" for f :: "'d Trade \<Rightarrow> 'b"
    using that arg_cong[OF A(1), of "map f"] by (simp add: o_def)
  have mk: "map t_MakerOrderID (mr_Trades mr) = map (\<lambda>x. o_ID (cell m x)) (map fst ?fs)"
    and pr: "map t_Price (mr_Trades mr) = map (\<lambda>x. o_Price (cell m x)) (map fst ?fs)"
    and qt: "map t_Quantity (mr_Trades mr) = map snd ?fs"
    by (subst proj; simp add: untimed_def fill_trade_def)+
  have bl: "map t_Quantity (butlast (mr_Trades mr)) = map (\<lambda>x. remaining (cell m x)) (butlast (map fst ?fs))"
  proof -
    have "map t_Quantity (butlast (mr_Trades mr)) = map snd (butlast ?fs)"
      using arg_cong[OF qt, of butlast] by (simp add: map_butlast)
    also have "\<dots> = map (\<lambda>p. remaining (cell m (fst p))) (butlast ?fs)"
      by (simp add: sweep_butlast)
    finally show ?thesis by (simp add: map_butlast[symmetric] o_def)
  qed
  from sweep_prefix[of "cell m" "cell m r" ?ms "o_Quantity (cell m r)"]
  obtain ms' where "filter (\<lambda>x. o_UserID (cell m x) \<noteq> o_UserID (cell m r)) ?ms = map fst ?fs @ ms'" by blast
  with mk pr bl show ?prio by blast
  have ok: "\<forall>x \<in> set ?ms. resting_ok (cell m x)"
    using opp_resting[OF assms(1)] by blast
  then have left: "\<forall>x \<in> set ?ms. 0 < remaining (cell m x)" by (simp add: resting_ok_def)
  show ?valid
  proof
    fix tr
    assume "tr \<in> set (mr_Trades mr)"
    then have "untimed tr \<in> set (map (fill_trade (cell m) r) ?fs)" by (simp flip: A(1))
    then obtain p where p: "p \<in> set ?fs" "untimed tr = fill_trade (cell m) r p" by auto
    have tr: "t_MakerUserID tr = o_UserID (cell m (fst p))" "t_TakerUserID tr = o_UserID (cell m r)"
      "t_Quantity tr = snd p" "t_Price tr = o_Price (cell m (fst p))"
      using arg_cong[OF p(2), of t_MakerUserID] arg_cong[OF p(2), of t_TakerUserID]
        arg_cong[OF p(2), of t_Quantity] arg_cong[OF p(2), of t_Price]
      by (simp_all add: untimed_def fill_trade_def)
    from sweep_fill_ok[OF left p(1)] ok show "t_MakerUserID tr \<noteq> t_TakerUserID tr \<and> 0 < t_Quantity tr \<and>
      minPrice \<le> t_Price tr \<and> t_Price tr \<le> maxPrice \<and>
      (if o_Side (cell m r) = Buy then t_Price tr \<le> o_Price (cell m r) else o_Price (cell m r) \<le> t_Price tr)"
      by (auto simp: tr eligible_def crosses_def resting_ok_def)
  qed
qed

theorem PlaceOrder_price_time_priority_witness:
  "list_all (\<lambda>tr. t_Price tr \<le> 7 / 10 \<and> 0 < t_Quantity tr) (case ex_run2 of (Inr mr, _) \<Rightarrow> mr_Trades mr | _ \<Rightarrow> [])"
proof -
  note T = PlaceOrder_price_time_priority[OF ex_inv ex_new, of ex_world, folded ex_run2_def, OF ex_run2_eq[OF refl]]
  have "o_Side (cell ex_mem1 1) = Buy" "o_Price (cell ex_mem1 1) = 7 / 10" by code_simp+
  with T show ?thesis unfolding list_all_iff by (subst ex_run2_eq[OF refl]) simp
qed

text \<open>
  In every state an engine can reach from its creation, whatever orders, cancellations
  and subscriptions it got, each of its books is well formed (price order, queues and indexes
  consistent, ids distinct), every resting order belongs to the book, is at a valid price and
  has something left to fill, and no bid is at or above an ask of another user.
\<close>

theorem engine_reachable_safe:
  assumes "reachable mid m e" and "e_orderbooks e i = Some ob"
  shows "book_inv (cell m) ob \<and> uncrossed (cell m) ob \<and>
    (\<forall>r \<in> set (GetBids ob @ GetAsks ob). resting_ok (cell m r) \<and> o_OutcomeID (cell m r) = i)"
proof -
  have refs: "set (GetBids ob @ GetAsks ob) = set (book_refs ob)"
    by (simp add: book_refs_def GetBids_def GetAsks_def flat_def)
  from reachable_ok[OF assms(1)] assms(2) show ?thesis
    unfolding refs engine_inv_def engine_uncrossed_def by blast
qed

theorem engine_reachable_safe_witness:
  "\<exists>ob. e_orderbooks ex_e1 ''yes'' = Some ob \<and> GetAsks ob = [0] \<and> book_inv (cell (fst (snd ex_run1))) ob"
proof -
  have "map_option GetAsks (e_orderbooks ex_e1 ''yes'') = Some [0]" by code_simp
  then obtain ob where "e_orderbooks ex_e1 ''yes'' = Some ob" "GetAsks ob = [0]" by auto
  with engine_reachable_safe[OF ex_reachable1] show ?thesis by blast
qed

text \<open>
  An order is rejected exactly when its price is outside 0.01 to 0.99 or its quantity is
  not positive, with the error of the first check that fails, and a rejected order leaves the
  memory, the books and the subscribers as they were.
\<close>

theorem PlaceOrder_rejects:
  "(o_Price (cell m r) < 1 / 100 \<or> 99 / 100 < o_Price (cell m r) \<longrightarrow>
      Engine_PlaceOrder r m w e = (Inl errInvalidPrice, m, w, e)) \<and>
   (1 / 100 \<le> o_Price (cell m r) \<and> o_Price (cell m r) \<le> 99 / 100 \<and> o_Quantity (cell m r) \<le> 0 \<longrightarrow>
      Engine_PlaceOrder r m w e = (Inl errInvalidQuantity, m, w, e)) \<and>
   (1 / 100 \<le> o_Price (cell m r) \<and> o_Price (cell m r) \<le> 99 / 100 \<and> 0 < o_Quantity (cell m r) \<longrightarrow>
      (\<exists>mr. fst (Engine_PlaceOrder r m w e) = Inr mr))"
  by (auto simp: Engine_PlaceOrder_def Let_def minPrice_def maxPrice_def split: prod.splits)

theorem PlaceOrder_rejects_witness:
  "fst (Engine_PlaceOrder 0 \<lparr>cell = (\<lambda>r. ex_order ''a'' ''alice'' Sell 1 10), top = 1\<rparr> ex_world (NewEngine ''m'')) = Inl errInvalidPrice \<and>
   fst (Engine_PlaceOrder 0 \<lparr>cell = (\<lambda>r. ex_order ''a'' ''alice'' Sell (1 / 2) 0), top = 1\<rparr> ex_world (NewEngine ''m'')) = Inl errInvalidQuantity"
  using PlaceOrder_rejects[of "\<lparr>cell = (\<lambda>r. ex_order ''a'' ''alice'' Sell 1 10), top = 1\<rparr>" 0 ex_world "NewEngine ''m''"]
    PlaceOrder_rejects[of "\<lparr>cell = (\<lambda>r. ex_order ''a'' ''alice'' Sell (1 / 2) 0), top = 1\<rparr>" 0 ex_world "NewEngine ''m''"]
  by (simp add: ex_order_def)

text \<open>
  Cancelling an order takes it alone off its book: the other orders of the book keep
  their places and nothing else of theirs changes, the order is returned as cancelled, and
  an id the book does not hold is reported as not found without any change.
\<close>

theorem Engine_CancelOrder_exact:
  fixes m :: "'d::linordered_field mem"
  assumes "engine_inv m e" and "Engine_CancelOrder i oid m w e = (res, m', w', e')"
  shows "case res of
      Inl err \<Rightarrow> err = errOrderNotFound \<and> m' = m \<and> e' = e \<and>
        oid \<notin> (\<lambda>r. o_ID (cell m r)) ` set (GetBids (book_of i e) @ GetAsks (book_of i e))
    | Inr r \<Rightarrow> r \<in> set (GetBids (book_of i e) @ GetAsks (book_of i e)) \<and> o_ID (cell m r) = oid \<and>
        o_Status (cell m' r) = Cancelled \<and> static_of (cell m' r) = static_of (cell m r) \<and>
        o_FilledQty (cell m' r) = o_FilledQty (cell m r) \<and> (\<forall>x. x \<noteq> r \<longrightarrow> cell m' x = cell m x) \<and>
        GetBids (book_of i e') = filter (\<lambda>x. x \<noteq> r) (GetBids (book_of i e)) \<and>
        GetAsks (book_of i e') = filter (\<lambda>x. x \<noteq> r) (GetAsks (book_of i e)) \<and>
        (\<forall>j. j \<noteq> i \<longrightarrow> e_orderbooks e' j = e_orderbooks e j)"
proof -
  have refs: "set (GetBids ob @ GetAsks ob) = set (book_refs ob)" "GetBids ob = flat (ob_bids ob)"
    "GetAsks ob = flat (ob_asks ob)" for ob :: "'d Orderbook"
    by (simp_all add: book_refs_def GetBids_def GetAsks_def flat_def)
  show ?thesis
  proof (rule Engine_CancelOrder_cases[OF assms(1), where i = i and oid = oid and w = w])
    assume eq: "Engine_CancelOrder i oid m w e = (Inl errOrderNotFound, m, w, e)"
      and out: "oid \<notin> (\<lambda>r. o_ID (cell m r)) ` set (book_refs (book_of i e))"
    have "res = Inl errOrderNotFound" "m' = m" "e' = e" using assms(2) eq by simp_all
    with out show ?thesis unfolding refs(1) by simp
  next
    fix r ob ob' now w''
    assume ob: "e_orderbooks e i = Some ob" and r: "r \<in> set (book_refs ob)" "o_ID (cell m r) = oid"
      and fl: "flat (ob_bids ob') = filter (\<lambda>r. o_ID (cell m r) \<noteq> oid) (flat (ob_bids ob))"
        "flat (ob_asks ob') = filter (\<lambda>r. o_ID (cell m r) \<noteq> oid) (flat (ob_asks ob))"
      and eq: "Engine_CancelOrder i oid m w e
       = (Inr r, upd r (\<lambda>x. x\<lparr>o_Status := Cancelled, o_UpdatedAt := now\<rparr>) m, w'',
          e\<lparr>e_orderbooks := (e_orderbooks e)(i \<mapsto> ob')\<rparr>)"
    have inj: "inj_on (\<lambda>r. o_ID (cell m r)) (set (book_refs ob))"
      using book_invD(5)[of "cell m" ob] assms(1) ob by (auto simp: engine_inv_def distinct_map)
    then have "o_ID (cell m x) \<noteq> oid \<longleftrightarrow> x \<noteq> r" if "x \<in> set (book_refs ob)" for x
      using r that by (auto dest: inj_onD)
    then have "flat (ob_bids ob') = filter (\<lambda>x. x \<noteq> r) (flat (ob_bids ob))"
      "flat (ob_asks ob') = filter (\<lambda>x. x \<noteq> r) (flat (ob_asks ob))"
      unfolding fl by (auto simp: book_refs_def intro!: filter_cong)
    moreover have "book_of i e = ob" "book_of i (e\<lparr>e_orderbooks := (e_orderbooks e)(i \<mapsto> ob')\<rparr>) = ob'"
      using ob by (simp_all add: book_of_def)
    moreover have "res = Inr r" "m' = upd r (\<lambda>x. x\<lparr>o_Status := Cancelled, o_UpdatedAt := now\<rparr>) m"
      "e' = e\<lparr>e_orderbooks := (e_orderbooks e)(i \<mapsto> ob')\<rparr>" using assms(2) eq by simp_all
    ultimately show ?thesis using r unfolding refs by (simp add: static_of_def book_refs_def)
  qed
qed

theorem Engine_CancelOrder_exact_witness:
  "case fst (Engine_CancelOrder ''yes'' ''a'' ex_mem1 ex_world ex_e1) of Inl _ \<Rightarrow> False
   | Inr r \<Rightarrow> r = 0 \<and> GetAsks (book_of ''yes'' (snd (snd (snd (Engine_CancelOrder ''yes'' ''a'' ex_mem1 ex_world ex_e1))))) = []"
proof -
  have "fst (Engine_CancelOrder ''yes'' ''a'' ex_mem1 ex_world ex_e1) = Inr 0"
    "GetAsks (book_of ''yes'' ex_e1) = [0]" by code_simp+
  with Engine_CancelOrder_exact[OF ex_inv, of "''yes''" "''a''" ex_world] show ?thesis
    by (cases "Engine_CancelOrder ''yes'' ''a'' ex_mem1 ex_world ex_e1") fastforce
qed

end
