(* ===== verification/Registry.thy ===== *)
theory Registry
  imports MatchSpec
begin

text \<open>
  \<open>services/trading-svc/internal/matching/registry.go\<close>: the engines of all markets. Go
  iterates over a map in any order; the engines are an association list in the order of the
  iteration, and what is proved holds for every order.
\<close>

section \<open>The registry and its operations\<close>

record 'd Registry =
  rg_engines :: "(string \<times> 'd Engine) list"

definition NewRegistry :: "'d Registry" where
  "NewRegistry = \<lparr>rg_engines = []\<rparr>"

definition put_engine :: "string \<Rightarrow> 'd Engine \<Rightarrow> 'd Registry \<Rightarrow> 'd Registry" where
  "put_engine mid e rg = rg\<lparr>rg_engines := map (\<lambda>p. if fst p = mid then (mid, e) else p) (rg_engines rg)\<rparr>"

definition getOrCreate :: "string \<Rightarrow> 'd Registry \<Rightarrow> 'd Engine \<times> 'd Registry" where
  "getOrCreate marketID rg =
     (case map_of (rg_engines rg) marketID of
        Some eng \<Rightarrow> (eng, rg)
      | None \<Rightarrow> (NewEngine marketID, rg\<lparr>rg_engines := rg_engines rg @ [(marketID, NewEngine marketID)]\<rparr>))"

definition Registry_PlaceOrder ::
    "ref \<Rightarrow> 'd::linordered_field mem \<Rightarrow> world \<Rightarrow> 'd Registry \<Rightarrow> (err + 'd MatchResult) \<times> 'd mem \<times> world \<times> 'd Registry" where
  "Registry_PlaceOrder r m w rg =
     (let (eng, rg1) = getOrCreate (o_MarketID (cell m r)) rg;
          (result, m', w', eng') = Engine_PlaceOrder r m w eng
      in (result, m', w', put_engine (o_MarketID (cell m r)) eng' rg1))"

text \<open>The loop over the engines: the first one that has the order.\<close>

fun cancel_engines ::
    "string \<Rightarrow> string \<Rightarrow> (string \<times> 'd Engine) list \<Rightarrow> 'd mem \<Rightarrow> world \<Rightarrow>
     (err + ref) \<times> 'd mem \<times> world \<times> (string \<times> 'd Engine) list" where
  "cancel_engines outcomeID orderID [] m w = (Inl errOrderNotFound, m, w, [])"
| "cancel_engines outcomeID orderID ((mid, eng) # engs) m w =
     (case Engine_CancelOrder outcomeID orderID m w eng of
        (Inr order, m', w', eng') \<Rightarrow> (Inr order, m', w', (mid, eng') # engs)
      | (Inl err, m', w', eng') \<Rightarrow>
          let (res, m'', w'', engs') = cancel_engines outcomeID orderID engs m' w'
          in (res, m'', w'', (mid, eng') # engs'))"

definition Registry_CancelOrder ::
    "string \<Rightarrow> string \<Rightarrow> 'd mem \<Rightarrow> world \<Rightarrow> 'd Registry \<Rightarrow> (err + ref) \<times> 'd mem \<times> world \<times> 'd Registry" where
  "Registry_CancelOrder outcomeID orderID m w rg =
     (let (res, m', w', engs) = cancel_engines outcomeID orderID (rg_engines rg) m w
      in (res, m', w', rg\<lparr>rg_engines := engs\<rparr>))"

definition RestoreOrder :: "ref \<Rightarrow> 'd::linordered_field mem \<Rightarrow> 'd Registry \<Rightarrow> 'd Registry" where
  "RestoreOrder r m rg =
     (let (eng, rg1) = getOrCreate (o_MarketID (cell m r)) rg;
          (ob, eng1) = getOrCreateOrderbook (o_OutcomeID (cell m r)) eng;
          eng2 = eng1\<lparr>e_orderbooks := (e_orderbooks eng1)(o_OutcomeID (cell m r) \<mapsto> Orderbook_AddOrder (cell m) r ob)\<rparr>
      in put_engine (o_MarketID (cell m r)) eng2 rg1)"

record 'd OrderbookLevel =
  ol_Price :: 'd
  ol_Quantity :: 'd
  ol_Count :: nat

definition to_level :: "'d PriceLevel \<Rightarrow> 'd OrderbookLevel" where
  "to_level l = \<lparr>ol_Price = pl_Price l, ol_Quantity = pl_Quantity l, ol_Count = pl_Count l\<rparr>"

fun depth_engines ::
    "(ref \<Rightarrow> 'd::linordered_field Order) \<Rightarrow> string \<Rightarrow> nat \<Rightarrow> (string \<times> 'd Engine) list \<Rightarrow>
     'd OrderbookLevel list \<times> 'd OrderbookLevel list" where
  "depth_engines h outcomeID levels [] = ([], [])"
| "depth_engines h outcomeID levels ((mid, eng) # engs) =
     (case GetOrderbook outcomeID eng of
        None \<Rightarrow> depth_engines h outcomeID levels engs
      | Some ob \<Rightarrow> (let (bids, asks) = GetDepth h levels ob in (map to_level bids, map to_level asks)))"

definition GetOrderbookDepth ::
    "string \<Rightarrow> nat \<Rightarrow> 'd::linordered_field mem \<Rightarrow> 'd Registry \<Rightarrow> 'd OrderbookLevel list \<times> 'd OrderbookLevel list" where
  "GetOrderbookDepth outcomeID levels m rg = depth_engines (cell m) outcomeID levels (rg_engines rg)"

section \<open>The invariant of the registry\<close>

definition rests :: "'d Engine \<Rightarrow> ref \<Rightarrow> bool" where
  "rests e r \<longleftrightarrow> (\<exists>i ob. e_orderbooks e i = Some ob \<and> r \<in> set (book_refs ob))"

text \<open>
  One engine per market; each engine is well formed and only holds orders of its market;
  ids are distinct over all engines.
\<close>

definition registry_rests :: "'d Registry \<Rightarrow> ref \<Rightarrow> bool" where
  "registry_rests rg r \<longleftrightarrow> (\<exists>k e. (k, e) \<in> set (rg_engines rg) \<and> rests e r)"

definition registry_inv :: "'d::linordered_field mem \<Rightarrow> 'd Registry \<Rightarrow> bool" where
  "registry_inv m rg \<longleftrightarrow>
     distinct (map fst (rg_engines rg)) \<and>
     (\<forall>k e. (k, e) \<in> set (rg_engines rg) \<longrightarrow> engine_inv m e \<and> (\<forall>r. rests e r \<longrightarrow> o_MarketID (cell m r) = k)) \<and>
     (\<forall>r r'. registry_rests rg r \<longrightarrow> registry_rests rg r' \<longrightarrow> o_ID (cell m r) = o_ID (cell m r') \<longrightarrow> r = r')"

lemma engine_inv_frame:
  assumes "engine_inv m e" and "\<And>r. rests e r \<Longrightarrow> cell m' r = cell m r" and "top m \<le> top m'"
  shows "engine_inv m' e"
  unfolding engine_inv_def
proof (intro allI impI)
  fix i ob
  assume ob: "e_orderbooks e i = Some ob"
  then have same: "cell m' r = cell m r" if "r \<in> set (book_refs ob)" for r
    using assms(2) that by (auto simp: rests_def)
  from assms(1) ob have "book_inv (cell m) ob \<and> ob_outcomeID ob = i \<and>
      (\<forall>r \<in> set (book_refs ob). resting_ok (cell m r) \<and> o_OutcomeID (cell m r) = i \<and> r < top m)"
    by (simp add: engine_inv_def)
  with same assms(3) show "book_inv (cell m') ob \<and> ob_outcomeID ob = i \<and>
      (\<forall>r \<in> set (book_refs ob). resting_ok (cell m' r) \<and> o_OutcomeID (cell m' r) = i \<and> r < top m')"
    using book_inv_cong[of ob "cell m'" "cell m"] by fastforce
qed

lemma book_of_rests: "r \<in> set (book_refs (book_of i e)) \<Longrightarrow> rests e r"
  by (auto simp: book_of_def rests_def split: option.splits)

text \<open>What any operation on one engine must satisfy to keep the registry well formed.\<close>

lemma registry_inv_put:
  assumes inv: "registry_inv m rg" and k: "(k, e) \<in> set (rg_engines rg)"
    and e': "engine_inv m' e'" and top: "top m \<le> top m'"
    and rests: "\<And>x. rests e' x \<Longrightarrow> rests e x \<or> x = r"
    and new: "(\<exists>x. rests e' x \<and> \<not> rests e x) \<Longrightarrow> o_MarketID (cell m r) = k \<and>
        (\<forall>x. registry_rests rg x \<longrightarrow> o_ID (cell m x) \<noteq> o_ID (cell m r))"
    and st: "\<And>x. registry_rests rg x \<or> x = r \<Longrightarrow> static_of (cell m' x) = static_of (cell m x)"
    and fr: "\<And>x. x \<noteq> r \<Longrightarrow> \<not> rests e x \<Longrightarrow> cell m' x = cell m x"
    and r: "\<And>k' e2. (k', e2) \<in> set (rg_engines rg) \<Longrightarrow> k' \<noteq> k \<Longrightarrow> \<not> rests e2 r"
  shows "registry_inv m' (put_engine k e' rg)"
proof -
  note I = inv[unfolded registry_inv_def]
  have mem: "(j, x) \<in> set (rg_engines (put_engine k e' rg)) \<longleftrightarrow>
      (j = k \<and> x = e') \<or> (j \<noteq> k \<and> (j, x) \<in> set (rg_engines rg))" for j x
    using k by (force simp: put_engine_def)
  have keys: "map fst (rg_engines (put_engine k e' rg)) = map fst (rg_engines rg)"
    by (simp add: put_engine_def)
  have rr: "registry_rests (put_engine k e' rg) x \<Longrightarrow> registry_rests rg x \<or> x = r" for x
    using rests[of x] k by (auto simp: registry_rests_def mem)
  have fresh: "\<forall>x. registry_rests rg x \<longrightarrow> o_ID (cell m x) \<noteq> o_ID (cell m r)"
    if "registry_rests (put_engine k e' rg) r" "\<not> registry_rests rg r"
  proof -
    have "rests e' r \<and> \<not> rests e r" using that k by (auto simp: registry_rests_def mem)
    with new show ?thesis by blast
  qed
  have ids: "x = y" if "registry_rests (put_engine k e' rg) x" "registry_rests (put_engine k e' rg) y"
      "o_ID (cell m' x) = o_ID (cell m' y)" for x y
  proof -
    have "o_ID (cell m x) = o_ID (cell m y)"
      using that st[OF rr[OF that(1)]] st[OF rr[OF that(2)]] by (simp add: static_of_iff)
    then show ?thesis using that(1,2) rr[OF that(1)] rr[OF that(2)] I fresh by metis
  qed
  have one: "engine_inv m' x \<and> (\<forall>y. rests x y \<longrightarrow> o_MarketID (cell m' y) = j)"
    if jx: "(j, x) \<in> set (rg_engines (put_engine k e' rg))" for j x
  proof (cases "j = k")
    case True
    with jx mem have x: "x = e'" by blast
    have "o_MarketID (cell m' y) = k" if y: "rests e' y" for y
    proof -
      have "registry_rests rg y \<or> y = r" using rests[OF y] k by (auto simp: registry_rests_def)
      then have "o_MarketID (cell m' y) = o_MarketID (cell m y)" using st by (simp add: static_of_iff)
      with rests[OF y] I k new y show ?thesis by metis
    qed
    with e' True x show ?thesis by simp
  next
    case False
    with jx mem have jx': "(j, x) \<in> set (rg_engines rg)" by blast
    with I have old: "engine_inv m x" "\<forall>y. rests x y \<longrightarrow> o_MarketID (cell m y) = j" by blast+
    have same: "cell m' y = cell m y" if y: "rests x y" for y
    proof (rule fr)
      show "y \<noteq> r" using r[OF jx' False] y by blast
      show "\<not> rests e y" using I k old(2) y False by metis
    qed
    with old show ?thesis using engine_inv_frame[OF old(1) _ top] by simp
  qed
  show ?thesis unfolding registry_inv_def keys using I ids one by blast
qed

lemma NewEngine_empty: "\<not> rests (NewEngine mid) r" "engine_inv m (NewEngine mid)"
  by (simp_all add: rests_def NewEngine_def engine_inv_def)

lemma getOrCreate_spec:
  assumes "registry_inv m rg" and "getOrCreate mid rg = (eng, rg1)"
  shows "(mid, eng) \<in> set (rg_engines rg1)" "registry_inv m rg1" "registry_rests rg1 = registry_rests rg"
proof -
  consider "rg1 = rg" "map_of (rg_engines rg) mid = Some eng"
    | "eng = NewEngine mid" "rg_engines rg1 = rg_engines rg @ [(mid, NewEngine mid)]" "map_of (rg_engines rg) mid = None"
    using assms(2) by (auto simp: getOrCreate_def split: option.splits)
  then have "(mid, eng) \<in> set (rg_engines rg1) \<and> registry_inv m rg1 \<and> registry_rests rg1 = registry_rests rg"
  proof cases
    case 1
    with assms(1) show ?thesis by (auto dest: map_of_SomeD)
  next
    case 2
    then have rr: "registry_rests rg1 = registry_rests rg"
      by (auto simp: registry_rests_def fun_eq_iff NewEngine_empty)
    have "mid \<notin> set (map fst (rg_engines rg))" using 2(3) by (simp add: map_of_eq_None_iff)
    with 2 assms(1) rr show ?thesis by (auto simp: registry_inv_def NewEngine_empty)
  qed
  then show "(mid, eng) \<in> set (rg_engines rg1)" "registry_inv m rg1" "registry_rests rg1 = registry_rests rg"
    by auto
qed

definition registry_new :: "'d::linordered_field mem \<Rightarrow> 'd Registry \<Rightarrow> ref \<Rightarrow> bool" where
  "registry_new m rg r \<longleftrightarrow> r < top m \<and> (\<forall>x. registry_rests rg x \<longrightarrow> o_ID (cell m x) \<noteq> o_ID (cell m r))"

lemma registry_new_engine:
  assumes "registry_new m rg r" "(k, e) \<in> set (rg_engines rg)"
  shows "rests e x \<Longrightarrow> o_ID (cell m x) \<noteq> o_ID (cell m r)" "\<not> rests e r"
    "o_FilledQty (cell m r) = 0 \<Longrightarrow> new_order m e r"
proof -
  have n: "rests e x \<Longrightarrow> o_ID (cell m x) \<noteq> o_ID (cell m r)" for x
    using assms unfolding registry_new_def registry_rests_def by blast
  then show "rests e x \<Longrightarrow> o_ID (cell m x) \<noteq> o_ID (cell m r)" "\<not> rests e r" by blast+
  show "o_FilledQty (cell m r) = 0 \<Longrightarrow> new_order m e r"
    using assms(1) n unfolding new_order_def registry_new_def rests_def by fastforce
qed

lemma rests_books:
  assumes "e_orderbooks e' = (e_orderbooks e)(i \<mapsto> ob')" and "rests e' x" and "\<not> rests e x"
  shows "x \<in> set (book_refs ob')"
  using assms by (auto simp: rests_def split: if_splits)

lemma registry_inv_PlaceOrder:
  fixes m :: "'d::linordered_field mem"
  assumes inv: "registry_inv m rg" and new: "registry_new m rg r" "o_FilledQty (cell m r) = 0"
    and res: "Registry_PlaceOrder r m w rg = (res', m', w', rg')"
  shows "registry_inv m' rg'"
proof -
  let ?k = "o_MarketID (cell m r)"
  obtain e rg1 where g: "getOrCreate ?k rg = (e, rg1)" by (cases "getOrCreate ?k rg")
  note G = getOrCreate_spec[OF inv g]
  have new1: "registry_new m rg1 r" using new(1) G(3) by (simp add: registry_new_def)
  note N = registry_new_engine[OF new1]
  obtain e' where P: "Engine_PlaceOrder r m w e = (res', m', w', e')" and rg': "rg' = put_engine ?k e' rg1"
    using res g by (auto simp: Registry_PlaceOrder_def Let_def split: prod.splits)
  have ei: "engine_inv m e" using G(1,2) by (auto simp: registry_inv_def)
  have no: "new_order m e r" using N(3)[OF G(1)] new(2) by blast
  have ei': "engine_inv m' e'" by (rule engine_inv_PlaceOrder[OF ei no P])
  show ?thesis
  proof (cases res')
    case (Inl err)
    with Engine_PlaceOrder_rejected(1)[of r m w e err] P have same: "m' = m" "e' = e" by auto
    show ?thesis
      unfolding rg' same
      by (rule registry_inv_put[OF G(2,1) ei order_refl, of r]) (use N(2) in auto)
  next
    case (Inr mr)
    from Engine_PlaceOrder_books[OF ei no P[unfolded Inr]] obtain ob' where
      books: "e_orderbooks e' = (e_orderbooks e)(o_OutcomeID (cell m r) \<mapsto> ob')"
      and sub: "set (book_refs ob') \<subseteq> insert r (set (book_refs (book_of (o_OutcomeID (cell m r)) e)))"
      and st: "\<forall>x. static_of (cell m' x) = static_of (cell m x)"
      and fr: "\<forall>x. x \<noteq> r \<and> x \<notin> set (book_refs (book_of (o_OutcomeID (cell m r)) e)) \<longrightarrow> cell m' x = cell m x"
      and tp: "top m' = top m" by metis
    show ?thesis
      unfolding rg'
    proof (rule registry_inv_put[OF G(2,1) ei', of r])
      show "rests e x \<or> x = r" if "rests e' x" for x
        using rests_books[OF books that] sub book_of_rests by blast
      show "o_MarketID (cell m r) = ?k \<and> (\<forall>x. registry_rests rg1 x \<longrightarrow> o_ID (cell m x) \<noteq> o_ID (cell m r))"
        using new1 by (simp add: registry_new_def)
      show "cell m' x = cell m x" if "x \<noteq> r" "\<not> rests e x" for x
        using fr that book_of_rests by blast
      show "\<not> rests e2 r" if "(k', e2) \<in> set (rg_engines rg1)" for k' e2 using N(2)[OF that] .
    qed (use st tp in auto)
  qed
qed

lemma registry_inv_RestoreOrder:
  fixes m :: "'d::linordered_field mem"
  assumes inv: "registry_inv m rg" and new: "registry_new m rg r" and ok: "resting_ok (cell m r)"
  shows "registry_inv m (RestoreOrder r m rg)"
proof -
  let ?k = "o_MarketID (cell m r)" and ?i = "o_OutcomeID (cell m r)"
  obtain e rg1 where g: "getOrCreate ?k rg = (e, rg1)" by (cases "getOrCreate ?k rg")
  note G = getOrCreate_spec[OF inv g]
  have new1: "registry_new m rg1 r" using new G(3) by (simp add: registry_new_def)
  note N = registry_new_engine[OF new1]
  have ei: "engine_inv m e" using G(1,2) by (auto simp: registry_inv_def)
  obtain ob e1 where o: "getOrCreateOrderbook ?i e = (ob, e1)" by (cases "getOrCreateOrderbook ?i e")
  have ob: "ob = book_of ?i e" and b1: "(e_orderbooks e1)(?i \<mapsto> x) = (e_orderbooks e)(?i \<mapsto> x)" for x
    using getOrCreateOrderbook_eq[of ?i e] o by simp_all
  let ?e = "e1\<lparr>e_orderbooks := (e_orderbooks e1)(?i \<mapsto> Orderbook_AddOrder (cell m) r ob)\<rparr>"
  have rg': "RestoreOrder r m rg = put_engine ?k ?e rg1"
    by (simp add: RestoreOrder_def g o)
  have books: "e_orderbooks ?e = (e_orderbooks e)(?i \<mapsto> addOrderUnlocked (cell m) r (book_of ?i e))"
    using b1 by (simp add: Orderbook_AddOrder_def ob)
  note B = engine_inv_book_of[OF ei, where i = "?i"]
  have out: "o_ID (cell m r) \<notin> (\<lambda>r. o_ID (cell m r)) ` set (book_refs (book_of ?i e))"
    using N(1)[OF G(1)] book_of_rests by fastforce
  note set' = set_book_refs_add[OF B(1), of r]
  have ei': "engine_inv m ?e"
    using ei book_inv_add[OF B(1) out] B ok new1 set'
    unfolding engine_inv_def books by (auto simp: registry_new_def)
  show ?thesis
    unfolding rg'
  proof (rule registry_inv_put[OF G(2,1) ei' order_refl, of r])
    show "rests e x \<or> x = r" if "rests ?e x" for x
      using rests_books[OF books that] set' book_of_rests by fastforce
    show "o_MarketID (cell m r) = ?k \<and> (\<forall>x. registry_rests rg1 x \<longrightarrow> o_ID (cell m x) \<noteq> o_ID (cell m r))"
      using new1 by (simp add: registry_new_def)
    show "\<not> rests e2 r" if "(k', e2) \<in> set (rg_engines rg1)" for k' e2 using N(2)[OF that] .
  qed auto
qed

section \<open>Cancelling, whatever the order of the engines\<close>

definition has_order :: "string \<Rightarrow> string \<Rightarrow> 'd mem \<Rightarrow> 'd Engine \<Rightarrow> bool" where
  "has_order i oid m e \<longleftrightarrow> oid \<in> (\<lambda>r. o_ID (cell m r)) ` set (book_refs (book_of i e))"

lemma Engine_CancelOrder_has:
  fixes m :: "'d::linordered_field mem"
  assumes "engine_inv m e"
  shows "\<not> has_order i oid m e \<Longrightarrow> Engine_CancelOrder i oid m w e = (Inl errOrderNotFound, m, w, e)"
    and "has_order i oid m e \<Longrightarrow> \<exists>r m' w' e'. Engine_CancelOrder i oid m w e = (Inr r, m', w', e')"
proof -
  have "(\<not> has_order i oid m e \<longrightarrow> Engine_CancelOrder i oid m w e = (Inl errOrderNotFound, m, w, e)) \<and>
    (has_order i oid m e \<longrightarrow> (\<exists>r m' w' e'. Engine_CancelOrder i oid m w e = (Inr r, m', w', e')))"
    by (rule Engine_CancelOrder_cases[OF assms, where i = i and oid = oid and w = w])
      (auto simp: has_order_def book_of_def)
  then show "\<not> has_order i oid m e \<Longrightarrow> Engine_CancelOrder i oid m w e = (Inl errOrderNotFound, m, w, e)"
    "has_order i oid m e \<Longrightarrow> \<exists>r m' w' e'. Engine_CancelOrder i oid m w e = (Inr r, m', w', e')"
    by blast+
qed

lemma cancel_engines_missing:
  fixes m :: "'d::linordered_field mem"
  assumes "\<And>k e. (k, e) \<in> set engs \<Longrightarrow> engine_inv m e \<and> \<not> has_order i oid m e"
  shows "cancel_engines i oid engs m w = (Inl errOrderNotFound, m, w, engs)"
  using assms
proof (induction engs)
  case (Cons p engs)
  obtain k e where p: "p = (k, e)" by (cases p)
  with Cons.prems[of k e] have "Engine_CancelOrder i oid m w e = (Inl errOrderNotFound, m, w, e)"
    using Engine_CancelOrder_has(1) by auto
  moreover have "cancel_engines i oid engs m w = (Inl errOrderNotFound, m, w, engs)"
    using Cons.prems by (intro Cons.IH) auto
  ultimately show ?case using p by simp
qed simp

lemma cancel_engines_found:
  fixes m :: "'d::linordered_field mem"
  assumes "\<And>k e. (k, e) \<in> set engs \<Longrightarrow> engine_inv m e" and "distinct (map fst engs)"
    and "(k, e) \<in> set engs" "has_order i oid m e"
    and "\<And>k' e'. (k', e') \<in> set engs \<Longrightarrow> has_order i oid m e' \<Longrightarrow> k' = k"
    and "Engine_CancelOrder i oid m w e = (Inr r, m', w', e')"
  shows "cancel_engines i oid engs m w = (Inr r, m', w', map (\<lambda>p. if fst p = k then (k, e') else p) engs)"
  using assms(1-5)
proof (induction engs)
  case (Cons p engs)
  obtain j x where p: "p = (j, x)" by (cases p)
  show ?case
  proof (cases "j = k")
    case True
    have "x = e"
      by (rule eq_key_imp_eq_value[OF Cons.prems(2)]) (use True p Cons.prems(3) in auto)
    moreover have "k \<notin> fst ` set engs" using Cons.prems(2) p True by simp
    from map_update_absent[OF this, of "\<lambda>p. (k, e')"]
    have "map (\<lambda>p. if fst p = k then (k, e') else p) engs = engs" .
    ultimately show ?thesis using p True assms(6) by simp
  next
    case False
    with Cons.prems(5)[of j x] p have "\<not> has_order i oid m x" by auto
    with Cons.prems(1)[of j x] p have "Engine_CancelOrder i oid m w x = (Inl errOrderNotFound, m, w, x)"
      using Engine_CancelOrder_has(1) by auto
    moreover have "cancel_engines i oid engs m w = (Inr r, m', w', map (\<lambda>p. if fst p = k then (k, e') else p) engs)"
      using Cons.prems False p by (intro Cons.IH) auto
    ultimately show ?thesis using p False by simp
  qed
qed simp

lemma Registry_CancelOrder_cases:
  fixes m :: "'d::linordered_field mem"
  assumes inv: "registry_inv m rg"
  obtains
    (missing) "Registry_CancelOrder i oid m w rg = (Inl errOrderNotFound, m, w, rg)"
      "\<And>k e. (k, e) \<in> set (rg_engines rg) \<Longrightarrow> \<not> has_order i oid m e"
  | (found) k e r m' w' e' where "(k, e) \<in> set (rg_engines rg)" "has_order i oid m e"
      "Engine_CancelOrder i oid m w e = (Inr r, m', w', e')"
      "Registry_CancelOrder i oid m w rg = (Inr r, m', w', put_engine k e' rg)"
proof (cases "\<exists>k e. (k, e) \<in> set (rg_engines rg) \<and> has_order i oid m e")
  case False
  have "cancel_engines i oid (rg_engines rg) m w = (Inl errOrderNotFound, m, w, rg_engines rg)"
    using inv False by (intro cancel_engines_missing) (auto simp: registry_inv_def)
  with False show ?thesis by (intro missing) (auto simp: Registry_CancelOrder_def)
next
  case True
  then obtain k e where k: "(k, e) \<in> set (rg_engines rg)" "has_order i oid m e" by blast
  with inv have ei: "engine_inv m e" by (auto simp: registry_inv_def)
  from Engine_CancelOrder_has(2)[OF this k(2)]
  obtain r m' w' e' where C: "Engine_CancelOrder i oid m w e = (Inr r, m', w', e')" by blast
  have "k' = k" if h1: "(k', e2) \<in> set (rg_engines rg)" and h2: "has_order i oid m e2" for k' e2
  proof -
    obtain x where x: "rests e x" "o_ID (cell m x) = oid" using k(2) book_of_rests by (auto simp: has_order_def)
    obtain y where y: "rests e2 y" "o_ID (cell m y) = oid" using h2 book_of_rests by (auto simp: has_order_def)
    have "x = y" using inv k(1) h1 x y unfolding registry_inv_def registry_rests_def by blast
    with inv k(1) h1 x y show ?thesis unfolding registry_inv_def by metis
  qed
  from cancel_engines_found[OF _ _ k this C]
  have "cancel_engines i oid (rg_engines rg) m w
      = (Inr r, m', w', map (\<lambda>p. if fst p = k then (k, e') else p) (rg_engines rg))"
    using inv by (auto simp: registry_inv_def)
  then have "Registry_CancelOrder i oid m w rg = (Inr r, m', w', put_engine k e' rg)"
    by (simp add: Registry_CancelOrder_def put_engine_def)
  with k C show ?thesis using found by blast
qed

lemma registry_inv_CancelOrder:
  fixes m :: "'d::linordered_field mem"
  assumes inv: "registry_inv m rg" and res: "Registry_CancelOrder i oid m w rg = (res', m', w', rg')"
  shows "registry_inv m' rg'"
proof (rule Registry_CancelOrder_cases[OF inv, where i = i and oid = oid and w = w])
  assume "Registry_CancelOrder i oid m w rg = (Inl errOrderNotFound, m, w, rg)"
  with res inv show ?thesis by simp
next
  fix k e r m2 w2 e'
  assume k: "(k, e) \<in> set (rg_engines rg)" and C: "Engine_CancelOrder i oid m w e = (Inr r, m2, w2, e')"
    and eq: "Registry_CancelOrder i oid m w rg = (Inr r, m2, w2, put_engine k e' rg)"
  have ei: "engine_inv m e" using inv k by (auto simp: registry_inv_def)
  have m': "m' = m2" "rg' = put_engine k e' rg" using res eq by simp_all
  show ?thesis
  proof (rule Engine_CancelOrder_cases[OF ei, where i = i and oid = oid and w = w])
    assume "Engine_CancelOrder i oid m w e = (Inl errOrderNotFound, m, w, e)"
    with C show ?thesis by simp
  next
    fix r' ob ob' now w'
    assume ob: "e_orderbooks e i = Some ob" "r' \<in> set (book_refs ob)"
      and fl: "flat (ob_bids ob') = filter (\<lambda>r. o_ID (cell m r) \<noteq> oid) (flat (ob_bids ob))"
        "flat (ob_asks ob') = filter (\<lambda>r. o_ID (cell m r) \<noteq> oid) (flat (ob_asks ob))"
      and C': "Engine_CancelOrder i oid m w e
       = (Inr r', upd r' (\<lambda>x. x\<lparr>o_Status := Cancelled, o_UpdatedAt := now\<rparr>) m, w',
          e\<lparr>e_orderbooks := (e_orderbooks e)(i \<mapsto> ob')\<rparr>)"
    have r: "r' = r" "m2 = upd r (\<lambda>x. x\<lparr>o_Status := Cancelled, o_UpdatedAt := now\<rparr>) m"
      "e' = e\<lparr>e_orderbooks := (e_orderbooks e)(i \<mapsto> ob')\<rparr>" using C C' by auto
    have rr: "rests e r" using ob r(1) by (auto simp: rests_def)
    have sub: "rests e x" if "rests e' x" for x
      using that ob fl r(3) by (auto simp: rests_def book_refs_def split: if_splits)
    show ?thesis
      unfolding m'
    proof (rule registry_inv_put[OF inv k engine_inv_CancelOrder[OF ei C], of r])
      show "\<not> rests e2 r" if "(k', e2) \<in> set (rg_engines rg)" "k' \<noteq> k" for k' e2
        using inv k that rr unfolding registry_inv_def by metis
    qed (use sub r(2) in \<open>auto simp: static_of_def\<close>)
  qed
qed

section \<open>The states a registry can reach\<close>

text \<open>
  A trading process: orders restored from the database, new orders, cancellations, and other
  order objects made in between, in any order and with any results. New ids are fresh.
\<close>

inductive registry_run :: "'d::linordered_field mem \<Rightarrow> 'd Registry \<Rightarrow> bool" where
  start: "registry_run m NewRegistry"
| place: "registry_run m rg \<Longrightarrow> (r, m1) = alloc x m \<Longrightarrow> o_FilledQty x = 0 \<Longrightarrow>
    (\<forall>y. registry_rests rg y \<longrightarrow> o_ID (cell m y) \<noteq> o_ID x) \<Longrightarrow>
    Registry_PlaceOrder r m1 w rg = (res, m', w', rg') \<Longrightarrow> registry_run m' rg'"
| cancel: "registry_run m rg \<Longrightarrow> Registry_CancelOrder i oid m w rg = (res, m', w', rg') \<Longrightarrow> registry_run m' rg'"
| restore: "registry_run m rg \<Longrightarrow> (r, m1) = alloc x m \<Longrightarrow> resting_ok x \<Longrightarrow>
    (\<forall>y. registry_rests rg y \<longrightarrow> o_ID (cell m y) \<noteq> o_ID x) \<Longrightarrow> registry_run m1 (RestoreOrder r m1 rg)"
| other: "registry_run m rg \<Longrightarrow> (r, m1) = alloc x m \<Longrightarrow> registry_run m1 rg"

lemma registry_alloc:
  fixes m :: "'d::linordered_field mem"
  assumes inv: "registry_inv m rg" and al: "(r, m1) = alloc x m"
  shows "registry_inv m1 rg" "cell m1 r = x" "r < top m1" "registry_rests rg y \<Longrightarrow> cell m1 y = cell m y"
proof -
  have r: "r = top m" "m1 = m\<lparr>cell := (cell m)(top m := x), top := Suc (top m)\<rparr>"
    using al by (simp_all add: alloc_def)
  have below: "y < top m" if "registry_rests rg y" for y
    using inv that unfolding registry_inv_def registry_rests_def rests_def engine_inv_def by blast
  then show same: "registry_rests rg y \<Longrightarrow> cell m1 y = cell m y" for y using r by fastforce
  show "cell m1 r = x" "r < top m1" using r by simp_all
  have same': "cell m1 y = cell m y" if "(k, e) \<in> set (rg_engines rg)" "rests e y" for k e y
    using same that unfolding registry_rests_def by blast
  have "engine_inv m1 e" if "(k, e) \<in> set (rg_engines rg)" for k e
    using inv same'[OF that] that r by (intro engine_inv_frame[of m e m1]) (auto simp: registry_inv_def)
  with inv same same' show "registry_inv m1 rg" unfolding registry_inv_def by (metis (full_types))
qed

lemma registry_run_new:
  assumes inv: "registry_inv m rg" and al: "(r, m1) = alloc x m"
    and "\<forall>y. registry_rests rg y \<longrightarrow> o_ID (cell m y) \<noteq> o_ID x"
  shows "registry_new m1 rg r"
  using registry_alloc[OF inv al] assms(3) by (simp add: registry_new_def)

lemma registry_run_inv: "registry_run m rg \<Longrightarrow> registry_inv m rg"
proof (induction rule: registry_run.induct)
  case (start m)
  then show ?case by (simp add: registry_inv_def NewRegistry_def registry_rests_def)
next
  case (place m rg r m1 x w res m' w' rg')
  have "o_FilledQty (cell m1 r) = 0" using registry_alloc(2)[OF place.IH place.hyps(2)] place.hyps(3) by simp
  with registry_inv_PlaceOrder[OF registry_alloc(1)[OF place.IH place.hyps(2)]
      registry_run_new[OF place.IH place.hyps(2,4)] _ place.hyps(5)]
  show ?case by blast
next
  case (cancel m rg i oid w res m' w' rg')
  then show ?case using registry_inv_CancelOrder by blast
next
  case (restore m rg r m1 x)
  have "resting_ok (cell m1 r)" using registry_alloc(2)[OF restore.IH restore.hyps(2)] restore.hyps(3) by simp
  with registry_inv_RestoreOrder[OF registry_alloc(1)[OF restore.IH restore.hyps(2)]
      registry_run_new[OF restore.IH restore.hyps(2,4)]]
  show ?case by blast
next
  case (other m rg r m1 x)
  then show ?case using registry_alloc(1) by blast
qed

text \<open>Two markets: Alice's ask in one, an order restored in the other.\<close>

definition ex_restored :: "rat Order" where
  "ex_restored = (ex_order ''z'' ''carol'' Buy (1 / 2) 3)\<lparr>o_MarketID := ''m2''\<rparr>"

definition ex_rg_run :: "(err + rat MatchResult) \<times> rat mem \<times> world \<times> rat Registry" where
  "ex_rg_run = Registry_PlaceOrder 0 (snd (alloc ex_ask ex_mem0)) ex_world NewRegistry"

definition ex_rg_mem :: "rat mem" where
  "ex_rg_mem = snd (alloc ex_restored (fst (snd ex_rg_run)))"

definition ex_rg :: "rat Registry" where
  "ex_rg = RestoreOrder 1 ex_rg_mem (snd (snd (snd ex_rg_run)))"

lemma ex_rg_run1: "registry_run (fst (snd ex_rg_run)) (snd (snd (snd ex_rg_run)))"
proof (rule registry_run.place)
  show "registry_run ex_mem0 NewRegistry" by (rule registry_run.start)
  show "(0, snd (alloc ex_ask ex_mem0)) = alloc ex_ask ex_mem0" by (simp add: alloc_def ex_mem0_def)
  show "o_FilledQty ex_ask = 0" by (simp add: ex_ask_def ex_order_def)
  show "\<forall>y. registry_rests (NewRegistry :: rat Registry) y \<longrightarrow> o_ID (cell ex_mem0 y) \<noteq> o_ID ex_ask"
    by (simp add: registry_rests_def NewRegistry_def)
  show "Registry_PlaceOrder 0 (snd (alloc ex_ask ex_mem0)) ex_world NewRegistry
      = (fst ex_rg_run, fst (snd ex_rg_run), fst (snd (snd ex_rg_run)), snd (snd (snd ex_rg_run)))"
    by (simp add: ex_rg_run_def)
qed

lemma ex_rg_ids:
  assumes "registry_rests (snd (snd (snd ex_rg_run))) y"
  shows "o_ID (cell (fst (snd ex_rg_run)) y) = ''a''"
proof -
  let ?rg = "snd (snd (snd ex_rg_run))"
  have one: "rg_engines ?rg = [(''m'', ex_e1)]"
  proof -
    have "o_MarketID (cell (snd (alloc ex_ask ex_mem0)) 0) = ''m''" by code_simp
    then show ?thesis
      by (simp add: ex_rg_run_def Registry_PlaceOrder_def getOrCreate_def NewRegistry_def put_engine_def
          ex_e1_def ex_run1_def Let_def split: prod.splits)
  qed
  with assms have "y = 0" by (auto simp: registry_rests_def rests_def dest!: ex_e1_books)
  moreover have "o_ID (cell (fst (snd ex_rg_run)) 0) = ''a''" by code_simp
  ultimately show ?thesis by simp
qed

lemma ex_rg_reached: "registry_run ex_rg_mem ex_rg"
  unfolding ex_rg_def
proof (rule registry_run.restore[OF ex_rg_run1])
  have "fst (alloc ex_restored (fst (snd ex_rg_run))) = 1" by code_simp
  then show "(1, ex_rg_mem) = alloc ex_restored (fst (snd ex_rg_run))" by (simp add: ex_rg_mem_def prod_eq_iff)
  show "resting_ok ex_restored" by code_simp
  have "o_ID ex_restored = ''z''" by code_simp
  then show "\<forall>y. registry_rests (snd (snd (snd ex_rg_run))) y \<longrightarrow>
      o_ID (cell (fst (snd ex_rg_run)) y) \<noteq> o_ID ex_restored"
    using ex_rg_ids by simp
qed

section \<open>Properties\<close>

text \<open>
  Cancelling through the registry does not depend on the order in which Go iterates over
  the engines: any two orders give the same result, the same memory and the same engines.
\<close>

theorem Registry_CancelOrder_any_order:
  fixes m :: "'d::linordered_field mem"
  assumes "registry_inv m rg" and "mset (rg_engines rg') = mset (rg_engines rg)"
  shows "case Registry_CancelOrder i oid m w rg of (res, m1, w1, rg1) \<Rightarrow>
    case Registry_CancelOrder i oid m w rg' of (res', m1', w1', rg1') \<Rightarrow>
      res' = res \<and> m1' = m1 \<and> w1' = w1 \<and> mset (rg_engines rg1') = mset (rg_engines rg1)"
proof -
  have s: "set (rg_engines rg') = set (rg_engines rg)" using assms(2) by (metis set_mset_mset)
  then have rr: "registry_rests rg' = registry_rests rg" by (simp add: registry_rests_def fun_eq_iff)
  have inv': "registry_inv m rg'"
    using assms distinct_map_mset[OF assms(2), of fst] unfolding registry_inv_def rr s by simp
  show ?thesis
  proof (rule Registry_CancelOrder_cases[OF assms(1), where i = i and oid = oid and w = w])
    assume A: "Registry_CancelOrder i oid m w rg = (Inl errOrderNotFound, m, w, rg)"
      "\<And>k e. (k, e) \<in> set (rg_engines rg) \<Longrightarrow> \<not> has_order i oid m e"
    show ?thesis
      by (rule Registry_CancelOrder_cases[OF inv', where i = i and oid = oid and w = w])
        (use A s assms(2) in auto)
  next
    fix k e r m1 w1 e'
    assume A: "(k, e) \<in> set (rg_engines rg)" "has_order i oid m e"
      "Engine_CancelOrder i oid m w e = (Inr r, m1, w1, e')"
      "Registry_CancelOrder i oid m w rg = (Inr r, m1, w1, put_engine k e' rg)"
    show ?thesis
    proof (rule Registry_CancelOrder_cases[OF inv', where i = i and oid = oid and w = w])
      assume "\<And>k e. (k, e) \<in> set (rg_engines rg') \<Longrightarrow> \<not> has_order i oid m e"
      with A s show ?thesis by blast
    next
      fix k2 e2 r2 m2 w2 e2'
      assume B: "(k2, e2) \<in> set (rg_engines rg')" "has_order i oid m e2"
        "Engine_CancelOrder i oid m w e2 = (Inr r2, m2, w2, e2')"
        "Registry_CancelOrder i oid m w rg' = (Inr r2, m2, w2, put_engine k2 e2' rg')"
      obtain x where x: "rests e x" "o_ID (cell m x) = oid" using A(2) book_of_rests by (auto simp: has_order_def)
      obtain y where y: "rests e2 y" "o_ID (cell m y) = oid" using B(2) book_of_rests by (auto simp: has_order_def)
      have "x = y" using assms(1) A(1) B(1) s x y unfolding registry_inv_def registry_rests_def by blast
      then have "k2 = k" using assms(1) A(1) B(1) s x y unfolding registry_inv_def by metis
      moreover from this have "e2 = e" using inv' A(1) B(1) s by (auto simp: registry_inv_def intro: eq_key_imp_eq_value)
      ultimately show ?thesis using A B assms(2) by (auto simp: put_engine_def)
    qed
  qed
qed

theorem Registry_CancelOrder_any_order_witness:
  "length (rg_engines ex_rg) = 2 \<and>
   fst (Registry_CancelOrder ''yes'' ''z'' ex_rg_mem ex_world (ex_rg\<lparr>rg_engines := rev (rg_engines ex_rg)\<rparr>)) = Inr 1"
proof -
  have "fst (Registry_CancelOrder ''yes'' ''z'' ex_rg_mem ex_world ex_rg) = Inr 1" "length (rg_engines ex_rg) = 2"
    by code_simp+
  with Registry_CancelOrder_any_order[OF registry_run_inv[OF ex_rg_reached],
      of "ex_rg\<lparr>rg_engines := rev (rg_engines ex_rg)\<rparr>" "''yes''" "''z''" ex_world]
  show ?thesis by (auto split: prod.splits)
qed

text \<open>
  C11: whatever a trading process does (restore orders from the database, place, cancel, in
  any order and with any results), it keeps one engine per market, each engine well formed and
  holding orders of its own market only, and no id rests twice.
\<close>

theorem registry_run_safe:
  assumes "registry_run m rg" and "(k, e) \<in> set (rg_engines rg)" and "e_orderbooks e i = Some ob"
  shows "book_inv (cell m) ob \<and> distinct (map fst (rg_engines rg)) \<and>
    (\<forall>r \<in> set (GetBids ob @ GetAsks ob).
       o_MarketID (cell m r) = k \<and> o_OutcomeID (cell m r) = i \<and> resting_ok (cell m r) \<and>
       (\<forall>r'. registry_rests rg r' \<and> o_ID (cell m r') = o_ID (cell m r) \<longrightarrow> r' = r))"
proof -
  have refs: "set (GetBids ob @ GetAsks ob) = set (book_refs ob)"
    by (simp add: book_refs_def GetBids_def GetAsks_def flat_def)
  note I = registry_run_inv[OF assms(1), unfolded registry_inv_def]
  have E: "engine_inv m e" "\<forall>r. rests e r \<longrightarrow> o_MarketID (cell m r) = k" using I assms(2) by blast+
  have R: "rests e r \<and> registry_rests rg r" if "r \<in> set (book_refs ob)" for r
    using that assms(2,3) unfolding rests_def registry_rests_def by blast
  show ?thesis unfolding refs using I E R assms(3) unfolding engine_inv_def by blast
qed

theorem registry_run_safe_witness:
  "\<exists>k e ob. (k, e) \<in> set (rg_engines ex_rg) \<and> e_orderbooks e ''yes'' = Some ob \<and> GetBids ob = [1] \<and>
     resting_ok (cell ex_rg_mem 1) \<and> k = ''m2''"
proof -
  have "map (\<lambda>p. (fst p, map_option GetBids (e_orderbooks (snd p) ''yes''))) (rg_engines ex_rg)
      = [(''m'', Some []), (''m2'', Some [1])]" by code_simp
  then obtain q p where "rg_engines ex_rg = [q, p]" "fst p = ''m2''"
    "map_option GetBids (e_orderbooks (snd p) ''yes'') = Some [1]"
    by (auto simp: map_eq_Cons_conv)
  then have p: "p \<in> set (rg_engines ex_rg)" "fst p = ''m2''" "map_option GetBids (e_orderbooks (snd p) ''yes'') = Some [1]"
    by simp_all
  then obtain ob where ob: "e_orderbooks (snd p) ''yes'' = Some ob" "GetBids ob = [1]" by auto
  have "(''m2'', snd p) \<in> set (rg_engines ex_rg)" using p by (metis prod.collapse)
  with registry_run_safe[OF ex_rg_reached this ob(1)] ob show ?thesis by auto
qed

end
