(* ===== verification/Database.thy ===== *)
theory Database
  imports DomainTypes AppErrors
begin

text \<open>
  The database as the services see it, through \<open>infra/postgres\<close>: tables are lists of rows,
  each query of \<open>infra/postgres/queries\<close> is a function on them, and the constraints of
  \<open>migrations\<close> are conditions of the statements that write. Any statement may fail (the
  connection, a time-out, the server); inside a transaction a failed statement aborts the
  transaction, as in PostgreSQL. \<open>WithTx\<close> is \<open>tx_manager.go\<close>.
\<close>

section \<open>Tables and the state of a process\<close>

record 'd DB =
  db_users :: "'d User list"
  db_markets :: "Market list"
  db_outcomes :: "Outcome list"
  db_orders :: "'d Order list"
  db_trades :: "'d Trade list"
  db_positions :: "'d Position list"
  db_mints :: "'d MintTransaction list"

datatype txstate = NoTx | ActiveTx | AbortedTx

record 'd node =
  n_db :: "'d DB"
  n_tx :: txstate
  n_world :: world

type_synonym ('d, 'z, 'a) dbop = "(('d, 'z) node_scheme, err, 'a) comp"

section \<open>Statements\<close>

definition statement ::
    "string \<Rightarrow> ('d DB \<Rightarrow> bool) \<Rightarrow> ('d DB \<Rightarrow> 'a \<times> 'd DB) \<Rightarrow> ('d, 'z, 'a) dbop" where
  "statement what ok f s =
     (if n_tx s = AbortedTx then (Inl (Errorf what (Some DriverError)), s)
      else let (bad, w) = next_fault (n_world s)
           in if bad \<or> \<not> ok (n_db s)
              then (Inl (Errorf what (Some DriverError)),
                    s\<lparr>n_world := w, n_tx := if n_tx s = ActiveTx then AbortedTx else n_tx s\<rparr>)
              else let (x, db) = f (n_db s) in (Inr x, s\<lparr>n_world := w, n_db := db\<rparr>))"

definition query :: "string \<Rightarrow> ('d DB \<Rightarrow> 'a) \<Rightarrow> ('d, 'z, 'a) dbop" where
  "query what f = statement what (\<lambda>db. True) (\<lambda>db. (f db, db))"

definition execute :: "string \<Rightarrow> ('d DB \<Rightarrow> bool) \<Rightarrow> ('d DB \<Rightarrow> 'd DB) \<Rightarrow> ('d, 'z, unit) dbop" where
  "execute what ok f = statement what ok (\<lambda>db. ((), f db))"

text \<open>\<open>:one\<close> queries and \<open>:execrows\<close> updates report a missing row.\<close>

definition one_row :: "string \<Rightarrow> ('d DB \<Rightarrow> 'a option) \<Rightarrow> ('d, 'z, 'a) dbop" where
  "one_row what f =
     bnd (query what f) (\<lambda>row. case row of None \<Rightarrow> fail (Errorf what (Some ErrNoRows)) | Some x \<Rightarrow> ret x)"

definition update_rows ::
    "string \<Rightarrow> ('d DB \<Rightarrow> bool) \<Rightarrow> ('d DB \<Rightarrow> nat \<times> 'd DB) \<Rightarrow> ('d, 'z, unit) dbop" where
  "update_rows what ok f =
     bnd (statement what ok f) (\<lambda>n. check (n \<noteq> 0) (Errorf what (Some ErrNoRows)))"

text \<open>The clock and fresh identifiers inside a computation.\<close>

definition now :: "('d, 'z, time) dbop" where
  "now s = (let (t, w) = time_now (n_world s) in (Inr t, s\<lparr>n_world := w\<rparr>))"

definition fresh_id :: "('d, 'z, string) dbop" where
  "fresh_id s = (let (i, w) = new_uuid (n_world s) in (Inr i, s\<lparr>n_world := w\<rparr>))"

section \<open>Transactions\<close>

definition WithTx :: "('d, 'z, 'a) dbop \<Rightarrow> ('d, 'z, 'a) dbop" where
  "WithTx fn s =
     (let (bad, w) = next_fault (n_world s)
      in if bad then (Inl (Errorf ''postgres: begin tx'' (Some DriverError)), s\<lparr>n_world := w\<rparr>)
         else case fn (s\<lparr>n_world := w, n_tx := ActiveTx\<rparr>) of
                (Inl e, s') \<Rightarrow> (Inl e, s'\<lparr>n_db := n_db s, n_tx := n_tx s\<rparr>)
              | (Inr x, s') \<Rightarrow>
                  let (bad', w') = next_fault (n_world s')
                  in if bad' \<or> n_tx s' = AbortedTx
                     then (Inl (Errorf ''postgres: commit tx'' (Some DriverError)),
                           s'\<lparr>n_db := n_db s, n_tx := n_tx s, n_world := w'\<rparr>)
                     else (Inr x, s'\<lparr>n_tx := n_tx s, n_world := w'\<rparr>))"

text \<open>
  A successful transaction is a successful run of its body; a failed one leaves the tables
  as they were. Only the tables are taken back: what the body did to other parts of the state
  stays.
\<close>

lemma WithTx_ok:
  assumes "WithTx fn s = (Inr x, s')"
  obtains s1 w w' where "fn (s\<lparr>n_world := w, n_tx := ActiveTx\<rparr>) = (Inr x, s1)" "n_tx s1 \<noteq> AbortedTx"
    "s' = s1\<lparr>n_tx := n_tx s, n_world := w'\<rparr>"
  using assms by (auto simp: WithTx_def Let_def split: prod.splits sum.splits if_splits)

lemma WithTx_failed:
  assumes "WithTx fn s = (Inl e, s')"
  shows "n_db s' = n_db s"
  using assms by (auto simp: WithTx_def Let_def split: prod.splits sum.splits if_splits)

section \<open>What a successful statement does\<close>

text \<open>
  \<open>moved s s'\<close>: apart from the tables only the sources of the outside world moved on. The
  rules \<open>effects\<close> say what a successful operation did.
\<close>

named_theorems effects \<open>what a successful operation did, for dest\<close>

definition moved :: "('d, 'z) node_scheme \<Rightarrow> ('d, 'z) node_scheme \<Rightarrow> bool" where
  "moved s s' \<longleftrightarrow> n_tx s' = n_tx s \<and> node.more s' = node.more s"

lemma moved_refl [simp]: "moved s s"
  by (simp add: moved_def)

lemma moved_trans: "moved s t \<Longrightarrow> moved t u \<Longrightarrow> moved s u"
  by (simp add: moved_def)

lemma statement_effect:
  "statement what ok f s = (Inr x, s') \<Longrightarrow>
   moved s s' \<and> ok (n_db s) \<and> x = fst (f (n_db s)) \<and> n_db s' = snd (f (n_db s))"
  by (auto simp: statement_def moved_def Let_def split: if_splits prod.splits)

lemma query_effect [effects]:
  "query what f s = (Inr x, s') \<Longrightarrow> moved s s' \<and> x = f (n_db s) \<and> n_db s' = n_db s"
  by (auto simp: query_def dest!: statement_effect)

lemma execute_effect:
  "execute what ok f s = (Inr x, s') \<Longrightarrow> moved s s' \<and> ok (n_db s) \<and> n_db s' = f (n_db s)"
  by (auto simp: execute_def dest!: statement_effect)

lemma one_row_effect:
  "one_row what f s = (Inr x, s') \<Longrightarrow> moved s s' \<and> f (n_db s) = Some x \<and> n_db s' = n_db s"
  by (auto simp: one_row_def succeeds split: option.splits dest!: query_effect)

lemma update_rows_effect:
  "update_rows what ok f s = (Inr x, s') \<Longrightarrow>
   moved s s' \<and> ok (n_db s) \<and> fst (f (n_db s)) \<noteq> 0 \<and> n_db s' = snd (f (n_db s))"
  by (auto simp: update_rows_def succeeds dest!: statement_effect)

text \<open>A statement that reports an error has changed no row: it failed, or it matched none.\<close>

lemma statement_failed: "statement what ok f s = (Inl e, s') \<Longrightarrow> n_db s' = n_db s"
  by (auto simp: statement_def Let_def case_prod_unfold split: if_splits)

lemma update_rows_failed:
  assumes "\<And>db. fst (f db) = 0 \<Longrightarrow> snd (f db) = db" and "update_rows what ok f s = (Inl e, s')"
  shows "n_db s' = n_db s"
proof (cases "statement what ok f s")
  case (Pair r t)
  then show ?thesis
  proof (cases r)
    case (Inl d)
    with Pair assms(2) statement_failed[of what ok f s d t] show ?thesis by (simp add: update_rows_def bnd_def)
  next
    case (Inr n)
    with Pair assms(2) have "n = 0" "s' = t" by (auto simp: update_rows_def bnd_def check_def comp_defs split: if_splits)
    with statement_effect[of what ok f s n t] Pair Inr assms(1) show ?thesis by simp
  qed
qed

lemma now_effect [effects]: "now s = (Inr t, s') \<Longrightarrow> moved s s' \<and> n_db s' = n_db s"
  by (auto simp: now_def moved_def split: prod.splits)

lemma fresh_id_effect [effects]: "fresh_id s = (Inr i, s') \<Longrightarrow> moved s s' \<and> n_db s' = n_db s"
  by (auto simp: fresh_id_def moved_def split: prod.splits)

lemma now_Inl [failing]: "now s = (Inl e, s') \<longleftrightarrow> False"
  by (simp add: now_def case_prod_unfold Let_def)

lemma fresh_id_Inl [failing]: "fresh_id s = (Inl e, s') \<longleftrightarrow> False"
  by (simp add: fresh_id_def case_prod_unfold Let_def)

text \<open>What no database operation touches, whatever its outcome.\<close>

lemma keeps_statement [keeping]: "keeps node.more (statement what ok f)"
  by (rule keepsI) (auto simp: statement_def Let_def split: prod.splits)

lemma keeps_query [keeping]: "keeps node.more (query what f)"
  unfolding query_def by (rule keeps_statement)

lemma keeps_execute [keeping]: "keeps node.more (execute what ok f)"
  unfolding execute_def by (rule keeps_statement)

lemma keeps_one_row [keeping]: "keeps node.more (one_row what f)"
  unfolding one_row_def by (intro keeping)

lemma keeps_update_rows [keeping]: "keeps node.more (update_rows what ok f)"
  unfolding update_rows_def by (intro keeping)

lemma keeps_now [keeping]: "keeps node.more now"
  by (rule keepsI) (auto simp: now_def split: prod.splits)

lemma keeps_fresh_id [keeping]: "keeps node.more fresh_id"
  by (rule keepsI) (auto simp: fresh_id_def split: prod.splits)

section \<open>Pages\<close>

text \<open>
  The defaults every listing applies, and \<open>LIMIT\<close>/\<open>OFFSET\<close> with the conversion of both to
  32 bits; a negative one is an error of the server.
\<close>

definition page_limit :: "int \<Rightarrow> int" where
  "page_limit limit = (if limit \<le> 0 then 50 else limit)"

definition page_offset :: "int \<Rightarrow> int" where
  "page_offset offset = (if offset < 0 then 0 else offset)"

definition int32 :: "int \<Rightarrow> int" where
  "int32 n = (n + 2 ^ 31) mod 2 ^ 32 - 2 ^ 31"

definition page :: "int \<Rightarrow> int \<Rightarrow> 'a list \<Rightarrow> 'a list" where
  "page limit offset xs = take (nat (int32 limit)) (drop (nat (int32 offset)) xs)"

definition page_query :: "string \<Rightarrow> int \<Rightarrow> int \<Rightarrow> ('d DB \<Rightarrow> 'a list) \<Rightarrow> ('d, 'z, 'a list) dbop" where
  "page_query what limit offset f =
     statement what (\<lambda>db. 0 \<le> int32 limit \<and> 0 \<le> int32 offset) (\<lambda>db. (page limit offset (f db), db))"

lemma page_query_effect [effects]:
  "page_query what limit offset f s = (Inr x, s') \<Longrightarrow>
   moved s s' \<and> x = page limit offset (f (n_db s)) \<and> n_db s' = n_db s"
  by (auto simp: page_query_def dest!: statement_effect)

lemma keeps_page_query [keeping]: "keeps node.more (page_query what limit offset f)"
  unfolding page_query_def by (rule keeps_statement)

lemma int32_id: "- (2 ^ 31) \<le> n \<Longrightarrow> n < 2 ^ 31 \<Longrightarrow> int32 n = n"
  by (simp add: int32_def)

end
