(* ===== verification/Repos.thy ===== *)
theory Repos
  imports Database
begin

text \<open>
  The PostgreSQL repositories of \<open>infra/postgres/*_repo.go\<close>: one operation per method, its
  SQL statement from \<open>infra/postgres/queries\<close> written as a function on the tables. Listings
  are sorted the way their \<open>ORDER BY\<close> says; rows that tie keep the order of the table.
\<close>

section \<open>Users\<close>

definition find_user :: "string \<Rightarrow> 'd DB \<Rightarrow> 'd User option" where
  "find_user i db = find (\<lambda>u. u_ID u = i) (db_users db)"

definition UserRepo_Create :: "'d User \<Rightarrow> ('d, 'z, unit) dbop" where
  "UserRepo_Create user =
     execute ''postgres: create user''
       (\<lambda>db. u_ID user \<notin> u_ID ` set (db_users db) \<and>
             u_WalletAddress user \<notin> u_WalletAddress ` set (db_users db) \<and> length (u_WalletAddress user) \<le> 42)
       (\<lambda>db. db\<lparr>db_users := db_users db @ [user]\<rparr>)"

definition UserRepo_GetByID :: "string \<Rightarrow> ('d, 'z, 'd User) dbop" where
  "UserRepo_GetByID i =
     bnd (query ''postgres: get user by id'' (find_user i))
       (\<lambda>row. case row of None \<Rightarrow> fail (app_new ''NOT_FOUND'' (''user not found: '' @ i)) | Some user \<Rightarrow> ret user)"

definition UserRepo_GetByWallet :: "string \<Rightarrow> ('d, 'z, 'd User) dbop" where
  "UserRepo_GetByWallet addr =
     bnd (query ''postgres: get user by wallet'' (\<lambda>db. find (\<lambda>u. u_WalletAddress u = addr) (db_users db)))
       (\<lambda>row. case row of None \<Rightarrow> fail (app_new ''NOT_FOUND'' (''user not found: '' @ addr)) | Some user \<Rightarrow> ret user)"

definition set_balance :: "string \<Rightarrow> 'd \<Rightarrow> 'd \<Rightarrow> 'd DB \<Rightarrow> 'd DB" where
  "set_balance i balance locked db =
     db\<lparr>db_users := map (\<lambda>u. if u_ID u = i then u\<lparr>u_Balance := balance, u_LockedBalance := locked\<rparr> else u)
                     (db_users db)\<rparr>"

definition count_where :: "('a \<Rightarrow> bool) \<Rightarrow> 'a list \<Rightarrow> nat" where
  "count_where P xs = length (filter P xs)"

definition UserRepo_UpdateBalance :: "string \<Rightarrow> 'd \<Rightarrow> 'd \<Rightarrow> ('d, 'z, unit) dbop" where
  "UserRepo_UpdateBalance i balance locked =
     update_rows ''postgres: update user balance'' (\<lambda>db. True)
       (\<lambda>db. (count_where (\<lambda>u. u_ID u = i) (db_users db), set_balance i balance locked db))"

record UserFilter =
  uf_UserType :: "UserType option"
  uf_IsAdmin :: "bool option"
  uf_Limit :: int
  uf_Offset :: int

definition user_matches :: "UserFilter \<Rightarrow> 'd User \<Rightarrow> bool" where
  "user_matches flt u \<longleftrightarrow>
     (case uf_UserType flt of None \<Rightarrow> True | Some t \<Rightarrow> u_UserType u = t) \<and>
     (case uf_IsAdmin flt of None \<Rightarrow> True | Some b \<Rightarrow> u_IsAdmin u = b)"

definition UserRepo_List :: "UserFilter \<Rightarrow> ('d, 'z, 'd User list \<times> nat) dbop" where
  "UserRepo_List flt =
     bnd (query ''postgres: list users count'' (\<lambda>db. count_where (user_matches flt) (db_users db))) (\<lambda>total.
     bnd (page_query ''postgres: list users query'' (page_limit (uf_Limit flt)) (page_offset (uf_Offset flt))
           (\<lambda>db. sort_key (\<lambda>u. - u_CreatedAt u) (filter (user_matches flt) (db_users db)))) (\<lambda>users.
     ret (users, total)))"

section \<open>Markets and outcomes\<close>

definition find_market :: "string \<Rightarrow> 'd DB \<Rightarrow> Market option" where
  "find_market i db = find (\<lambda>m. m_ID m = i) (db_markets db)"

definition outcome_exists :: "string \<Rightarrow> 'd DB \<Rightarrow> bool" where
  "outcome_exists i db \<longleftrightarrow> i \<in> oc_ID ` set (db_outcomes db)"

definition resolved_ok :: "Market \<Rightarrow> 'd DB \<Rightarrow> bool" where
  "resolved_ok m db \<longleftrightarrow> (case m_ResolvedOutcomeID m of None \<Rightarrow> True | Some i \<Rightarrow> outcome_exists i db)"

definition MarketRepo_Create :: "Market \<Rightarrow> ('d, 'z, unit) dbop" where
  "MarketRepo_Create market =
     execute ''postgres: create market''
       (\<lambda>db. m_ID market \<notin> m_ID ` set (db_markets db) \<and> m_CreatorID market \<in> u_ID ` set (db_users db) \<and>
             resolved_ok market db \<and> length (m_Title market) \<le> 500 \<and> length (m_Category market) \<le> 100)
       (\<lambda>db. db\<lparr>db_markets := db_markets db @ [market]\<rparr>)"

definition MarketRepo_GetByID :: "string \<Rightarrow> ('d, 'z, Market) dbop" where
  "MarketRepo_GetByID i = one_row ''postgres: get market by id'' (find_market i)"

text \<open>
  \<open>UPDATE\<close> sets every column but the id and the creation time; without a row to write there is no
  constraint to fail.
\<close>

definition set_market :: "Market \<Rightarrow> 'd DB \<Rightarrow> 'd DB" where
  "set_market market db =
     db\<lparr>db_markets := map (\<lambda>m. if m_ID m = m_ID market then market\<lparr>m_CreatedAt := m_CreatedAt m\<rparr> else m)
                       (db_markets db)\<rparr>"

definition MarketRepo_Update :: "Market \<Rightarrow> ('d, 'z, unit) dbop" where
  "MarketRepo_Update market =
     update_rows ''postgres: update market''
       (\<lambda>db. m_ID market \<in> m_ID ` set (db_markets db) \<longrightarrow>
             m_CreatorID market \<in> u_ID ` set (db_users db) \<and> resolved_ok market db \<and>
             length (m_Title market) \<le> 500 \<and> length (m_Category market) \<le> 100)
       (\<lambda>db. (count_where (\<lambda>m. m_ID m = m_ID market) (db_markets db), set_market market db))"

record MarketFilter =
  mf_Status :: "MarketStatus option"
  mf_Category :: "string option"
  mf_Limit :: int
  mf_Offset :: int

definition market_matches :: "MarketFilter \<Rightarrow> Market \<Rightarrow> bool" where
  "market_matches flt m \<longleftrightarrow>
     (case mf_Status flt of None \<Rightarrow> True | Some st \<Rightarrow> m_Status m = st) \<and>
     (case mf_Category flt of None \<Rightarrow> True | Some c \<Rightarrow> m_Category m = c)"

definition MarketRepo_List :: "MarketFilter \<Rightarrow> ('d, 'z, Market list \<times> nat) dbop" where
  "MarketRepo_List flt =
     bnd (query ''postgres: list markets count'' (\<lambda>db. count_where (market_matches flt) (db_markets db))) (\<lambda>total.
     bnd (page_query ''postgres: list markets query'' (page_limit (mf_Limit flt)) (page_offset (mf_Offset flt))
           (\<lambda>db. sort_key (\<lambda>m. - m_CreatedAt m) (filter (market_matches flt) (db_markets db)))) (\<lambda>markets.
     ret (markets, total)))"

text \<open>
  \<open>COPY\<close> of a batch: all rows or none; ids and the numbers of the outcomes of a market are
  unique.
\<close>

definition OutcomeRepo_CreateBatch :: "Outcome list \<Rightarrow> ('d, 'z, unit) dbop" where
  "OutcomeRepo_CreateBatch outcomes =
     (if outcomes = [] then ret ()
      else let params = map (\<lambda>x. x\<lparr>oc_Index := int32 (oc_Index x)\<rparr>) outcomes
           in execute ''postgres: create outcomes batch''
                (\<lambda>db. distinct (map oc_ID (db_outcomes db @ params)) \<and>
                      distinct (map (\<lambda>x. (oc_MarketID x, oc_Index x)) (db_outcomes db @ params)) \<and>
                      oc_MarketID ` set params \<subseteq> m_ID ` set (db_markets db) \<and>
                      (\<forall>x \<in> set params. length (oc_Label x) \<le> 200))
                (\<lambda>db. db\<lparr>db_outcomes := db_outcomes db @ params\<rparr>))"

definition outcomes_of :: "string \<Rightarrow> 'd DB \<Rightarrow> Outcome list" where
  "outcomes_of marketID db = sort_key oc_Index (filter (\<lambda>x. oc_MarketID x = marketID) (db_outcomes db))"

definition OutcomeRepo_ListByMarket :: "string \<Rightarrow> ('d, 'z, Outcome list) dbop" where
  "OutcomeRepo_ListByMarket marketID = query ''postgres: list outcomes by market'' (outcomes_of marketID)"

definition set_winner :: "string \<Rightarrow> 'd DB \<Rightarrow> 'd DB" where
  "set_winner i db =
     db\<lparr>db_outcomes := map (\<lambda>x. if oc_ID x = i then x\<lparr>oc_IsWinner := True\<rparr> else x) (db_outcomes db)\<rparr>"

definition OutcomeRepo_SetWinner :: "string \<Rightarrow> ('d, 'z, unit) dbop" where
  "OutcomeRepo_SetWinner i =
     update_rows ''postgres: set outcome winner'' (\<lambda>db. True)
       (\<lambda>db. (count_where (\<lambda>x. oc_ID x = i) (db_outcomes db), set_winner i db))"

section \<open>Orders\<close>

definition find_order :: "string \<Rightarrow> 'd DB \<Rightarrow> 'd Order option" where
  "find_order i db = find (\<lambda>x. o_ID x = i) (db_orders db)"

definition parties_exist :: "string \<Rightarrow> string \<Rightarrow> string \<Rightarrow> 'd DB \<Rightarrow> bool" where
  "parties_exist user market outcome db \<longleftrightarrow>
     user \<in> u_ID ` set (db_users db) \<and> market \<in> m_ID ` set (db_markets db) \<and> outcome_exists outcome db"

definition OrderRepo_Create :: "'d::linordered_field Order \<Rightarrow> ('d, 'z, unit) dbop" where
  "OrderRepo_Create order =
     execute ''postgres: create order''
       (\<lambda>db. o_ID order \<notin> o_ID ` set (db_orders db) \<and>
             parties_exist (o_UserID order) (o_MarketID order) (o_OutcomeID order) db \<and>
             0 < o_Price order \<and> o_Price order < 1 \<and> 0 < o_Quantity order)
       (\<lambda>db. db\<lparr>db_orders := db_orders db @ [order]\<rparr>)"

definition OrderRepo_GetByID :: "string \<Rightarrow> ('d, 'z, 'd Order) dbop" where
  "OrderRepo_GetByID i = one_row ''postgres: get order by id'' (find_order i)"

definition set_order_status :: "string \<Rightarrow> OrderStatus \<Rightarrow> 'd \<Rightarrow> time \<Rightarrow> 'd DB \<Rightarrow> 'd DB" where
  "set_order_status i status filled t db =
     db\<lparr>db_orders := map (\<lambda>x. if o_ID x = i
                              then x\<lparr>o_Status := status, o_FilledQty := filled, o_UpdatedAt := t\<rparr> else x)
                      (db_orders db)\<rparr>"

definition OrderRepo_UpdateStatus :: "string \<Rightarrow> OrderStatus \<Rightarrow> 'd \<Rightarrow> ('d, 'z, unit) dbop" where
  "OrderRepo_UpdateStatus i status filled =
     bnd now (\<lambda>t. update_rows ''postgres: update order status'' (\<lambda>db. True)
       (\<lambda>db. (count_where (\<lambda>x. o_ID x = i) (db_orders db), set_order_status i status filled t db)))"

definition is_open :: "'d Order \<Rightarrow> bool" where
  "is_open x \<longleftrightarrow> o_Status x = Open \<or> o_Status x = PartiallyFilled"

definition OrderRepo_ListOpenByMarket :: "string \<Rightarrow> ('d::linordered_field, 'z, 'd Order list) dbop" where
  "OrderRepo_ListOpenByMarket marketID =
     query ''postgres: list open orders by market''
       (\<lambda>db. sort_key (\<lambda>x. - o_Price x)
              (sort_key o_CreatedAt (filter (\<lambda>x. o_MarketID x = marketID \<and> is_open x) (db_orders db))))"

text \<open>
  Ids are compared by an order of their own, which the source does not depend on: the
  comparison of ids is an argument.
\<close>

definition OrderRepo_ListAllOpen :: "(string \<Rightarrow> nat) \<Rightarrow> ('d::linordered_field, 'z, 'd Order list) dbop" where
  "OrderRepo_ListAllOpen uuid_rank =
     query ''postgres: list all open orders''
       (\<lambda>db. sort_key (\<lambda>x. uuid_rank (o_MarketID x))
              (sort_key (\<lambda>x. uuid_rank (o_OutcomeID x))
                (sort_key o_CreatedAt (filter is_open (db_orders db)))))"

definition OrderRepo_ListByUser :: "string \<Rightarrow> int \<Rightarrow> int \<Rightarrow> ('d, 'z, 'd Order list \<times> nat) dbop" where
  "OrderRepo_ListByUser userID limit offset =
     bnd (query ''postgres: list orders by user count''
           (\<lambda>db. count_where (\<lambda>x. o_UserID x = userID) (db_orders db))) (\<lambda>total.
     bnd (page_query ''postgres: list orders by user query'' (page_limit limit) (page_offset offset)
           (\<lambda>db. sort_key (\<lambda>x. - o_CreatedAt x) (filter (\<lambda>x. o_UserID x = userID) (db_orders db)))) (\<lambda>orders.
     ret (orders, total)))"

definition cancel_market_orders :: "string \<Rightarrow> time \<Rightarrow> 'd DB \<Rightarrow> 'd DB" where
  "cancel_market_orders marketID t db =
     db\<lparr>db_orders := map (\<lambda>x. if o_MarketID x = marketID \<and> is_open x
                              then x\<lparr>o_Status := Cancelled, o_UpdatedAt := t\<rparr> else x) (db_orders db)\<rparr>"

definition OrderRepo_CancelAllByMarket :: "string \<Rightarrow> ('d, 'z, nat) dbop" where
  "OrderRepo_CancelAllByMarket marketID =
     bnd now (\<lambda>t. statement ''postgres: cancel all orders by market'' (\<lambda>db. True)
       (\<lambda>db. (count_where (\<lambda>x. o_MarketID x = marketID \<and> is_open x) (db_orders db), cancel_market_orders marketID t db)))"

section \<open>Trades and minting\<close>

definition TradeRepo_Create :: "'d Trade \<Rightarrow> ('d, 'z, unit) dbop" where
  "TradeRepo_Create trade =
     execute ''postgres: create trade''
       (\<lambda>db. t_ID trade \<notin> t_ID ` set (db_trades db) \<and>
             {t_MakerOrderID trade, t_TakerOrderID trade} \<subseteq> o_ID ` set (db_orders db) \<and>
             parties_exist (t_MakerUserID trade) (t_MarketID trade) (t_OutcomeID trade) db \<and>
             t_TakerUserID trade \<in> u_ID ` set (db_users db))
       (\<lambda>db. db\<lparr>db_trades := db_trades db @ [trade]\<rparr>)"

definition TradeRepo_ListByMarket :: "string \<Rightarrow> int \<Rightarrow> int \<Rightarrow> ('d, 'z, 'd Trade list \<times> nat) dbop" where
  "TradeRepo_ListByMarket marketID limit offset =
     bnd (query ''postgres: list trades by market count''
           (\<lambda>db. count_where (\<lambda>x. t_MarketID x = marketID) (db_trades db))) (\<lambda>total.
     bnd (page_query ''postgres: list trades by market query'' (page_limit limit) (page_offset offset)
           (\<lambda>db. sort_key (\<lambda>x. - t_CreatedAt x) (filter (\<lambda>x. t_MarketID x = marketID) (db_trades db)))) (\<lambda>trades.
     ret (trades, total)))"

definition TradeRepo_ListByUser :: "string \<Rightarrow> int \<Rightarrow> int \<Rightarrow> ('d, 'z, 'd Trade list \<times> nat) dbop" where
  "TradeRepo_ListByUser userID limit offset =
     bnd (query ''postgres: list trades by user count''
           (\<lambda>db. count_where (\<lambda>x. t_MakerUserID x = userID \<or> t_TakerUserID x = userID) (db_trades db))) (\<lambda>total.
     bnd (page_query ''postgres: list trades by user query'' (page_limit limit) (page_offset offset)
           (\<lambda>db. sort_key (\<lambda>x. - t_CreatedAt x)
                   (filter (\<lambda>x. t_MakerUserID x = userID \<or> t_TakerUserID x = userID) (db_trades db)))) (\<lambda>trades.
     ret (trades, total)))"

definition TradeRepo_CreateMintTx :: "'d MintTransaction \<Rightarrow> ('d, 'z, unit) dbop" where
  "TradeRepo_CreateMintTx mintTx =
     execute ''postgres: create mint transaction''
       (\<lambda>db. mt_ID mintTx \<notin> mt_ID ` set (db_mints db) \<and> mt_UserID mintTx \<in> u_ID ` set (db_users db) \<and>
             mt_MarketID mintTx \<in> m_ID ` set (db_markets db))
       (\<lambda>db. db\<lparr>db_mints := db_mints db @ [mintTx]\<rparr>)"

section \<open>Positions\<close>

definition same_position :: "'d Position \<Rightarrow> 'd Position \<Rightarrow> bool" where
  "same_position p q \<longleftrightarrow> p_UserID p = p_UserID q \<and> p_MarketID p = p_MarketID q \<and> p_OutcomeID p = p_OutcomeID q"

text \<open>
  \<open>ON CONFLICT (user_id, market_id, outcome_id) DO UPDATE\<close>: the row keeps its id, and its
  quantity, average price and time become those of the argument.
\<close>

definition upsert_position :: "'d Position \<Rightarrow> 'd DB \<Rightarrow> 'd DB" where
  "upsert_position pos db =
     (if \<exists>p \<in> set (db_positions db). same_position p pos
      then db\<lparr>db_positions := map (\<lambda>p. if same_position p pos
                then p\<lparr>p_Quantity := p_Quantity pos, p_AvgPrice := p_AvgPrice pos, p_UpdatedAt := p_UpdatedAt pos\<rparr>
                else p) (db_positions db)\<rparr>
      else db\<lparr>db_positions := db_positions db @ [pos]\<rparr>)"

definition PositionRepo_Upsert :: "'d Position \<Rightarrow> ('d, 'z, unit) dbop" where
  "PositionRepo_Upsert pos =
     execute ''postgres: upsert position''
       (\<lambda>db. parties_exist (p_UserID pos) (p_MarketID pos) (p_OutcomeID pos) db \<and>
             ((\<exists>p \<in> set (db_positions db). same_position p pos) \<or> p_ID pos \<notin> p_ID ` set (db_positions db)))
       (upsert_position pos)"

definition find_position :: "string \<Rightarrow> string \<Rightarrow> 'd DB \<Rightarrow> 'd Position option" where
  "find_position userID outcomeID db =
     find (\<lambda>p. p_UserID p = userID \<and> p_OutcomeID p = outcomeID) (db_positions db)"

definition PositionRepo_GetByUserAndOutcome :: "string \<Rightarrow> string \<Rightarrow> ('d, 'z, 'd Position) dbop" where
  "PositionRepo_GetByUserAndOutcome userID outcomeID =
     one_row ''postgres: get position by user and outcome'' (find_position userID outcomeID)"

definition PositionRepo_ListByUser :: "string \<Rightarrow> ('d, 'z, 'd Position list) dbop" where
  "PositionRepo_ListByUser userID =
     query ''postgres: list positions by user''
       (\<lambda>db. sort_key (\<lambda>p. - p_UpdatedAt p) (filter (\<lambda>p. p_UserID p = userID) (db_positions db)))"

definition PositionRepo_ListByMarket :: "string \<Rightarrow> ('d, 'z, 'd Position list) dbop" where
  "PositionRepo_ListByMarket marketID =
     query ''postgres: list positions by market''
       (\<lambda>db. sort_key (\<lambda>p. - p_UpdatedAt p) (filter (\<lambda>p. p_MarketID p = marketID) (db_positions db)))"

section \<open>What the operations do when they succeed\<close>

lemma UserRepo_GetByID_effect [effects]:
  "UserRepo_GetByID i s = (Inr u, s') \<Longrightarrow> moved s s' \<and> find_user i (n_db s) = Some u \<and> n_db s' = n_db s"
  by (auto simp: UserRepo_GetByID_def succeeds split: option.splits dest!: query_effect)

lemma UserRepo_UpdateBalance_effect [effects]:
  "UserRepo_UpdateBalance i b l s = (Inr x, s') \<Longrightarrow>
   moved s s' \<and> i \<in> u_ID ` set (db_users (n_db s)) \<and> n_db s' = set_balance i b l (n_db s)"
  by (auto simp: UserRepo_UpdateBalance_def count_where_def filter_empty_conv dest!: update_rows_effect)

lemma UserRepo_Create_effect [effects]:
  "UserRepo_Create u s = (Inr x, s') \<Longrightarrow>
   moved s s' \<and> u_ID u \<notin> u_ID ` set (db_users (n_db s)) \<and> n_db s' = (n_db s)\<lparr>db_users := db_users (n_db s) @ [u]\<rparr>"
  by (auto simp: UserRepo_Create_def dest!: execute_effect)

lemma MarketRepo_Create_effect [effects]:
  "MarketRepo_Create m s = (Inr x, s') \<Longrightarrow>
   moved s s' \<and> m_ID m \<notin> m_ID ` set (db_markets (n_db s)) \<and>
   n_db s' = (n_db s)\<lparr>db_markets := db_markets (n_db s) @ [m]\<rparr>"
  by (auto simp: MarketRepo_Create_def dest!: execute_effect)

lemma MarketRepo_GetByID_effect [effects]:
  "MarketRepo_GetByID i s = (Inr m, s') \<Longrightarrow> moved s s' \<and> find_market i (n_db s) = Some m \<and> n_db s' = n_db s"
  by (auto simp: MarketRepo_GetByID_def dest!: one_row_effect)

lemma MarketRepo_Update_effect [effects]:
  "MarketRepo_Update m s = (Inr x, s') \<Longrightarrow>
   moved s s' \<and> m_ID m \<in> m_ID ` set (db_markets (n_db s)) \<and> n_db s' = set_market m (n_db s)"
  by (auto simp: MarketRepo_Update_def count_where_def filter_empty_conv rev_image_eqI dest!: update_rows_effect)

lemma OutcomeRepo_CreateBatch_effect [effects]:
  "OutcomeRepo_CreateBatch xs s = (Inr x, s') \<Longrightarrow>
   moved s s' \<and> n_db s' = (n_db s)\<lparr>db_outcomes := db_outcomes (n_db s) @ map (\<lambda>x. x\<lparr>oc_Index := int32 (oc_Index x)\<rparr>) xs\<rparr>"
  by (auto simp: OutcomeRepo_CreateBatch_def succeeds Let_def split: if_splits dest!: execute_effect)

lemma OutcomeRepo_ListByMarket_effect [effects]:
  "OutcomeRepo_ListByMarket i s = (Inr xs, s') \<Longrightarrow> moved s s' \<and> xs = outcomes_of i (n_db s) \<and> n_db s' = n_db s"
  by (auto simp: OutcomeRepo_ListByMarket_def dest!: query_effect)

lemma OutcomeRepo_SetWinner_effect [effects]:
  "OutcomeRepo_SetWinner i s = (Inr x, s') \<Longrightarrow>
   moved s s' \<and> outcome_exists i (n_db s) \<and> n_db s' = set_winner i (n_db s)"
  by (auto simp: OutcomeRepo_SetWinner_def outcome_exists_def count_where_def filter_empty_conv dest!: update_rows_effect)

lemma OrderRepo_Create_effect [effects]:
  "OrderRepo_Create x s = (Inr y, s') \<Longrightarrow>
   moved s s' \<and> o_ID x \<notin> o_ID ` set (db_orders (n_db s)) \<and> 0 < o_Quantity x \<and>
   n_db s' = (n_db s)\<lparr>db_orders := db_orders (n_db s) @ [x]\<rparr>"
  by (auto simp: OrderRepo_Create_def dest!: execute_effect)

lemma OrderRepo_GetByID_effect [effects]:
  "OrderRepo_GetByID i s = (Inr x, s') \<Longrightarrow> moved s s' \<and> find_order i (n_db s) = Some x \<and> n_db s' = n_db s"
  by (auto simp: OrderRepo_GetByID_def dest!: one_row_effect)

lemma OrderRepo_UpdateStatus_effect [effects]:
  "OrderRepo_UpdateStatus i st f s = (Inr x, s') \<Longrightarrow>
   moved s s' \<and> i \<in> o_ID ` set (db_orders (n_db s)) \<and> (\<exists>t. n_db s' = set_order_status i st f t (n_db s))"
  by (auto simp: OrderRepo_UpdateStatus_def succeeds count_where_def filter_empty_conv moved_def
      dest!: update_rows_effect now_effect)

lemma OrderRepo_ListOpenByMarket_effect [effects]:
  "OrderRepo_ListOpenByMarket i s = (Inr xs, s') \<Longrightarrow>
   moved s s' \<and> mset xs = mset (filter (\<lambda>x. o_MarketID x = i \<and> is_open x) (db_orders (n_db s))) \<and> n_db s' = n_db s"
  by (auto simp: OrderRepo_ListOpenByMarket_def dest!: query_effect)

lemma TradeRepo_Create_effect [effects]:
  "TradeRepo_Create x s = (Inr y, s') \<Longrightarrow> moved s s' \<and> n_db s' = (n_db s)\<lparr>db_trades := db_trades (n_db s) @ [x]\<rparr>"
  by (auto simp: TradeRepo_Create_def dest!: execute_effect)

lemma TradeRepo_CreateMintTx_effect [effects]:
  "TradeRepo_CreateMintTx x s = (Inr y, s') \<Longrightarrow> moved s s' \<and> n_db s' = (n_db s)\<lparr>db_mints := db_mints (n_db s) @ [x]\<rparr>"
  by (auto simp: TradeRepo_CreateMintTx_def dest!: execute_effect)

lemma PositionRepo_Upsert_effect [effects]:
  "PositionRepo_Upsert p s = (Inr y, s') \<Longrightarrow> moved s s' \<and> n_db s' = upsert_position p (n_db s)"
  by (auto simp: PositionRepo_Upsert_def dest!: execute_effect)

lemma PositionRepo_GetByUserAndOutcome_effect [effects]:
  "PositionRepo_GetByUserAndOutcome u i s = (Inr p, s') \<Longrightarrow>
   moved s s' \<and> find_position u i (n_db s) = Some p \<and> n_db s' = n_db s"
  by (auto simp: PositionRepo_GetByUserAndOutcome_def dest!: one_row_effect)

lemma PositionRepo_ListByMarket_effect [effects]:
  "PositionRepo_ListByMarket i s = (Inr ps, s') \<Longrightarrow>
   moved s s' \<and> mset ps = mset (filter (\<lambda>p. p_MarketID p = i) (db_positions (n_db s))) \<and> n_db s' = n_db s"
  by (auto simp: PositionRepo_ListByMarket_def dest!: query_effect)

section \<open>Money\<close>

text \<open>
  What the users own, free and locked, and the money of the whole platform. The tables are in
  order when no id occurs twice; the constraints keep it so.
\<close>

definition acct :: "'d DB \<Rightarrow> string \<Rightarrow> ('d \<times> 'd) option" where
  "acct db i = map_option (\<lambda>u. (u_Balance u, u_LockedBalance u)) (find_user i db)"

definition money :: "'d::linordered_field DB \<Rightarrow> 'd" where
  "money db = sum_list (map (\<lambda>u. u_Balance u + u_LockedBalance u) (db_users db))"

definition users_ok :: "'d DB \<Rightarrow> bool" where
  "users_ok db \<longleftrightarrow> distinct (map u_ID (db_users db))"

lemma find_map_key:
  assumes "\<And>x. k (f x) = k x"
  shows "find (\<lambda>x. k x = j) (map (\<lambda>x. if k x = i then f x else x) xs)
       = (if j = i then map_option f (find (\<lambda>x. k x = i) xs) else find (\<lambda>x. k x = j) xs)"
  using assms by (induction xs) auto

lemma set_balance_other [simp]:
  "db_markets (set_balance i b l db) = db_markets db" "db_outcomes (set_balance i b l db) = db_outcomes db"
  "db_orders (set_balance i b l db) = db_orders db" "db_trades (set_balance i b l db) = db_trades db"
  "db_positions (set_balance i b l db) = db_positions db" "db_mints (set_balance i b l db) = db_mints db"
  by (simp_all add: set_balance_def)

lemma ids_set_balance: "map u_ID (db_users (set_balance i b l db)) = map u_ID (db_users db)"
  unfolding set_balance_def by (simp add: map_key_update del: map_map)

lemma ids_set_balance_set [simp]: "u_ID ` set (db_users (set_balance i b l db)) = u_ID ` set (db_users db)"
  by (metis ids_set_balance list.set_map)

lemma find_user_set_balance:
  "find_user j (set_balance i b l db)
   = (if j = i then map_option (\<lambda>u. u\<lparr>u_Balance := b, u_LockedBalance := l\<rparr>) (find_user i db) else find_user j db)"
  using find_map_key[of u_ID "\<lambda>u. u\<lparr>u_Balance := b, u_LockedBalance := l\<rparr>" j i "db_users db"]
  by (simp add: find_user_def set_balance_def)

lemma acct_set_balance:
  "acct (set_balance i b l db) = (if acct db i = None then acct db else (acct db)(i \<mapsto> (b, l)))"
  by (auto simp: acct_def find_user_set_balance fun_eq_iff)

lemma users_ok_set_balance [simp]: "users_ok (set_balance i b l db) = users_ok db"
  by (simp add: users_ok_def ids_set_balance)

lemma money_set_balance:
  assumes "users_ok db" and "acct db i = Some (b0, l0)"
  shows "money (set_balance i b l db) = money db - (b0 + l0) + (b + l)"
proof -
  obtain u where u: "find (\<lambda>u. u_ID u = i) (db_users db) = Some u" "u_Balance u = b0" "u_LockedBalance u = l0"
    using assms(2) by (auto simp: acct_def find_user_def)
  from sum_list_update_key[OF assms(1)[unfolded users_ok_def] u(1),
      of "\<lambda>u. u_Balance u + u_LockedBalance u" "\<lambda>u. u\<lparr>u_Balance := b, u_LockedBalance := l\<rparr>"]
  show ?thesis using u(2,3) by (simp add: money_def set_balance_def del: map_map)
qed

end
