(* ===== verification/Accounts.thy ===== *)
theory Accounts
  imports Repos
begin

text \<open>
  What the services rely on of a store of user accounts (\<open>repository.UserRepository\<close>): reading
  an account, and setting its two balances. The services always read an account and then set
  it to what they computed, so the laws of a read followed by a write are all they need. The
  PostgreSQL repository provides them.
\<close>

locale account_store =
  fixes get :: "string \<Rightarrow> ('s, err, 'd::linordered_field User) comp"
    and put :: "string \<Rightarrow> 'd \<Rightarrow> 'd \<Rightarrow> ('s, err, unit) comp"
    and ok :: "'s \<Rightarrow> bool"
    and accounts :: "'s \<Rightarrow> string \<Rightarrow> ('d \<times> 'd) option"
    and total :: "'s \<Rightarrow> 'd"
  assumes get_ok: "get i s = (Inr u, s') \<Longrightarrow>
      accounts s i = Some (u_Balance u, u_LockedBalance u) \<and> accounts s' = accounts s \<and>
      total s' = total s \<and> ok s' = ok s"
    and put_ok: "put i b l s = (Inr (), s') \<Longrightarrow> ok s \<Longrightarrow>
      \<exists>b0 l0. accounts s i = Some (b0, l0) \<and> accounts s' = (accounts s)(i \<mapsto> (b, l)) \<and>
        total s' = total s - (b0 + l0) + (b + l) \<and> ok s'"
begin

text \<open>A write after a read, with steps in between that do not concern the accounts.\<close>

lemma read_write:
  assumes "get i s = (Inr u, s1)" and "put i b l s2 = (Inr (), s3)" and "ok s"
    and "accounts s2 = accounts s1" "total s2 = total s1" "ok s2 = ok s1"
  shows "accounts s3 = (accounts s)(i \<mapsto> (b, l))"
    and "total s3 = total s + (b - u_Balance u) + (l - u_LockedBalance u)"
    and "ok s3" and "accounts s i = Some (u_Balance u, u_LockedBalance u)"
  using get_ok[OF assms(1)] put_ok[OF assms(2)] assms(3-6) by auto

definition adjust :: "string \<Rightarrow> 'd \<Rightarrow> 'd \<Rightarrow> ('s, err, unit) comp" where
  "adjust i x y = bnd (get i) (\<lambda>u. put i (u_Balance u + x) (u_LockedBalance u + y))"

lemma adjust_ok:
  assumes "adjust i x y s = (Inr (), s')" and "ok s"
  obtains b l where "accounts s i = Some (b, l)" "accounts s' = (accounts s)(i \<mapsto> (b + x, l + y))"
    "total s' = total s + x + y" "ok s'"
proof -
  obtain u s1 where "get i s = (Inr u, s1)" "put i (u_Balance u + x) (u_LockedBalance u + y) s1 = (Inr (), s')"
    using assms(1) by (auto simp: adjust_def succeeds)
  from read_write[OF this assms(2)] that show ?thesis by (simp add: algebra_simps)
qed

text \<open>Moving money between two accounts, or within one, conserves the total.\<close>

lemma transfer_total:
  assumes "andthen (adjust i (- x) 0) (adjust j x 0) s = (Inr (), s')" and "ok s"
  shows "total s' = total s"
  using assms by (auto simp: succeeds elim!: adjust_ok)

text \<open>A loop of adjustments changes the total by their sum.\<close>

lemma adjust_all_total:
  assumes "for_each ps (\<lambda>(i, x, y). adjust i x y) s = (Inr (), s')" and "ok s"
  shows "total s' = total s + sum_list (map (\<lambda>(i, x, y). x + y) ps) \<and> ok s'"
  using assms
proof (induction ps arbitrary: s)
  case Nil
  then show ?case by (simp add: succeeds)
next
  case (Cons p ps)
  obtain i x y where p: "p = (i, x, y)" by (cases p)
  obtain t where t: "adjust i x y s = (Inr (), t)" "for_each ps (\<lambda>(i, x, y). adjust i x y) t = (Inr (), s')"
    using Cons.prems(1) p by (auto simp: succeeds)
  from adjust_ok[OF t(1) Cons.prems(2)] have "total t = total s + x + y" "ok t" by blast+
  with Cons.IH[OF t(2)] p show ?case by (simp add: algebra_simps)
qed

text \<open>Each account changes by the sum of what concerns it.\<close>

lemma adjust_all_accounts:
  assumes "for_each ps (\<lambda>(i, x, y). adjust i x y) s = (Inr (), s')" and "ok s"
  shows "accounts s' j = map_option (\<lambda>(b, l).
      (b + sum_list (map (\<lambda>(i, x, y). if i = j then x else 0) ps),
       l + sum_list (map (\<lambda>(i, x, y). if i = j then y else 0) ps))) (accounts s j)"
  using assms
proof (induction ps arbitrary: s)
  case Nil
  then show ?case by (cases "accounts s j") (simp_all add: succeeds)
next
  case (Cons p ps)
  obtain i x y where p: "p = (i, x, y)" by (cases p)
  obtain t where t: "adjust i x y s = (Inr (), t)" "for_each ps (\<lambda>(i, x, y). adjust i x y) t = (Inr (), s')"
    using Cons.prems(1) p by (auto simp: succeeds)
  obtain b l where a: "accounts s i = Some (b, l)" "accounts t = (accounts s)(i \<mapsto> (b + x, l + y))" "ok t"
    using adjust_ok[OF t(1) Cons.prems(2)] by metis
  from Cons.IH[OF t(2) a(3)] a(1,2) p show ?case
    by (cases "accounts s j") (auto simp: algebra_simps)
qed

end

interpretation pg: account_store
  "UserRepo_GetByID :: string \<Rightarrow> ('d::linordered_field, 'z, 'd User) dbop" UserRepo_UpdateBalance
  "\<lambda>s. users_ok (n_db s)" "\<lambda>s. acct (n_db s)" "\<lambda>s. money (n_db s)"
proof unfold_locales
  fix i u b l
  fix s s' :: "('d, 'z) node_scheme"
  show "UserRepo_GetByID i s = (Inr u, s') \<Longrightarrow>
    acct (n_db s) i = Some (u_Balance u, u_LockedBalance u) \<and> acct (n_db s') = acct (n_db s) \<and>
    money (n_db s') = money (n_db s) \<and> users_ok (n_db s') = users_ok (n_db s)"
    by (auto simp: acct_def dest!: UserRepo_GetByID_effect)
  show "\<exists>b0 l0. acct (n_db s) i = Some (b0, l0) \<and> acct (n_db s') = (acct (n_db s))(i \<mapsto> (b, l)) \<and>
      money (n_db s') = money (n_db s) - (b0 + l0) + (b + l) \<and> users_ok (n_db s')"
    if upd: "UserRepo_UpdateBalance i b l s = (Inr (), s')" and ok: "users_ok (n_db s)"
  proof -
    from UserRepo_UpdateBalance_effect[OF upd]
    have i: "i \<in> u_ID ` set (db_users (n_db s))" and db: "n_db s' = set_balance i b l (n_db s)" by auto
    have "find (\<lambda>u. u_ID u = i) (db_users (n_db s)) \<noteq> None" using i by (auto simp: find_None_iff)
    then obtain b0 l0 where "acct (n_db s) i = Some (b0, l0)"
      by (auto simp: acct_def find_user_def)
    with money_set_balance[OF ok this] ok show ?thesis by (simp add: db acct_set_balance)
  qed
qed

section \<open>Operations that do not touch the accounts\<close>

abbreviation users_of :: "('d, 'z) node_scheme \<Rightarrow> 'd User list" where
  "users_of s \<equiv> db_users (n_db s)"

lemma keeps_statement_db: "(\<And>db. g (snd (f db)) = g db) \<Longrightarrow> keeps (\<lambda>s. g (n_db s)) (statement what ok f)"
  by (rule keepsI) (simp add: statement_def Let_def case_prod_unfold)

lemma keeps_execute_db: "(\<And>db. g (f db) = g db) \<Longrightarrow> keeps (\<lambda>s. g (n_db s)) (execute what ok f)"
  unfolding execute_def by (rule keeps_statement_db) simp

lemma keeps_query_db [keeping]: "keeps (\<lambda>s. g (n_db s)) (query what f)"
  unfolding query_def by (rule keeps_statement_db) simp

lemma keeps_page_query_db [keeping]: "keeps (\<lambda>s. g (n_db s)) (page_query what l p f)"
  unfolding page_query_def by (rule keeps_statement_db) simp

lemma keeps_one_row_db [keeping]: "keeps (\<lambda>s. g (n_db s)) (one_row what f)"
  unfolding one_row_def by (intro keeping)

lemma keeps_update_rows_db: "(\<And>db. g (snd (f db)) = g db) \<Longrightarrow> keeps (\<lambda>s. g (n_db s)) (update_rows what ok f)"
  unfolding update_rows_def by (intro keeping keeps_statement_db)

lemma keeps_now_db [keeping]: "keeps (\<lambda>s. g (n_db s)) now"
  by (rule keepsI) (auto simp: now_def split: prod.splits)

lemma keeps_fresh_id_db [keeping]: "keeps (\<lambda>s. g (n_db s)) fresh_id"
  by (rule keepsI) (auto simp: fresh_id_def split: prod.splits)

lemma keeps_UserRepo_GetByID [keeping]: "keeps (\<lambda>s. g (n_db s)) (UserRepo_GetByID i)"
  unfolding UserRepo_GetByID_def by (intro keeping)

lemma keeps_reads [keeping]:
  "keeps (\<lambda>s. g (n_db s)) (OrderRepo_GetByID i)" "keeps (\<lambda>s. g (n_db s)) (MarketRepo_GetByID i)"
  "keeps (\<lambda>s. g (n_db s)) (OutcomeRepo_ListByMarket i)"
  "keeps (\<lambda>s. g (n_db s)) (PositionRepo_GetByUserAndOutcome i j)"
  "keeps (\<lambda>s. g (n_db s)) (PositionRepo_ListByUser i)" "keeps (\<lambda>s. g (n_db s)) (PositionRepo_ListByMarket i)"
  unfolding OrderRepo_GetByID_def MarketRepo_GetByID_def OutcomeRepo_ListByMarket_def
    PositionRepo_GetByUserAndOutcome_def PositionRepo_ListByUser_def PositionRepo_ListByMarket_def
  by (intro keeping)+

lemma keeps_ListOpenByMarket [keeping]: "keeps (\<lambda>s. g (n_db s)) (OrderRepo_ListOpenByMarket i)"
  unfolding OrderRepo_ListOpenByMarket_def by (intro keeping)

lemma db_users_upsert [simp]: "db_users (upsert_position p db) = db_users db"
  by (simp add: upsert_position_def)

lemma db_users_set_order_status [simp]: "db_users (set_order_status i st f t db) = db_users db"
  by (simp add: set_order_status_def)

lemma keeps_users [keeping]:
  "keeps users_of (OrderRepo_Create x)" "keeps users_of (OrderRepo_UpdateStatus i st f)"
  "keeps users_of (TradeRepo_Create tr)" "keeps users_of (TradeRepo_CreateMintTx mt)"
  "keeps users_of (PositionRepo_Upsert p)" "keeps users_of (MarketRepo_Create mk)"
  "keeps users_of (MarketRepo_Update mk)" "keeps users_of (OutcomeRepo_CreateBatch xs)"
  "keeps users_of (OutcomeRepo_SetWinner i)"
  unfolding OrderRepo_Create_def OrderRepo_UpdateStatus_def TradeRepo_Create_def TradeRepo_CreateMintTx_def
    PositionRepo_Upsert_def MarketRepo_Create_def MarketRepo_Update_def OutcomeRepo_CreateBatch_def
    OutcomeRepo_SetWinner_def Let_def
  by (intro keeping keeps_execute_db keeps_update_rows_db impI; simp add: set_market_def set_winner_def)+

lemma users_money:
  assumes "db_users db' = db_users db"
  shows "money db' = money db" "acct db' = acct db" "users_ok db' = users_ok db"
  using assms by (simp_all add: money_def acct_def find_user_def users_ok_def fun_eq_iff)

section \<open>What an operation does to the money of the platform\<close>

text \<open>
  \<open>shifts d m\<close>: when \<open>m\<close> succeeds, the money of the platform has changed by \<open>d\<close>.
  \<open>conserved M\<close> is the invariant of the operations that conserve it whatever their outcome.
\<close>

named_theorems shifting \<open>how operations shift the money\<close>

definition shifts :: "'d::linordered_field \<Rightarrow> ('d, 'z, 'a) dbop \<Rightarrow> bool" where
  "shifts d m \<longleftrightarrow> (\<forall>s x s'. m s = (Inr x, s') \<longrightarrow> users_ok (n_db s) \<longrightarrow>
      users_ok (n_db s') \<and> money (n_db s') = money (n_db s) + d)"

definition conserved :: "'d::linordered_field \<Rightarrow> ('d, 'z) node_scheme \<Rightarrow> bool" where
  "conserved M s \<longleftrightarrow> users_ok (n_db s) \<and> money (n_db s) = M"

lemma shiftsD: "shifts d m \<Longrightarrow> m s = (Inr x, s') \<Longrightarrow> users_ok (n_db s) \<Longrightarrow>
    users_ok (n_db s') \<and> money (n_db s') = money (n_db s) + d"
  unfolding shifts_def by blast

lemma shifts_keeps: "keeps users_of m \<Longrightarrow> shifts 0 m"
  unfolding shifts_def by (metis add.right_neutral keepsD users_money(1) users_money(3))

lemma shifts_andthen: "shifts a m \<Longrightarrow> shifts b n \<Longrightarrow> shifts (a + b) (andthen m n)"
  unfolding shifts_def by (fastforce simp: succeeds algebra_simps)

lemma shifts_bnd: "shifts a m \<Longrightarrow> (\<And>x. shifts b (n x)) \<Longrightarrow> shifts (a + b) (bnd m n)"
  unfolding shifts_def by (fastforce simp: succeeds algebra_simps)

lemma shifts_for_each: "(\<And>x. x \<in> set xs \<Longrightarrow> shifts 0 (f x)) \<Longrightarrow> shifts 0 (for_each xs f)"
proof (induction xs)
  case Nil
  then show ?case by (simp add: shifts_keeps keeping)
next
  case (Cons x xs)
  then show ?case using shifts_andthen[of 0 "f x" 0 "for_each xs f"] by simp
qed

lemma shifts_if: "(b \<Longrightarrow> shifts d m) \<Longrightarrow> (\<not> b \<Longrightarrow> shifts d n) \<Longrightarrow> shifts d (if b then m else n)"
  by simp

lemma shifts_read_write:
  assumes "\<And>u. f u - u_Balance u + (g u - u_LockedBalance u) = d"
  shows "shifts d (bnd (UserRepo_GetByID i) (\<lambda>u. UserRepo_UpdateBalance i (f u) (g u)))"
  unfolding shifts_def
proof (intro allI impI)
  fix s x s'
  assume run: "bnd (UserRepo_GetByID i) (\<lambda>u. UserRepo_UpdateBalance i (f u) (g u)) s = (Inr x, s')"
    and ok: "users_ok (n_db s)"
  obtain u t where get: "UserRepo_GetByID i s = (Inr u, t)"
    and put: "UserRepo_UpdateBalance i (f u) (g u) t = (Inr (), s')"
    using run by (auto simp: succeeds)
  note R = pg.read_write[OF get put ok refl refl refl]
  from R(2,3) assms[of u] show "users_ok (n_db s') \<and> money (n_db s') = money (n_db s) + d"
    by (simp add: algebra_simps)
qed

lemma keeps_WithTx: "keeps (\<lambda>s. g (n_db s)) fn \<Longrightarrow> keeps (\<lambda>s. g (n_db s)) (WithTx fn)"
  unfolding keeps_def WithTx_def by (auto simp: Let_def case_prod_unfold split: sum.splits)

text \<open>A transaction of a conserving body conserves, whether it commits or not.\<close>

lemma maintains_keeps: "keeps users_of m \<Longrightarrow> maintains (conserved M) m"
  unfolding maintains_def keeps_def conserved_def by (metis users_money(1) users_money(3))

lemma maintains_WithTx:
  fixes fn :: "('d::linordered_field, 'z, 'a) dbop"
  assumes "shifts 0 fn"
  shows "maintains (conserved M) (WithTx fn)"
proof (rule maintainsI)
  fix s :: "('d, 'z) node_scheme"
  assume C: "conserved M s"
  obtain r s' where run: "WithTx fn s = (r, s')" by (cases "WithTx fn s")
  show "conserved M (snd (WithTx fn s))"
  proof (cases r)
    case (Inl e)
    with WithTx_failed[of fn s e s'] run C show ?thesis by (simp add: conserved_def)
  next
    case (Inr x)
    with run have "WithTx fn s = (Inr x, s')" by simp
    then obtain s1 w w' where fn: "fn (s\<lparr>n_world := w, n_tx := ActiveTx\<rparr>) = (Inr x, s1)"
      and s': "s' = s1\<lparr>n_tx := n_tx s, n_world := w'\<rparr>" by (rule WithTx_ok)
    from shiftsD[OF assms fn] C s' run show ?thesis by (simp add: conserved_def)
  qed
qed

lemma set_balance_absent: "i \<notin> u_ID ` set (db_users db) \<Longrightarrow> set_balance i b l db = db"
  by (simp add: set_balance_def map_update_absent)

lemma UpdateBalance_failed:
  "UserRepo_UpdateBalance i b l s = (Inl e, s') \<Longrightarrow> n_db s' = n_db s"
  unfolding UserRepo_UpdateBalance_def
  by (erule update_rows_failed[rotated]) (auto simp: count_where_def filter_empty_conv intro!: set_balance_absent)

lemma maintains_read_write:
  assumes "\<And>u. f u + g u = u_Balance u + u_LockedBalance u"
  shows "maintains (conserved M) (bnd (UserRepo_GetByID i) (\<lambda>u. UserRepo_UpdateBalance i (f u) (g u)))"
proof (rule maintainsI)
  fix s
  assume C: "conserved M s"
  let ?m = "bnd (UserRepo_GetByID i) (\<lambda>u. UserRepo_UpdateBalance i (f u) (g u))"
  show "conserved M (snd (?m s))"
  proof (cases "UserRepo_GetByID i s")
    case (Pair r t)
    show ?thesis
    proof (cases r)
      case (Inl e)
      with Pair have "snd (?m s) = t" by (simp add: bnd_def)
      with keepsD[OF keeps_UserRepo_GetByID[of "\<lambda>db. db"] Pair] C show ?thesis by (simp add: conserved_def)
    next
      case (Inr u)
      with Pair have get: "UserRepo_GetByID i s = (Inr u, t)" by simp
      obtain r' s' where put: "UserRepo_UpdateBalance i (f u) (g u) t = (r', s')"
        by (cases "UserRepo_UpdateBalance i (f u) (g u) t")
      have out: "snd (?m s) = s'" using get put by (simp add: bnd_def)
      show ?thesis
      proof (cases r')
        case (Inl e)
        with UpdateBalance_failed put UserRepo_GetByID_effect[OF get] C out show ?thesis
          by (metis conserved_def)
      next
        case (Inr y)
        with put have put': "UserRepo_UpdateBalance i (f u) (g u) t = (Inr (), s')" by simp
        have ok: "users_ok (n_db s)" using C by (simp add: conserved_def)
        note R = pg.read_write[OF get put' ok refl refl refl]
        from R(2,3) assms[of u] C out show ?thesis by (simp add: conserved_def algebra_simps)
      qed
    qed
  qed
qed

end
