(* ===== verification/OrderService.thy ===== *)
theory OrderService
  imports Accounts Registry
begin

text \<open>
  \<open>services/trading-svc/internal/service/order.go\<close>: placing an order locks its cost or its
  shares, sends it to the engine and settles the trades, all in one transaction; cancelling
  takes an order out of the engine and gives back what it locked. The engine is the registry,
  which is not part of the transaction.
\<close>

section \<open>The state of the trading process\<close>

record 'd sys = "'d node" +
  s_mem :: "'d mem"
  s_reg :: "'d Registry"

type_synonym ('d, 'a) op = "('d sys, err, 'a) comp"

definition new_object :: "'d Order \<Rightarrow> ('d, ref) op" where
  "new_object x s = (let (r, m) = alloc x (s_mem s) in (Inr r, s\<lparr>s_mem := m\<rparr>))"

definition engine_PlaceOrder :: "ref \<Rightarrow> ('d::linordered_field, 'd MatchResult) op" where
  "engine_PlaceOrder r s =
     (let (res, m, w, rg) = Registry_PlaceOrder r (s_mem s) (n_world s) (s_reg s)
      in (res, s\<lparr>s_mem := m, n_world := w, s_reg := rg\<rparr>))"

definition engine_CancelOrder :: "string \<Rightarrow> string \<Rightarrow> ('d, ref) op" where
  "engine_CancelOrder outcomeID orderID s =
     (let (res, m, w, rg) = Registry_CancelOrder outcomeID orderID (s_mem s) (n_world s) (s_reg s)
      in (res, s\<lparr>s_mem := m, n_world := w, s_reg := rg\<rparr>))"

lemma more_sys:
  fixes s :: "'d sys"
  shows "node.more s' = node.more s \<Longrightarrow> s_mem s' = s_mem s \<and> s_reg s' = s_reg s"
  by (cases s rule: sys.cases, cases s' rule: sys.cases, simp)

lemma moved_sys:
  fixes s :: "'d sys"
  shows "moved s s' \<Longrightarrow> s_mem s' = s_mem s \<and> s_reg s' = s_reg s"
  unfolding moved_def by (erule conjE) (rule more_sys)

section \<open>Placing an order\<close>

record 'd PlaceOrderRequest =
  po_UserID :: string
  po_MarketID :: string
  po_OutcomeID :: string
  po_Side :: OrderSide
  po_Price :: 'd
  po_Quantity :: 'd

text \<open>Locking the cost of a buy order, or taking the shares of a sell order.\<close>

definition lock_funds :: "'d::linordered_field PlaceOrderRequest \<Rightarrow> ('d, unit) op" where
  "lock_funds req =
     (let cost = po_Price req * po_Quantity req
      in bnd (UserRepo_GetByID (po_UserID req)) (\<lambda>user.
         andthen (check (\<not> u_Balance user < cost) ErrInsufficientBalance)
           (UserRepo_UpdateBalance (po_UserID req) (u_Balance user - cost) (u_LockedBalance user + cost))))"

definition take_shares :: "'d::linordered_field PlaceOrderRequest \<Rightarrow> time \<Rightarrow> ('d, unit) op" where
  "take_shares req t =
     bnd (PositionRepo_GetByUserAndOutcome (po_UserID req) (po_OutcomeID req)) (\<lambda>pos.
     andthen (check (\<not> p_Quantity pos < po_Quantity req) ErrInsufficientBalance)
       (PositionRepo_Upsert (pos\<lparr>p_Quantity := p_Quantity pos - po_Quantity req, p_UpdatedAt := t\<rparr>)))"

text \<open>
  Settling one trade, in the five steps of the code. The division of the weighted average
  rounds and is an argument. Any error of the lookup of the buyer's position is taken for a
  missing position.
\<close>

definition settle_buyer :: "string \<Rightarrow> 'd \<Rightarrow> 'd::linordered_field Trade \<Rightarrow> ('d, unit) op" where
  "settle_buyer buyerUserID buyerOrderPrice trade =
     (let lockedReduction = buyerOrderPrice * t_Quantity trade;
          refund = (buyerOrderPrice - t_Price trade) * t_Quantity trade
      in bnd (UserRepo_GetByID buyerUserID) (\<lambda>buyerUser.
         UserRepo_UpdateBalance buyerUserID (u_Balance buyerUser + refund)
           (u_LockedBalance buyerUser - lockedReduction)))"

definition credit_position ::
    "('d \<Rightarrow> 'd \<Rightarrow> 'd) \<Rightarrow> string \<Rightarrow> time \<Rightarrow> 'd::linordered_field Trade \<Rightarrow> ('d, unit) op" where
  "credit_position dec_div buyerUserID t trade =
     bnd (handle (PositionRepo_GetByUserAndOutcome buyerUserID (t_OutcomeID trade))
           (\<lambda>err. bnd fresh_id (\<lambda>i. ret
              \<lparr>p_ID = i, p_UserID = buyerUserID, p_MarketID = t_MarketID trade,
               p_OutcomeID = t_OutcomeID trade, p_Quantity = 0, p_AvgPrice = 0, p_UpdatedAt = t\<rparr>)))
       (\<lambda>buyerPos.
          let totalCost = p_AvgPrice buyerPos * p_Quantity buyerPos + t_Price trade * t_Quantity trade;
              newQty = p_Quantity buyerPos + t_Quantity trade
          in PositionRepo_Upsert (buyerPos\<lparr>p_Quantity := newQty,
               p_AvgPrice := if newQty > 0 then dec_div totalCost newQty else p_AvgPrice buyerPos,
               p_UpdatedAt := t\<rparr>))"

definition settle_seller :: "string \<Rightarrow> 'd::linordered_field Trade \<Rightarrow> ('d, unit) op" where
  "settle_seller sellerUserID trade =
     bnd (UserRepo_GetByID sellerUserID) (\<lambda>sellerUser.
       let proceeds = t_Price trade * t_Quantity trade
       in UserRepo_UpdateBalance sellerUserID (u_Balance sellerUser + proceeds) (u_LockedBalance sellerUser))"

definition settle_maker :: "'d::linordered_field Trade \<Rightarrow> ('d, unit) op" where
  "settle_maker trade =
     bnd (OrderRepo_GetByID (t_MakerOrderID trade)) (\<lambda>makerOrder.
       let makerNewFilled = o_FilledQty makerOrder + t_Quantity trade;
           makerStatus = (if makerNewFilled \<ge> o_Quantity makerOrder then Filled else PartiallyFilled)
       in OrderRepo_UpdateStatus (t_MakerOrderID trade) makerStatus makerNewFilled)"

definition settle_trade ::
    "('d \<Rightarrow> 'd \<Rightarrow> 'd) \<Rightarrow> 'd::linordered_field Order \<Rightarrow> time \<Rightarrow> 'd Trade \<Rightarrow> ('d, unit) op" where
  "settle_trade dec_div order t trade =
     (let (buyerUserID, sellerUserID, buyerOrderPrice) =
            (if o_Side order = Buy then (t_TakerUserID trade, t_MakerUserID trade, o_Price order)
             else (t_MakerUserID trade, t_TakerUserID trade, t_Price trade))
      in andthen (TradeRepo_Create trade)
        (andthen (settle_buyer buyerUserID buyerOrderPrice trade)
        (andthen (credit_position dec_div buyerUserID t trade)
        (andthen (settle_seller sellerUserID trade)
          (settle_maker trade)))))"

definition order_of_request :: "'d::linordered_field PlaceOrderRequest \<Rightarrow> string \<Rightarrow> time \<Rightarrow> 'd Order" where
  "order_of_request req i t =
     \<lparr>o_ID = i, o_UserID = po_UserID req, o_MarketID = po_MarketID req, o_OutcomeID = po_OutcomeID req,
      o_Side = po_Side req, o_Price = po_Price req, o_Quantity = po_Quantity req, o_FilledQty = 0,
      o_Status = Open, o_CreatedAt = t, o_UpdatedAt = t\<rparr>"

definition place_body ::
    "('d \<Rightarrow> 'd \<Rightarrow> 'd) \<Rightarrow> 'd::linordered_field PlaceOrderRequest \<Rightarrow> ('d, ref \<times> 'd Trade list) op" where
  "place_body dec_div req =
     bnd now (\<lambda>t. bnd fresh_id (\<lambda>i.
     (let order = order_of_request req i t
      in bnd (new_object order) (\<lambda>r.
         andthen (if po_Side req = Buy then lock_funds req else take_shares req t)
         (andthen (OrderRepo_Create order)
         (bnd (engine_PlaceOrder r) (\<lambda>result.
         andthen (for_each (mr_Trades result) (settle_trade dec_div order t))
         (bnd (gets (\<lambda>s. cell (s_mem s) r)) (\<lambda>placed.
         andthen (if o_FilledQty placed > 0
                  then OrderRepo_UpdateStatus (o_ID placed) (o_Status placed) (o_FilledQty placed) else ret ())
           (ret (r, mr_Trades result)))))))))))"

definition OrderService_PlaceOrder ::
    "('d \<Rightarrow> 'd \<Rightarrow> 'd) \<Rightarrow> 'd::linordered_field PlaceOrderRequest \<Rightarrow> ('d, ref \<times> 'd Trade list) op" where
  "OrderService_PlaceOrder dec_div req =
     (if po_Price req < 1 / 100 \<or> po_Price req > 99 / 100 then fail ErrInvalidPrice
      else WithTx (place_body dec_div req))"

section \<open>Cancelling orders\<close>

text \<open>Giving back the locked cost of what is unfilled of a buy order.\<close>

definition release_funds :: "string \<Rightarrow> 'd::linordered_field Order \<Rightarrow> ('d, unit) op" where
  "release_funds userID order =
     (let unfilledCost = (o_Quantity order - o_FilledQty order) * o_Price order
      in bnd (UserRepo_GetByID userID) (\<lambda>user.
         UserRepo_UpdateBalance userID (u_Balance user + unfilledCost) (u_LockedBalance user - unfilledCost)))"

definition OrderService_CancelOrder :: "string \<Rightarrow> string \<Rightarrow> ('d::linordered_field, unit) op" where
  "OrderService_CancelOrder userID orderID =
     bnd (OrderRepo_GetByID orderID) (\<lambda>order.
     andthen (check (o_UserID order = userID) ErrForbidden)
     (andthen (engine_CancelOrder (o_OutcomeID order) orderID)
     (andthen (if o_Side order = Buy then release_funds userID order else ret ())
       (OrderRepo_UpdateStatus orderID Cancelled (o_FilledQty order)))))"

definition restore_shares :: "'d::linordered_field Order \<Rightarrow> ('d, unit) op" where
  "restore_shares order =
     bnd (PositionRepo_GetByUserAndOutcome (o_UserID order) (o_OutcomeID order)) (\<lambda>pos.
     bnd now (\<lambda>t. PositionRepo_Upsert
       (pos\<lparr>p_Quantity := p_Quantity pos + (o_Quantity order - o_FilledQty order), p_UpdatedAt := t\<rparr>)))"

definition cancel_one :: "'d::linordered_field Order \<Rightarrow> ('d, unit) op" where
  "cancel_one order =
     andthen (engine_CancelOrder (o_OutcomeID order) (o_ID order))
     (andthen (if o_Side order = Buy then release_funds (o_UserID order) order
               else if o_Side order = Sell then restore_shares order else ret ())
       (OrderRepo_UpdateStatus (o_ID order) Cancelled (o_FilledQty order)))"

definition CancelAllOrdersByMarket :: "string \<Rightarrow> ('d::linordered_field, nat) op" where
  "CancelAllOrdersByMarket marketID =
     bnd (OrderRepo_ListOpenByMarket marketID) (\<lambda>orders.
       if length orders = 0 then ret 0
       else andthen (for_each orders cancel_one) (ret (length orders)))"

section \<open>Reading orders\<close>

definition OrderService_GetOrder :: "string \<Rightarrow> ('d, 'd Order) op" where
  "OrderService_GetOrder orderID = OrderRepo_GetByID orderID"

text \<open>An empty market id or status of the filter stands for no filter.\<close>

record ListOrdersFilter =
  lf_UserID :: string
  lf_MarketID :: string
  lf_Status :: "OrderStatus option"
  lf_Limit :: int
  lf_Offset :: int

definition lists_order :: "ListOrdersFilter \<Rightarrow> 'd Order \<Rightarrow> bool" where
  "lists_order flt x \<longleftrightarrow>
     \<not> (lf_MarketID flt \<noteq> '''' \<and> o_MarketID x \<noteq> lf_MarketID flt) \<and>
     \<not> (lf_Status flt \<noteq> None \<and> Some (o_Status x) \<noteq> lf_Status flt)"

definition OrderService_ListOrders :: "ListOrdersFilter \<Rightarrow> ('d, 'd Order list \<times> nat) op" where
  "OrderService_ListOrders flt =
     (let limit = (if lf_Limit flt \<le> 0 then 50 else lf_Limit flt);
          offset = (if lf_Offset flt < 0 then 0 else lf_Offset flt)
      in bnd (OrderRepo_ListByUser (lf_UserID flt) limit offset) (\<lambda>(orders, total).
         (let filtered = filter (lists_order flt) orders in ret (filtered, length filtered))))"

section \<open>Money\<close>

text \<open>What the engine and the objects do is outside the tables.\<close>

lemma keeps_engine [keeping]:
  "keeps (\<lambda>s. g (n_db s)) (engine_PlaceOrder r)" "keeps (\<lambda>s. g (n_db s)) (engine_CancelOrder i j)"
  "keeps (\<lambda>s. g (n_db s)) (new_object x)"
  by (rule keepsI, simp add: engine_PlaceOrder_def engine_CancelOrder_def new_object_def case_prod_unfold Let_def)+

lemma shifts_settle:
  "shifts (- (t_Price tr * t_Quantity tr)) (settle_buyer b p tr)"
  "shifts (t_Price tr * t_Quantity tr) (settle_seller i tr)"
  "shifts 0 (credit_position dec_div b t tr)" "shifts 0 (settle_maker tr)"
proof -
  show "shifts (- (t_Price tr * t_Quantity tr)) (settle_buyer b p tr)"
    unfolding settle_buyer_def Let_def by (rule shifts_read_write) (simp add: algebra_simps)
  show "shifts (t_Price tr * t_Quantity tr) (settle_seller i tr)"
    unfolding settle_seller_def Let_def by (rule shifts_read_write) simp
  show "shifts 0 (credit_position dec_div b t tr)"
    unfolding credit_position_def Let_def by (intro shifts_keeps keeping)
  show "shifts 0 (settle_maker tr)"
    unfolding settle_maker_def Let_def by (intro shifts_keeps keeping)
qed

text \<open>What the buyer pays is what the seller gets.\<close>

lemma shifts_settle_trade: "shifts 0 (settle_trade dec_div order t tr)"
proof -
  have "shifts 0 (andthen (TradeRepo_Create tr) (andthen (settle_buyer b p tr)
      (andthen (credit_position dec_div b t tr) (andthen (settle_seller i tr) (settle_maker tr)))))" for b p i
  proof -
    let ?x = "t_Price tr * t_Quantity tr"
    have "shifts (0 + (- ?x + (0 + (?x + 0)))) (andthen (TradeRepo_Create tr) (andthen (settle_buyer b p tr)
      (andthen (credit_position dec_div b t tr) (andthen (settle_seller i tr) (settle_maker tr)))))"
      by (intro shifts_andthen shifts_settle shifts_keeps keeping)
    then show ?thesis by simp
  qed
  then show ?thesis unfolding settle_trade_def by (simp add: Let_def)
qed

lemma shifts_lock_funds: "shifts 0 (lock_funds req)"
proof -
  have "lock_funds req = bnd (UserRepo_GetByID (po_UserID req)) (\<lambda>user.
      andthen (check (\<not> u_Balance user < po_Price req * po_Quantity req) ErrInsufficientBalance)
        (UserRepo_UpdateBalance (po_UserID req) (u_Balance user - po_Price req * po_Quantity req)
          (u_LockedBalance user + po_Price req * po_Quantity req)))"
    by (simp add: lock_funds_def Let_def)
  moreover have "shifts 0 \<dots>"
    unfolding shifts_def
  proof (intro allI impI)
    fix s :: "'a sys" and x s'
    assume run: "bnd (UserRepo_GetByID (po_UserID req)) (\<lambda>user.
      andthen (check (\<not> u_Balance user < po_Price req * po_Quantity req) ErrInsufficientBalance)
        (UserRepo_UpdateBalance (po_UserID req) (u_Balance user - po_Price req * po_Quantity req)
          (u_LockedBalance user + po_Price req * po_Quantity req))) s = (Inr x, s')" and ok: "users_ok (n_db s)"
    obtain u t where get: "UserRepo_GetByID (po_UserID req) s = (Inr u, t)"
      and put: "UserRepo_UpdateBalance (po_UserID req) (u_Balance u - po_Price req * po_Quantity req)
          (u_LockedBalance u + po_Price req * po_Quantity req) t = (Inr (), s')"
      using run by (auto simp: succeeds)
    from pg.read_write(2,3)[OF get put ok refl refl refl]
    show "users_ok (n_db s') \<and> money (n_db s') = money (n_db s) + 0" by simp
  qed
  ultimately show ?thesis by simp
qed

lemma shifts_place_body: "shifts 0 (place_body dec_div req)"
proof -
  have "shifts (0 + (0 + (0 + (0 + (0 + (0 + (0 + (0 + (0 + 0))))))))) (place_body dec_div req)"
    unfolding place_body_def Let_def
    by (intro shifts_bnd shifts_andthen shifts_for_each shifts_settle_trade shifts_if shifts_lock_funds
        shifts_keeps keeping) (auto simp: take_shares_def intro!: keeping)
  then show ?thesis by simp
qed

lemma maintains_PlaceOrder: "maintains (conserved M) (OrderService_PlaceOrder dec_div req)"
  unfolding OrderService_PlaceOrder_def by (intro keeping maintains_WithTx shifts_place_body)

lemma maintains_release_funds: "maintains (conserved M) (release_funds i x)"
  unfolding release_funds_def Let_def by (rule maintains_read_write) simp

lemma maintains_CancelOrder: "maintains (conserved M) (OrderService_CancelOrder userID orderID)"
  unfolding OrderService_CancelOrder_def
  by (intro maintains_bnd maintains_andthen maintains_if maintains_release_funds maintains_keeps keeping)

lemma maintains_CancelAll: "maintains (conserved M) (CancelAllOrdersByMarket i)"
  unfolding CancelAllOrdersByMarket_def cancel_one_def restore_shares_def
  by (intro maintains_bnd maintains_andthen maintains_if maintains_for_each maintains_release_funds
      maintains_keeps keeping)

section \<open>Shares\<close>

text \<open>The shares a user holds of an outcome.\<close>

definition holding :: "'d::linordered_field DB \<Rightarrow> string \<Rightarrow> string \<Rightarrow> 'd" where
  "holding db userID outcomeID =
     (case find_position userID outcomeID db of None \<Rightarrow> 0 | Some p \<Rightarrow> p_Quantity p)"

lemma find_map_inv:
  assumes "\<And>x. P (f x) = P x"
  shows "find P (map f xs) = map_option f (find P xs)"
  using assms by (induction xs) auto

text \<open>A position that was read and is written back with another quantity.\<close>

lemma find_position_upsert_found:
  assumes "find_position u i db = Some p" and "same_position p pos"
  shows "find_position v j (upsert_position pos db) =
    (if v = u \<and> j = i
     then Some (p\<lparr>p_Quantity := p_Quantity pos, p_AvgPrice := p_AvgPrice pos, p_UpdatedAt := p_UpdatedAt pos\<rparr>)
     else find_position v j db)"
proof -
  have p: "p \<in> set (db_positions db)" "p_UserID p = u" "p_OutcomeID p = i"
    using assms(1) by (auto simp: find_position_def find_Some_iff)
  define f where "f q = (if same_position q pos
      then q\<lparr>p_Quantity := p_Quantity pos, p_AvgPrice := p_AvgPrice pos, p_UpdatedAt := p_UpdatedAt pos\<rparr> else q)" for q
  have up: "db_positions (upsert_position pos db) = map f (db_positions db)"
    using assms(2) p(1) by (auto simp: upsert_position_def f_def)
  have eq: "find_position v j (upsert_position pos db) = map_option f (find_position v j db)" for v j
    unfolding find_position_def up by (rule find_map_inv) (simp add: f_def)
  show ?thesis
  proof (cases "v = u \<and> j = i")
    case True
    with eq[of u i] assms show ?thesis by (simp add: f_def)
  next
    case False
    have "f q = q" if "find_position v j db = Some q" for q
    proof -
      have "p_UserID q = v" "p_OutcomeID q = j" using that by (auto simp: find_position_def find_Some_iff)
      with False p assms(2) show ?thesis by (auto simp: f_def same_position_def)
    qed
    with eq[of v j] False show ?thesis by (cases "find_position v j db") auto
  qed
qed

lemma find_append: "find P (xs @ ys) = (case find P xs of None \<Rightarrow> find P ys | Some x \<Rightarrow> Some x)"
  by (induction xs) auto

lemma find_position_upsert_new:
  assumes "find_position (p_UserID pos) (p_OutcomeID pos) db = None"
  shows "find_position v j (upsert_position pos db) =
    (if v = p_UserID pos \<and> j = p_OutcomeID pos then Some pos else find_position v j db)"
proof -
  have "\<not> (\<exists>p \<in> set (db_positions db). same_position p pos)"
    using assms by (auto simp: find_position_def find_None_iff same_position_def)
  then have "upsert_position pos db = db\<lparr>db_positions := db_positions db @ [pos]\<rparr>"
    by (simp only: upsert_position_def if_False)
  with assms show ?thesis by (auto simp: find_position_def find_append split: option.splits)
qed

lemma upsert_only_positions: "upsert_position pos db = db\<lparr>db_positions := db_positions (upsert_position pos db)\<rparr>"
  by (simp add: upsert_position_def)

text \<open>Inside a transaction a lookup fails for a missing row or aborts the transaction.\<close>

lemma one_row_failed:
  assumes "one_row what f s = (Inl e, s')" and "n_tx s = ActiveTx"
  shows "n_tx s' = AbortedTx \<or> (f (n_db s) = None \<and> moved s s' \<and> n_db s' = n_db s)"
  using assms by (auto simp: one_row_def bnd_def query_def statement_def fail_def ret_def moved_def Let_def
      case_prod_unfold split: if_splits option.splits)

lemma statement_aborted: "n_tx s = AbortedTx \<Longrightarrow> statement what ok f s \<noteq> (Inr x, s')"
  by (simp add: statement_def)

lemma credit_position_effect:
  assumes run: "credit_position dec_div buyer t tr s = (Inr (), s')" and tx: "n_tx s = ActiveTx"
  shows "moved s s'" and "n_db s' = (n_db s)\<lparr>db_positions := db_positions (n_db s')\<rparr>"
    and "holding (n_db s') v j
       = holding (n_db s) v j + (if v = buyer \<and> j = t_OutcomeID tr then t_Quantity tr else 0)"
proof -
  let ?get = "PositionRepo_GetByUserAndOutcome buyer (t_OutcomeID tr)"
  let ?miss = "\<lambda>e :: err. bnd fresh_id (\<lambda>i. ret \<lparr>p_ID = i, p_UserID = buyer, p_MarketID = t_MarketID tr,
      p_OutcomeID = t_OutcomeID tr, p_Quantity = 0, p_AvgPrice = 0, p_UpdatedAt = t\<rparr>)"
  obtain pos0 pos s1 where get: "handle ?get ?miss s = (Inr pos0, s1)" and put: "PositionRepo_Upsert pos s1 = (Inr (), s')"
    and pos: "same_position pos0 pos" "p_Quantity pos = p_Quantity pos0 + t_Quantity tr"
    using run by (auto simp: credit_position_def succeeds Let_def same_position_def)
  have s1: "n_db s1 = n_db s \<and> moved s s1 \<and>
      (find_position buyer (t_OutcomeID tr) (n_db s) = Some pos0 \<or>
       find_position buyer (t_OutcomeID tr) (n_db s) = None \<and> p_UserID pos0 = buyer \<and>
         p_OutcomeID pos0 = t_OutcomeID tr \<and> p_Quantity pos0 = 0)"
  proof (cases "\<exists>e t1. ?get s = (Inl e, t1)")
    case False
    with get have "?get s = (Inr pos0, s1)" by (auto simp: handle_iff)
    from PositionRepo_GetByUserAndOutcome_effect[OF this] show ?thesis by simp
  next
    case True
    then obtain e t1 where g: "?get s = (Inl e, t1)" by blast
    then have m: "?miss e t1 = (Inr pos0, s1)" using get by (auto simp: handle_def)
    then have p0: "p_UserID pos0 = buyer" "p_OutcomeID pos0 = t_OutcomeID tr" "p_Quantity pos0 = 0"
      and mv: "moved t1 s1" "n_db s1 = n_db t1" by (auto simp: succeeds dest!: fresh_id_effect)
    have "n_tx t1 \<noteq> AbortedTx"
    proof
      assume "n_tx t1 = AbortedTx"
      then have "n_tx s1 = AbortedTx" using mv(1) by (simp add: moved_def)
      with put show False by (auto simp: PositionRepo_Upsert_def execute_def dest: statement_aborted)
    qed
    with one_row_failed[OF g[unfolded PositionRepo_GetByUserAndOutcome_def] tx] mv p0
    show ?thesis by (auto intro: moved_trans)
  qed
  from PositionRepo_Upsert_effect[OF put] have s': "moved s1 s'" "n_db s' = upsert_position pos (n_db s)"
    using s1 by simp_all
  show "moved s s'" using s1 s'(1) moved_trans by blast
  show "n_db s' = (n_db s)\<lparr>db_positions := db_positions (n_db s')\<rparr>"
    unfolding s'(2) by (rule upsert_only_positions)
  from s1 consider "find_position buyer (t_OutcomeID tr) (n_db s) = Some pos0"
    | "find_position (p_UserID pos) (p_OutcomeID pos) (n_db s) = None" "p_UserID pos = buyer"
      "p_OutcomeID pos = t_OutcomeID tr" "p_Quantity pos0 = 0"
    using pos(1) by (auto simp: same_position_def)
  then show "holding (n_db s') v j
       = holding (n_db s) v j + (if v = buyer \<and> j = t_OutcomeID tr then t_Quantity tr else 0)"
  proof cases
    case 1
    from find_position_upsert_found[OF 1 pos(1), of v j] 1 pos(2) show ?thesis by (simp add: holding_def s'(2))
  next
    case 2
    from find_position_upsert_new[OF 2(1), of v j] 2 pos(2) show ?thesis by (auto simp: holding_def s'(2))
  qed
qed

section \<open>What a settlement does\<close>

lemma find_order_set_status:
  "find_order j (set_order_status i st f t db)
   = (if j = i then map_option (\<lambda>x. x\<lparr>o_Status := st, o_FilledQty := f, o_UpdatedAt := t\<rparr>) (find_order i db)
      else find_order j db)"
  using find_map_key[of o_ID "\<lambda>x. x\<lparr>o_Status := st, o_FilledQty := f, o_UpdatedAt := t\<rparr>" j i "db_orders db"]
  by (simp add: find_order_def set_order_status_def)

lemma set_order_status_other [simp]:
  "db_positions (set_order_status i st f t db) = db_positions db" "db_trades (set_order_status i st f t db) = db_trades db"
  by (simp_all add: set_order_status_def)

lemma acct_cong: "db_users db' = db_users db \<Longrightarrow> acct db' = acct db"
  by (simp add: acct_def find_user_def fun_eq_iff)

lemma holding_cong: "db_positions db' = db_positions db \<Longrightarrow> holding db' = holding db"
  by (simp add: holding_def find_position_def fun_eq_iff)

lemma find_order_cong: "db_orders db' = db_orders db \<Longrightarrow> find_order i db' = find_order i db"
  by (simp add: find_order_def)

lemma read_write_effect:
  assumes "bnd (UserRepo_GetByID i) (\<lambda>u. UserRepo_UpdateBalance i (f u) (g u)) s = (Inr (), s')"
  obtains u where "find_user i (n_db s) = Some u" "n_db s' = set_balance i (f u) (g u) (n_db s)" "moved s s'"
  using assms by (auto simp: succeeds moved_def dest!: effects)

lemma settle_trade_effect:
  assumes run: "settle_trade dec_div order t tr s = (Inr (), s')" and tx: "n_tx s = ActiveTx"
    and neq: "t_MakerUserID tr \<noteq> t_TakerUserID tr"
  defines "buyer \<equiv> if o_Side order = Buy then t_TakerUserID tr else t_MakerUserID tr"
    and "seller \<equiv> if o_Side order = Buy then t_MakerUserID tr else t_TakerUserID tr"
    and "price \<equiv> if o_Side order = Buy then o_Price order else t_Price tr"
  obtains bu su mk where "find_user buyer (n_db s) = Some bu" "find_user seller (n_db s) = Some su"
    "find_order (t_MakerOrderID tr) (n_db s) = Some mk" "moved s s'"
    "acct (n_db s') = (acct (n_db s))
       (buyer \<mapsto> (u_Balance bu + (price - t_Price tr) * t_Quantity tr, u_LockedBalance bu - price * t_Quantity tr),
        seller \<mapsto> (u_Balance su + t_Price tr * t_Quantity tr, u_LockedBalance su))"
    "\<And>v j. holding (n_db s') v j = holding (n_db s) v j + (if v = buyer \<and> j = t_OutcomeID tr then t_Quantity tr else 0)"
    "db_trades (n_db s') = db_trades (n_db s) @ [tr]"
    "\<And>i. map_option (\<lambda>x. (o_FilledQty x, o_Status x)) (find_order i (n_db s')) =
       (if i = t_MakerOrderID tr
        then Some (o_FilledQty mk + t_Quantity tr,
                   if o_Quantity mk \<le> o_FilledQty mk + t_Quantity tr then Filled else PartiallyFilled)
        else map_option (\<lambda>x. (o_FilledQty x, o_Status x)) (find_order i (n_db s)))"
proof -
  have bs: "buyer \<noteq> seller" using neq by (simp add: buyer_def seller_def)
  have "settle_trade dec_div order t tr = andthen (TradeRepo_Create tr) (andthen (settle_buyer buyer price tr)
      (andthen (credit_position dec_div buyer t tr) (andthen (settle_seller seller tr) (settle_maker tr))))"
    by (simp add: settle_trade_def buyer_def seller_def price_def)
  with run obtain s1 s2 s3 s4 where
    1: "TradeRepo_Create tr s = (Inr (), s1)" and 2: "settle_buyer buyer price tr s1 = (Inr (), s2)"
    and 3: "credit_position dec_div buyer t tr s2 = (Inr (), s3)" and 4: "settle_seller seller tr s3 = (Inr (), s4)"
    and 5: "settle_maker tr s4 = (Inr (), s')"
    by (auto simp: succeeds)
  from TradeRepo_Create_effect[OF 1] have db1: "n_db s1 = (n_db s)\<lparr>db_trades := db_trades (n_db s) @ [tr]\<rparr>" and m1: "moved s s1" by auto
  obtain bu where bu: "find_user buyer (n_db s1) = Some bu" and m2: "moved s1 s2"
    and db2: "n_db s2 = set_balance buyer (u_Balance bu + (price - t_Price tr) * t_Quantity tr)
        (u_LockedBalance bu - price * t_Quantity tr) (n_db s1)"
    using 2 unfolding settle_buyer_def Let_def by (rule read_write_effect)
  have tx2: "n_tx s2 = ActiveTx" using tx m1 m2 by (simp add: moved_def)
  note C = credit_position_effect[OF 3 tx2]
  obtain su where su: "find_user seller (n_db s3) = Some su" and m4: "moved s3 s4"
    and db4: "n_db s4 = set_balance seller (u_Balance su + t_Price tr * t_Quantity tr) (u_LockedBalance su) (n_db s3)"
    using 4 unfolding settle_seller_def Let_def by (rule read_write_effect)
  obtain mk s5 where g5: "OrderRepo_GetByID (t_MakerOrderID tr) s4 = (Inr mk, s5)"
    and u5: "OrderRepo_UpdateStatus (t_MakerOrderID tr)
       (if o_Quantity mk \<le> o_FilledQty mk + t_Quantity tr then Filled else PartiallyFilled)
       (o_FilledQty mk + t_Quantity tr) s5 = (Inr (), s')"
    using 5 by (auto simp: settle_maker_def succeeds Let_def)
  from OrderRepo_GetByID_effect[OF g5] OrderRepo_UpdateStatus_effect[OF u5] obtain t' where
    mk: "find_order (t_MakerOrderID tr) (n_db s4) = Some mk" and m5: "moved s4 s'"
    and db5: "n_db s' = set_order_status (t_MakerOrderID tr)
       (if o_Quantity mk \<le> o_FilledQty mk + t_Quantity tr then Filled else PartiallyFilled)
       (o_FilledQty mk + t_Quantity tr) t' (n_db s4)"
    by (auto intro: moved_trans)
  have u3: "db_users (n_db s3) = db_users (n_db s2)" and o3: "db_orders (n_db s3) = db_orders (n_db s)"
    and t3: "db_trades (n_db s3) = db_trades (n_db s) @ [tr]"
    using arg_cong[OF C(2), of db_users] arg_cong[OF C(2), of db_orders] arg_cong[OF C(2), of db_trades]
    by (simp_all add: db2 db1)
  have bu': "find_user buyer (n_db s) = Some bu" using bu by (simp add: db1 find_user_def)
  have su': "find_user seller (n_db s) = Some su"
    using su bs find_user_set_balance[of seller buyer _ _ "n_db s1"] u3 by (simp add: find_user_def db2 db1)
  have mk': "find_order (t_MakerOrderID tr) (n_db s) = Some mk" using mk o3 by (simp add: db4 find_order_def)
  have mv: "moved s s'" using m1 m2 C(1) m4 m5 by (blast intro: moved_trans)
  have a1: "acct (n_db s1) = acct (n_db s)" unfolding db1 by (rule acct_cong) simp
  have a3: "acct (n_db s3) = acct (n_db s2)" by (rule acct_cong[OF u3])
  have a5: "acct (n_db s') = acct (n_db s4)" unfolding db5 by (rule acct_cong) simp
  have "acct (n_db s) buyer \<noteq> None" using bu' by (simp add: acct_def)
  then have a2: "acct (n_db s2) = (acct (n_db s))
       (buyer \<mapsto> (u_Balance bu + (price - t_Price tr) * t_Quantity tr, u_LockedBalance bu - price * t_Quantity tr))"
    unfolding db2 acct_set_balance a1 by (rule if_not_P)
  have "acct (n_db s3) seller \<noteq> None" using su by (simp add: acct_def)
  then have ac: "acct (n_db s') = (acct (n_db s))
       (buyer \<mapsto> (u_Balance bu + (price - t_Price tr) * t_Quantity tr, u_LockedBalance bu - price * t_Quantity tr),
        seller \<mapsto> (u_Balance su + t_Price tr * t_Quantity tr, u_LockedBalance su))"
    unfolding a5 db4 acct_set_balance a2[symmetric] a3[symmetric] by (rule if_not_P)
  have ho: "holding (n_db s') v j = holding (n_db s) v j + (if v = buyer \<and> j = t_OutcomeID tr then t_Quantity tr else 0)" for v j
    using C(3)[of v j] holding_cong[of "n_db s'" "n_db s3"] holding_cong[of "n_db s2" "n_db s"]
    by (simp add: db5 db4 db2 db1)
  have or: "map_option (\<lambda>x. (o_FilledQty x, o_Status x)) (find_order i (n_db s')) =
       (if i = t_MakerOrderID tr
        then Some (o_FilledQty mk + t_Quantity tr,
                   if o_Quantity mk \<le> o_FilledQty mk + t_Quantity tr then Filled else PartiallyFilled)
        else map_option (\<lambda>x. (o_FilledQty x, o_Status x)) (find_order i (n_db s)))" for i
    using mk find_order_cong[of "n_db s4" "n_db s" i] o3 by (simp add: db5 find_order_set_status db4)
  have tr: "db_trades (n_db s') = db_trades (n_db s) @ [tr]" using t3 by (simp add: db5 db4)
  show thesis by (rule that[OF bu' su' mk' mv ac ho tr or])
qed

section \<open>A platform in use\<close>

definition ex_user :: "string \<Rightarrow> rat User" where
  "ex_user i = \<lparr>u_ID = i, u_WalletAddress = i, u_UserType = Human, u_Balance = 1000, u_LockedBalance = 0,
               u_IsAdmin = False, u_CreatedAt = 0\<rparr>"

definition ex_outcome :: "string \<Rightarrow> int \<Rightarrow> Outcome" where
  "ex_outcome i n = \<lparr>oc_ID = i, oc_MarketID = ''m'', oc_Label = i, oc_Index = n, oc_IsWinner = False\<rparr>"

definition ex_market :: "MarketStatus \<Rightarrow> Market" where
  "ex_market st = \<lparr>m_ID = ''m'', m_Title = ''rain'', m_Description = '''', m_Category = '''', m_MarketType = Binary,
     m_Status = st, m_CreatorID = ''alice'', m_ResolvedOutcomeID = None, m_CreatedAt = 0, m_UpdatedAt = 0,
     m_ClosesAt = None\<rparr>"

definition ex_position :: "string \<Rightarrow> string \<Rightarrow> rat \<Rightarrow> rat Position" where
  "ex_position u i q = \<lparr>p_ID = u @ i, p_UserID = u, p_MarketID = ''m'', p_OutcomeID = i, p_Quantity = q,
     p_AvgPrice = 1 / 2, p_UpdatedAt = 0\<rparr>"

definition ex_db :: "MarketStatus \<Rightarrow> rat DB" where
  "ex_db st = \<lparr>db_users = [ex_user ''alice'', ex_user ''bob''], db_markets = [ex_market st],
     db_outcomes = [ex_outcome ''yes'' 0, ex_outcome ''no'' 1], db_orders = [], db_trades = [],
     db_positions = [ex_position ''alice'' ''yes'' 10], db_mints = []\<rparr>"

definition ex_sources :: "nat \<Rightarrow> world" where
  "ex_sources f = \<lparr>w_uuid = (\<lambda>n. replicate n CHR ''x''), w_clock = int, w_fault = (\<lambda>n. n = f),
     w_nuuid = 1, w_nclock = 0, w_nfault = 1\<rparr>"

definition ex_sys :: "nat \<Rightarrow> rat sys" where
  "ex_sys f = \<lparr>n_db = ex_db MOpen, n_tx = NoTx, n_world = ex_sources f, s_mem = ex_mem0, s_reg = NewRegistry\<rparr>"

definition ex_req :: "string \<Rightarrow> OrderSide \<Rightarrow> rat \<Rightarrow> rat \<Rightarrow> rat PlaceOrderRequest" where
  "ex_req u sd p q = \<lparr>po_UserID = u, po_MarketID = ''m'', po_OutcomeID = ''yes'', po_Side = sd, po_Price = p, po_Quantity = q\<rparr>"

text \<open>Alice offers 10 at 0.60; Bob buys 4 at 0.70.\<close>

definition ex_s1 :: "rat sys" where
  "ex_s1 = snd (OrderService_PlaceOrder (/) (ex_req ''alice'' Sell (6 / 10) 10) (ex_sys 0))"

definition ex_s2 :: "(err + ref \<times> rat Trade list) \<times> rat sys" where
  "ex_s2 = OrderService_PlaceOrder (/) (ex_req ''bob'' Buy (7 / 10) 4) ex_s1"

section \<open>Properties\<close>




text \<open>A trade of 4 with Alice's order, settled for Bob's order at 0.70.\<close>

definition ex_trade :: "rat Trade" where
  "ex_trade = \<lparr>t_ID = ''t'', t_MarketID = ''m'', t_OutcomeID = ''yes'', t_MakerOrderID = ''x'', t_TakerOrderID = ''x'',
     t_MakerUserID = ''alice'', t_TakerUserID = ''bob'', t_Price = 6 / 10, t_Quantity = 4, t_CreatedAt = 0\<rparr>"

definition ex_settled :: "(err + unit) \<times> rat sys" where
  "ex_settled = settle_trade (/) ex_bid 9 ex_trade (ex_s1\<lparr>n_tx := ActiveTx\<rparr>)"




text \<open>
  Nobody cancels the order of another user: the attempt ends with an error and changes
  neither a table nor the engine.
\<close>

theorem CancelOrder_forbidden:
  assumes "find_order orderID (n_db s) = Some x" and "o_UserID x \<noteq> userID"
    and "OrderService_CancelOrder userID orderID s = (res, s')"
  shows "(\<exists>e. res = Inl e) \<and> n_db s' = n_db s \<and> s_mem s' = s_mem s \<and> s_reg s' = s_reg s"
proof (cases "OrderRepo_GetByID orderID s")
  case (Pair r s1)
  have frame: "n_db s1 = n_db s" "s_mem s1 = s_mem s" "s_reg s1 = s_reg s"
    using keepsD[OF keeps_reads(1)[of "\<lambda>db. db" orderID] Pair]
      more_sys[OF keepsD[OF keeps_one_row Pair[unfolded OrderRepo_GetByID_def]]] by auto
  show ?thesis
  proof (cases r)
    case (Inl e)
    with Pair assms(3) frame show ?thesis by (auto simp: OrderService_CancelOrder_def bnd_def)
  next
    case (Inr y)
    with OrderRepo_GetByID_effect[of orderID s y s1] Pair assms(1) have "y = x" by auto
    with Inr Pair assms(2,3) frame show ?thesis
      by (auto simp: OrderService_CancelOrder_def comp_defs)
  qed
qed

theorem CancelOrder_forbidden_witness:
  "\<exists>e. fst (OrderService_CancelOrder ''bob'' ''x'' ex_s1) = Inl e"
proof -
  obtain x where x: "find_order ''x'' (n_db ex_s1) = Some x" "o_UserID x \<noteq> ''bob''"
  proof -
    have "map_option o_UserID (find_order ''x'' (n_db ex_s1)) = Some ''alice''" by code_simp
    then show thesis using that by auto
  qed
  with CancelOrder_forbidden[OF x, of "fst (OrderService_CancelOrder ''bob'' ''x'' ex_s1)"
      "snd (OrderService_CancelOrder ''bob'' ''x'' ex_s1)"]
  show ?thesis by simp
qed

text \<open>
  The transaction takes back the tables, not the engine: when the commit of an order that
  rests fails, the caller gets an error and no table knows the order, but it stays on the
  book, where later orders trade with it.
\<close>

definition ex_lost :: "(err + ref \<times> rat Trade list) \<times> rat sys" where
  "ex_lost = OrderService_PlaceOrder (/) (ex_req ''bob'' Buy (1 / 2) 4) (ex_sys 5)"

theorem PlaceOrder_failure_leaves_order_on_book:
  "fst ex_lost = Inl (Errorf ''postgres: commit tx'' (Some DriverError)) \<and>
   n_db (snd ex_lost) = n_db (ex_sys 5) \<and> db_orders (n_db (snd ex_lost)) = [] \<and>
   GetOrderbookDepth ''yes'' 10 (s_mem (snd ex_lost)) (s_reg (snd ex_lost))
     = ([\<lparr>ol_Price = 1 / 2, ol_Quantity = 4, ol_Count = 1\<rparr>], [])"
proof -
  have e: "fst ex_lost = Inl (Errorf ''postgres: commit tx'' (Some DriverError))" by code_simp
  have "GetOrderbookDepth ''yes'' 10 (s_mem (snd ex_lost)) (s_reg (snd ex_lost))
     = ([\<lparr>ol_Price = 1 / 2, ol_Quantity = 4, ol_Count = 1\<rparr>], [])" by code_simp
  moreover have "db_orders (n_db (snd ex_lost)) = []" by code_simp
  moreover have "n_db (snd ex_lost) = n_db (ex_sys 5)"
  proof -
    have "OrderService_PlaceOrder (/) (ex_req ''bob'' Buy (1 / 2) 4) (ex_sys 5) = (fst ex_lost, snd ex_lost)"
      by (simp add: ex_lost_def)
    with e show ?thesis
      by (auto simp: OrderService_PlaceOrder_def fail_def split: if_splits dest: WithTx_failed)
  qed
  ultimately show ?thesis using e by blast
qed

end
