(* ===== verification/MintService.thy ===== *)
theory MintService
  imports OrderService
begin

text \<open>
  \<open>services/trading-svc/internal/service/mint.go\<close>: minting a complete set of outcome tokens
  for its cost, and listing the positions of a user. What a mint does to accounts and
  holdings, whatever statement fails.
\<close>

section \<open>Operations\<close>

definition mint_outcome ::
    "string \<Rightarrow> string \<Rightarrow> 'd::linordered_field \<Rightarrow> time \<Rightarrow> Outcome \<Rightarrow> ('d, 'z, 'd Position) dbop" where
  "mint_outcome userID marketID quantity t outcome =
     bnd fresh_id (\<lambda>i.
     (let pos = \<lparr>p_ID = i, p_UserID = userID, p_MarketID = marketID, p_OutcomeID = oc_ID outcome,
                p_Quantity = quantity, p_AvgPrice = 1, p_UpdatedAt = t\<rparr>
      in andthen (PositionRepo_Upsert pos) (ret pos)))"

definition mint_body ::
    "string \<Rightarrow> string \<Rightarrow> 'd::linordered_field \<Rightarrow> ('d, 'z, 'd Position list) dbop" where
  "mint_body userID marketID quantity =
     bnd (UserRepo_GetByID userID) (\<lambda>user.
     (let cost = quantity
      in andthen (check (\<not> u_Balance user < cost) ErrInsufficientBalance)
         (bnd (OutcomeRepo_ListByMarket marketID) (\<lambda>outcomes.
          bnd now (\<lambda>t.
          bnd (collect outcomes (mint_outcome userID marketID quantity t)) (\<lambda>positions.
          andthen (UserRepo_UpdateBalance userID (u_Balance user - cost) (u_LockedBalance user))
          (bnd fresh_id (\<lambda>i.
          andthen (TradeRepo_CreateMintTx \<lparr>mt_ID = i, mt_UserID = userID, mt_MarketID = marketID,
                     mt_Quantity = quantity, mt_Cost = cost, mt_CreatedAt = t\<rparr>)
            (ret positions)))))))))"

definition MintTokens :: "string \<Rightarrow> string \<Rightarrow> 'd::linordered_field \<Rightarrow> ('d, 'z, 'd Position list) dbop" where
  "MintTokens userID marketID quantity = WithTx (mint_body userID marketID quantity)"

definition GetPositions :: "string \<Rightarrow> string \<Rightarrow> ('d, 'z, 'd Position list) dbop" where
  "GetPositions userID marketID =
     bnd (PositionRepo_ListByUser userID) (\<lambda>positions.
       if marketID = '''' then ret positions
       else ret (filter (\<lambda>p. p_MarketID p = marketID) positions))"

section \<open>What a mint does\<close>

text \<open>
  A row is overwritten by what is minted. The row the lookups find is the one of the same
  market when no position of the user on this outcome names another market.
\<close>

definition market_of_positions :: "string \<Rightarrow> string \<Rightarrow> string set \<Rightarrow> 'd DB \<Rightarrow> bool" where
  "market_of_positions userID marketID outcomes db \<longleftrightarrow>
     (\<forall>p \<in> set (db_positions db). p_UserID p = userID \<longrightarrow> p_OutcomeID p \<in> outcomes \<longrightarrow> p_MarketID p = marketID)"

lemma market_of_positions_upsert:
  assumes "market_of_positions u m S db" and "p_MarketID pos = m"
  shows "market_of_positions u m S (upsert_position pos db)"
  using assms unfolding market_of_positions_def upsert_position_def by auto

lemma holding_upsert:
  assumes "market_of_positions (p_UserID pos) (p_MarketID pos) S db" and "p_OutcomeID pos \<in> S"
  shows "holding (upsert_position pos db) v j
       = (if v = p_UserID pos \<and> j = p_OutcomeID pos then p_Quantity pos else holding db v j)"
proof (cases "find_position (p_UserID pos) (p_OutcomeID pos) db")
  case None
  from find_position_upsert_new[OF None] show ?thesis by (simp add: holding_def)
next
  case (Some p)
  then have "p \<in> set (db_positions db)" "p_UserID p = p_UserID pos" "p_OutcomeID p = p_OutcomeID pos"
    by (auto simp: find_position_def find_Some_iff)
  with assms have "same_position p pos" by (auto simp: same_position_def market_of_positions_def)
  from find_position_upsert_found[OF Some this] show ?thesis by (simp add: holding_def)
qed

lemma mint_outcome_effect:
  assumes "mint_outcome u m q t x s = (Inr p, s')"
    and "market_of_positions u m S (n_db s)" and "oc_ID x \<in> S"
  shows "moved s s'" and "market_of_positions u m S (n_db s')"
    and "n_db s' = (n_db s)\<lparr>db_positions := db_positions (n_db s')\<rparr>"
    and "p_OutcomeID p = oc_ID x \<and> p_UserID p = u \<and> p_MarketID p = m \<and> p_Quantity p = q"
    and "holding (n_db s') v j = (if v = u \<and> j = oc_ID x then q else holding (n_db s) v j)"
proof -
  obtain s1 where 1: "moved s s1" "n_db s1 = n_db s" and 2: "PositionRepo_Upsert p s1 = (Inr (), s')"
    and p: "p_UserID p = u" "p_MarketID p = m" "p_OutcomeID p = oc_ID x" "p_Quantity p = q"
    using assms(1) by (auto simp: mint_outcome_def succeeds Let_def dest!: fresh_id_effect)
  from PositionRepo_Upsert_effect[OF 2] 1 have db: "n_db s' = upsert_position p (n_db s)" and mv: "moved s s'"
    by (auto intro: moved_trans)
  show "moved s s'" by (rule mv)
  show "market_of_positions u m S (n_db s')"
    unfolding db by (rule market_of_positions_upsert[OF assms(2) p(2)])
  show "n_db s' = (n_db s)\<lparr>db_positions := db_positions (n_db s')\<rparr>"
    unfolding db by (rule upsert_only_positions)
  show "p_OutcomeID p = oc_ID x \<and> p_UserID p = u \<and> p_MarketID p = m \<and> p_Quantity p = q" using p by simp
  show "holding (n_db s') v j = (if v = u \<and> j = oc_ID x then q else holding (n_db s) v j)"
    unfolding db using holding_upsert[of p S "n_db s" v j] assms(2,3) p by simp
qed

lemma mint_outcomes_effect:
  assumes "collect xs (mint_outcome u m q t) s = (Inr ps, s')"
    and "market_of_positions u m S (n_db s)" and "oc_ID ` set xs \<subseteq> S"
  shows "moved s s' \<and> n_db s' = (n_db s)\<lparr>db_positions := db_positions (n_db s')\<rparr> \<and>
    map p_OutcomeID ps = map oc_ID xs \<and>
    (\<forall>v j. holding (n_db s') v j = (if v = u \<and> j \<in> oc_ID ` set xs then q else holding (n_db s) v j))"
  using assms
proof (induction xs arbitrary: s ps)
  case Nil
  then show ?case by (simp add: succeeds)
next
  case (Cons x xs)
  obtain p ps' t1 where 1: "mint_outcome u m q t x s = (Inr p, t1)"
    and 2: "collect xs (mint_outcome u m q t) t1 = (Inr ps', s')" and ps: "ps = p # ps'"
    using Cons.prems(1) by (auto simp: succeeds)
  have x: "oc_ID x \<in> S" and xs: "oc_ID ` set xs \<subseteq> S" using Cons.prems(3) by auto
  note A = mint_outcome_effect[OF 1 Cons.prems(2) x]
  have IH: "moved t1 s'" "n_db s' = (n_db t1)\<lparr>db_positions := db_positions (n_db s')\<rparr>"
    "map p_OutcomeID ps' = map oc_ID xs"
    "\<And>v j. holding (n_db s') v j = (if v = u \<and> j \<in> oc_ID ` set xs then q else holding (n_db t1) v j)"
    using Cons.IH[OF 2 A(2) xs] by auto
  have "n_db s' = (n_db s)\<lparr>db_positions := db_positions (n_db s')\<rparr>"
    by (subst IH(2), subst A(3)) simp
  with A(1,4,5) IH(1,3,4) ps show ?case by (auto intro: moved_trans)
qed
lemma mint_body_effect:
  assumes "mint_body u m q s = (Inr ps, s')"
    and "market_of_positions u m (oc_ID ` set (outcomes_of m (n_db s))) (n_db s)"
  obtains b l where "acct (n_db s) u = Some (b, l)" "q \<le> b" "acct (n_db s') = (acct (n_db s))(u \<mapsto> (b - q, l))"
    "map p_OutcomeID ps = map oc_ID (outcomes_of m (n_db s))"
    "\<And>v j. holding (n_db s') v j
       = (if v = u \<and> j \<in> oc_ID ` set (outcomes_of m (n_db s)) then q else holding (n_db s) v j)"
    "\<exists>mt. db_mints (n_db s') = db_mints (n_db s) @ [mt] \<and> mt_UserID mt = u \<and> mt_MarketID mt = m \<and>
       mt_Quantity mt = q \<and> mt_Cost mt = q"
    "db_orders (n_db s') = db_orders (n_db s)" "moved s s'"
proof -
  obtain user t s1 s2 s3 s4 mt where
    1: "find_user u (n_db s) = Some user" "\<not> u_Balance user < q" "n_db s1 = n_db s" "moved s s1"
    and 2: "collect (outcomes_of m (n_db s)) (mint_outcome u m q t) s1 = (Inr ps, s2)"
    and 3: "UserRepo_UpdateBalance u (u_Balance user - q) (u_LockedBalance user) s2 = (Inr (), s3)"
    and 4: "n_db s4 = n_db s3" "moved s3 s4" "TradeRepo_CreateMintTx mt s4 = (Inr (), s')"
    and mt: "mt_UserID mt = u \<and> mt_MarketID mt = m \<and> mt_Quantity mt = q \<and> mt_Cost mt = q"
    using assms(1) by (auto simp: mint_body_def succeeds Let_def moved_def dest!: UserRepo_GetByID_effect
        OutcomeRepo_ListByMarket_effect now_effect fresh_id_effect)
  from mint_outcomes_effect[OF 2, of "oc_ID ` set (outcomes_of m (n_db s))"] assms(2) 1(3)
  have C: "moved s1 s2" "n_db s2 = (n_db s)\<lparr>db_positions := db_positions (n_db s2)\<rparr>"
    "map p_OutcomeID ps = map oc_ID (outcomes_of m (n_db s))"
    "\<And>v j. holding (n_db s2) v j
       = (if v = u \<and> j \<in> oc_ID ` set (outcomes_of m (n_db s)) then q else holding (n_db s) v j)"
    by simp_all
  from UserRepo_UpdateBalance_effect[OF 3] have D: "moved s2 s3"
    "n_db s3 = set_balance u (u_Balance user - q) (u_LockedBalance user) (n_db s2)" by simp_all
  from TradeRepo_CreateMintTx_effect[OF 4(3)] 4(1,2) have E: "moved s3 s'"
    "n_db s' = (n_db s3)\<lparr>db_mints := db_mints (n_db s3) @ [mt]\<rparr>" by (auto intro: moved_trans)
  have a: "acct (n_db s) u = Some (u_Balance user, u_LockedBalance user)" using 1(1) by (simp add: acct_def)
  have a2: "acct (n_db s2) = acct (n_db s)" by (rule acct_cong) (simp add: arg_cong[OF C(2), of db_users])
  have a': "acct (n_db s') = (acct (n_db s))(u \<mapsto> (u_Balance user - q, u_LockedBalance user))"
    using a acct_cong[of "n_db s'" "n_db s3"] by (simp add: E(2) D(2) acct_set_balance a2)
  have h': "holding (n_db s') v j
       = (if v = u \<and> j \<in> oc_ID ` set (outcomes_of m (n_db s)) then q else holding (n_db s) v j)" for v j
    using C(4) holding_cong[of "n_db s'" "n_db s2"] by (simp add: E(2) D(2))
  have o': "db_orders (n_db s') = db_orders (n_db s)" "db_mints (n_db s') = db_mints (n_db s) @ [mt]"
    using arg_cong[OF C(2), of db_orders] arg_cong[OF C(2), of db_mints] by (simp_all add: E(2) D(2))
  have mv: "moved s s'" using 1(4) C(1) D(1) E(1) by (blast intro: moved_trans)
  show thesis using that[OF a _ a' C(3) h' _ o'(1) mv] 1(2) o'(2) mt by auto
qed

section \<open>Properties\<close>



end
