(* ===== verification/MarketService.thy ===== *)
theory MarketService
  imports Accounts
begin

text \<open>
  \<open>services/market-svc/internal/service/market.go\<close>: creating markets with their outcomes, the
  life cycle of a market as a table of allowed transitions, and the resolution of a closed
  market. What each operation does to the table of markets, and which statuses a market can
  reach.
\<close>

section \<open>The life cycle\<close>

definition validTransitions :: "MarketStatus \<Rightarrow> MarketStatus list option" where
  "validTransitions = [MDraft \<mapsto> [MOpen], MOpen \<mapsto> [MClosed], MClosed \<mapsto> [MResolved, MCancelled]]"

definition isValidTransition :: "MarketStatus \<Rightarrow> MarketStatus \<Rightarrow> bool" where
  "isValidTransition st st' =
     (case validTransitions st of None \<Rightarrow> False | Some allowed \<Rightarrow> list_ex (\<lambda>x. x = st') allowed)"

definition MarketStatus_String :: "MarketStatus \<Rightarrow> string" where
  "MarketStatus_String st = (case st of MDraft \<Rightarrow> ''draft'' | MOpen \<Rightarrow> ''open'' | MClosed \<Rightarrow> ''closed''
     | MResolved \<Rightarrow> ''resolved'' | MCancelled \<Rightarrow> ''cancelled'')"

section \<open>Creating a market\<close>

text \<open>The zero time of the request stands for no closing time.\<close>

record CreateMarketRequest =
  cm_Title :: string
  cm_Description :: string
  cm_MarketType :: MarketType
  cm_Category :: string
  cm_OutcomeLabels :: "string list"
  cm_EndTime :: time
  cm_CreatedBy :: string

definition generateID :: "('d, 'z, string) dbop" where
  "generateID = fresh_id"

definition validate_create :: "CreateMarketRequest \<Rightarrow> ('d, 'z, unit) dbop" where
  "validate_create req =
     andthen (check (cm_Title req \<noteq> '''') (app_new ''BAD_REQUEST'' ''title is required''))
     (andthen (check (\<not> (cm_MarketType req = Binary \<and>
                          length (cm_OutcomeLabels req) \<noteq> 0 \<and> length (cm_OutcomeLabels req) \<noteq> 2))
                (app_new ''BAD_REQUEST'' ''binary market must have 0 or 2 outcome labels''))
       (check (\<not> (cm_MarketType req = Multi \<and> length (cm_OutcomeLabels req) < 2))
          (app_new ''BAD_REQUEST'' ''multi market must have at least 2 outcome labels'')))"

definition market_labels :: "CreateMarketRequest \<Rightarrow> string list" where
  "market_labels req =
     (if cm_MarketType req = Binary
      then if length (cm_OutcomeLabels req) = 2 then cm_OutcomeLabels req else [''Yes'', ''No'']
      else cm_OutcomeLabels req)"

definition new_market :: "CreateMarketRequest \<Rightarrow> string \<Rightarrow> time \<Rightarrow> Market" where
  "new_market req i t =
     \<lparr>m_ID = i, m_Title = cm_Title req, m_Description = cm_Description req, m_Category = cm_Category req,
      m_MarketType = cm_MarketType req, m_Status = MDraft, m_CreatorID = cm_CreatedBy req,
      m_ResolvedOutcomeID = None, m_CreatedAt = t, m_UpdatedAt = t,
      m_ClosesAt = (if cm_EndTime req = 0 then None else Some (cm_EndTime req))\<rparr>"

definition new_outcome :: "string \<Rightarrow> nat \<times> string \<Rightarrow> ('d, 'z, Outcome) dbop" where
  "new_outcome marketID = (\<lambda>(i, label). bnd generateID (\<lambda>oid. ret
     \<lparr>oc_ID = oid, oc_MarketID = marketID, oc_Label = label, oc_Index = int i, oc_IsWinner = False\<rparr>))"

definition CreateMarket :: "CreateMarketRequest \<Rightarrow> ('d, 'z, Market) dbop" where
  "CreateMarket req =
     andthen (validate_create req)
     (bnd now (\<lambda>t. bnd generateID (\<lambda>i.
     (let market = new_market req i t
      in bnd (collect (enumerate 0 (market_labels req)) (new_outcome (m_ID market))) (\<lambda>outcomes.
         andthen (WithTx (andthen (MarketRepo_Create market) (OutcomeRepo_CreateBatch outcomes)))
           (ret market))))))"

section \<open>Reading, moving and resolving a market\<close>

definition ListMarkets :: "MarketFilter \<Rightarrow> ('d, 'z, Market list \<times> nat) dbop" where
  "ListMarkets flt = MarketRepo_List flt"

definition GetMarket :: "string \<Rightarrow> ('d, 'z, Market \<times> Outcome list) dbop" where
  "GetMarket i =
     bnd (MarketRepo_GetByID i) (\<lambda>market.
     bnd (OutcomeRepo_ListByMarket i) (\<lambda>outcomes. ret (market, outcomes)))"

definition UpdateMarketStatus :: "string \<Rightarrow> MarketStatus \<Rightarrow> ('d, 'z, unit) dbop" where
  "UpdateMarketStatus i st =
     bnd (MarketRepo_GetByID i) (\<lambda>market.
     andthen (check (isValidTransition (m_Status market) st)
                (app_new ''BAD_REQUEST'' (''invalid status transition from '' @
                   MarketStatus_String (m_Status market) @ '' to '' @ MarketStatus_String st)))
       (bnd now (\<lambda>t. MarketRepo_Update (market\<lparr>m_Status := st, m_UpdatedAt := t\<rparr>))))"

text \<open>The checks before a resolution, which the settlement shares.\<close>

definition check_resolvable :: "string \<Rightarrow> string \<Rightarrow> ('d, 'z, Market) dbop" where
  "check_resolvable marketID winningOutcomeID =
     bnd (MarketRepo_GetByID marketID) (\<lambda>market.
     andthen (check (m_Status market = MClosed)
                (app_new ''BAD_REQUEST'' (''market must be closed to resolve, current status: '' @
                   MarketStatus_String (m_Status market))))
     (bnd (OutcomeRepo_ListByMarket marketID) (\<lambda>outcomes.
      andthen (check (list_ex (\<lambda>x. oc_ID x = winningOutcomeID) outcomes)
                 (app_new ''BAD_REQUEST'' (''outcome '' @ winningOutcomeID @ '' does not belong to market '' @ marketID)))
        (ret market))))"

definition resolved_market :: "Market \<Rightarrow> string \<Rightarrow> time \<Rightarrow> Market" where
  "resolved_market market winningOutcomeID t =
     market\<lparr>m_Status := MResolved, m_ResolvedOutcomeID := Some winningOutcomeID, m_UpdatedAt := t\<rparr>"

definition MarketService_ResolveMarket :: "string \<Rightarrow> string \<Rightarrow> ('d, 'z, unit) dbop" where
  "MarketService_ResolveMarket marketID winningOutcomeID =
     bnd (check_resolvable marketID winningOutcomeID) (\<lambda>market.
       WithTx (bnd now (\<lambda>t.
         andthen (MarketRepo_Update (resolved_market market winningOutcomeID t))
           (OutcomeRepo_SetWinner winningOutcomeID))))"

section \<open>The table of markets\<close>

text \<open>How the row of a market looks after an update.\<close>

lemma find_market_set:
  "find_market j (set_market m db)
   = (if j = m_ID m then map_option (\<lambda>x. m\<lparr>m_CreatedAt := m_CreatedAt x\<rparr>) (find_market (m_ID m) db)
      else find_market j db)"
proof -
  have "find (\<lambda>x. m_ID x = j) (map (\<lambda>x. if m_ID x = m_ID m then m\<lparr>m_CreatedAt := m_CreatedAt x\<rparr> else x) xs)
      = (if j = m_ID m then map_option (\<lambda>x. m\<lparr>m_CreatedAt := m_CreatedAt x\<rparr>) (find (\<lambda>x. m_ID x = m_ID m) xs)
         else find (\<lambda>x. m_ID x = j) xs)" for xs
    by (induction xs) auto
  then show ?thesis by (simp add: find_market_def set_market_def)
qed

lemma find_market_id: "find_market i db = Some m \<Longrightarrow> m_ID m = i"
  by (auto simp: find_market_def find_Some_iff)

text \<open>A row that was read and is written back keeps its creation time.\<close>

lemma find_market_write_back:
  assumes "find_market i db = Some m" and "m_ID m' = i" and "m_CreatedAt m' = m_CreatedAt m"
  shows "find_market j (set_market m' db) = (if j = i then Some m' else find_market j db)"
  using assms by (auto simp: find_market_set)

lemma check_resolvable_effect:
  assumes "check_resolvable i win s = (Inr m, s')"
  shows "moved s s' \<and> n_db s' = n_db s \<and> find_market i (n_db s) = Some m \<and> m_Status m = MClosed \<and>
    win \<in> oc_ID ` set (outcomes_of i (n_db s))"
  using assms by (auto simp: check_resolvable_def succeeds list_ex_iff moved_def
      dest!: MarketRepo_GetByID_effect OutcomeRepo_ListByMarket_effect)

lemma set_market_absent: "m_ID m \<notin> m_ID ` set (db_markets db) \<Longrightarrow> set_market m db = db"
  unfolding set_market_def using map_update_absent[of "m_ID m" m_ID "db_markets db"] by simp

lemma MarketRepo_Update_failed: "MarketRepo_Update m s = (Inl e, s') \<Longrightarrow> n_db s' = n_db s"
  unfolding MarketRepo_Update_def
  by (erule update_rows_failed[rotated]) (auto simp: count_where_def filter_empty_conv intro!: set_market_absent)

lemma collect_new_outcome:
  assumes "collect (enumerate n labels) (new_outcome i) s = (Inr xs, s')"
  shows "moved s s' \<and> n_db s' = n_db s \<and> map oc_Label xs = labels \<and>
    map oc_Index xs = map int [n..<n + length labels] \<and> (\<forall>x \<in> set xs. oc_MarketID x = i \<and> \<not> oc_IsWinner x)"
  using assms
proof (induction labels arbitrary: n s xs)
  case Nil
  then show ?case by (simp add: succeeds)
next
  case (Cons l ls)
  obtain x ys t where x: "new_outcome i (n, l) s = (Inr x, t)"
    and ys: "collect (enumerate (Suc n) ls) (new_outcome i) t = (Inr ys, s')" and xs: "xs = x # ys"
    using Cons.prems by (auto simp: succeeds)
  from x have "moved s t" "n_db t = n_db s" "oc_Label x = l" "oc_Index x = int n" "oc_MarketID x = i" "\<not> oc_IsWinner x"
    by (auto simp: new_outcome_def generateID_def succeeds dest!: fresh_id_effect)
  moreover have "[n..<n + length (l # ls)] = n # [Suc n..<Suc n + length ls]"
    using upt_conv_Cons[of n "n + length (l # ls)"] by simp
  ultimately show ?case using Cons.IH[OF ys] xs by (auto intro: moved_trans)
qed

section \<open>A database with one administrator\<close>

definition ex_markets_db :: "rat DB" where
  "ex_markets_db = \<lparr>db_users = [\<lparr>u_ID = ''admin'', u_WalletAddress = ''w'', u_UserType = Human, u_Balance = 0,
       u_LockedBalance = 0, u_IsAdmin = True, u_CreatedAt = 0\<rparr>],
     db_markets = [], db_outcomes = [], db_orders = [], db_trades = [], db_positions = [], db_mints = []\<rparr>"

definition ex_node :: "rat DB \<Rightarrow> rat node" where
  "ex_node db = \<lparr>n_db = db, n_tx = NoTx, n_world = \<lparr>w_uuid = (\<lambda>n. replicate n CHR ''x''), w_clock = int,
     w_fault = (\<lambda>n. False), w_nuuid = 1, w_nclock = 0, w_nfault = 0\<rparr>\<rparr>"

definition ex_create :: CreateMarketRequest where
  "ex_create = \<lparr>cm_Title = ''rain'', cm_Description = '''', cm_MarketType = Binary, cm_Category = '''',
     cm_OutcomeLabels = [], cm_EndTime = 0, cm_CreatedBy = ''admin''\<rparr>"

definition ex_created :: "(err + Market) \<times> rat node" where
  "ex_created = CreateMarket ex_create (ex_node ex_markets_db)"

section \<open>Creation\<close>

lemma create_tx_effect:
  assumes "andthen (MarketRepo_Create m) (OutcomeRepo_CreateBatch xs) s = (Inr (), s')"
  shows "m_ID m \<notin> m_ID ` set (db_markets (n_db s)) \<and>
    n_db s' = (n_db s)\<lparr>db_markets := db_markets (n_db s) @ [m],
      db_outcomes := db_outcomes (n_db s) @ map (\<lambda>x. x\<lparr>oc_Index := int32 (oc_Index x)\<rparr>) xs\<rparr>"
  using assms by (auto simp: succeeds dest!: MarketRepo_Create_effect OutcomeRepo_CreateBatch_effect)

lemma CreateMarket_effect:
  assumes "CreateMarket req s = (Inr m, s')"
  obtains xs i t where "m = new_market req i t" "map oc_Label xs = market_labels req"
    "map oc_Index xs = map int [0..<length (market_labels req)]"
    "\<forall>x \<in> set xs. oc_MarketID x = i \<and> \<not> oc_IsWinner x" "i \<notin> m_ID ` set (db_markets (n_db s))"
    "n_db s' = (n_db s)\<lparr>db_markets := db_markets (n_db s) @ [m],
       db_outcomes := db_outcomes (n_db s) @ map (\<lambda>x. x\<lparr>oc_Index := int32 (oc_Index x)\<rparr>) xs\<rparr>"
    "cm_Title req \<noteq> ''''" "2 \<le> length (market_labels req)"
proof -
  obtain t i s1 xs s2 where 1: "validate_create req s = (Inr (), s)" and m: "m = new_market req i t"
    and s1: "n_db s1 = n_db s"
    and c: "collect (enumerate 0 (market_labels req)) (new_outcome i) s1 = (Inr xs, s2)"
    and w: "WithTx (andthen (MarketRepo_Create m) (OutcomeRepo_CreateBatch xs)) s2 = (Inr (), s')"
    using assms by (auto simp: CreateMarket_def validate_create_def generateID_def succeeds Let_def new_market_def
        dest!: now_effect fresh_id_effect)
  from collect_new_outcome[OF c] s1 have C: "map oc_Label xs = market_labels req" "n_db s2 = n_db s"
    "map oc_Index xs = map int [0..<length (market_labels req)]"
    "\<forall>x \<in> set xs. oc_MarketID x = i \<and> \<not> oc_IsWinner x" by simp_all
  from w obtain s3 w1 w2' where
    "andthen (MarketRepo_Create m) (OutcomeRepo_CreateBatch xs) (s2\<lparr>n_world := w1, n_tx := ActiveTx\<rparr>) = (Inr (), s3)"
    "s' = s3\<lparr>n_tx := n_tx s2, n_world := w2'\<rparr>" by (rule WithTx_ok)
  with create_tx_effect[OF this(1)] C(2) m have D: "i \<notin> m_ID ` set (db_markets (n_db s))"
    "n_db s' = (n_db s)\<lparr>db_markets := db_markets (n_db s) @ [m],
       db_outcomes := db_outcomes (n_db s) @ map (\<lambda>x. x\<lparr>oc_Index := int32 (oc_Index x)\<rparr>) xs\<rparr>"
    by (simp_all add: new_market_def)
  have V: "cm_Title req \<noteq> ''''" "2 \<le> length (market_labels req)"
    using 1 by (cases "cm_MarketType req"; auto simp: validate_create_def succeeds market_labels_def)+
  show thesis by (rule that[OF m C(1,3,4) D V])
qed

text \<open>All the statements of the creation are in its transaction.\<close>

lemma CreateMarket_failed:
  assumes "CreateMarket req s = (Inl e, s')"
  shows "n_db s' = n_db s"
proof -
  have "keeps (\<lambda>s. n_db s) (collect xs (new_outcome i) :: ('a, 'b, Outcome list) dbop)" for xs i
    unfolding new_outcome_def generateID_def
    by (intro keeps_collect) (auto intro!: keeping keeps_fresh_id_db[of "\<lambda>x. x"])
  note K = keepsD[OF this]
  show ?thesis
    using assms
    apply (auto simp: CreateMarket_def validate_create_def generateID_def bnd_def andthen_def check_def ret_def fail_def
        now_def fresh_id_def Let_def dest!: K split: prod.splits sum.splits if_splits dest: WithTx_failed)
    done
qed

section \<open>Life cycle\<close>

text \<open>Each transition goes up in rank, so a market changes its status at most three times.\<close>

definition status_rank :: "MarketStatus \<Rightarrow> nat" where
  "status_rank st = (case st of MDraft \<Rightarrow> 0 | MOpen \<Rightarrow> 1 | MClosed \<Rightarrow> 2 | MResolved \<Rightarrow> 3 | MCancelled \<Rightarrow> 3)"

lemma isValidTransition_cases:
  "isValidTransition a b \<longleftrightarrow>
     (a, b) \<in> {(MDraft, MOpen), (MOpen, MClosed), (MClosed, MResolved), (MClosed, MCancelled)}"
  by (cases a; cases b) (simp_all add: isValidTransition_def validTransitions_def)

lemma isValidTransition_rank: "isValidTransition a b \<Longrightarrow> status_rank b = Suc (status_rank a)"
  by (auto simp: isValidTransition_cases status_rank_def)

text \<open>Successful and failed changes of status, as functions of the table.\<close>

lemma UpdateMarketStatus_effect:
  assumes "UpdateMarketStatus i st s = (Inr (), s')"
  obtains m t where "find_market i (n_db s) = Some m" "isValidTransition (m_Status m) st"
    "n_db s' = set_market (m\<lparr>m_Status := st, m_UpdatedAt := t\<rparr>) (n_db s)" "moved s s'"
  using assms by (auto simp: UpdateMarketStatus_def succeeds moved_def
      dest!: MarketRepo_GetByID_effect now_effect MarketRepo_Update_effect)

lemma UpdateMarketStatus_failed:
  assumes "UpdateMarketStatus i st s = (Inl e, s')"
  shows "n_db s' = n_db s"
proof (cases "MarketRepo_GetByID i s")
  case (Pair r s1)
  with keepsD[OF keeps_reads(2)[of "\<lambda>db. db"] Pair] have s1: "n_db s1 = n_db s" by simp
  with assms Pair show ?thesis
    by (auto simp: UpdateMarketStatus_def bnd_def andthen_def check_def ret_def fail_def now_def
        split: sum.splits if_splits prod.splits dest!: MarketRepo_Update_failed)
qed

section \<open>Properties\<close>

text \<open>
  C15: a market that was created is a draft with a new id, the requested texts and at least two outcomes,
  labelled as the request says (or Yes and No), numbered from 0 and none of them winning; no
  other row changes. A creation that fails changes no table.
\<close>

theorem CreateMarket_exact:
  assumes "CreateMarket req s = (res, s')"
    and "oc_MarketID ` set (db_outcomes (n_db s)) \<subseteq> m_ID ` set (db_markets (n_db s))"
    and "length (market_labels req) \<le> 2 ^ 31"
  shows "case res of
      Inl e \<Rightarrow> n_db s' = n_db s
    | Inr m \<Rightarrow> m_Status m = MDraft \<and> m_Title m = cm_Title req \<and> m_Title m \<noteq> '''' \<and> m_CreatorID m = cm_CreatedBy req \<and>
        m_ID m \<notin> m_ID ` set (db_markets (n_db s)) \<and> db_markets (n_db s') = db_markets (n_db s) @ [m] \<and>
        map oc_Label (outcomes_of (m_ID m) (n_db s')) = market_labels req \<and>
        map oc_Index (outcomes_of (m_ID m) (n_db s')) = map int [0..<length (market_labels req)] \<and>
        2 \<le> length (market_labels req) \<and> list_all (\<lambda>x. \<not> oc_IsWinner x) (outcomes_of (m_ID m) (n_db s')) \<and>
        (\<forall>j. j \<noteq> m_ID m \<longrightarrow> outcomes_of j (n_db s') = outcomes_of j (n_db s))"
proof (cases res)
  case (Inl e)
  with assms(1) CreateMarket_failed show ?thesis by auto
next
  case (Inr m)
  with assms(1) have "CreateMarket req s = (Inr m, s')" by simp
  then obtain xs i t where m: "m = new_market req i t" and lab: "map oc_Label xs = market_labels req"
    and ix: "map oc_Index xs = map int [0..<length (market_labels req)]"
    and all: "\<forall>x \<in> set xs. oc_MarketID x = i \<and> \<not> oc_IsWinner x" and new: "i \<notin> m_ID ` set (db_markets (n_db s))"
    and db: "n_db s' = (n_db s)\<lparr>db_markets := db_markets (n_db s) @ [m],
       db_outcomes := db_outcomes (n_db s) @ map (\<lambda>x. x\<lparr>oc_Index := int32 (oc_Index x)\<rparr>) xs\<rparr>"
    and v: "cm_Title req \<noteq> ''''" "2 \<le> length (market_labels req)"
    by (rule CreateMarket_effect)
  have id: "map (\<lambda>x. x\<lparr>oc_Index := int32 (oc_Index x)\<rparr>) xs = xs"
  proof (rule map_idI)
    fix x assume "x \<in> set xs"
    then have "oc_Index x \<in> set (map oc_Index xs)" by simp
    then have "0 \<le> oc_Index x" "oc_Index x < 2 ^ 31" using assms(3) unfolding ix by auto
    then show "x\<lparr>oc_Index := int32 (oc_Index x)\<rparr> = x" by (simp add: int32_id)
  qed
  have "filter (\<lambda>x. oc_MarketID x = i) (db_outcomes (n_db s)) = []"
    using new assms(2) by (auto simp: filter_empty_conv)
  moreover have "filter (\<lambda>x. oc_MarketID x = i) xs = xs" using all by (simp add: filter_id_conv)
  moreover have "sort_key oc_Index xs = xs"
    by (rule sort_key_id_if_sorted) (simp add: ix sorted_wrt_map del: upt_Suc)
  ultimately have o: "outcomes_of i (n_db s') = xs" by (simp add: outcomes_of_def db id)
  have "outcomes_of j (n_db s') = outcomes_of j (n_db s)" if "j \<noteq> i" for j
  proof -
    have "filter (\<lambda>x. oc_MarketID x = j) xs = []" using all that by (auto simp: filter_empty_conv)
    then show ?thesis by (simp add: outcomes_of_def db id)
  qed
  then show ?thesis using Inr m o lab ix all new v by (simp add: db new_market_def list_all_iff)
qed

theorem CreateMarket_exact_witness:
  "map oc_Label (outcomes_of ''x'' (n_db (snd ex_created))) = [''Yes'', ''No''] \<and>
   map m_Status (db_markets (n_db (snd ex_created))) = [MDraft]"
proof -
  have "case fst ex_created of Inl _ \<Rightarrow> False | Inr m \<Rightarrow> m_ID m = ''x''" by code_simp
  then obtain m where m: "fst ex_created = Inr m" "m_ID m = ''x''" by (auto split: sum.splits)
  then have "CreateMarket ex_create (ex_node ex_markets_db) = (Inr m, snd ex_created)"
    by (simp add: ex_created_def prod_eq_iff)
  from CreateMarket_exact[OF this] m(2) show ?thesis
    by (auto simp: ex_node_def ex_markets_db_def market_labels_def ex_create_def)
qed



end
