(* ===== verification/Settlement.thy ===== *)
theory Settlement
  imports MarketService MintService
begin

text \<open>
  \<open>services/market-svc/internal/service/settlement.go\<close>: resolving a closed market pays one unit
  for each share of the winning outcome, cancelling it refunds each position at its average
  price. Both first have the open orders of the market cancelled (an interface, here an
  argument) and then change the market and the accounts in one transaction. Publishing the
  event of a resolution is an argument too; its result is ignored.
\<close>

section \<open>Operations\<close>

definition pay_winner :: "string \<Rightarrow> 'd::linordered_field Position \<Rightarrow> ('d, 'z, unit) dbop" where
  "pay_winner winningOutcomeID pos =
     (if p_OutcomeID pos \<noteq> winningOutcomeID \<or> \<not> 0 < p_Quantity pos then ret ()
      else let payout = p_Quantity pos
           in bnd (UserRepo_GetByID (p_UserID pos)) (\<lambda>user.
              UserRepo_UpdateBalance (u_ID user) (u_Balance user + payout) (u_LockedBalance user)))"

definition resolve_body :: "Market \<Rightarrow> string \<Rightarrow> string \<Rightarrow> ('d::linordered_field, 'z, unit) dbop" where
  "resolve_body market marketID winningOutcomeID =
     andthen (OutcomeRepo_SetWinner winningOutcomeID)
     (bnd now (\<lambda>t.
      andthen (MarketRepo_Update (resolved_market market winningOutcomeID t))
      (bnd (PositionRepo_ListByMarket marketID) (\<lambda>positions.
         for_each positions (pay_winner winningOutcomeID)))))"

definition resolved_event :: "string \<Rightarrow> string \<Rightarrow> string \<Rightarrow> time \<Rightarrow> DomainEvent" where
  "resolved_event marketID winningOutcomeID i t =
     \<lparr>ev_ID = i, ev_Type = EventMarketResolved,
      ev_Payload = [(''market_id'', marketID), (''winning_outcome_id'', winningOutcomeID)],
      ev_Source = ''market-svc'', ev_Timestamp = t, ev_TraceID = '''', ev_SpanID = ''''\<rparr>"

definition Settlement_ResolveMarket ::
    "(string \<Rightarrow> ('d, 'z, nat) dbop) \<Rightarrow> (string \<Rightarrow> DomainEvent \<Rightarrow> ('d, 'z, unit) dbop) \<Rightarrow>
     string \<Rightarrow> string \<Rightarrow> ('d::linordered_field, 'z, unit) dbop" where
  "Settlement_ResolveMarket cancel_all publish marketID winningOutcomeID =
     bnd (check_resolvable marketID winningOutcomeID) (\<lambda>market.
     andthen (cancel_all marketID)
     (andthen (WithTx (resolve_body market marketID winningOutcomeID))
     (bnd generateID (\<lambda>i. bnd now (\<lambda>t.
      handle (publish ''market.resolved'' (resolved_event marketID winningOutcomeID i t)) (\<lambda>err. ret ()))))))"

definition refund_position :: "'d::linordered_field Position \<Rightarrow> ('d, 'z, unit) dbop" where
  "refund_position pos =
     (if \<not> 0 < p_Quantity pos then ret ()
      else let refund = p_Quantity pos * p_AvgPrice pos
           in if refund \<le> 0 then ret ()
              else bnd (UserRepo_GetByID (p_UserID pos)) (\<lambda>user.
                   UserRepo_UpdateBalance (u_ID user) (u_Balance user + refund) (u_LockedBalance user)))"

definition cancel_body :: "Market \<Rightarrow> string \<Rightarrow> ('d::linordered_field, 'z, unit) dbop" where
  "cancel_body market marketID =
     bnd now (\<lambda>t.
     andthen (MarketRepo_Update (market\<lparr>m_Status := MCancelled, m_UpdatedAt := t\<rparr>))
     (bnd (PositionRepo_ListByMarket marketID) (\<lambda>positions. for_each positions refund_position)))"

definition Settlement_CancelMarket ::
    "(string \<Rightarrow> ('d, 'z, nat) dbop) \<Rightarrow> string \<Rightarrow> ('d::linordered_field, 'z, unit) dbop" where
  "Settlement_CancelMarket cancel_all marketID =
     bnd (MarketRepo_GetByID marketID) (\<lambda>market.
     andthen (check (m_Status market = MClosed)
                (app_new ''BAD_REQUEST'' (''market must be closed to cancel, current status: '' @
                   MarketStatus_String (m_Status market))))
     (andthen (cancel_all marketID)
       (WithTx (cancel_body market marketID))))"

section \<open>Paying positions\<close>

text \<open>
  Both loops credit some of the positions. \<open>amt\<close> says how much a position is worth, if it is
  paid at all.
\<close>

definition payouts :: "('d Position \<Rightarrow> 'd option) \<Rightarrow> 'd Position list \<Rightarrow> (string \<times> 'd \<times> 'd::linordered_field) list" where
  "payouts amt ps = List.map_filter (\<lambda>p. map_option (\<lambda>x. (p_UserID p, x, 0)) (amt p)) ps"

definition due :: "('d Position \<Rightarrow> 'd option) \<Rightarrow> 'd Position list \<Rightarrow> string \<Rightarrow> 'd::linordered_field" where
  "due amt ps u = sum_list (map (\<lambda>p. if p_UserID p = u then case amt p of None \<Rightarrow> 0 | Some x \<Rightarrow> x else 0) ps)"

definition win_amount :: "string \<Rightarrow> 'd::linordered_field Position \<Rightarrow> 'd option" where
  "win_amount i p = (if p_OutcomeID p = i \<and> 0 < p_Quantity p then Some (p_Quantity p) else None)"

definition refund_amount :: "'d::linordered_field Position \<Rightarrow> 'd option" where
  "refund_amount p =
     (if 0 < p_Quantity p \<and> 0 < p_Quantity p * p_AvgPrice p then Some (p_Quantity p * p_AvgPrice p) else None)"

lemma read_write_own_id:
  "bnd (UserRepo_GetByID i) (\<lambda>u. UserRepo_UpdateBalance (u_ID u) (f u) (g u))
   = bnd (UserRepo_GetByID i) (\<lambda>u. UserRepo_UpdateBalance i (f u) (g u))"
proof
  fix s :: "('a, 'b) node_scheme"
  show "bnd (UserRepo_GetByID i) (\<lambda>u. UserRepo_UpdateBalance (u_ID u) (f u) (g u)) s
      = bnd (UserRepo_GetByID i) (\<lambda>u. UserRepo_UpdateBalance i (f u) (g u)) s"
  proof (cases "UserRepo_GetByID i s")
    case (Pair r t)
    have "u_ID u = i" if "r = Inr u" for u
      using UserRepo_GetByID_effect[of i s u t] Pair that by (auto simp: find_user_def find_Some_iff)
    with Pair show ?thesis by (cases r) (auto simp: bnd_def)
  qed
qed

lemma andthen_ret: "andthen (ret x) m = m"
  by (simp add: andthen_def bnd_def ret_def fun_eq_iff)

text \<open>The loops are loops of adjustments in the sense of \<open>account_store\<close>.\<close>

lemma pay_loop:
  assumes "\<And>p. f p = (case amt p of None \<Rightarrow> ret () | Some x \<Rightarrow> pg.adjust (p_UserID p) x 0)"
  shows "for_each ps f = for_each (payouts amt ps) (\<lambda>(i, x, y). pg.adjust i x y)"
proof (induction ps)
  case Nil
  then show ?case by (simp add: payouts_def map_filter_simps)
next
  case (Cons p ps)
  show ?case
    by (cases "amt p") (simp_all only: for_each.simps Cons assms[of p] option.case andthen_ret payouts_def
        map_filter_simps option.map prod.case)
qed

lemma pay_winner_adjust:
  "pay_winner i p = (case win_amount i p of None \<Rightarrow> ret () | Some x \<Rightarrow> pg.adjust (p_UserID p) x 0)"
  by (simp add: pay_winner_def win_amount_def pg.adjust_def read_write_own_id)

lemma refund_position_adjust:
  "refund_position p = (case refund_amount p of None \<Rightarrow> ret () | Some x \<Rightarrow> pg.adjust (p_UserID p) x 0)"
  by (auto simp: refund_position_def refund_amount_def pg.adjust_def read_write_own_id)

lemma sum_payouts:
  "sum_list (map (\<lambda>(i, x, y). if i = u then x else 0) (payouts amt ps)) = due amt ps u"
  "sum_list (map (\<lambda>(i, x, y). if i = u then y else 0) (payouts amt ps)) = 0"
  by (induction ps) (auto simp: payouts_def due_def map_filter_simps split: option.splits)

lemma due_mset: "mset ps = mset qs \<Longrightarrow> due amt ps u = due amt qs u"
proof -
  assume eq: "mset ps = mset qs"
  have "sum_list (map g ps) = sum_list (map g qs)" for g :: "'a Position \<Rightarrow> 'a"
    unfolding sum_mset_sum_list[symmetric] mset_map eq ..
  then show ?thesis unfolding due_def .
qed

section \<open>What a payment changes\<close>

lemma db_only_users:
  "db'\<lparr>db_users := []\<rparr> = db\<lparr>db_users := []\<rparr> \<Longrightarrow> db' = db\<lparr>db_users := db_users db'\<rparr>"
  by (cases db; cases db') simp

lemma keeps_adjust: "keeps (\<lambda>s. (n_db s)\<lparr>db_users := []\<rparr>) (pg.adjust i x y)"
  unfolding pg.adjust_def UserRepo_UpdateBalance_def
  by (intro keeps_bnd keeps_UserRepo_GetByID[of "\<lambda>db. db\<lparr>db_users := []\<rparr>"]
      keeps_update_rows_db[of "\<lambda>db. db\<lparr>db_users := []\<rparr>"]) (simp add: set_balance_def)

lemma keeps_adjust_more: "keeps node.more (pg.adjust i x y)"
  unfolding pg.adjust_def UserRepo_UpdateBalance_def UserRepo_GetByID_def by (intro keeping)

lemma pay_loop_effect:
  assumes "\<And>p. f p = (case amt p of None \<Rightarrow> ret () | Some x \<Rightarrow> pg.adjust (p_UserID p) x 0)"
    and "for_each ps f s = (Inr (), s')" and "users_ok (n_db s)"
  shows "n_db s' = (n_db s)\<lparr>db_users := db_users (n_db s')\<rparr>" and "users_ok (n_db s')"
    and "acct (n_db s') u = map_option (\<lambda>(b, l). (b + due amt ps u, l)) (acct (n_db s) u)"
    and "money (n_db s') = money (n_db s) + sum_list (List.map_filter amt ps)"
proof -
  from assms(1,2) have run: "for_each (payouts amt ps) (\<lambda>(i, x, y). pg.adjust i x y) s = (Inr (), s')"
    by (simp add: pay_loop)
  have "keeps (\<lambda>s. (n_db s)\<lparr>db_users := []\<rparr>) (for_each (payouts amt ps) (\<lambda>(i, x, y). pg.adjust i x y))"
    by (intro keeps_for_each) (auto intro: keeps_adjust)
  from keepsD[OF this run] show "n_db s' = (n_db s)\<lparr>db_users := db_users (n_db s')\<rparr>" by (rule db_only_users)
  have "map (\<lambda>(i, x, y). x + y) (payouts amt ps) = List.map_filter amt ps"
    by (induction ps) (auto simp: payouts_def map_filter_simps split: option.splits)
  with pg.adjust_all_total[OF run assms(3)] show "users_ok (n_db s')"
    and "money (n_db s') = money (n_db s) + sum_list (List.map_filter amt ps)" by simp_all
  from pg.adjust_all_accounts[OF run assms(3), of u] sum_payouts[of u amt ps]
  show "acct (n_db s') u = map_option (\<lambda>(b, l). (b + due amt ps u, l)) (acct (n_db s) u)"
    by (simp add: case_prod_unfold)
qed

text \<open>The positions of a market, in the order of the table.\<close>

definition market_positions :: "string \<Rightarrow> 'd DB \<Rightarrow> 'd Position list" where
  "market_positions i db = filter (\<lambda>p. p_MarketID p = i) (db_positions db)"

lemma sum_map_filter_mset:
  fixes amt :: "'a \<Rightarrow> 'd::comm_monoid_add option"
  assumes "mset ps = mset qs"
  shows "sum_list (List.map_filter amt ps) = sum_list (List.map_filter amt qs)"
proof -
  have "mset (List.map_filter amt ps) = mset (List.map_filter amt qs)"
    using assms by (simp add: List.map_filter_def mset_map mset_filter)
  then show ?thesis by (metis sum_mset_sum_list)
qed

lemma resolve_body_effect:
  assumes "resolve_body m i win s = (Inr (), s')" and "users_ok (n_db s)"
  obtains t where "outcome_exists win (n_db s)" "m_ID m \<in> m_ID ` set (db_markets (n_db s))"
    "n_db s' = (set_market (resolved_market m win t) (set_winner win (n_db s)))\<lparr>db_users := db_users (n_db s')\<rparr>"
    "users_ok (n_db s')"
    "\<And>u. acct (n_db s') u
       = map_option (\<lambda>(b, l). (b + due (win_amount win) (market_positions i (n_db s)) u, l)) (acct (n_db s) u)"
    "money (n_db s') = money (n_db s) + sum_list (List.map_filter (win_amount win) (market_positions i (n_db s)))"
proof -
  obtain t ps s1 where 1: "outcome_exists win (n_db s)" "m_ID m \<in> m_ID ` set (db_markets (n_db s))"
    "n_db s1 = set_market (resolved_market m win t) (set_winner win (n_db s))"
    "mset ps = mset (filter (\<lambda>p. p_MarketID p = i) (db_positions (n_db s)))"
    and 2: "for_each ps (pay_winner win) s1 = (Inr (), s')"
    using assms(1) by (auto simp: resolve_body_def succeeds set_winner_def set_market_def resolved_market_def
        dest!: OutcomeRepo_SetWinner_effect now_effect MarketRepo_Update_effect PositionRepo_ListByMarket_effect)
  have u: "db_users (n_db s1) = db_users (n_db s)" by (simp add: 1 set_market_def set_winner_def)
  note P = pay_loop_effect[OF pay_winner_adjust 2, unfolded users_money(3)[OF u], OF assms(2), unfolded users_money(1,2)[OF u]]
  show thesis
    by (rule that[OF 1(1,2) P(1)[unfolded 1(3)] P(2) P(3)[unfolded due_mset[OF 1(4)], folded market_positions_def]
          P(4)[unfolded sum_map_filter_mset[OF 1(4)], folded market_positions_def]])
qed

lemma cancel_body_effect:
  assumes "cancel_body m i s = (Inr (), s')" and "users_ok (n_db s)"
  obtains t where "m_ID m \<in> m_ID ` set (db_markets (n_db s))"
    "n_db s' = (set_market (m\<lparr>m_Status := MCancelled, m_UpdatedAt := t\<rparr>) (n_db s))\<lparr>db_users := db_users (n_db s')\<rparr>"
    "users_ok (n_db s')"
    "\<And>u. acct (n_db s') u
       = map_option (\<lambda>(b, l). (b + due refund_amount (market_positions i (n_db s)) u, l)) (acct (n_db s) u)"
    "money (n_db s') = money (n_db s) + sum_list (List.map_filter refund_amount (market_positions i (n_db s)))"
proof -
  obtain t ps s1 where 1: "m_ID m \<in> m_ID ` set (db_markets (n_db s))"
    "n_db s1 = set_market (m\<lparr>m_Status := MCancelled, m_UpdatedAt := t\<rparr>) (n_db s)"
    "mset ps = mset (filter (\<lambda>p. p_MarketID p = i) (db_positions (n_db s)))"
    and 2: "for_each ps refund_position s1 = (Inr (), s')"
    using assms(1) by (auto simp: cancel_body_def succeeds set_market_def
        dest!: now_effect MarketRepo_Update_effect PositionRepo_ListByMarket_effect)
  have u: "db_users (n_db s1) = db_users (n_db s)" by (simp add: 1 set_market_def)
  note P = pay_loop_effect[OF refund_position_adjust 2, unfolded users_money(3)[OF u], OF assms(2), unfolded users_money(1,2)[OF u]]
  show thesis
    by (rule that[OF 1(1) P(1)[unfolded 1(2)] P(2) P(3)[unfolded due_mset[OF 1(3)], folded market_positions_def]
          P(4)[unfolded sum_map_filter_mset[OF 1(3)], folded market_positions_def]])
qed

section \<open>Properties\<close>

text \<open>
  C17: a resolution that succeeds was of a closed market and one of its outcomes; after the
  cancellation of the open orders it credits each account with exactly the shares it holds of the
  winning outcome in positive positions of the market, one unit a share, locks and frees nothing,
  so the money of the platform grows by exactly these shares; it marks the market resolved with
  that outcome and flags that outcome, and changes no position, order or trade. Whether the event
  is delivered makes no difference.
\<close>

theorem Resolve_pays_winners:
  fixes cancel_all :: "string \<Rightarrow> ('d::linordered_field, 'z, nat) dbop"
  assumes "Settlement_ResolveMarket cancel_all publish i win s = (Inr (), s')" and "users_ok (n_db s)"
    and "maintains (\<lambda>s. users_ok (n_db s)) (cancel_all i)" and "\<And>t ev. keeps n_db (publish t ev)"
  shows "\<exists>m s0 n s1. find_market i (n_db s) = Some m \<and> m_Status m = MClosed \<and>
    win \<in> oc_ID ` set (outcomes_of i (n_db s)) \<and>
    n_db s0 = n_db s \<and> moved s s0 \<and> cancel_all i s0 = (Inr n, s1) \<and>
    (\<forall>u. acct (n_db s') u = map_option (\<lambda>(b, l).
        (b + due (win_amount win) (market_positions i (n_db s1)) u, l)) (acct (n_db s1) u)) \<and>
    money (n_db s') = money (n_db s1) + sum_list (List.map_filter (win_amount win) (market_positions i (n_db s1))) \<and>
    map_option (\<lambda>x. (m_Status x, m_ResolvedOutcomeID x)) (find_market i (n_db s')) = Some (MResolved, Some win) \<and>
    db_outcomes (n_db s') = map (\<lambda>x. if oc_ID x = win then x\<lparr>oc_IsWinner := True\<rparr> else x) (db_outcomes (n_db s1)) \<and>
    db_positions (n_db s') = db_positions (n_db s1) \<and> db_orders (n_db s') = db_orders (n_db s1) \<and>
    db_trades (n_db s') = db_trades (n_db s1)"
proof -
  obtain m s0 n s1 s2 s3 s4 id t where 1: "check_resolvable i win s = (Inr m, s0)"
    and 2: "cancel_all i s0 = (Inr n, s1)" and 3: "WithTx (resolve_body m i win) s1 = (Inr (), s2)"
    and 4: "n_db s3 = n_db s2"
    and 5: "handle (publish ''market.resolved'' (resolved_event i win id t)) (\<lambda>err. ret ()) s3 = (Inr (), s')"
    using assms(1)
    by (auto simp: Settlement_ResolveMarket_def generateID_def succeeds simp del: handle_iff dest!: now_effect fresh_id_effect)
  from check_resolvable_effect[OF 1] have C: "moved s s0" "n_db s0 = n_db s" "find_market i (n_db s) = Some m"
    "m_Status m = MClosed" "win \<in> oc_ID ` set (outcomes_of i (n_db s))" by simp_all
  have "keeps n_db (handle (publish ''market.resolved'' (resolved_event i win id t)) (\<lambda>err. ret ()))"
    by (intro keeps_handle assms(4) keeps_ret)
  from keepsD[OF this 5] 4 have s': "n_db s' = n_db s2" by simp
  have ok: "users_ok (n_db s1)" using maintainsD[OF assms(3) 2] C(2) assms(2) by simp
  obtain s5 w w' where body: "resolve_body m i win (s1\<lparr>n_world := w, n_tx := ActiveTx\<rparr>) = (Inr (), s5)"
    and s2: "n_db s2 = n_db s5" using 3 by (auto elim: WithTx_ok)
  from body ok obtain t' where R: "m_ID m \<in> m_ID ` set (db_markets (n_db s1))"
    "n_db s5 = (set_market (resolved_market m win t') (set_winner win (n_db s1)))\<lparr>db_users := db_users (n_db s5)\<rparr>"
    "\<And>u. acct (n_db s5) u
       = map_option (\<lambda>(b, l). (b + due (win_amount win) (market_positions i (n_db s1)) u, l)) (acct (n_db s1) u)"
    "money (n_db s5) = money (n_db s1) + sum_list (List.map_filter (win_amount win) (market_positions i (n_db s1)))"
    by (auto elim: resolve_body_effect)
  have id: "m_ID m = i" using find_market_id[OF C(3)] .
  have "find_market i (n_db s1) \<noteq> None" using R(1) id by (auto simp: find_market_def find_None_iff)
  moreover have "find_market i (n_db s5) = find_market i (set_market (resolved_market m win t') (n_db s1))"
    by (subst R(2)) (simp add: find_market_def set_market_def set_winner_def)
  ultimately have "map_option (\<lambda>x. (m_Status x, m_ResolvedOutcomeID x)) (find_market i (n_db s5)) = Some (MResolved, Some win)"
    by (auto simp: find_market_set resolved_market_def id)
  moreover have "db_outcomes (n_db s5) = map (\<lambda>x. if oc_ID x = win then x\<lparr>oc_IsWinner := True\<rparr> else x) (db_outcomes (n_db s1))"
    "db_positions (n_db s5) = db_positions (n_db s1)" "db_orders (n_db s5) = db_orders (n_db s1)"
    "db_trades (n_db s5) = db_trades (n_db s1)"
    by (subst R(2), simp add: set_market_def set_winner_def)+
  ultimately show ?thesis using C 2 R(3,4) unfolding s' s2 by blast
qed

text \<open>The closed market of Alice and Bob: Alice holds 10 shares of the outcome that wins.\<close>

definition ex_closed :: "rat sys" where
  "ex_closed = (ex_sys 0)\<lparr>n_db := ex_db MClosed\<rparr>"

definition ex_resolved :: "(err + unit) \<times> rat sys" where
  "ex_resolved = Settlement_ResolveMarket CancelAllOrdersByMarket (\<lambda>_ _. fail DriverError) ''m'' ''yes'' ex_closed"

lemma maintains_users_ok_CancelAll: "maintains (\<lambda>s. users_ok (n_db s)) (CancelAllOrdersByMarket i)"
proof (rule maintainsI)
  fix s :: "'a sys"
  assume "users_ok (n_db s)"
  then have "conserved (money (n_db s)) s" by (simp add: conserved_def)
  with maintains_CancelAll show "users_ok (n_db (snd (CancelAllOrdersByMarket i s)))"
    unfolding maintains_def conserved_def by blast
qed

theorem Resolve_pays_winners_witness:
  "acct (n_db (snd ex_resolved)) ''alice'' = Some (1010, 0) \<and>
   map_option m_ResolvedOutcomeID (find_market ''m'' (n_db (snd ex_resolved))) = Some (Some ''yes'')"
proof -
  have "fst ex_resolved = Inr ()" by code_simp
  then have run: "Settlement_ResolveMarket CancelAllOrdersByMarket (\<lambda>_ _. fail DriverError) ''m'' ''yes'' ex_closed
      = (Inr (), snd ex_resolved)" by (simp add: ex_resolved_def prod_eq_iff)
  have ok: "users_ok (n_db ex_closed)" by code_simp
  have d: "db_orders (n_db ex_closed) = []" "acct (n_db ex_closed) ''alice'' = Some (1000, 0)"
    "due (win_amount ''yes'') (market_positions ''m'' (n_db ex_closed)) ''alice'' = 10" by code_simp+
  from Resolve_pays_winners[OF run ok maintains_users_ok_CancelAll keeps_fail] show ?thesis
  proof (elim exE conjE)
    fix s0 s1 :: "rat sys" and n
    assume c: "n_db s0 = n_db ex_closed" "CancelAllOrdersByMarket ''m'' s0 = (Inr n, s1)"
      and a: "\<forall>u. acct (n_db (snd ex_resolved)) u = map_option (\<lambda>(b, l).
        (b + due (win_amount ''yes'') (market_positions ''m'' (n_db s1)) u, l)) (acct (n_db s1) u)"
      and b: "map_option (\<lambda>x. (m_Status x, m_ResolvedOutcomeID x)) (find_market ''m'' (n_db (snd ex_resolved)))
        = Some (MResolved, Some ''yes'')"
    have "n_db s1 = n_db ex_closed"
      using c d(1) by (auto simp: CancelAllOrdersByMarket_def succeeds dest!: OrderRepo_ListOpenByMarket_effect split: if_splits)
    with a b d show ?thesis by (cases "find_market ''m'' (n_db (snd ex_resolved))") auto
  qed
qed


text \<open>
  Alice mints 4 sets in the closed market and the market is cancelled: each of the two positions
  is refunded at the average price 1 the mint gave it.
\<close>

definition ex_minted :: "(err + rat Position list) \<times> rat sys" where
  "ex_minted = MintTokens ''alice'' ''m'' 4 ex_closed"

definition ex_refunded :: "(err + unit) \<times> rat sys" where
  "ex_refunded = Settlement_CancelMarket CancelAllOrdersByMarket ''m'' (snd ex_minted)"


lemma settlement_failed:
  assumes "Settlement_ResolveMarket cancel_all publish i win s = (Inl e, s') \<or>
    Settlement_CancelMarket cancel_all i s = (Inl e, s')"
  shows "n_db s' = n_db s \<or> (\<exists>s0. n_db s0 = n_db s \<and> n_db s' = n_db (snd (cancel_all i s0)))"
proof -
  have K: "keeps n_db (check_resolvable i win :: ('a, 'b, Market) dbop)"
    unfolding check_resolvable_def
    by (intro keeping keeps_reads(2)[of "\<lambda>db. db"] keeps_reads(3)[of "\<lambda>db. db"])
  have K2: "keeps n_db (MarketRepo_GetByID i :: ('a, 'b, Market) dbop)" by (rule keeps_reads(2)[of "\<lambda>db. db"])
  from assms show ?thesis
  proof
    assume "Settlement_ResolveMarket cancel_all publish i win s = (Inl e, s')"
    then consider "check_resolvable i win s = (Inl e, s')"
      | m s0 where "check_resolvable i win s = (Inr m, s0)" "cancel_all i s0 = (Inl e, s')"
      | m s0 n s1 where "check_resolvable i win s = (Inr m, s0)" "cancel_all i s0 = (Inr n, s1)"
          "WithTx (resolve_body m i win) s1 = (Inl e, s')"
      unfolding Settlement_ResolveMarket_def generateID_def failing by blast
    then show ?thesis
      by cases (use keepsD[OF K] WithTx_failed in \<open>fastforce+\<close>)
  next
    assume "Settlement_CancelMarket cancel_all i s = (Inl e, s')"
    then consider "MarketRepo_GetByID i s = (Inl e, s')"
      | m where "MarketRepo_GetByID i s = (Inr m, s')"
      | m s0 where "MarketRepo_GetByID i s = (Inr m, s0)" "cancel_all i s0 = (Inl e, s')"
      | m s0 n s1 where "MarketRepo_GetByID i s = (Inr m, s0)" "cancel_all i s0 = (Inr n, s1)"
          "WithTx (cancel_body m i) s1 = (Inl e, s')"
      unfolding Settlement_CancelMarket_def failing check_iff by blast
    then show ?thesis
      by cases (use keepsD[OF K2] WithTx_failed in \<open>fastforce+\<close>)
  qed
qed

text \<open>
  A settlement that fails pays nobody and moves no market: the tables are as they were, or
  as the cancellation of the open orders left them, which is not taken back.
\<close>

theorem Settlement_failure:
  assumes "Settlement_ResolveMarket cancel_all publish i win s = (Inl e, s') \<or>
    Settlement_CancelMarket cancel_all i s = (Inl e, s')"
  shows "n_db s' = n_db s \<or> (\<exists>s0. n_db s0 = n_db s \<and> n_db s' = n_db (snd (cancel_all i s0)))"
  using assms by (rule settlement_failed)

lemma CancelAll_nothing: "db_orders (n_db s) = [] \<Longrightarrow> n_db (snd (CancelAllOrdersByMarket i s)) = n_db s"
proof -
  assume none: "db_orders (n_db s) = []"
  obtain r s1 where run: "OrderRepo_ListOpenByMarket i s = (r, s1)" by (cases "OrderRepo_ListOpenByMarket i s")
  have "n_db s1 = n_db s" using keepsD[OF keeps_ListOpenByMarket[of "\<lambda>db. db"] run] .
  moreover have "xs = []" if "r = Inr xs" for xs
    using OrderRepo_ListOpenByMarket_effect[of i s xs s1] run that none by simp
  ultimately show ?thesis using run by (cases r) (auto simp: CancelAllOrdersByMarket_def bnd_def ret_def)
qed

text \<open>The open market of the example cannot be resolved.\<close>

theorem Settlement_failure_witness:
  "n_db (snd (Settlement_ResolveMarket CancelAllOrdersByMarket (\<lambda>_ _. ret ()) ''m'' ''yes'' (ex_sys 0))) = n_db (ex_sys 0)"
proof -
  let ?r = "Settlement_ResolveMarket CancelAllOrdersByMarket (\<lambda>_ _. ret ()) ''m'' ''yes'' (ex_sys 0)"
  have "case fst ?r of Inl _ \<Rightarrow> True | Inr _ \<Rightarrow> False" by code_simp
  then obtain e where "?r = (Inl e, snd ?r)" by (cases ?r) (auto split: sum.splits)
  then have "n_db (snd ?r) = n_db (ex_sys 0) \<or>
      (\<exists>s0. n_db s0 = n_db (ex_sys 0) \<and> n_db (snd ?r) = n_db (snd (CancelAllOrdersByMarket ''m'' s0)))"
    by (intro Settlement_failure disjI1)
  moreover have "db_orders (n_db (ex_sys 0)) = []" by code_simp
  ultimately show ?thesis using CancelAll_nothing by metis
qed

end
