(* ===== verification/Lifecycle.thy ===== *)
theory Lifecycle
  imports Settlement
begin

text \<open>
  The market service and the trading service on one database: whatever requests they serve, in
  whatever order, whichever statements fail, a market moves only along the table of
  transitions, and a resolved or cancelled market never changes again.
\<close>

section \<open>Operations that leave the markets alone\<close>

abbreviation markets_of :: "('d, 'z) node_scheme \<Rightarrow> Market list" where
  "markets_of s \<equiv> db_markets (n_db s)"

lemma db_markets_update [simp]:
  "db_markets (upsert_position p db) = db_markets db" "db_markets (set_order_status i st f t db) = db_markets db"
  by (simp_all add: upsert_position_def set_order_status_def)

lemma keeps_markets [keeping]:
  "keeps markets_of (OrderRepo_Create x)" "keeps markets_of (OrderRepo_UpdateStatus i st f)"
  "keeps markets_of (TradeRepo_Create tr)" "keeps markets_of (TradeRepo_CreateMintTx mt)"
  "keeps markets_of (PositionRepo_Upsert p)" "keeps markets_of (UserRepo_UpdateBalance i b l)"
  unfolding OrderRepo_Create_def OrderRepo_UpdateStatus_def TradeRepo_Create_def TradeRepo_CreateMintTx_def
    PositionRepo_Upsert_def UserRepo_UpdateBalance_def
  by (intro keeping keeps_execute_db keeps_update_rows_db; simp)+

lemma keeps_markets_place: "keeps markets_of (OrderService_PlaceOrder dec_div req)"
  unfolding OrderService_PlaceOrder_def place_body_def lock_funds_def take_shares_def settle_trade_def
    settle_buyer_def credit_position_def settle_seller_def settle_maker_def Let_def case_prod_unfold
  by (intro keeping keeps_WithTx)

lemma keeps_markets_cancel: "keeps markets_of (OrderService_CancelOrder u i)"
  unfolding OrderService_CancelOrder_def release_funds_def Let_def by (intro keeping)

lemma keeps_markets_cancel_all: "keeps markets_of (CancelAllOrdersByMarket i)"
  unfolding CancelAllOrdersByMarket_def cancel_one_def release_funds_def restore_shares_def Let_def
  by (intro keeping)

lemma keeps_markets_mint: "keeps markets_of (MintTokens u i q)"
  unfolding MintTokens_def mint_body_def mint_outcome_def Let_def by (intro keeping keeps_collect keeps_WithTx)

section \<open>How a request moves the markets\<close>

definition markets_evolve :: "'d DB \<Rightarrow> 'd DB \<Rightarrow> bool" where
  "markets_evolve db db' \<longleftrightarrow>
     (\<forall>i m. find_market i db = Some m \<longrightarrow>
        (\<exists>m'. find_market i db' = Some m' \<and> (m' = m \<or> isValidTransition (m_Status m) (m_Status m')))) \<and>
     (\<forall>i m'. find_market i db = None \<longrightarrow> find_market i db' = Some m' \<longrightarrow> m_Status m' = MDraft)"

lemma markets_evolve_same: "db_markets db' = db_markets db \<Longrightarrow> markets_evolve db db'"
  by (simp add: markets_evolve_def find_market_def)

lemma markets_evolve_write:
  assumes "find_market i db = Some m" and "isValidTransition (m_Status m) (m_Status m')"
    and "\<And>j. find_market j db' = (if j = i then Some m' else find_market j db)"
  shows "markets_evolve db db'"
  using assms by (auto simp: markets_evolve_def)

lemma evolve_UpdateMarketStatus: "markets_evolve (n_db s) (n_db (snd (UpdateMarketStatus i st s)))"
proof (cases "UpdateMarketStatus i st s")
  case (Pair r s')
  show ?thesis
  proof (cases r)
    case (Inl e)
    with Pair UpdateMarketStatus_failed show ?thesis by (metis markets_evolve_same snd_conv)
  next
    case (Inr x)
    with Pair have "UpdateMarketStatus i st s = (Inr (), s')" by simp
    then obtain m t where m: "find_market i (n_db s) = Some m" "isValidTransition (m_Status m) st"
      and db: "n_db s' = set_market (m\<lparr>m_Status := st, m_UpdatedAt := t\<rparr>) (n_db s)" by (rule UpdateMarketStatus_effect)
    show ?thesis
      using markets_evolve_write[OF m(1) _ find_market_write_back[OF m(1)], of "m\<lparr>m_Status := st, m_UpdatedAt := t\<rparr>"]
        m(2) Pair db find_market_id[OF m(1)] by simp
  qed
qed

lemma evolve_CreateMarket: "markets_evolve (n_db s) (n_db (snd (CreateMarket req s)))"
proof (cases "CreateMarket req s")
  case (Pair r s')
  show ?thesis
  proof (cases r)
    case (Inl e)
    with Pair CreateMarket_failed show ?thesis by (metis markets_evolve_same snd_conv)
  next
    case (Inr m)
    with Pair have "CreateMarket req s = (Inr m, s')" by simp
    then obtain xs i t where "m = new_market req i t" "i \<notin> m_ID ` set (db_markets (n_db s))"
      "n_db s' = (n_db s)\<lparr>db_markets := db_markets (n_db s) @ [m],
         db_outcomes := db_outcomes (n_db s) @ map (\<lambda>x. x\<lparr>oc_Index := int32 (oc_Index x)\<rparr>) xs\<rparr>"
      by (rule CreateMarket_effect)
    then have "find_market j (n_db s') = (case find_market j (n_db s) of
        None \<Rightarrow> if j = i then Some m else None | Some m \<Rightarrow> Some m)" and "m_Status m = MDraft" for j
      by (auto simp: find_market_def find_append new_market_def split: option.splits)
    with Pair show ?thesis by (auto simp: markets_evolve_def split: if_splits)
  qed
qed

text \<open>What a resolution writes, seen from a state in which the market is closed.\<close>

lemma evolve_resolved:
  assumes "find_market i db = Some m" and "m_Status m = MClosed" and "db_markets db1 = db_markets db"
    and "db_markets db' = db_markets (set_market m' db1)" and "m_ID m' = i" "m_CreatedAt m' = m_CreatedAt m"
    and "m_Status m' = MResolved \<or> m_Status m' = MCancelled"
  shows "markets_evolve db db'"
proof (rule markets_evolve_write[OF assms(1)])
  show "isValidTransition (m_Status m) (m_Status m')" using assms(2,7) by (auto simp: isValidTransition_cases)
  have m1: "find_market j db1 = find_market j db" for j by (simp add: find_market_def assms(3))
  have "find_market j db' = find_market j (set_market m' db1)" for j by (simp add: find_market_def assms(4))
  then show "find_market j db' = (if j = i then Some m' else find_market j db)" for j
    using find_market_write_back[of i db1 m m'] assms(1,5,6) m1 by simp
qed

lemma WithTx_cases:
  obtains e where "fst (WithTx fn s) = Inl e" "n_db (snd (WithTx fn s)) = n_db s"
  | x w s1 where "fn (s\<lparr>n_world := w, n_tx := ActiveTx\<rparr>) = (Inr x, s1)" "n_db (snd (WithTx fn s)) = n_db s1"
proof (cases "WithTx fn s")
  case (Pair r s')
  show thesis
  proof (cases r)
    case (Inl e)
    with Pair that(1) WithTx_failed[of fn s e s'] show ?thesis by simp
  next
    case (Inr x)
    with Pair obtain s1 w w' where "fn (s\<lparr>n_world := w, n_tx := ActiveTx\<rparr>) = (Inr x, s1)"
      "s' = s1\<lparr>n_tx := n_tx s, n_world := w'\<rparr>" by (auto elim: WithTx_ok)
    with Pair that(2) show ?thesis by simp
  qed
qed

lemma keeps_check_resolvable: "keeps n_db (check_resolvable i win)"
  unfolding check_resolvable_def
  by (intro keeping keeps_reads(2)[of "\<lambda>db. db"] keeps_reads(3)[of "\<lambda>db. db"])

lemma evolve_MarketService_ResolveMarket:
  "markets_evolve (n_db s) (n_db (snd (MarketService_ResolveMarket i win s)))"
proof (cases "check_resolvable i win s")
  case (Pair r s0)
  with keepsD[OF keeps_check_resolvable Pair] have s0: "n_db s0 = n_db s" by simp
  show ?thesis
  proof (cases r)
    case (Inl e)
    with Pair s0 show ?thesis by (simp add: MarketService_ResolveMarket_def bnd_def markets_evolve_same)
  next
    case (Inr m)
    with Pair check_resolvable_effect[of i win s m s0]
    have m: "find_market i (n_db s) = Some m" "m_Status m = MClosed" by simp_all
    let ?fn = "bnd now (\<lambda>t. andthen (MarketRepo_Update (resolved_market m win t)) (OutcomeRepo_SetWinner win))"
    have run: "snd (MarketService_ResolveMarket i win s) = snd (WithTx ?fn s0)"
      using Pair Inr by (simp add: MarketService_ResolveMarket_def bnd_def)
    show ?thesis
    proof (rule WithTx_cases[of ?fn s0])
      fix e assume "n_db (snd (WithTx ?fn s0)) = n_db s0"
      with run s0 show ?thesis by (simp add: markets_evolve_same)
    next
      fix x w s1 assume f: "?fn (s0\<lparr>n_world := w, n_tx := ActiveTx\<rparr>) = (Inr x, s1)"
        and db: "n_db (snd (WithTx ?fn s0)) = n_db s1"
      from f obtain t where "db_markets (n_db s1) = db_markets (set_market (resolved_market m win t) (n_db s))"
        by (auto simp: succeeds set_winner_def s0 dest!: now_effect MarketRepo_Update_effect OutcomeRepo_SetWinner_effect)
      with db run evolve_resolved[OF m refl, of "n_db s1" "resolved_market m win t"] find_market_id[OF m(1)]
      show ?thesis by (simp add: resolved_market_def)
    qed
  qed
qed

text \<open>A settlement: what its transaction writes to the table of markets when it commits.\<close>

lemma keeps_markets_pay: "keeps markets_of (pay_winner i p)" "keeps markets_of (refund_position p)"
  unfolding pay_winner_def refund_position_def Let_def by (intro keeping)+

lemma keeps_same_db: "keeps n_db m \<Longrightarrow> keeps markets_of m"
  by (simp add: keeps_def)

lemma resolve_body_markets:
  assumes "resolve_body m i win s = (Inr x, s')"
  shows "\<exists>t. db_markets (n_db s') = db_markets (set_market (resolved_market m win t) (n_db s))"
proof -
  obtain t ps s1 where 1: "n_db s1 = set_market (resolved_market m win t) (set_winner win (n_db s))"
    and 2: "for_each ps (pay_winner win) s1 = (Inr x, s')"
    using assms by (auto simp: resolve_body_def succeeds
        dest!: OutcomeRepo_SetWinner_effect now_effect MarketRepo_Update_effect PositionRepo_ListByMarket_effect)
  have "keeps markets_of (for_each ps (pay_winner win))" by (intro keeps_for_each keeps_markets_pay)
  from keepsD[OF this 2] 1 show ?thesis by (auto simp: set_market_def set_winner_def)
qed

lemma cancel_body_markets:
  assumes "cancel_body m i s = (Inr x, s')"
  shows "\<exists>t. db_markets (n_db s') = db_markets (set_market (m\<lparr>m_Status := MCancelled, m_UpdatedAt := t\<rparr>) (n_db s))"
proof -
  obtain t ps s1 where 1: "n_db s1 = set_market (m\<lparr>m_Status := MCancelled, m_UpdatedAt := t\<rparr>) (n_db s)"
    and 2: "for_each ps refund_position s1 = (Inr x, s')"
    using assms by (auto simp: cancel_body_def succeeds
        dest!: now_effect MarketRepo_Update_effect PositionRepo_ListByMarket_effect)
  have "keeps markets_of (for_each ps refund_position)" by (intro keeps_for_each keeps_markets_pay)
  from keepsD[OF this 2] 1 show ?thesis by (auto simp: set_market_def set_winner_def)
qed

lemma evolve_settlement_failed:
  assumes "keeps markets_of (cancel_all i)"
    and "n_db s' = n_db s \<or> (\<exists>s0. n_db s0 = n_db s \<and> n_db s' = n_db (snd (cancel_all i s0)))"
  shows "markets_evolve (n_db s) (n_db s')"
  using assms by (auto simp: keeps_def intro!: markets_evolve_same)

lemma evolve_Settlement_ResolveMarket:
  assumes "keeps markets_of (cancel_all i)" and "\<And>t ev. keeps n_db (publish t ev)"
  shows "markets_evolve (n_db s) (n_db (snd (Settlement_ResolveMarket cancel_all publish i win s)))"
proof (cases "Settlement_ResolveMarket cancel_all publish i win s")
  case (Pair r s')
  show ?thesis
  proof (cases r)
    case (Inl e)
    with Pair settlement_failed[of cancel_all publish i win s e s'] evolve_settlement_failed[of cancel_all i s' s] assms(1)
    show ?thesis by simp
  next
    case (Inr x)
    with Pair have "Settlement_ResolveMarket cancel_all publish i win s = (Inr (), s')" by simp
    then obtain m s0 n s1 s2 s3 id t where 1: "check_resolvable i win s = (Inr m, s0)"
      and 2: "cancel_all i s0 = (Inr n, s1)" and 3: "WithTx (resolve_body m i win) s1 = (Inr (), s2)"
      and 4: "n_db s3 = n_db s2"
      and 5: "handle (publish ''market.resolved'' (resolved_event i win id t)) (\<lambda>err. ret ()) s3 = (Inr (), s')"
      by (auto simp: Settlement_ResolveMarket_def generateID_def succeeds simp del: handle_iff dest!: now_effect fresh_id_effect)
    from check_resolvable_effect[OF 1] have m: "n_db s0 = n_db s" "find_market i (n_db s) = Some m" "m_Status m = MClosed"
      by simp_all
    have "keeps n_db (handle (publish ''market.resolved'' (resolved_event i win id t)) (\<lambda>err. ret ()))"
      by (intro keeps_handle assms(2) keeps_ret)
    from keepsD[OF this 5] 4 have s': "n_db s' = n_db s2" by simp
    have m1: "db_markets (n_db s1) = db_markets (n_db s)" using keepsD[OF assms(1) 2] m(1) by simp
    from 3 obtain s5 w w' where "resolve_body m i win (s1\<lparr>n_world := w, n_tx := ActiveTx\<rparr>) = (Inr (), s5)"
      "s2 = s5\<lparr>n_tx := n_tx s1, n_world := w'\<rparr>" by (rule WithTx_ok)
    with resolve_body_markets[OF this(1)] obtain t' where
      "db_markets (n_db s2) = db_markets (set_market (resolved_market m win t') (n_db s1))" by auto
    with evolve_resolved[OF m(2,3) m1, of "n_db s'" "resolved_market m win t'"] s' find_market_id[OF m(2)] Pair
    show ?thesis by (simp add: resolved_market_def)
  qed
qed

lemma evolve_Settlement_CancelMarket:
  assumes "keeps markets_of (cancel_all i)"
  shows "markets_evolve (n_db s) (n_db (snd (Settlement_CancelMarket cancel_all i s)))"
proof (cases "Settlement_CancelMarket cancel_all i s")
  case (Pair r s')
  show ?thesis
  proof (cases r)
    case (Inl e)
    with Pair settlement_failed[of cancel_all "\<lambda>_ _. ret ()" i "''''" s e s'] evolve_settlement_failed[of cancel_all i s' s] assms(1)
    show ?thesis by simp
  next
    case (Inr x)
    with Pair have "Settlement_CancelMarket cancel_all i s = (Inr (), s')" by simp
    then obtain m s0 n s1 where m: "n_db s0 = n_db s" "find_market i (n_db s) = Some m" "m_Status m = MClosed"
      and 2: "cancel_all i s0 = (Inr n, s1)" and 3: "WithTx (cancel_body m i) s1 = (Inr (), s')"
      by (auto simp: Settlement_CancelMarket_def succeeds dest!: MarketRepo_GetByID_effect)
    have m1: "db_markets (n_db s1) = db_markets (n_db s)" using keepsD[OF assms(1) 2] m(1) by simp
    from 3 obtain s5 w w' where "cancel_body m i (s1\<lparr>n_world := w, n_tx := ActiveTx\<rparr>) = (Inr (), s5)"
      "s' = s5\<lparr>n_tx := n_tx s1, n_world := w'\<rparr>" by (rule WithTx_ok)
    with cancel_body_markets[OF this(1)] obtain t' where
      "db_markets (n_db s') = db_markets (set_market (m\<lparr>m_Status := MCancelled, m_UpdatedAt := t'\<rparr>) (n_db s1))" by auto
    with evolve_resolved[OF m(2,3) m1, of "n_db s'" "m\<lparr>m_Status := MCancelled, m_UpdatedAt := t'\<rparr>"] find_market_id[OF m(2)] Pair
    show ?thesis by simp
  qed
qed

section \<open>Runs of the platform\<close>

text \<open>
  One request at a time. Between requests the outside world goes on and the trading process may
  be restarted, which leaves the database alone.
\<close>

inductive platform_step :: "'d::linordered_field sys \<Rightarrow> 'd sys \<Rightarrow> bool" where
  create: "platform_step s (snd (CreateMarket req s))"
| status: "platform_step s (snd (UpdateMarketStatus i st s))"
| resolve: "(\<And>t ev. keeps n_db (publish t ev)) \<Longrightarrow>
    platform_step s (snd (Settlement_ResolveMarket CancelAllOrdersByMarket publish i win s))"
| resolve_only: "platform_step s (snd (MarketService_ResolveMarket i win s))"
| cancel_market: "platform_step s (snd (Settlement_CancelMarket CancelAllOrdersByMarket i s))"
| place: "platform_step s (snd (OrderService_PlaceOrder dec_div preq s))"
| cancel: "platform_step s (snd (OrderService_CancelOrder u oid s))"
| cancel_all: "platform_step s (snd (CancelAllOrdersByMarket i s))"
| mint: "platform_step s (snd (MintTokens u i q s))"
| outside: "n_db s' = n_db s \<Longrightarrow> platform_step s s'"

lemma platform_step_evolve: "platform_step s s' \<Longrightarrow> markets_evolve (n_db s) (n_db s')"
proof (induction rule: platform_step.induct)
  case (create s req)
  show ?case by (rule evolve_CreateMarket)
next
  case (status s i st)
  show ?case by (rule evolve_UpdateMarketStatus)
next
  case (resolve publish s i win)
  show ?case by (rule evolve_Settlement_ResolveMarket[OF keeps_markets_cancel_all resolve])
next
  case (resolve_only s i win)
  show ?case by (rule evolve_MarketService_ResolveMarket)
next
  case (cancel_market s i)
  show ?case by (rule evolve_Settlement_CancelMarket[OF keeps_markets_cancel_all])
qed (simp_all add: markets_evolve_same keepsD[OF keeps_markets_place prod.collapse[symmetric]]
    keepsD[OF keeps_markets_cancel prod.collapse[symmetric]] keepsD[OF keeps_markets_cancel_all prod.collapse[symmetric]]
    keepsD[OF keeps_markets_mint prod.collapse[symmetric]])

lemma terminal_no_transition: "m_Status m = MResolved \<or> m_Status m = MCancelled \<Longrightarrow> \<not> isValidTransition (m_Status m) st"
  by (auto simp: isValidTransition_cases)

lemma platform_run_evolve:
  assumes "platform_step\<^sup>*\<^sup>* s s'" and "find_market i (n_db s) = Some m"
  shows "\<exists>m'. find_market i (n_db s') = Some m' \<and> isValidTransition\<^sup>*\<^sup>* (m_Status m) (m_Status m') \<and>
    (m_Status m = MResolved \<or> m_Status m = MCancelled \<longrightarrow> m' = m)"
  using assms(1)
proof (induction rule: rtranclp_induct)
  case base
  with assms(2) show ?case by auto
next
  case (step t t')
  then obtain m1 where m1: "find_market i (n_db t) = Some m1" "isValidTransition\<^sup>*\<^sup>* (m_Status m) (m_Status m1)"
    "m_Status m = MResolved \<or> m_Status m = MCancelled \<longrightarrow> m1 = m" by blast
  from platform_step_evolve[OF step.hyps(2)] m1(1) obtain m2 where m2: "find_market i (n_db t') = Some m2"
    "m2 = m1 \<or> isValidTransition (m_Status m1) (m_Status m2)" unfolding markets_evolve_def by blast
  with m1 terminal_no_transition show ?case by (metis rtranclp.rtrancl_into_rtrancl)
qed

lemma check_resolvable_refused:
  assumes "find_market i (n_db s) = Some m" and "m_Status m \<noteq> MClosed"
  shows "\<exists>e s0. check_resolvable i win s = (Inl e, s0) \<and> n_db s0 = n_db s"
proof (cases "check_resolvable i win s")
  case (Pair r s0)
  with check_resolvable_effect[of i win s _ s0] assms have "\<exists>e. r = Inl e" by (cases r) auto
  with Pair keepsD[OF keeps_check_resolvable Pair] show ?thesis by auto
qed

lemma GetByID_checked_refused:
  assumes "find_market i (n_db s) = Some m" and "\<not> P m"
  shows "\<exists>e s0. bnd (MarketRepo_GetByID i) (\<lambda>m. andthen (check (P m) (err m)) (f m)) s = (Inl e, s0) \<and> n_db s0 = n_db s"
proof (cases "MarketRepo_GetByID i s")
  case (Pair r s0)
  with keepsD[OF keeps_reads(2)[of "\<lambda>db. db"] Pair] have "n_db s0 = n_db s" by simp
  moreover have "m' = m" if "r = Inr m'" for m'
    using MarketRepo_GetByID_effect[of i s m' s0] Pair that assms(1) by simp
  ultimately show ?thesis using Pair assms(2) by (cases r) (auto simp: comp_defs)
qed

lemma terminal_refused:
  assumes "find_market i (n_db s) = Some m" and "m_Status m = MResolved \<or> m_Status m = MCancelled"
    and "x \<in> {Settlement_ResolveMarket cancel_all publish i win s, Settlement_CancelMarket cancel_all i s,
      MarketService_ResolveMarket i win s, UpdateMarketStatus i st s}"
  shows "\<exists>e. fst x = Inl e" and "n_db (snd x) = n_db s"
proof -
  have nc: "m_Status m \<noteq> MClosed" using assms(2) by auto
  obtain e s0 where "check_resolvable i win s = (Inl e, s0)" "n_db s0 = n_db s"
    using check_resolvable_refused[OF assms(1) nc] by blast
  moreover have "\<exists>e s1. Settlement_CancelMarket cancel_all i s = (Inl e, s1) \<and> n_db s1 = n_db s"
    unfolding Settlement_CancelMarket_def by (rule GetByID_checked_refused[OF assms(1)]) (rule nc)
  moreover have "\<exists>e s1. UpdateMarketStatus i st s = (Inl e, s1) \<and> n_db s1 = n_db s"
    unfolding UpdateMarketStatus_def
    by (rule GetByID_checked_refused[OF assms(1)]) (rule terminal_no_transition[OF assms(2)])
  ultimately show "\<exists>e. fst x = Inl e" and "n_db (snd x) = n_db s"
    using assms(3) by (auto simp: Settlement_ResolveMarket_def MarketService_ResolveMarket_def bnd_def)
qed

section \<open>Properties\<close>

lemma status_rank_mono: "isValidTransition\<^sup>*\<^sup>* a b \<Longrightarrow> status_rank a \<le> status_rank b"
  by (induction rule: rtranclp_induct) (auto dest: isValidTransition_rank)

text \<open>
  From any state, whatever requests the market and trading services serve one after the
  other, a market that exists stays, its status moves only along the table of transitions, hence
  never down in rank, and a resolved or cancelled market keeps its row unchanged for ever.
\<close>

theorem market_lifecycle:
  assumes "platform_step\<^sup>*\<^sup>* s s'" and "find_market i (n_db s) = Some m"
  shows "\<exists>m'. find_market i (n_db s') = Some m' \<and> isValidTransition\<^sup>*\<^sup>* (m_Status m) (m_Status m') \<and>
    status_rank (m_Status m) \<le> status_rank (m_Status m') \<and>
    (m_Status m \<in> {MResolved, MCancelled} \<longrightarrow> m' = m)"
  using platform_run_evolve[OF assms] status_rank_mono by blast

text \<open>The open market of Alice and Bob is closed and resolved.\<close>

definition ex_life1 :: "rat sys" where
  "ex_life1 = snd (UpdateMarketStatus ''m'' MClosed (ex_sys 0))"

definition ex_life2 :: "rat sys" where
  "ex_life2 = snd (Settlement_ResolveMarket CancelAllOrdersByMarket (\<lambda>_ _. ret ()) ''m'' ''yes'' ex_life1)"

lemma ex_life_run: "platform_step\<^sup>*\<^sup>* (ex_sys 0) ex_life2"
proof -
  have "platform_step (ex_sys 0) ex_life1" unfolding ex_life1_def by (rule platform_step.status)
  moreover have "platform_step ex_life1 ex_life2"
    unfolding ex_life2_def by (intro platform_step.resolve keeps_ret)
  ultimately show ?thesis by (rule converse_rtranclp_into_rtranclp[OF _ r_into_rtranclp])
qed

theorem market_lifecycle_witness:
  "map_option m_Status (find_market ''m'' (n_db ex_life2)) = Some MResolved \<and> isValidTransition\<^sup>*\<^sup>* MOpen MResolved"
proof -
  have s: "map_option m_Status (find_market ''m'' (n_db (ex_sys 0))) = Some MOpen"
    and r: "map_option m_Status (find_market ''m'' (n_db ex_life2)) = Some MResolved" by code_simp+
  from s obtain m where m: "find_market ''m'' (n_db (ex_sys 0)) = Some m" "m_Status m = MOpen"
    by (cases "find_market ''m'' (n_db (ex_sys 0))") auto
  from market_lifecycle[OF ex_life_run m(1)] m(2) r show ?thesis by auto
qed

text \<open>
  C19: a market is settled at most once: after it was resolved or cancelled, however the platform
  went on, every attempt to resolve it, to cancel it or to change its status is refused without
  changing a table, so nobody is paid or refunded again.
\<close>

theorem settled_once:
  assumes "platform_step\<^sup>*\<^sup>* s s'" and "find_market i (n_db s) = Some m"
    and "m_Status m = MResolved \<or> m_Status m = MCancelled"
    and "x \<in> {Settlement_ResolveMarket cancel_all publish i win s', Settlement_CancelMarket cancel_all i s',
      MarketService_ResolveMarket i win s', UpdateMarketStatus i st s'}"
  shows "(\<exists>e. fst x = Inl e) \<and> n_db (snd x) = n_db s'"
proof -
  have "find_market i (n_db s') = Some m" using platform_run_evolve[OF assms(1,2)] assms(3) by auto
  from terminal_refused[OF this assms(3,4)] show ?thesis by blast
qed

text \<open>Bob mints in the resolved market; a second resolution, for the other outcome, is refused.\<close>

definition ex_life3 :: "rat sys" where
  "ex_life3 = snd (MintTokens ''bob'' ''m'' 5 ex_life2)"

theorem settled_once_witness:
  "n_db (snd (Settlement_ResolveMarket CancelAllOrdersByMarket (\<lambda>_ _. ret ()) ''m'' ''no'' ex_life3)) = n_db ex_life3 \<and>
   acct (n_db ex_life3) ''bob'' = Some (995, 0)"
proof -
  have "map_option m_Status (find_market ''m'' (n_db ex_life2)) = Some MResolved" and a: "acct (n_db ex_life3) ''bob'' = Some (995, 0)"
    by code_simp+
  then obtain m where m: "find_market ''m'' (n_db ex_life2) = Some m" "m_Status m = MResolved \<or> m_Status m = MCancelled"
    by (cases "find_market ''m'' (n_db ex_life2)") auto
  have "platform_step\<^sup>*\<^sup>* ex_life2 ex_life3" unfolding ex_life3_def by (intro r_into_rtranclp platform_step.mint)
  from settled_once[OF this m, where cancel_all = CancelAllOrdersByMarket
      and publish = "\<lambda>_ _. ret ()" and win = "''no''" and st = MOpen
      and x = "Settlement_ResolveMarket CancelAllOrdersByMarket (\<lambda>_ _. ret ()) ''m'' ''no'' ex_life3"] a
  show ?thesis by simp
qed

end
