(* ===== verification/GrpcStatus.thy ===== *)
theory GrpcStatus
  imports Repos
begin

text \<open>
  What the gRPC layers of the services share: status codes, the translation of application
  errors to them (each service has its own copy of it), and calls whose errors are translated.
  The enumerations of the protocol are numbers, since a message may hold any number there.
\<close>

section \<open>Status codes\<close>

datatype grpc_code = InvalidArgument | NotFound | AlreadyExists | PermissionDenied
  | Unauthenticated | FailedPrecondition | Unimplemented | Unavailable | Internal

type_synonym grpc_error = "grpc_code \<times> string"

definition Trading_toGRPCError :: "(err \<Rightarrow> string) \<Rightarrow> err \<Rightarrow> grpc_error" where
  "Trading_toGRPCError drv e =
     (case as_app_error e of
        None \<Rightarrow> (Internal, AppError_Error drv e)
      | Some (code, message) \<Rightarrow>
          if code = error_code ErrNotFound then (NotFound, message)
          else if code = error_code ErrUnauthorized then (Unauthenticated, message)
          else if code = error_code ErrForbidden then (PermissionDenied, message)
          else if code = error_code ErrBadRequest then (InvalidArgument, message)
          else if code = error_code ErrConflict then (AlreadyExists, message)
          else if code = error_code ErrInternalError then (Internal, message)
          else if code = error_code ErrInsufficientBalance then (FailedPrecondition, message)
          else if code = error_code ErrMarketClosed then (FailedPrecondition, message)
          else if code = error_code ErrInvalidPrice then (InvalidArgument, message)
          else (Internal, message))"

definition Market_toGRPCError :: "(err \<Rightarrow> string) \<Rightarrow> err \<Rightarrow> grpc_error" where
  "Market_toGRPCError drv e =
     (case as_app_error e of
        None \<Rightarrow> (Internal, AppError_Error drv e)
      | Some (code, message) \<Rightarrow>
          if code = error_code ErrNotFound then (NotFound, message)
          else if code = error_code ErrUnauthorized then (Unauthenticated, message)
          else if code = error_code ErrForbidden then (PermissionDenied, message)
          else if code = error_code ErrBadRequest then (InvalidArgument, message)
          else if code = error_code ErrConflict then (AlreadyExists, message)
          else if code = error_code ErrInternalError then (Internal, message)
          else if code = error_code ErrInsufficientBalance then (FailedPrecondition, message)
          else if code = error_code ErrMarketClosed then (FailedPrecondition, message)
          else if code = error_code ErrInvalidPrice then (InvalidArgument, message)
          else (Internal, message))"

section \<open>Calls\<close>

text \<open>A call of a service whose error is translated on the way out.\<close>

definition rpc :: "(err \<Rightarrow> grpc_error) \<Rightarrow> ('s, err, 'a) comp \<Rightarrow> ('s, grpc_error, 'a) comp" where
  "rpc tr m s = (case m s of (Inl e, s') \<Rightarrow> (Inl (tr e), s') | (Inr x, s') \<Rightarrow> (Inr x, s'))"

lemma rpc_iff [succeeds]: "rpc tr m s = (Inr x, s') \<longleftrightarrow> m s = (Inr x, s')"
  by (auto simp: rpc_def split: prod.splits sum.splits)

lemma rpc_Inl [failing]: "rpc tr m s = (Inl e, s') \<longleftrightarrow> (\<exists>d. m s = (Inl d, s') \<and> e = tr d)"
  by (auto simp: rpc_def split: prod.splits sum.splits)

lemma keeps_rpc [keeping]: "keeps f m \<Longrightarrow> keeps f (rpc tr m)"
  unfolding keeps_def rpc_def by (auto split: prod.splits sum.splits) (metis snd_conv)+

text \<open>A result that may be missing is an error of its own.\<close>

definition require :: "'a option \<Rightarrow> 'e \<Rightarrow> ('s, 'e, 'a) comp" where
  "require x e = (case x of None \<Rightarrow> fail e | Some y \<Rightarrow> ret y)"

lemma require_iff [succeeds]: "require x e s = (Inr y, s') \<longleftrightarrow> x = Some y \<and> s' = s"
  by (auto simp: require_def succeeds split: option.splits)

lemma require_Inl [failing]: "require x e s = (Inl d, s') \<longleftrightarrow> x = None \<and> d = e \<and> s' = s"
  by (auto simp: require_def failing split: option.splits)

lemma keeps_require [keeping]: "keeps f (require x e)"
  unfolding require_def by (cases x) (auto intro: keeping)

section \<open>Properties\<close>

lemma sentinel_codes:
  "error_code ErrNotFound = ''NOT_FOUND''" "error_code ErrUnauthorized = ''UNAUTHORIZED''"
  "error_code ErrForbidden = ''FORBIDDEN''" "error_code ErrBadRequest = ''BAD_REQUEST''"
  "error_code ErrConflict = ''CONFLICT''" "error_code ErrInternalError = ''INTERNAL_ERROR''"
  "error_code ErrInsufficientBalance = ''INSUFFICIENT_BALANCE''" "error_code ErrMarketClosed = ''MARKET_CLOSED''"
  "error_code ErrInvalidPrice = ''INVALID_PRICE''"
  by (simp_all add: error_code_def sentinel_defs)

text \<open>
  The status a client sees says which sentinel error the application raised, wherever it
  sits in the chain of causes, and only an unclassified error or an internal one is Internal.
\<close>

theorem toGRPCError_classifies:
  "(fst (Trading_toGRPCError drv e) = NotFound \<longleftrightarrow> IsNotFound e) \<and>
   (fst (Trading_toGRPCError drv e) = Unauthenticated \<longleftrightarrow> IsUnauthorized e) \<and>
   (fst (Trading_toGRPCError drv e) = PermissionDenied \<longleftrightarrow> IsForbidden e) \<and>
   (fst (Trading_toGRPCError drv e) = AlreadyExists \<longleftrightarrow> IsConflict e) \<and>
   (fst (Trading_toGRPCError drv e) = InvalidArgument \<longleftrightarrow> IsBadRequest e \<or> IsInvalidPrice e) \<and>
   (fst (Trading_toGRPCError drv e) = FailedPrecondition \<longleftrightarrow> IsInsufficientBalance e \<or> IsMarketClosed e) \<and>
   fst (Trading_toGRPCError drv e) \<noteq> Unimplemented"
  by (cases "as_app_error e")
    (auto simp: Trading_toGRPCError_def codeFromError_def IsNotFound_def IsUnauthorized_def IsForbidden_def IsConflict_def
      IsBadRequest_def IsInvalidPrice_def IsInsufficientBalance_def IsMarketClosed_def sentinel_codes split: if_splits)

end
