(* ===== verification/TradingServer.thy ===== *)
theory TradingServer
  imports MintService GrpcStatus
begin

text \<open>
  \<open>services/trading-svc/internal/grpc/server.go\<close> with the adapter and the start-up of
  \<open>services/trading-svc/cmd\<close>: messages to service calls and back, and the restoration of the
  order books from the database. Parsing and printing of decimals are arguments; a time stamp
  is the time it stands for.
\<close>

section \<open>Messages\<close>

record PbPlaceOrderRequest =
  pq_UserId :: string
  pq_MarketId :: string
  pq_OutcomeId :: string
  pq_Side :: int
  pq_Price :: string
  pq_Quantity :: string

record PbOrder =
  pb_Id :: string
  pb_UserId :: string
  pb_MarketId :: string
  pb_OutcomeId :: string
  pb_Side :: int
  pb_Price :: string
  pb_Quantity :: string
  pb_FilledQuantity :: string
  pb_Status :: int
  pb_CreatedAt :: time
  pb_UpdatedAt :: time

record PbTrade =
  pt_Id :: string
  pt_MarketId :: string
  pt_OutcomeId :: string
  pt_MakerOrderId :: string
  pt_TakerOrderId :: string
  pt_MakerUserId :: string
  pt_TakerUserId :: string
  pt_Price :: string
  pt_Quantity :: string
  pt_CreatedAt :: time

record PbPosition =
  pp_Id :: string
  pp_UserId :: string
  pp_MarketId :: string
  pp_OutcomeId :: string
  pp_Quantity :: string
  pp_AvgPrice :: string
  pp_UpdatedAt :: time

record PbListOrdersRequest =
  plo_UserId :: string
  plo_MarketId :: string
  plo_Status :: int
  plo_Page :: int
  plo_PerPage :: int

record PbLevel =
  pl_Price :: string
  pl_Quantity :: string
  pl_OrderCount :: int

section \<open>Conversions\<close>

text \<open>The enumerations of \<open>proto/trading/v1\<close>; an unknown side is a buy.\<close>

definition protoOrderSideToDomain :: "int \<Rightarrow> OrderSide" where
  "protoOrderSideToDomain x = (if x = 1 then Buy else if x = 2 then Sell else Buy)"

definition domainOrderSideToProto :: "OrderSide \<Rightarrow> int" where
  "domainOrderSideToProto x = (case x of Buy \<Rightarrow> 1 | Sell \<Rightarrow> 2)"

definition domainOrderStatusToProto :: "OrderStatus \<Rightarrow> int" where
  "domainOrderStatusToProto x = (case x of Open \<Rightarrow> 1 | PartiallyFilled \<Rightarrow> 2 | Filled \<Rightarrow> 3 | Cancelled \<Rightarrow> 4)"

definition protoOrderStatusToDomain :: "int \<Rightarrow> OrderStatus option" where
  "protoOrderStatusToDomain x =
     (if x = 1 then Some Open else if x = 2 then Some PartiallyFilled else if x = 3 then Some Filled
      else if x = 4 then Some Cancelled else None)"

definition domainOrderToProto :: "('d \<Rightarrow> string) \<Rightarrow> 'd Order \<Rightarrow> PbOrder" where
  "domainOrderToProto str x =
     \<lparr>pb_Id = o_ID x, pb_UserId = o_UserID x, pb_MarketId = o_MarketID x, pb_OutcomeId = o_OutcomeID x,
      pb_Side = domainOrderSideToProto (o_Side x), pb_Price = str (o_Price x), pb_Quantity = str (o_Quantity x),
      pb_FilledQuantity = str (o_FilledQty x), pb_Status = domainOrderStatusToProto (o_Status x),
      pb_CreatedAt = o_CreatedAt x, pb_UpdatedAt = o_UpdatedAt x\<rparr>"

definition domainTradeToProto :: "('d \<Rightarrow> string) \<Rightarrow> 'd Trade \<Rightarrow> PbTrade" where
  "domainTradeToProto str t =
     \<lparr>pt_Id = t_ID t, pt_MarketId = t_MarketID t, pt_OutcomeId = t_OutcomeID t, pt_MakerOrderId = t_MakerOrderID t,
      pt_TakerOrderId = t_TakerOrderID t, pt_MakerUserId = t_MakerUserID t, pt_TakerUserId = t_TakerUserID t,
      pt_Price = str (t_Price t), pt_Quantity = str (t_Quantity t), pt_CreatedAt = t_CreatedAt t\<rparr>"

definition domainPositionToProto :: "('d \<Rightarrow> string) \<Rightarrow> 'd Position \<Rightarrow> PbPosition" where
  "domainPositionToProto str p =
     \<lparr>pp_Id = p_ID p, pp_UserId = p_UserID p, pp_MarketId = p_MarketID p, pp_OutcomeId = p_OutcomeID p,
      pp_Quantity = str (p_Quantity p), pp_AvgPrice = str (p_AvgPrice p), pp_UpdatedAt = p_UpdatedAt p\<rparr>"

definition level_to_proto :: "('d \<Rightarrow> string) \<Rightarrow> 'd OrderbookLevel \<Rightarrow> PbLevel" where
  "level_to_proto str l =
     \<lparr>pl_Price = str (ol_Price l), pl_Quantity = str (ol_Quantity l), pl_OrderCount = int32 (int (ol_Count l))\<rparr>"

section \<open>Handlers\<close>

type_synonym ('d, 'a) handler = "('d sys, grpc_error, 'a) comp"

definition Server_PlaceOrder ::
    "(string \<Rightarrow> 'd option) \<Rightarrow> ('d \<Rightarrow> string) \<Rightarrow> (err \<Rightarrow> string) \<Rightarrow> ('d \<Rightarrow> 'd \<Rightarrow> 'd) \<Rightarrow>
     PbPlaceOrderRequest \<Rightarrow> ('d::linordered_field, PbOrder \<times> PbTrade list) handler" where
  "Server_PlaceOrder dec str drv dec_div req =
     bnd (require (dec (pq_Price req)) (InvalidArgument, ''invalid price format'')) (\<lambda>price.
     bnd (require (dec (pq_Quantity req)) (InvalidArgument, ''invalid quantity format'')) (\<lambda>qty.
     (let svcReq = \<lparr>po_UserID = pq_UserId req, po_MarketID = pq_MarketId req, po_OutcomeID = pq_OutcomeId req,
                   po_Side = protoOrderSideToDomain (pq_Side req), po_Price = price, po_Quantity = qty\<rparr>
      in bnd (rpc (Trading_toGRPCError drv) (OrderService_PlaceOrder dec_div svcReq)) (\<lambda>(r, trades).
         bnd (gets (\<lambda>s. cell (s_mem s) r)) (\<lambda>order.
         ret (domainOrderToProto str order, map (domainTradeToProto str) trades))))))"

definition Server_CancelOrder ::
    "('d \<Rightarrow> string) \<Rightarrow> (err \<Rightarrow> string) \<Rightarrow> string \<Rightarrow> string \<Rightarrow> ('d::linordered_field, PbOrder) handler" where
  "Server_CancelOrder str drv userID orderID =
     andthen (rpc (Trading_toGRPCError drv) (OrderService_CancelOrder userID orderID))
     (bnd (rpc (Trading_toGRPCError drv) (OrderService_GetOrder orderID)) (\<lambda>order.
      ret (domainOrderToProto str order)))"

definition Server_GetOrder :: "('d \<Rightarrow> string) \<Rightarrow> (err \<Rightarrow> string) \<Rightarrow> string \<Rightarrow> ('d, PbOrder) handler" where
  "Server_GetOrder str drv orderID =
     bnd (rpc (Trading_toGRPCError drv) (OrderService_GetOrder orderID)) (\<lambda>order. ret (domainOrderToProto str order))"

text \<open>Pages are numbered from 1; the defaults are page 1 and 50 orders a page.\<close>

definition orders_page :: "PbListOrdersRequest \<Rightarrow> int \<times> int" where
  "orders_page req =
     (let perPage = (if plo_PerPage req \<le> 0 then 50 else plo_PerPage req);
          page = (if plo_Page req \<le> 0 then 1 else plo_Page req)
      in (perPage, (page - 1) * perPage))"

definition Server_ListOrders ::
    "('d \<Rightarrow> string) \<Rightarrow> (err \<Rightarrow> string) \<Rightarrow> PbListOrdersRequest \<Rightarrow> ('d, PbOrder list \<times> nat) handler" where
  "Server_ListOrders str drv req =
     andthen (check (plo_UserId req \<noteq> '''') (InvalidArgument, ''user_id is required''))
     (let flt = \<lparr>lf_UserID = plo_UserId req, lf_MarketID = plo_MarketId req,
                lf_Status = protoOrderStatusToDomain (plo_Status req),
                lf_Limit = fst (orders_page req), lf_Offset = snd (orders_page req)\<rparr>
      in bnd (rpc (Trading_toGRPCError drv) (OrderService_ListOrders flt)) (\<lambda>(orders, total).
         ret (map (domainOrderToProto str) orders, total)))"

definition Server_MintTokens ::
    "(string \<Rightarrow> 'd option) \<Rightarrow> ('d \<Rightarrow> string) \<Rightarrow> (err \<Rightarrow> string) \<Rightarrow> string \<Rightarrow> string \<Rightarrow> string \<Rightarrow>
     ('d::linordered_field, PbPosition list \<times> string) handler" where
  "Server_MintTokens dec str drv userID marketID quantity =
     bnd (require (dec quantity) (InvalidArgument, ''invalid quantity format'')) (\<lambda>qty.
     bnd (rpc (Trading_toGRPCError drv) (MintTokens userID marketID qty)) (\<lambda>positions.
     ret (map (domainPositionToProto str) positions, str qty)))"

definition Server_GetPositions ::
    "('d \<Rightarrow> string) \<Rightarrow> (err \<Rightarrow> string) \<Rightarrow> string \<Rightarrow> string \<Rightarrow> ('d, PbPosition list) handler" where
  "Server_GetPositions str drv userID marketID =
     andthen (check (userID \<noteq> '''') (InvalidArgument, ''user_id is required''))
     (bnd (rpc (Trading_toGRPCError drv) (GetPositions userID marketID)) (\<lambda>positions.
      ret (map (domainPositionToProto str) positions)))"

text \<open>The provider of order books is the registry; \<open>configured\<close> says whether there is one.\<close>

definition Server_GetOrderbook ::
    "bool \<Rightarrow> ('d \<Rightarrow> string) \<Rightarrow> string \<Rightarrow> ('d::linordered_field, PbLevel list \<times> PbLevel list) handler" where
  "Server_GetOrderbook configured str outcomeID =
     andthen (check (outcomeID \<noteq> '''') (InvalidArgument, ''outcome_id is required''))
     (andthen (check configured (Unimplemented, ''orderbook provider not configured''))
     (bnd (gets (\<lambda>s. GetOrderbookDepth outcomeID 20 (s_mem s) (s_reg s))) (\<lambda>(bids, asks).
      ret (map (level_to_proto str) bids, map (level_to_proto str) asks))))"

definition Server_CancelAllOrdersByMarket ::
    "(err \<Rightarrow> string) \<Rightarrow> string \<Rightarrow> ('d::linordered_field, nat) handler" where
  "Server_CancelAllOrdersByMarket drv marketID =
     rpc (Trading_toGRPCError drv) (CancelAllOrdersByMarket marketID)"

section \<open>Start-up\<close>

text \<open>
  The open orders of the database become objects on the books of an empty registry; when they
  cannot be listed, the process starts with empty books.
\<close>

definition restore_one :: "'d::linordered_field Order \<Rightarrow> ('d, unit) op" where
  "restore_one x = bnd (new_object x) (\<lambda>r. modify (\<lambda>s. s\<lparr>s_reg := RestoreOrder r (s_mem s) (s_reg s)\<rparr>))"

definition restore_orderbook :: "(string \<Rightarrow> nat) \<Rightarrow> ('d::linordered_field, unit) op" where
  "restore_orderbook uuid_rank =
     andthen (modify (\<lambda>s. s\<lparr>s_reg := NewRegistry\<rparr>))
     (handle (bnd (OrderRepo_ListAllOpen uuid_rank) (\<lambda>openOrders. for_each openOrders restore_one)) (\<lambda>err. ret ()))"

section \<open>Properties of the conversions\<close>

text \<open>
  Sides and statuses survive the way to a message and back, different ones never share a
  number, no number of a message stands for the unspecified 0, and any other number reads as a
  buy or as no filter.
\<close>

theorem order_enums_roundtrip:
  "protoOrderSideToDomain (domainOrderSideToProto sd) = sd \<and>
   protoOrderStatusToDomain (domainOrderStatusToProto st) = Some st \<and>
   (domainOrderSideToProto sd = domainOrderSideToProto sd' \<longleftrightarrow> sd = sd') \<and>
   (domainOrderStatusToProto st = domainOrderStatusToProto st' \<longleftrightarrow> st = st') \<and>
   domainOrderSideToProto sd \<noteq> 0 \<and> domainOrderStatusToProto st \<noteq> 0 \<and>
   (protoOrderSideToDomain n = Sell \<longleftrightarrow> n = 2) \<and>
   (protoOrderStatusToDomain n = None \<longleftrightarrow> n \<notin> {1, 2, 3, 4})"
  by (cases sd; cases sd'; cases st; cases st')
    (simp_all add: protoOrderSideToDomain_def domainOrderSideToProto_def domainOrderStatusToProto_def
      protoOrderStatusToDomain_def)

text \<open>
  A listing shows, newest first, the page of all orders of the user, of which only those of the
  requested market and status are kept; the total is what is left of the page, not of
  the orders. It needs a user id and changes nothing.
\<close>

lemma orders_page_nonneg: "0 < fst (orders_page req)" "0 \<le> snd (orders_page req)"
  by (simp_all add: orders_page_def Let_def)

theorem ListOrders_page:
  assumes "Server_ListOrders str drv req s = (Inr (orders, cnt), s')"
    and "plo_PerPage req < 2 ^ 31" and "snd (orders_page req) < 2 ^ 31"
  shows "plo_UserId req \<noteq> '''' \<and> n_db s' = n_db s \<and> cnt = length orders \<and>
    orders = map (domainOrderToProto str)
      (filter (\<lambda>x. (plo_MarketId req = '''' \<or> o_MarketID x = plo_MarketId req) \<and>
                   (case protoOrderStatusToDomain (plo_Status req) of None \<Rightarrow> True | Some st \<Rightarrow> o_Status x = st))
        (take (nat (fst (orders_page req))) (drop (nat (snd (orders_page req)))
          (sort_key (\<lambda>x. - o_CreatedAt x) (filter (\<lambda>x. o_UserID x = plo_UserId req) (db_orders (n_db s)))))))"
proof -
  let ?flt = "\<lparr>lf_UserID = plo_UserId req, lf_MarketID = plo_MarketId req,
      lf_Status = protoOrderStatusToDomain (plo_Status req),
      lf_Limit = fst (orders_page req), lf_Offset = snd (orders_page req)\<rparr>"
  let ?all = "sort_key (\<lambda>x. - o_CreatedAt x) (filter (\<lambda>x. o_UserID x = plo_UserId req) (db_orders (n_db s)))"
  note nn = orders_page_nonneg[of req]
  have lim: "fst (orders_page req) < 2 ^ 31" using assms(2) by (simp add: orders_page_def Let_def)
  obtain xs where u: "plo_UserId req \<noteq> ''''" and run: "OrderService_ListOrders ?flt s = (Inr (xs, cnt), s')"
    and orders: "orders = map (domainOrderToProto str) xs"
    using assms(1) by (auto simp: Server_ListOrders_def succeeds Let_def)
  have A: "n_db s' = n_db s \<and> cnt = length xs \<and>
      xs = filter (lists_order ?flt) (page (fst (orders_page req)) (snd (orders_page req)) ?all)"
    using run nn by (auto simp: OrderService_ListOrders_def OrderRepo_ListByUser_def succeeds Let_def page_limit_def
        page_offset_def dest!: query_effect page_query_effect)
  have B: "page (fst (orders_page req)) (snd (orders_page req)) ?all
      = take (nat (fst (orders_page req))) (drop (nat (snd (orders_page req))) ?all)"
    using nn lim assms(3) by (simp add: page_def int32_id)
  have C: "lists_order ?flt = (\<lambda>x. (plo_MarketId req = '''' \<or> o_MarketID x = plo_MarketId req) \<and>
      (case protoOrderStatusToDomain (plo_Status req) of None \<Rightarrow> True | Some st \<Rightarrow> o_Status x = st))"
    by (auto simp: lists_order_def fun_eq_iff split: option.splits)
  show ?thesis using A u orders unfolding B C by simp
qed

text \<open>Alice asks for her filled orders; her only order, still open, is on the page, so nothing is listed.\<close>

definition ex_list_req :: PbListOrdersRequest where
  "ex_list_req = \<lparr>plo_UserId = ''alice'', plo_MarketId = '''', plo_Status = 3, plo_Page = 0, plo_PerPage = 0\<rparr>"

theorem ListOrders_page_witness:
  "fst (Server_ListOrders (\<lambda>_. '''') (\<lambda>_. '''') ex_list_req ex_s1) = Inr ([], 0)"
proof -
  let ?r = "Server_ListOrders (\<lambda>_. '''') (\<lambda>_. '''') ex_list_req ex_s1"
  have "case fst ?r of Inl _ \<Rightarrow> False | Inr _ \<Rightarrow> True" by code_simp
  then obtain orders cnt where r: "?r = (Inr (orders, cnt), snd ?r)" by (cases ?r) (auto split: sum.splits)
  have p: "plo_PerPage ex_list_req < 2 ^ 31" "snd (orders_page ex_list_req) < 2 ^ 31"
    by (simp_all add: ex_list_req_def orders_page_def)
  have e: "filter (\<lambda>x. (plo_MarketId ex_list_req = '''' \<or> o_MarketID x = plo_MarketId ex_list_req) \<and>
        (case protoOrderStatusToDomain (plo_Status ex_list_req) of None \<Rightarrow> True | Some st \<Rightarrow> o_Status x = st))
      (take (nat (fst (orders_page ex_list_req))) (drop (nat (snd (orders_page ex_list_req)))
        (sort_key (\<lambda>x. - o_CreatedAt x) (filter (\<lambda>x. o_UserID x = plo_UserId ex_list_req) (db_orders (n_db ex_s1)))))) = []"
    by code_simp
  from ListOrders_page[OF r p, unfolded e] have "orders = []" "cnt = 0" by simp_all
  with r show ?thesis by (metis fst_conv)
qed

text \<open>
  Asking for an order that does not exist, or cancelling one, is answered with Internal, not
  with NotFound: the repository reports the missing row as a plain error. Nothing changes.
\<close>

lemma OrderRepo_GetByID_missing:
  assumes "find_order i (n_db s) = None"
  shows "\<exists>m s'. OrderRepo_GetByID i s = (Inl (Errorf m (Some ErrNoRows)), s') \<and> n_db s' = n_db s \<or>
    OrderRepo_GetByID i s = (Inl (Errorf m (Some DriverError)), s') \<and> n_db s' = n_db s"
  using assms by (auto simp: OrderRepo_GetByID_def one_row_def query_def statement_def bnd_def fail_def Let_def
      case_prod_unfold)

theorem missing_order_is_internal:
  assumes "find_order i (n_db s) = None"
  shows "(\<exists>msg. fst (Server_GetOrder str drv i s) = Inl (Internal, msg)) \<and>
    (\<exists>msg. fst (Server_CancelOrder str drv u i s) = Inl (Internal, msg))"
proof -
  from OrderRepo_GetByID_missing[OF assms] obtain m c s' where
    r: "OrderRepo_GetByID i s = (Inl (Errorf m (Some c)), s')" and c: "c = ErrNoRows \<or> c = DriverError" by blast
  have tr: "Trading_toGRPCError drv (Errorf m (Some c)) = (Internal, m @ '': '' @ drv c)"
    using c by (auto simp: Trading_toGRPCError_def)
  show ?thesis
    using r tr by (simp add: Server_GetOrder_def OrderService_GetOrder_def Server_CancelOrder_def
        OrderService_CancelOrder_def andthen_def bnd_def rpc_def)
qed

theorem missing_order_is_internal_witness:
  "\<exists>msg. fst (Server_GetOrder (\<lambda>_. '''') (\<lambda>_. ''no rows'') ''none'' (ex_sys 0)) = Inl (Internal, msg)"
proof -
  have "find_order ''none'' (n_db (ex_sys 0)) = None" by code_simp
  from missing_order_is_internal[OF this] show ?thesis by blast
qed

end
