(* ===== verification/Restore.thy ===== *)
theory Restore
  imports TradingServer
begin

text \<open>
  The start-up of the trading service rebuilds the books: the list level of inserting orders one
  after the other is a stable sort, each restored order changes one book, and the restored books
  hold the open orders of the database in price-time order.
\<close>

section \<open>Inserting one after the other sorts\<close>

lemma sorted_takeWhile_dropWhile:
  assumes "sorted (map f ys)"
  shows "\<forall>y \<in> set (takeWhile (\<lambda>y. f y \<le> k) ys). f y \<le> k" and "\<forall>y \<in> set (dropWhile (\<lambda>y. f y \<le> k) ys). k < f y"
proof -
  show "\<forall>y \<in> set (takeWhile (\<lambda>y. f y \<le> k) ys). f y \<le> k" by (auto dest: set_takeWhileD)
  show "\<forall>y \<in> set (dropWhile (\<lambda>y. f y \<le> k) ys). k < f y"
    using assms
  proof (induction ys)
    case (Cons a ys)
    then show ?case by (auto simp: not_le)
  qed simp
qed

lemma sorted_insert_between:
  fixes f :: "'a \<Rightarrow> 'd::linorder"
  assumes "sorted (map f (t @ d))" and "\<forall>y \<in> set t. f y \<le> f x" and "\<forall>y \<in> set d. f x < f y"
  shows "sorted (map f (t @ x # d))"
  using assms by (auto simp: sorted_append less_imp_le)

lemma sort_key_snoc:
  fixes f :: "'a \<Rightarrow> 'd::linorder"
  shows "sort_key f (xs @ [x]) =
    takeWhile (\<lambda>y. f y \<le> f x) (sort_key f xs) @ x # dropWhile (\<lambda>y. f y \<le> f x) (sort_key f xs)" (is "_ = ?ys")
proof (rule properties_for_sort_key)
  let ?t = "takeWhile (\<lambda>y. f y \<le> f x) (sort_key f xs)" and ?d = "dropWhile (\<lambda>y. f y \<le> f x) (sort_key f xs)"
  have td: "?t @ ?d = sort_key f xs" by simp
  have m: "mset ?t + mset ?d = mset xs" by (metis mset_append td mset_sort)
  then show "mset ?ys = mset (xs @ [x])" by simp
  note B = sorted_takeWhile_dropWhile[OF sorted_sort_key[of f xs], of "f x"]
  have "sorted (map f (?t @ ?d))" unfolding td by (rule sorted_sort_key)
  then show "sorted (map f ?ys)" using B by (rule sorted_insert_between)
  fix k assume "k \<in> set ?ys"
  have st: "filter (\<lambda>y. f k = f y) xs = filter (\<lambda>y. f k = f y) ?t @ filter (\<lambda>y. f k = f y) ?d"
  proof -
    have "filter (\<lambda>y. f k = f y) xs = filter (\<lambda>y. f k = f y) (sort_key f xs)"
      using sort_key_stable[of f "f k" xs] by (simp add: eq_commute)
    then show ?thesis unfolding filter_append[symmetric] td .
  qed
  have "filter (\<lambda>y. f k = f y) ?d = []" if "f k = f x" using B(2) that by (auto simp: filter_empty_conv)
  with st show "filter (\<lambda>y. f k = f y) ?ys = filter (\<lambda>y. f k = f y) (xs @ [x])" by simp
qed

lemma sort_key_constant:
  assumes "\<And>x y. x \<in> set xs \<Longrightarrow> y \<in> set xs \<Longrightarrow> f x = f y"
  shows "sort_key f xs = xs"
proof (rule sort_key_id_if_sorted)
  show "sorted (map f xs)" using assms by (induction xs) (auto intro: eq_refl)
qed

section \<open>The book of an outcome in the engine of a market\<close>

definition registry_book :: "string \<Rightarrow> string \<Rightarrow> 'd Registry \<Rightarrow> 'd Orderbook" where
  "registry_book k i rg = (case map_of (rg_engines rg) k of None \<Rightarrow> NewOrderbook i | Some e \<Rightarrow> book_of i e)"

lemma map_of_put_engine:
  "map_of (rg_engines (put_engine k e rg)) j
   = (if j = k then (if k \<in> fst ` set (rg_engines rg) then Some e else None) else map_of (rg_engines rg) j)"
proof -
  have "map_of (map (\<lambda>p. if fst p = k then (k, e) else p) xs) j
      = (if j = k then (if k \<in> fst ` set xs then Some e else None) else map_of xs j)" for xs
    by (induction xs) (auto simp: rev_image_eqI)
  then show ?thesis by (simp add: put_engine_def)
qed

lemma book_of_set:
  "e_orderbooks e' = (e_orderbooks e)(i \<mapsto> ob) \<Longrightarrow> book_of j e' = (if j = i then ob else book_of j e)"
  by (simp add: book_of_def)

lemma registry_book_RestoreOrder:
  "registry_book k i (RestoreOrder r m rg) =
    (if k = o_MarketID (cell m r) \<and> i = o_OutcomeID (cell m r)
     then addOrderUnlocked (cell m) r (registry_book k i rg) else registry_book k i rg)"
proof -
  let ?k = "o_MarketID (cell m r)" and ?i = "o_OutcomeID (cell m r)"
  obtain e rg1 where g: "getOrCreate ?k rg = (e, rg1)" by (cases "getOrCreate ?k rg")
  obtain ob e1 where o: "getOrCreateOrderbook ?i e = (ob, e1)" by (cases "getOrCreateOrderbook ?i e")
  let ?e = "e1\<lparr>e_orderbooks := (e_orderbooks e1)(?i \<mapsto> Orderbook_AddOrder (cell m) r ob)\<rparr>"
  have rg': "RestoreOrder r m rg = put_engine ?k ?e rg1" by (simp add: RestoreOrder_def g o)
  have "ob = book_of ?i e" and "e_orderbooks ?e = (e_orderbooks e)(?i \<mapsto> Orderbook_AddOrder (cell m) r ob)"
    using getOrCreateOrderbook_eq[of ?i e] o by simp_all
  then have be: "book_of i ?e = (if i = ?i then addOrderUnlocked (cell m) r (book_of ?i e) else book_of i e)"
    using book_of_set[of ?e e ?i _ i] by (simp add: Orderbook_AddOrder_def)
  have "?k \<in> fst ` set (rg_engines rg1) \<and> registry_book ?k j rg = book_of j e \<and>
      (j' \<noteq> ?k \<longrightarrow> map_of (rg_engines rg1) j' = map_of (rg_engines rg) j')" for j j'
  proof (cases "map_of (rg_engines rg) ?k")
    case None
    with g have "e = NewEngine ?k" "rg_engines rg1 = rg_engines rg @ [(?k, NewEngine ?k)]" by (auto simp: getOrCreate_def)
    with None show ?thesis
      by (auto simp: registry_book_def book_of_def NewEngine_def map_add_def split: option.splits)
  next
    case (Some e')
    with g have "e = e'" "rg1 = rg" by (auto simp: getOrCreate_def)
    with Some show ?thesis by (auto simp: registry_book_def rev_image_eqI dest: map_of_SomeD)
  qed
  then have k: "?k \<in> fst ` set (rg_engines rg1)" and e: "registry_book ?k j rg = book_of j e"
    and oth: "j' \<noteq> ?k \<Longrightarrow> map_of (rg_engines rg1) j' = map_of (rg_engines rg) j'" for j j' by blast+
  show ?thesis
    using k e oth be by (auto simp: rg' registry_book_def map_of_put_engine split: option.splits)
qed

section \<open>The loop of the start-up\<close>

text \<open>
  After some orders were restored, the objects on each book are those of them for its market and
  outcome, sorted by price and, at a price, in the order they were restored.
\<close>

definition side_of :: "string \<Rightarrow> string \<Rightarrow> bool \<Rightarrow> 'd Order list \<Rightarrow> 'd Order list" where
  "side_of k i buy xs = filter (\<lambda>x. o_MarketID x = k \<and> o_OutcomeID x = i \<and> (o_Side x = Buy) = buy) xs"

definition restored :: "'d::linordered_field Order list \<Rightarrow> 'd mem \<Rightarrow> 'd Registry \<Rightarrow> bool" where
  "restored xs m rg \<longleftrightarrow> (\<forall>k i. let ob = registry_book k i rg in
     book_inv (cell m) ob \<and> (\<forall>r \<in> set (book_refs ob). r < top m) \<and>
     map (cell m) (GetBids ob) = sort_key (\<lambda>x. - o_Price x) (side_of k i True xs) \<and>
     map (cell m) (GetAsks ob) = sort_key o_Price (side_of k i False xs))"

lemma restored_empty: "restored [] m NewRegistry"
  by (simp add: restored_def registry_book_def NewRegistry_def side_of_def Let_def NewOrderbook_def GetBids_def
      GetAsks_def book_refs_def book_inv_New[unfolded NewOrderbook_def])

lemma restored_step:
  fixes m :: "'d::linordered_field mem"
  assumes inv: "restored xs m rg" and new: "o_ID x \<notin> o_ID ` set xs" and al: "(r, m1) = alloc x m"
  shows "restored (xs @ [x]) m1 (RestoreOrder r m1 rg)"
  unfolding restored_def
proof (intro allI)
  fix k i
  let ?ob = "registry_book k i rg" and ?ob' = "registry_book k i (RestoreOrder r m1 rg)"
  have r: "r = top m" "cell m1 = (cell m)(r := x)" "top m1 = Suc (top m)" using al by (simp_all add: alloc_def)
  have old: "book_inv (cell m) ?ob" "\<forall>y \<in> set (book_refs ?ob). y < top m"
    "map (cell m) (GetBids ?ob) = sort_key (\<lambda>x. - o_Price x) (side_of k i True xs)"
    "map (cell m) (GetAsks ?ob) = sort_key o_Price (side_of k i False xs)"
    using inv by (auto simp: restored_def Let_def)
  have same: "cell m1 y = cell m y" if "y \<in> set (book_refs ?ob)" for y using old(2) that r by auto
  have m1: "map (cell m1) (GetBids ?ob) = map (cell m) (GetBids ?ob)"
    "map (cell m1) (GetAsks ?ob) = map (cell m) (GetAsks ?ob)" and inv1: "book_inv (cell m1) ?ob"
    using same book_inv_cong[of ?ob "cell m1" "cell m"] old(1) by (auto simp: book_refs_lists)
  show "let ob = ?ob' in book_inv (cell m1) ob \<and> (\<forall>r \<in> set (book_refs ob). r < top m1) \<and>
     map (cell m1) (GetBids ob) = sort_key (\<lambda>x. - o_Price x) (side_of k i True (xs @ [x])) \<and>
     map (cell m1) (GetAsks ob) = sort_key o_Price (side_of k i False (xs @ [x]))"
  proof (cases "k = o_MarketID x \<and> i = o_OutcomeID x")
    case False
    then have "?ob' = ?ob" using r by (auto simp: registry_book_RestoreOrder)
    moreover have "side_of k i b (xs @ [x]) = side_of k i b xs" for b using False by (auto simp: side_of_def)
    ultimately show ?thesis using old inv1 m1 r(3) by (auto simp: Let_def)
  next
    case True
    then have ob': "?ob' = addOrderUnlocked (cell m1) r ?ob" using r by (simp add: registry_book_RestoreOrder)
    have "set (map (cell m1) (book_refs ?ob)) \<subseteq> set xs"
      unfolding book_refs_lists map_append m1 old(3,4) by (auto simp: side_of_def)
    then have out: "o_ID (cell m1 r) \<notin> (\<lambda>r. o_ID (cell m1 r)) ` set (book_refs ?ob)"
      using new r by fastforce
    note L = addOrderUnlocked_lists[OF inv1, of r]
    have cr: "cell m1 r = x" using r by simp
    have "side_of k i b (xs @ [x]) = (if (o_Side x = Buy) = b then side_of k i b xs @ [x] else side_of k i b xs)" for b
      using True by (simp add: side_of_def)
    moreover have "map (cell m1) (takeWhile (\<lambda>y. o_Price x \<le> o_Price (cell m1 y)) (GetBids ?ob))
        = takeWhile (\<lambda>y. - o_Price y \<le> - o_Price x) (sort_key (\<lambda>x. - o_Price x) (side_of k i True xs))"
      "map (cell m1) (dropWhile (\<lambda>y. o_Price x \<le> o_Price (cell m1 y)) (GetBids ?ob))
        = dropWhile (\<lambda>y. - o_Price y \<le> - o_Price x) (sort_key (\<lambda>x. - o_Price x) (side_of k i True xs))"
      "map (cell m1) (takeWhile (\<lambda>y. o_Price (cell m1 y) \<le> o_Price x) (GetAsks ?ob))
        = takeWhile (\<lambda>y. o_Price y \<le> o_Price x) (sort_key o_Price (side_of k i False xs))"
      "map (cell m1) (dropWhile (\<lambda>y. o_Price (cell m1 y) \<le> o_Price x) (GetAsks ?ob))
        = dropWhile (\<lambda>y. o_Price y \<le> o_Price x) (sort_key o_Price (side_of k i False xs))"
      unfolding old(3,4)[symmetric] m1[symmetric] takeWhile_map dropWhile_map by (simp_all add: comp_def)
    ultimately have "map (cell m1) (GetBids ?ob') = sort_key (\<lambda>x. - o_Price x) (side_of k i True (xs @ [x]))"
      "map (cell m1) (GetAsks ?ob') = sort_key o_Price (side_of k i False (xs @ [x]))"
      using L m1 old(3,4) by (simp_all add: ob' sort_key_snoc cr)
    moreover have "book_inv (cell m1) ?ob'" unfolding ob' by (rule book_inv_add[OF inv1 out])
    moreover have "set (book_refs ?ob') = insert r (set (book_refs ?ob))"
      unfolding ob' by (rule set_book_refs_add[OF inv1])
    ultimately show ?thesis using old(2) r by (auto simp: Let_def less_Suc_eq)
  qed
qed

lemma restore_loop:
  assumes "for_each ys restore_one s = (res, s')" and "restored xs (s_mem s) (s_reg s)"
    and "distinct (map o_ID (xs @ ys))"
  shows "res = Inr () \<and> n_db s' = n_db s \<and> restored (xs @ ys) (s_mem s') (s_reg s')"
  using assms
proof (induction ys arbitrary: s xs)
  case Nil
  then show ?case by (simp add: ret_def)
next
  case (Cons y ys)
  obtain r m1 where al: "(r, m1) = alloc y (s_mem s)" by (metis surj_pair)
  let ?s = "s\<lparr>s_mem := m1, s_reg := RestoreOrder r m1 (s_reg s)\<rparr>"
  have "restore_one y s = (Inr (), ?s)"
    by (simp add: restore_one_def bnd_def new_object_def al[symmetric] modify_def)
  then have run: "for_each ys restore_one ?s = (res, s')"
    using Cons.prems(1) by (simp add: andthen_def bnd_def)
  have "restored (xs @ [y]) (s_mem ?s) (s_reg ?s)"
    using restored_step[OF Cons.prems(2) _ al] Cons.prems(3) by auto
  from Cons.IH[OF run this] Cons.prems(3) show ?case by simp
qed

section \<open>Properties\<close>

lemma side_of_listed:
  "side_of k i b (sort_key (\<lambda>x. g (o_MarketID x)) (sort_key (\<lambda>x. g (o_OutcomeID x)) (sort_key o_CreatedAt xs)))
   = sort_key o_CreatedAt (side_of k i b xs)"
proof -
  let ?P = "\<lambda>x. o_MarketID x = k \<and> o_OutcomeID x = i \<and> (o_Side x = Buy) = b"
  have c: "sort_key (\<lambda>x. g (o_MarketID x)) ys = ys" "sort_key (\<lambda>x. g (o_OutcomeID x)) ys = ys"
    if "\<forall>y \<in> set ys. ?P y" for ys using that by (auto intro!: sort_key_constant)
  have all: "\<forall>y \<in> set (sort_key o_CreatedAt (filter ?P xs)). ?P y" by simp
  show ?thesis unfolding side_of_def filter_sort c[OF all] ..
qed

text \<open>
  C20: after the start-up, unless the open orders could not be listed (then the books are empty),
  each book is well formed and its two sides are exactly the open orders of the database for its
  market and outcome, best price first and oldest first at a price; the database is as it was.
\<close>

theorem restore_rebuilds_books:
  fixes s :: "'d::linordered_field sys"
  assumes "restore_orderbook uuid_rank s = (res, s')" and "distinct (map o_ID (db_orders (n_db s)))"
  defines "open_orders \<equiv> \<lambda>k i buy. sort_key o_CreatedAt (side_of k i buy (filter is_open (db_orders (n_db s))))"
  shows "res = Inr () \<and> n_db s' = n_db s \<and>
    ((\<exists>e s1. OrderRepo_ListAllOpen uuid_rank (s\<lparr>s_reg := NewRegistry\<rparr>) = (Inl e, s1) \<and> s_reg s' = NewRegistry) \<or>
     (\<forall>k i. book_inv (cell (s_mem s')) (registry_book k i (s_reg s')) \<and>
        map (cell (s_mem s')) (GetBids (registry_book k i (s_reg s'))) = sort_key (\<lambda>x. - o_Price x) (open_orders k i True) \<and>
        map (cell (s_mem s')) (GetAsks (registry_book k i (s_reg s'))) = sort_key o_Price (open_orders k i False)))"
proof -
  let ?s = "s\<lparr>s_reg := NewRegistry\<rparr>"
  obtain r s1 where list: "OrderRepo_ListAllOpen uuid_rank ?s = (r, s1)" by (cases "OrderRepo_ListAllOpen uuid_rank ?s")
  have kd: "n_db s1 = n_db s" and km: "s_mem s1 = s_mem s" "s_reg s1 = NewRegistry"
  proof -
    have "keeps (\<lambda>s. n_db s) (OrderRepo_ListAllOpen uuid_rank :: ('d, 'd Order list) op)"
      unfolding OrderRepo_ListAllOpen_def by (rule keeps_query_db[of "\<lambda>x. x"])
    from keepsD[OF this list] show "n_db s1 = n_db s" by simp
    have "keeps node.more (OrderRepo_ListAllOpen uuid_rank :: ('d, 'd Order list) op)"
      unfolding OrderRepo_ListAllOpen_def by (rule keeps_query)
    from more_sys[OF keepsD[OF this list]] show "s_mem s1 = s_mem s" "s_reg s1 = NewRegistry" by simp_all
  qed
  show ?thesis
  proof (cases r)
    case (Inl e)
    with assms(1) list have "res = Inr ()" "s' = s1"
      by (auto simp: restore_orderbook_def andthen_def bnd_def modify_def handle_def ret_def)
    with Inl list kd km show ?thesis by auto
  next
    case (Inr xs)
    from Inr list have "xs = sort_key (\<lambda>x. uuid_rank (o_MarketID x)) (sort_key (\<lambda>x. uuid_rank (o_OutcomeID x))
        (sort_key o_CreatedAt (filter is_open (db_orders (n_db s)))))"
      by (auto simp: OrderRepo_ListAllOpen_def dest!: query_effect)
    then have side: "side_of k i b xs = open_orders k i b" for k i b
      unfolding open_orders_def by (simp only: side_of_listed)
    have "mset (map o_ID xs) = mset (map o_ID (filter is_open (db_orders (n_db s))))"
      using \<open>xs = _\<close> by (simp add: mset_map)
    from mset_eq_imp_distinct_iff[OF this] distinct_map_filter[OF assms(2)]
    have dist: "distinct (map o_ID ([] @ xs))" by simp
    obtain res2 s2 where loop: "for_each xs restore_one s1 = (res2, s2)" by (cases "for_each xs restore_one s1")
    have "restored [] (s_mem s1) (s_reg s1)" unfolding km by (rule restored_empty)
    from restore_loop[OF loop this dist] have R: "res2 = Inr ()" "n_db s2 = n_db s1" "restored xs (s_mem s2) (s_reg s2)"
      by simp_all
    have "res = Inr () \<and> s' = s2"
      using assms(1) list Inr loop R(1)
      by (auto simp: restore_orderbook_def andthen_def bnd_def modify_def handle_def ret_def)
    with R kd show ?thesis by (auto simp: restored_def Let_def side)
  qed
qed

text \<open>The trading service of the example is restarted after Alice placed her order.\<close>

definition ex_restart :: "(err + unit) \<times> rat sys" where
  "ex_restart = restore_orderbook (\<lambda>_. 0) ex_s1"

theorem restore_rebuilds_books_witness:
  "map (\<lambda>r. (o_UserID (cell (s_mem (snd ex_restart)) r), o_Price (cell (s_mem (snd ex_restart)) r)))
     (GetAsks (registry_book ''m'' ''yes'' (s_reg (snd ex_restart)))) = [(''alice'', 6 / 10)]"
proof -
  have run: "restore_orderbook (\<lambda>_. 0) ex_s1 = (fst ex_restart, snd ex_restart)" by (simp add: ex_restart_def)
  have "distinct (map o_ID (db_orders (n_db ex_s1)))" by code_simp
  note T = restore_rebuilds_books[OF run this]
  have "case OrderRepo_ListAllOpen (\<lambda>_. 0) (ex_s1\<lparr>s_reg := NewRegistry\<rparr>) of (Inl _, _) \<Rightarrow> False | _ \<Rightarrow> True" by code_simp
  with T have "map (cell (s_mem (snd ex_restart))) (GetAsks (registry_book ''m'' ''yes'' (s_reg (snd ex_restart))))
      = sort_key o_Price (sort_key o_CreatedAt (side_of ''m'' ''yes'' False (filter is_open (db_orders (n_db ex_s1)))))"
    by auto
  then have "map (\<lambda>x. (o_UserID x, o_Price x)) (map (cell (s_mem (snd ex_restart)))
        (GetAsks (registry_book ''m'' ''yes'' (s_reg (snd ex_restart)))))
      = map (\<lambda>x. (o_UserID x, o_Price x))
         (sort_key o_Price (sort_key o_CreatedAt (side_of ''m'' ''yes'' False (filter is_open (db_orders (n_db ex_s1))))))"
    by (rule arg_cong)
  moreover have "\<dots> = [(''alice'', 6 / 10)]" by code_simp
  ultimately show ?thesis by (simp add: comp_def)
qed

end
