(* ===== verification/MarketServer.thy ===== *)
theory MarketServer
  imports Lifecycle TradingServer
begin

text \<open>
  \<open>services/market-svc/internal/grpc/server.go\<close> and the adapters of
  \<open>services/market-svc/cmd/main.go\<close>, which send a resolution to the settlement service, with the
  trading service as the canceller of orders, and everything else to the market service.
\<close>

section \<open>Messages\<close>

record PbOutcome =
  po_Id :: string
  po_MarketId :: string
  po_Label :: string
  po_Index :: int
  po_IsWinner :: bool

record PbMarket =
  pm_Id :: string
  pm_Title :: string
  pm_Description :: string
  pm_Category :: string
  pm_MarketType :: int
  pm_Status :: int
  pm_CreatedBy :: string
  pm_CreatedAt :: time
  pm_EndTime :: "time option"
  pm_Outcomes :: "PbOutcome list"

record PbCreateMarketRequest =
  pc_Title :: string
  pc_Description :: string
  pc_MarketType :: int
  pc_Category :: string
  pc_OutcomeLabels :: "string list"
  pc_EndTime :: "time option"
  pc_CreatedBy :: string

record PbListMarketsRequest =
  plm_Status :: int
  plm_Category :: string
  plm_Page :: int
  plm_PerPage :: int

section \<open>Conversions\<close>

definition protoMarketTypeToDomain :: "int \<Rightarrow> MarketType" where
  "protoMarketTypeToDomain x = (if x = 1 then Binary else if x = 2 then Multi else Binary)"

definition domainMarketTypeToProto :: "MarketType \<Rightarrow> int" where
  "domainMarketTypeToProto x = (case x of Binary \<Rightarrow> 1 | Multi \<Rightarrow> 2)"

definition domainMarketStatusToProto :: "MarketStatus \<Rightarrow> int" where
  "domainMarketStatusToProto x = (case x of MDraft \<Rightarrow> 1 | MOpen \<Rightarrow> 2 | MClosed \<Rightarrow> 3 | MResolved \<Rightarrow> 4 | MCancelled \<Rightarrow> 5)"

definition protoMarketStatusToDomain :: "int \<Rightarrow> MarketStatus" where
  "protoMarketStatusToDomain x =
     (if x = 1 then MDraft else if x = 2 then MOpen else if x = 3 then MClosed else if x = 4 then MResolved
      else if x = 5 then MCancelled else MDraft)"

definition domainOutcomeToProto :: "Outcome \<Rightarrow> PbOutcome" where
  "domainOutcomeToProto x =
     \<lparr>po_Id = oc_ID x, po_MarketId = oc_MarketID x, po_Label = oc_Label x, po_Index = int32 (oc_Index x),
      po_IsWinner = oc_IsWinner x\<rparr>"

definition domainMarketToProto :: "Market \<Rightarrow> Outcome list \<Rightarrow> PbMarket" where
  "domainMarketToProto m outcomes =
     \<lparr>pm_Id = m_ID m, pm_Title = m_Title m, pm_Description = m_Description m, pm_Category = m_Category m,
      pm_MarketType = domainMarketTypeToProto (m_MarketType m), pm_Status = domainMarketStatusToProto (m_Status m),
      pm_CreatedBy = m_CreatorID m, pm_CreatedAt = m_CreatedAt m, pm_EndTime = m_ClosesAt m,
      pm_Outcomes = map domainOutcomeToProto outcomes\<rparr>"

section \<open>The adapters\<close>

text \<open>
  The canceller calls the trading service over gRPC. The client of the generated code is an
  argument; an error of the call is a status, no application error.
\<close>

definition tradingOrderCanceller ::
    "(grpc_error \<Rightarrow> string) \<Rightarrow> (string \<Rightarrow> ('s, grpc_error, nat) comp) \<Rightarrow> string \<Rightarrow> ('s, err, nat) comp" where
  "tradingOrderCanceller status_text client marketID s =
     (case client marketID s of (Inl e, s') \<Rightarrow> (Inl (Errorf (status_text e) None), s') | (Inr n, s') \<Rightarrow> (Inr n, s'))"

definition adapter_CreateMarket :: "CreateMarketRequest \<Rightarrow> ('d, 'z, Market) dbop" where
  "adapter_CreateMarket req = CreateMarket
     \<lparr>cm_Title = cm_Title req, cm_Description = cm_Description req, cm_MarketType = cm_MarketType req,
      cm_Category = cm_Category req, cm_OutcomeLabels = cm_OutcomeLabels req, cm_EndTime = cm_EndTime req,
      cm_CreatedBy = cm_CreatedBy req\<rparr>"

definition adapter_ResolveMarket ::
    "(string \<Rightarrow> ('d, 'z, nat) dbop) \<Rightarrow> (string \<Rightarrow> DomainEvent \<Rightarrow> ('d, 'z, unit) dbop) \<Rightarrow>
     string \<Rightarrow> string \<Rightarrow> ('d::linordered_field, 'z, unit) dbop" where
  "adapter_ResolveMarket cancel_all publish marketID winningOutcomeID =
     Settlement_ResolveMarket cancel_all publish marketID winningOutcomeID"

section \<open>Handlers\<close>

type_synonym ('d, 'z, 'a) mhandler = "(('d, 'z) node_scheme, grpc_error, 'a) comp"

definition Server_CreateMarket :: "(err \<Rightarrow> string) \<Rightarrow> PbCreateMarketRequest \<Rightarrow> ('d, 'z, PbMarket) mhandler" where
  "Server_CreateMarket drv req =
     (let svcReq = \<lparr>cm_Title = pc_Title req, cm_Description = pc_Description req,
                   cm_MarketType = protoMarketTypeToDomain (pc_MarketType req), cm_Category = pc_Category req,
                   cm_OutcomeLabels = pc_OutcomeLabels req,
                   cm_EndTime = (case pc_EndTime req of None \<Rightarrow> 0 | Some t \<Rightarrow> t), cm_CreatedBy = pc_CreatedBy req\<rparr>
      in bnd (rpc (Market_toGRPCError drv) (adapter_CreateMarket svcReq)) (\<lambda>market.
         ret (domainMarketToProto market [])))"

definition Server_GetMarket :: "(err \<Rightarrow> string) \<Rightarrow> string \<Rightarrow> ('d, 'z, PbMarket) mhandler" where
  "Server_GetMarket drv marketID =
     bnd (rpc (Market_toGRPCError drv) (GetMarket marketID)) (\<lambda>(market, outcomes).
     ret (domainMarketToProto market outcomes))"

definition markets_filter :: "PbListMarketsRequest \<Rightarrow> MarketFilter" where
  "markets_filter req =
     \<lparr>mf_Status = (if plm_Status req \<noteq> 0 then Some (protoMarketStatusToDomain (plm_Status req)) else None),
      mf_Category = (if plm_Category req \<noteq> '''' then Some (plm_Category req) else None),
      mf_Limit = (if plm_PerPage req > 0 then plm_PerPage req else 0),
      mf_Offset = (if plm_Page req > 0 then (plm_Page req - 1) * plm_PerPage req else 0)\<rparr>"

text \<open>A market whose outcomes cannot be read is listed without them.\<close>

definition list_one :: "Market \<Rightarrow> ('d, 'z, PbMarket) mhandler" where
  "list_one m s =
     (case GetMarket (m_ID m) s of
        (Inl err, s') \<Rightarrow> (Inr (domainMarketToProto m []), s')
      | (Inr (_, outcomes), s') \<Rightarrow> (Inr (domainMarketToProto m outcomes), s'))"

definition Server_ListMarkets ::
    "(err \<Rightarrow> string) \<Rightarrow> PbListMarketsRequest \<Rightarrow> ('d, 'z, PbMarket list \<times> nat) mhandler" where
  "Server_ListMarkets drv req =
     bnd (rpc (Market_toGRPCError drv) (ListMarkets (markets_filter req))) (\<lambda>(markets, total).
     bnd (collect markets list_one) (\<lambda>protoMarkets.
     ret (protoMarkets, total)))"

definition Server_UpdateMarketStatus :: "(err \<Rightarrow> string) \<Rightarrow> string \<Rightarrow> int \<Rightarrow> ('d, 'z, unit) mhandler" where
  "Server_UpdateMarketStatus drv marketID status =
     rpc (Market_toGRPCError drv) (UpdateMarketStatus marketID (protoMarketStatusToDomain status))"

definition Server_ResolveMarket ::
    "(err \<Rightarrow> string) \<Rightarrow> (string \<Rightarrow> ('d, 'z, nat) dbop) \<Rightarrow> (string \<Rightarrow> DomainEvent \<Rightarrow> ('d, 'z, unit) dbop) \<Rightarrow>
     string \<Rightarrow> string \<Rightarrow> ('d::linordered_field, 'z, unit) mhandler" where
  "Server_ResolveMarket drv cancel_all publish marketID winningOutcomeID =
     rpc (Market_toGRPCError drv) (adapter_ResolveMarket cancel_all publish marketID winningOutcomeID)"

definition Server_CancelMarket :: "(err \<Rightarrow> string) \<Rightarrow> string \<Rightarrow> ('d, 'z, unit) mhandler" where
  "Server_CancelMarket drv marketID =
     rpc (Market_toGRPCError drv) (UpdateMarketStatus marketID MCancelled)"

section \<open>Properties\<close>

text \<open>
  Types and statuses of markets survive the way to a message and back, and different ones
  never share a number; a change of status to a number that is not open, closed, resolved or
  cancelled is refused whatever the market.
\<close>

lemma protoMarketStatus_draft: "n \<notin> {2, 3, 4, 5} \<Longrightarrow> protoMarketStatusToDomain n = MDraft"
  by (simp add: protoMarketStatusToDomain_def)

lemma no_transition_to_draft: "\<not> isValidTransition st MDraft"
  by (simp add: isValidTransition_cases)

theorem market_enums_roundtrip:
  "protoMarketTypeToDomain (domainMarketTypeToProto ty) = ty \<and>
   protoMarketStatusToDomain (domainMarketStatusToProto st) = st \<and>
   (domainMarketTypeToProto ty = domainMarketTypeToProto ty' \<longleftrightarrow> ty = ty') \<and>
   (domainMarketStatusToProto st = domainMarketStatusToProto st' \<longleftrightarrow> st = st') \<and>
   (fst (Server_UpdateMarketStatus drv i n s) = Inr () \<longrightarrow> n \<in> {2, 3, 4, 5})"
proof -
  have "n \<in> {2, 3, 4, 5}" if ok: "fst (Server_UpdateMarketStatus drv i n s) = Inr ()"
  proof (rule ccontr)
    assume "n \<notin> {2, 3, 4, 5}"
    obtain s' where "Server_UpdateMarketStatus drv i n s = (Inr (), s')"
      using ok by (cases "Server_UpdateMarketStatus drv i n s") auto
    then have "UpdateMarketStatus i MDraft s = (Inr (), s')"
      by (simp add: Server_UpdateMarketStatus_def rpc_iff protoMarketStatus_draft[OF \<open>n \<notin> _\<close>])
    then show False by (rule UpdateMarketStatus_effect) (use no_transition_to_draft in blast)
  qed
  then show ?thesis
    by (cases ty; cases ty'; cases st; cases st')
      (simp_all add: protoMarketTypeToDomain_def domainMarketTypeToProto_def domainMarketStatusToProto_def
        protoMarketStatusToDomain_def)
qed

theorem market_enums_roundtrip_witness:
  "fst (Server_UpdateMarketStatus (\<lambda>_. '''') ''m'' 3 (ex_sys 0)) = Inr () \<and> (3::int) \<in> {2, 3, 4, 5}"
proof -
  have r: "fst (Server_UpdateMarketStatus (\<lambda>_. '''') ''m'' 3 (ex_sys 0)) = Inr ()" by code_simp
  then show ?thesis
    using market_enums_roundtrip[of Binary MOpen Multi MDraft "\<lambda>_. ''''" "''m''" 3 "ex_sys 0"] by blast
qed

text \<open>
  C21: cancelling a market over gRPC only changes its status: no order is cancelled, no account and
  no holding changes, and however the platform goes on, the settlement that would refund the
  holders is refused for this market.
\<close>

theorem cancel_rpc_never_refunds:
  assumes "Server_CancelMarket drv i s = (Inr (), s1)" and "platform_step\<^sup>*\<^sup>* s1 s2"
  shows "db_users (n_db s1) = db_users (n_db s) \<and> db_orders (n_db s1) = db_orders (n_db s) \<and>
    db_positions (n_db s1) = db_positions (n_db s) \<and> map_option m_Status (find_market i (n_db s2)) = Some MCancelled \<and>
    (\<exists>e s3. Settlement_CancelMarket cancel_all i s2 = (Inl e, s3) \<and> n_db s3 = n_db s2)"
proof -
  from assms(1) have "UpdateMarketStatus i MCancelled s = (Inr (), s1)"
    by (simp add: Server_CancelMarket_def rpc_iff)
  then obtain m t where m: "find_market i (n_db s) = Some m"
    and db: "n_db s1 = set_market (m\<lparr>m_Status := MCancelled, m_UpdatedAt := t\<rparr>) (n_db s)" by (rule UpdateMarketStatus_effect)
  obtain m1 where m1: "find_market i (n_db s1) = Some m1" "m_Status m1 = MCancelled"
    using find_market_write_back[OF m, of "m\<lparr>m_Status := MCancelled, m_UpdatedAt := t\<rparr>" i]
    by (simp add: db find_market_id[OF m])
  have m2: "find_market i (n_db s2) = Some m1"
    using platform_run_evolve[OF assms(2) m1(1)] m1(2) by auto
  let ?x = "Settlement_CancelMarket cancel_all i s2"
  note refused = terminal_refused[OF m2 disjI2[OF m1(2)], where x = ?x and cancel_all = cancel_all]
  have "\<exists>e. fst ?x = Inl e" "n_db (snd ?x) = n_db s2" by (rule refused; simp)+
  then have "\<exists>e s3. ?x = (Inl e, s3) \<and> n_db s3 = n_db s2" by (metis prod.collapse)
  with m1(2) m2 show ?thesis by (simp add: db set_market_def)
qed

text \<open>Bob bids 0.70 for 4; the market is closed and cancelled, and his 2.80 stay locked.\<close>

definition ex_bid :: "rat sys" where
  "ex_bid = snd (UpdateMarketStatus ''m'' MClosed (snd (OrderService_PlaceOrder (/) (ex_req ''bob'' Buy (7 / 10) 4) (ex_sys 0))))"

definition ex_cancelled :: "(grpc_error + unit) \<times> rat sys" where
  "ex_cancelled = Server_CancelMarket (\<lambda>_. '''') ''m'' ex_bid"

theorem cancel_rpc_never_refunds_witness:
  "acct (n_db (snd ex_cancelled)) ''bob'' = Some (9972 / 10, 28 / 10) \<and>
   (case fst (Settlement_CancelMarket CancelAllOrdersByMarket ''m'' (snd ex_cancelled)) of Inl _ \<Rightarrow> True | Inr _ \<Rightarrow> False)"
proof -
  have "fst ex_cancelled = Inr ()" by code_simp
  then have r: "Server_CancelMarket (\<lambda>_. '''') ''m'' ex_bid = (Inr (), snd ex_cancelled)"
    by (simp add: ex_cancelled_def prod_eq_iff)
  have "acct (n_db (snd ex_cancelled)) ''bob'' = Some (9972 / 10, 28 / 10)" by code_simp
  then show ?thesis
    using cancel_rpc_never_refunds[OF r rtranclp.rtrancl_refl, of CancelAllOrdersByMarket] by (auto split: sum.splits)
qed

lemma list_one_reads: "list_one m s = (Inr pm, s') \<Longrightarrow> pm_Id pm = m_ID m \<and> n_db s' = n_db s"
proof -
  assume r: "list_one m s = (Inr pm, s')"
  have "keeps n_db (GetMarket (m_ID m))"
    unfolding GetMarket_def by (intro keeping keeps_reads(2)[of "\<lambda>db. db"] keeps_reads(3)[of "\<lambda>db. db"])
  from r keepsD[OF this] show ?thesis
    by (cases "GetMarket (m_ID m) s") (fastforce simp: list_one_def domainMarketToProto_def split: sum.splits)
qed

lemma collect_list_one:
  "collect ms list_one s = (Inr pms, s') \<Longrightarrow> map pm_Id pms = map m_ID ms \<and> n_db s' = n_db s"
  by (induction ms arbitrary: s pms) (auto simp: succeeds dest!: list_one_reads)

definition listed_markets :: "PbListMarketsRequest \<Rightarrow> 'd DB \<Rightarrow> Market list" where
  "listed_markets req db = sort_key (\<lambda>m. - m_CreatedAt m) (filter (\<lambda>m.
     (plm_Status req = 0 \<or> m_Status m = protoMarketStatusToDomain (plm_Status req)) \<and>
     (plm_Category req = '''' \<or> m_Category m = plm_Category req)) (db_markets db))"


text \<open>The second page of one market each shows the older of two markets; without a size it shows both.\<close>

definition ex_two_markets :: "rat node" where
  "ex_two_markets = ex_node (ex_markets_db\<lparr>db_markets := map (\<lambda>(i, t). \<lparr>m_ID = i, m_Title = '''', m_Description = '''',
     m_Category = '''', m_MarketType = Binary, m_Status = MOpen, m_CreatorID = ''admin'', m_ResolvedOutcomeID = None,
     m_CreatedAt = t, m_UpdatedAt = t, m_ClosesAt = None\<rparr>) [(''old'', 1), (''new'', 2)]\<rparr>)"

definition ex_page :: "int \<Rightarrow> PbListMarketsRequest" where
  "ex_page n = \<lparr>plm_Status = 2, plm_Category = '''', plm_Page = 2, plm_PerPage = n\<rparr>"

definition ex_listing :: "int \<Rightarrow> (grpc_error + PbMarket list \<times> nat) \<times> rat node" where
  "ex_listing n = Server_ListMarkets (\<lambda>_. '''') (ex_page n) ex_two_markets"


end
