(* ===== verification/Hub.thy ===== *)
theory Hub
  imports Prelude
begin

text \<open>
  \<open>services/gateway/internal/ws\<close>: the hub that forwards events to the WebSocket clients
  (\<open>hub.go\<close>), the pumps of a client (\<open>client.go\<close>), the messages (\<open>messages.go\<close>) and the routing of
  events (\<open>eventbus_bridge.go\<close>). Goroutines are interleaved: an action is one receive of the loop
  of the hub, one message read from or written to a connection, or one call of the hub. Channels
  are lists of what is buffered in them; an operation on a full or empty one blocks, which is the
  value None. Decoding and encoding of JSON are arguments.
\<close>

section \<open>Clients and the hub\<close>

text \<open>A pointer to a client is a number, 0 is nil. The text of a frame is a string.\<close>

type_synonym client_ref = nat

record Client =
  cl_ID :: string
  cl_UserID :: string
  cl_Send :: "string list"
  cl_Closed :: bool

definition sendBufferSize :: nat where
  "sendBufferSize = 256"

definition NewClient :: "string \<Rightarrow> string \<Rightarrow> Client" where
  "NewClient uuid userID = \<lparr>cl_ID = uuid, cl_UserID = userID, cl_Send = [], cl_Closed = False\<rparr>"

datatype commandType = CmdSubscribeMarket | CmdUnsubscribeMarket | CmdSubscribeUser | CmdBroadcastMarket | CmdBroadcastUser

record hubCommand =
  hc_typ :: commandType
  hc_client :: client_ref
  hc_marketID :: string
  hc_userID :: string
  hc_message :: string

record Hub =
  hb_register :: "client_ref list"
  hb_unregister :: "client_ref list"
  hb_commands :: "hubCommand list"
  hb_clients :: "client_ref set"
  hb_marketSubs :: "string \<rightharpoonup> client_ref set"
  hb_userSubs :: "string \<rightharpoonup> client_ref set"
  hb_clientCount :: nat

definition NewHub :: Hub where
  "NewHub = \<lparr>hb_register = [], hb_unregister = [], hb_commands = [], hb_clients = {}, hb_marketSubs = Map.empty,
     hb_userSubs = Map.empty, hb_clientCount = 0\<rparr>"

definition Hub_Clients :: "Hub \<Rightarrow> nat" where
  "Hub_Clients h = hb_clientCount h"

section \<open>Calls of the hub\<close>

definition Hub_Register :: "client_ref \<Rightarrow> Hub \<Rightarrow> Hub option" where
  "Hub_Register c h = (if length (hb_register h) < 64 then Some (h\<lparr>hb_register := hb_register h @ [c]\<rparr>) else None)"

definition Hub_Unregister :: "client_ref \<Rightarrow> Hub \<Rightarrow> Hub option" where
  "Hub_Unregister c h = (if length (hb_unregister h) < 64 then Some (h\<lparr>hb_unregister := hb_unregister h @ [c]\<rparr>) else None)"

definition send_command :: "hubCommand \<Rightarrow> Hub \<Rightarrow> Hub option" where
  "send_command cmd h = (if length (hb_commands h) < 256 then Some (h\<lparr>hb_commands := hb_commands h @ [cmd]\<rparr>) else None)"

definition SubscribeMarket :: "client_ref \<Rightarrow> string \<Rightarrow> Hub \<Rightarrow> Hub option" where
  "SubscribeMarket c marketID = send_command
     \<lparr>hc_typ = CmdSubscribeMarket, hc_client = c, hc_marketID = marketID, hc_userID = '''', hc_message = ''''\<rparr>"

definition UnsubscribeMarket :: "client_ref \<Rightarrow> string \<Rightarrow> Hub \<Rightarrow> Hub option" where
  "UnsubscribeMarket c marketID = send_command
     \<lparr>hc_typ = CmdUnsubscribeMarket, hc_client = c, hc_marketID = marketID, hc_userID = '''', hc_message = ''''\<rparr>"

definition SubscribeUser :: "client_ref \<Rightarrow> string \<Rightarrow> Hub \<Rightarrow> Hub option" where
  "SubscribeUser c userID = send_command
     \<lparr>hc_typ = CmdSubscribeUser, hc_client = c, hc_marketID = '''', hc_userID = userID, hc_message = ''''\<rparr>"

definition BroadcastMarket :: "string \<Rightarrow> string \<Rightarrow> Hub \<Rightarrow> Hub option" where
  "BroadcastMarket marketID msg = send_command
     \<lparr>hc_typ = CmdBroadcastMarket, hc_client = 0, hc_marketID = marketID, hc_userID = '''', hc_message = msg\<rparr>"

definition BroadcastUser :: "string \<Rightarrow> string \<Rightarrow> Hub \<Rightarrow> Hub option" where
  "BroadcastUser userID msg = send_command
     \<lparr>hc_typ = CmdBroadcastUser, hc_client = 0, hc_marketID = '''', hc_userID = userID, hc_message = msg\<rparr>"

section \<open>Messages\<close>

record WSMessage =
  ws_Type :: string
  ws_Topic :: string
  ws_Payload :: string

definition ParseWSMessage :: "(string \<Rightarrow> string + WSMessage) \<Rightarrow> string \<Rightarrow> string + WSMessage" where
  "ParseWSMessage unmarshal data =
     (if data = '''' then Inl ''empty message''
      else case unmarshal data of
        Inl e \<Rightarrow> Inl e
      | Inr msg \<Rightarrow> if ws_Type msg = '''' then Inl ''message type is required'' else Inr msg)"

definition NewEventMessage :: "string \<Rightarrow> string \<Rightarrow> WSMessage" where
  "NewEventMessage topic payload = \<lparr>ws_Type = ''event'', ws_Topic = topic, ws_Payload = payload\<rparr>"

definition NewErrorMessage :: "(string \<Rightarrow> string) \<Rightarrow> string \<Rightarrow> WSMessage" where
  "NewErrorMessage marshal_error msg = \<lparr>ws_Type = ''error'', ws_Topic = '''', ws_Payload = marshal_error msg\<rparr>"

text \<open>A topic is split at its first colon; one without a colon has no prefix.\<close>

definition splitTopic :: "string \<Rightarrow> string \<times> string" where
  "splitTopic topic =
     (if CHR '':'' \<in> set topic
      then (takeWhile (\<lambda>c. c \<noteq> CHR '':'') topic, tl (dropWhile (\<lambda>c. c \<noteq> CHR '':'') topic))
      else ('''', topic))"

definition handleSubscribe :: "client_ref \<Rightarrow> string \<Rightarrow> Hub \<Rightarrow> Hub option" where
  "handleSubscribe c topic h =
     (let (prefix, i) = splitTopic topic in
      if prefix = ''market'' then SubscribeMarket c i h
      else if prefix = ''user'' then SubscribeUser c i h
      else Some h)"

definition handleUnsubscribe :: "client_ref \<Rightarrow> string \<Rightarrow> Hub \<Rightarrow> Hub option" where
  "handleUnsubscribe c topic h =
     (let (prefix, i) = splitTopic topic in
      if prefix = ''market'' then UnsubscribeMarket c i h else Some h)"

definition handleMessage :: "client_ref \<Rightarrow> WSMessage \<Rightarrow> Hub \<Rightarrow> Hub option" where
  "handleMessage c msg h =
     (if ws_Type msg = ''subscribe'' then handleSubscribe c (ws_Topic msg) h
      else if ws_Type msg = ''unsubscribe'' then handleUnsubscribe c (ws_Topic msg) h
      else Some h)"

text \<open>
  Events of the bus: a trade goes to the watchers of its market, an order to the channel of its
  user. \<open>field\<close> reads a text field of the payload and \<open>marshal\<close> encodes a message.
\<close>

definition forward_trade :: "(string \<Rightarrow> string \<Rightarrow> string option) \<Rightarrow> (WSMessage \<Rightarrow> string option) \<Rightarrow> string \<Rightarrow> Hub \<Rightarrow> Hub option" where
  "forward_trade field marshal payload h =
     (case field payload ''market_id'' of
        None \<Rightarrow> Some h
      | Some marketID \<Rightarrow>
          if marketID = '''' then Some h
          else case marshal (NewEventMessage (''market:'' @ marketID) payload) of
            None \<Rightarrow> Some h
          | Some msg \<Rightarrow> BroadcastMarket marketID msg h)"

definition forward_order :: "(string \<Rightarrow> string \<Rightarrow> string option) \<Rightarrow> (WSMessage \<Rightarrow> string option) \<Rightarrow> string \<Rightarrow> Hub \<Rightarrow> Hub option" where
  "forward_order field marshal payload h =
     (case field payload ''user_id'' of
        None \<Rightarrow> Some h
      | Some userID \<Rightarrow>
          if userID = '''' then Some h
          else case marshal (NewEventMessage (''user:'' @ userID) payload) of
            None \<Rightarrow> Some h
          | Some msg \<Rightarrow> BroadcastUser userID msg h)"

section \<open>The loop\<close>

text \<open>
  The process: the hub, the client objects, which references are in use,
  which clients have a \<open>ReadPump\<close> still reading, and
  whether the loop runs. Sending on a closed channel,
  or closing it again, panics, which ends the process.
\<close>

datatype run_status = Running | Stopped | Panicked

record gateway =
  gw_hub :: Hub
  gw_store :: "client_ref \<Rightarrow> Client"
  gw_used :: "client_ref set"
  gw_readers :: "client_ref set"
  gw_status :: run_status

abbreviation on_hub :: "(Hub \<Rightarrow> Hub) \<Rightarrow> gateway \<Rightarrow> gateway" where
  "on_hub f g \<equiv> g\<lparr>gw_hub := f (gw_hub g)\<rparr>"

definition call_hub :: "(Hub \<Rightarrow> Hub option) \<Rightarrow> gateway \<Rightarrow> gateway option" where
  "call_hub f g = map_option (\<lambda>h. g\<lparr>gw_hub := h\<rparr>) (f (gw_hub g))"

definition add_sub :: "string \<Rightarrow> client_ref \<Rightarrow> (string \<rightharpoonup> client_ref set) \<Rightarrow> (string \<rightharpoonup> client_ref set)" where
  "add_sub k c subs = subs(k \<mapsto> insert c (case subs k of None \<Rightarrow> {} | Some S \<Rightarrow> S))"

definition remove_sub :: "string \<Rightarrow> client_ref \<Rightarrow> (string \<rightharpoonup> client_ref set) \<Rightarrow> (string \<rightharpoonup> client_ref set)" where
  "remove_sub k c subs =
     (case subs k of None \<Rightarrow> subs | Some S \<Rightarrow> if S - {c} = {} then subs(k := None) else subs(k \<mapsto> S - {c}))"

text \<open>Leaving every topic, in whatever order the map is walked.\<close>

definition remove_all :: "client_ref \<Rightarrow> (string \<rightharpoonup> client_ref set) \<Rightarrow> (string \<rightharpoonup> client_ref set)" where
  "remove_all c subs = (\<lambda>k. case subs k of None \<Rightarrow> None | Some S \<Rightarrow> if S - {c} = {} then None else Some (S - {c}))"

definition Run_register :: "gateway \<Rightarrow> gateway option" where
  "Run_register g =
     (case hb_register (gw_hub g) of
        [] \<Rightarrow> None
      | c # cs \<Rightarrow> let clients = insert c (hb_clients (gw_hub g))
          in Some (on_hub (\<lambda>h. h\<lparr>hb_register := cs, hb_clients := clients, hb_clientCount := card clients\<rparr>) g))"

definition Run_unregister :: "gateway \<Rightarrow> gateway option" where
  "Run_unregister g =
     (case hb_unregister (gw_hub g) of
        [] \<Rightarrow> None
      | c # cs \<Rightarrow>
          let g1 = on_hub (\<lambda>h. h\<lparr>hb_unregister := cs\<rparr>) g in
          if c \<notin> hb_clients (gw_hub g) then Some g1
          else if cl_Closed (gw_store g c) then Some (g1\<lparr>gw_status := Panicked\<rparr>)
          else let clients = hb_clients (gw_hub g) - {c}
            in Some ((on_hub (\<lambda>h. h\<lparr>hb_clients := clients, hb_marketSubs := remove_all c (hb_marketSubs h),
                   hb_userSubs := remove_all c (hb_userSubs h), hb_clientCount := card clients\<rparr>) g1)
                 \<lparr>gw_store := (gw_store g)(c := (gw_store g c)\<lparr>cl_Closed := True\<rparr>)\<rparr>))"

text \<open>
  A message is offered to the clients one after the other, in the order \<open>cs\<close> in which the map is
  walked; a full channel is skipped, a closed one panics, which is the value None.
\<close>

fun deliver :: "string \<Rightarrow> client_ref list \<Rightarrow> (client_ref \<Rightarrow> Client) \<Rightarrow> (client_ref \<Rightarrow> Client) option" where
  "deliver msg [] st = Some st"
| "deliver msg (c # cs) st =
     (if cl_Closed (st c) then None
      else deliver msg cs
        (if length (cl_Send (st c)) < sendBufferSize then st(c := (st c)\<lparr>cl_Send := cl_Send (st c) @ [msg]\<rparr>) else st))"

definition broadcast :: "string \<Rightarrow> client_ref list \<Rightarrow> gateway \<Rightarrow> gateway" where
  "broadcast msg order g =
     (case deliver msg order (gw_store g) of None \<Rightarrow> g\<lparr>gw_status := Panicked\<rparr> | Some st \<Rightarrow> g\<lparr>gw_store := st\<rparr>)"

definition subscribers :: "hubCommand \<Rightarrow> Hub \<Rightarrow> client_ref set" where
  "subscribers cmd h =
     (case (case hc_typ cmd of CmdBroadcastMarket \<Rightarrow> hb_marketSubs h (hc_marketID cmd)
            | CmdBroadcastUser \<Rightarrow> hb_userSubs h (hc_userID cmd) | _ \<Rightarrow> None) of
        None \<Rightarrow> {} | Some S \<Rightarrow> S)"

definition processCommand :: "client_ref list \<Rightarrow> hubCommand \<Rightarrow> gateway \<Rightarrow> gateway" where
  "processCommand order cmd g =
     (case hc_typ cmd of
        CmdSubscribeMarket \<Rightarrow>
          on_hub (\<lambda>h. h\<lparr>hb_marketSubs := add_sub (hc_marketID cmd) (hc_client cmd) (hb_marketSubs h)\<rparr>) g
      | CmdUnsubscribeMarket \<Rightarrow>
          on_hub (\<lambda>h. h\<lparr>hb_marketSubs := remove_sub (hc_marketID cmd) (hc_client cmd) (hb_marketSubs h)\<rparr>) g
      | CmdSubscribeUser \<Rightarrow>
          if cl_UserID (gw_store g (hc_client cmd)) = '''' then g
          else on_hub (\<lambda>h. h\<lparr>hb_userSubs := add_sub (hc_userID cmd) (hc_client cmd) (hb_userSubs h)\<rparr>) g
      | CmdBroadcastMarket \<Rightarrow> broadcast (hc_message cmd) order g
      | CmdBroadcastUser \<Rightarrow> broadcast (hc_message cmd) order g)"

definition Run_command :: "client_ref list \<Rightarrow> gateway \<Rightarrow> gateway option" where
  "Run_command order g =
     (case hb_commands (gw_hub g) of
        [] \<Rightarrow> None
      | cmd # cmds \<Rightarrow>
          if distinct order \<and> set order = subscribers cmd (gw_hub g)
          then Some (processCommand order cmd (on_hub (\<lambda>h. h\<lparr>hb_commands := cmds\<rparr>) g))
          else None)"

section \<open>Pumps\<close>

text \<open>A frame that was read; a frame that cannot be decoded is ignored.\<close>

definition ReadPump_frame :: "(string \<Rightarrow> string + WSMessage) \<Rightarrow> client_ref \<Rightarrow> string \<Rightarrow> gateway \<Rightarrow> gateway option" where
  "ReadPump_frame unmarshal c data g =
     (if c \<notin> gw_readers g then None
      else case ParseWSMessage unmarshal data of
        Inl _ \<Rightarrow> Some g
      | Inr msg \<Rightarrow> call_hub (handleMessage c msg) g)"

definition ReadPump_exit :: "client_ref \<Rightarrow> gateway \<Rightarrow> gateway option" where
  "ReadPump_exit c g =
     (if c \<notin> gw_readers g then None else call_hub (Hub_Unregister c) (g\<lparr>gw_readers := gw_readers g - {c}\<rparr>))"

text \<open>The write pump takes the next message; on a closed and empty channel it sends a close frame and ends.\<close>

definition WritePump_step :: "client_ref \<Rightarrow> gateway \<Rightarrow> (string option \<times> gateway) option" where
  "WritePump_step c g =
     (case cl_Send (gw_store g c) of
        m # ms \<Rightarrow> Some (Some m, g\<lparr>gw_store := (gw_store g)(c := (gw_store g c)\<lparr>cl_Send := ms\<rparr>)\<rparr>)
      | [] \<Rightarrow> if cl_Closed (gw_store g c) then Some (None, g) else None)"

section \<open>Runs of the process\<close>

text \<open>
  \<open>Stop\<close> is offered without waiting: it ends the loop when the loop waits for a channel, and is
  lost otherwise.
\<close>

datatype action =
    Connect client_ref string string
  | ReadFrame client_ref string
  | ReadEnd client_ref
  | WriteNext client_ref
  | Publish bool string string
  | LoopRegister
  | LoopUnregister
  | LoopCommand "client_ref list"
  | CallStop bool

fun act :: "(string \<Rightarrow> string + WSMessage) \<Rightarrow> action \<Rightarrow> gateway \<Rightarrow> gateway option" where
  "act unmarshal (Connect c uuid userID) g =
     (if c = 0 \<or> c \<in> gw_used g then None
      else call_hub (Hub_Register c)
        (g\<lparr>gw_store := (gw_store g)(c := NewClient uuid userID), gw_used := insert c (gw_used g),
           gw_readers := insert c (gw_readers g)\<rparr>))"
| "act unmarshal (ReadFrame c data) g = ReadPump_frame unmarshal c data g"
| "act unmarshal (ReadEnd c) g = ReadPump_exit c g"
| "act unmarshal (WriteNext c) g = map_option snd (WritePump_step c g)"
| "act unmarshal (Publish market k msg) g = call_hub (if market then BroadcastMarket k msg else BroadcastUser k msg) g"
| "act unmarshal LoopRegister g = (if gw_status g = Running then Run_register g else None)"
| "act unmarshal LoopUnregister g = (if gw_status g = Running then Run_unregister g else None)"
| "act unmarshal (LoopCommand order) g = (if gw_status g = Running then Run_command order g else None)"
| "act unmarshal (CallStop waiting) g =
     Some (if waiting \<and> gw_status g = Running then g\<lparr>gw_status := Stopped\<rparr> else g)"

text \<open>Nothing happens in a process that has panicked.\<close>

definition perform :: "(string \<Rightarrow> string + WSMessage) \<Rightarrow> action \<Rightarrow> gateway \<Rightarrow> gateway option" where
  "perform unmarshal a g = (if gw_status g = Panicked then None else act unmarshal a g)"

fun perform_all :: "(string \<Rightarrow> string + WSMessage) \<Rightarrow> action list \<Rightarrow> gateway \<Rightarrow> gateway option" where
  "perform_all unmarshal [] g = Some g"
| "perform_all unmarshal (a # as) g = Option.bind (perform unmarshal a g) (perform_all unmarshal as)"

definition gateway_start :: gateway where
  "gateway_start = \<lparr>gw_hub = NewHub, gw_store = (\<lambda>_. NewClient '''' ''''), gw_used = {}, gw_readers = {}, gw_status = Running\<rparr>"

inductive hub_step :: "(string \<Rightarrow> string + WSMessage) \<Rightarrow> gateway \<Rightarrow> gateway \<Rightarrow> bool" for unmarshal where
  step: "perform unmarshal a g = Some g' \<Longrightarrow> hub_step unmarshal g g'"

text \<open>
  The loop picks any channel that is ready. A run is in order when no unregistration overtakes a
  command that its client sent before.
\<close>

definition in_order :: "action \<Rightarrow> gateway \<Rightarrow> bool" where
  "in_order a g \<longleftrightarrow> (a = LoopUnregister \<longrightarrow>
     (case hb_unregister (gw_hub g) of [] \<Rightarrow> True | c # _ \<Rightarrow> list_all (\<lambda>cmd. hc_client cmd \<noteq> c) (hb_commands (gw_hub g))))"

inductive ordered_step :: "(string \<Rightarrow> string + WSMessage) \<Rightarrow> gateway \<Rightarrow> gateway \<Rightarrow> bool" for unmarshal where
  ordered: "perform unmarshal a g = Some g' \<Longrightarrow> in_order a g \<Longrightarrow> ordered_step unmarshal g g'"

section \<open>What every run keeps\<close>

definition members :: "(string \<rightharpoonup> client_ref set) \<Rightarrow> client_ref set" where
  "members subs = \<Union> (ran subs)"

lemma member_iff: "c \<in> members subs \<longleftrightarrow> (\<exists>k S. subs k = Some S \<and> c \<in> S)"
  by (auto simp: members_def ran_def)

lemma members_add_sub [simp]: "members (add_sub k c subs) = insert c (members subs)"
proof (rule set_eqI)
  fix d
  have *: "add_sub k c subs j = (if j = k then Some (insert c (case subs k of None \<Rightarrow> {} | Some S \<Rightarrow> S)) else subs j)" for j
    by (simp add: add_sub_def)
  have "d \<in> members (add_sub k c subs) \<longleftrightarrow> d = c \<or> (\<exists>j S. j \<noteq> k \<and> subs j = Some S \<and> d \<in> S) \<or> (\<exists>S. subs k = Some S \<and> d \<in> S)"
    unfolding member_iff * by (auto split: option.splits if_splits)
  also have "\<dots> \<longleftrightarrow> d \<in> insert c (members subs)" unfolding member_iff insert_iff by metis
  finally show "d \<in> members (add_sub k c subs) \<longleftrightarrow> d \<in> insert c (members subs)" .
qed

lemma members_remove_sub: "members (remove_sub k c subs) \<subseteq> members subs"
  unfolding remove_sub_def by (auto simp: member_iff split: option.splits if_splits) blast+

lemma members_remove_all [simp]: "members (remove_all c subs) = members subs - {c}"
proof (rule set_eqI)
  fix d
  have "remove_all c subs k = Some S' \<longleftrightarrow> (\<exists>S. subs k = Some S \<and> S' = S - {c} \<and> S' \<noteq> {})" for k S'
    by (auto simp: remove_all_def split: option.splits)
  then show "d \<in> members (remove_all c subs) \<longleftrightarrow> d \<in> members subs - {c}" unfolding Diff_iff member_iff by blast
qed

lemma no_empty_topic:
  "{} \<notin> ran subs \<Longrightarrow> {} \<notin> ran (add_sub k c subs)"
  "{} \<notin> ran subs \<Longrightarrow> {} \<notin> ran (remove_sub k c subs)"
  "{} \<notin> ran (remove_all c subs)"
  by (auto simp: ran_def add_sub_def remove_sub_def remove_all_def split: option.splits if_splits)

definition senders :: "hubCommand list \<Rightarrow> client_ref set" where
  "senders cmds = hc_client ` {cmd \<in> set cmds. hc_typ cmd \<notin> {CmdBroadcastMarket, CmdBroadcastUser}}"

lemma senders_simps [simp]:
  "senders [] = {}"
  "senders (cmd # cmds) = (if hc_typ cmd \<in> {CmdBroadcastMarket, CmdBroadcastUser} then senders cmds
     else insert (hc_client cmd) (senders cmds))"
  "senders (cmds @ cmds') = senders cmds \<union> senders cmds'"
  by (auto simp: senders_def)

text \<open>The references: which are in use, connected, waiting to be registered, reading or closed.\<close>

definition refs_ok :: "gateway \<Rightarrow> bool" where
  "refs_ok g \<longleftrightarrow>
     0 \<notin> gw_used g \<and> hb_clients (gw_hub g) \<subseteq> gw_used g \<and> gw_readers g \<subseteq> gw_used g \<and>
     set (hb_register (gw_hub g)) \<subseteq> gw_used g \<and> set (hb_unregister (gw_hub g)) \<subseteq> gw_used g \<and>
     senders (hb_commands (gw_hub g)) \<subseteq> gw_used g \<and> members (hb_marketSubs (gw_hub g)) \<subseteq> gw_used g \<and>
     members (hb_userSubs (gw_hub g)) \<subseteq> {c \<in> gw_used g. cl_UserID (gw_store g c) \<noteq> ''''} \<and>
     distinct (hb_register (gw_hub g)) \<and> set (hb_register (gw_hub g)) \<inter> hb_clients (gw_hub g) = {} \<and>
     gw_readers g \<inter> set (hb_unregister (gw_hub g)) = {} \<and>
     {c. cl_Closed (gw_store g c)} \<subseteq> gw_used g - hb_clients (gw_hub g) - set (hb_register (gw_hub g)) - gw_readers g"

definition sizes_ok :: "gateway \<Rightarrow> bool" where
  "sizes_ok g \<longleftrightarrow>
     finite (hb_clients (gw_hub g)) \<and> hb_clientCount (gw_hub g) = card (hb_clients (gw_hub g)) \<and>
     {} \<notin> ran (hb_marketSubs (gw_hub g)) \<and> {} \<notin> ran (hb_userSubs (gw_hub g)) \<and>
     length (hb_register (gw_hub g)) \<le> 64 \<and> length (hb_unregister (gw_hub g)) \<le> 64 \<and>
     length (hb_commands (gw_hub g)) \<le> 256 \<and> (\<forall>c. length (cl_Send (gw_store g c)) \<le> sendBufferSize)"

text \<open>Calls of the hub only put an entry at the end of one channel.\<close>

lemma send_command_Some [simp]:
  "send_command cmd h = Some h' \<longleftrightarrow> length (hb_commands h) < 256 \<and> h' = h\<lparr>hb_commands := hb_commands h @ [cmd]\<rparr>"
  by (auto simp: send_command_def)

lemma handleMessage_Some:
  assumes "handleMessage c msg h = Some h'"
  shows "h' = h \<or> (\<exists>cmd. length (hb_commands h) < 256 \<and> h' = h\<lparr>hb_commands := hb_commands h @ [cmd]\<rparr> \<and>
    hc_client cmd = c \<and> hc_typ cmd \<notin> {CmdBroadcastMarket, CmdBroadcastUser})"
  using assms by (auto simp: handleMessage_def handleSubscribe_def handleUnsubscribe_def SubscribeMarket_def
      UnsubscribeMarket_def SubscribeUser_def split: prod.splits if_splits)

lemma deliver_eq:
  "distinct order \<Longrightarrow> deliver msg order st =
     (if \<exists>c \<in> set order. cl_Closed (st c) then None
      else Some (\<lambda>c. if c \<in> set order \<and> length (cl_Send (st c)) < sendBufferSize
                     then (st c)\<lparr>cl_Send := cl_Send (st c) @ [msg]\<rparr> else st c))"
proof (induction order arbitrary: st)
  case (Cons c cs)
  let ?st = "if length (cl_Send (st c)) < sendBufferSize then st(c := (st c)\<lparr>cl_Send := cl_Send (st c) @ [msg]\<rparr>) else st"
  from Cons.prems have d: "c \<notin> set cs" "distinct cs" by auto
  then have same: "?st e = st e" if "e \<in> set cs" for e using that by auto
  then have closed: "(\<exists>e \<in> set cs. cl_Closed (?st e)) \<longleftrightarrow> (\<exists>e \<in> set cs. cl_Closed (st e))" by auto
  show ?case using d Cons.IH[OF d(2), of ?st] unfolding closed by (auto simp: fun_eq_iff)
qed simp

lemma broadcast_frame [simp]:
  "gw_hub (broadcast msg order g) = gw_hub g" "gw_used (broadcast msg order g) = gw_used g"
  "gw_readers (broadcast msg order g) = gw_readers g"
  by (simp_all add: broadcast_def split: option.splits)

lemma broadcast_store:
  assumes "distinct order"
  shows "cl_UserID (gw_store (broadcast msg order g) c) = cl_UserID (gw_store g c)"
    and "cl_Closed (gw_store (broadcast msg order g) c) = cl_Closed (gw_store g c)"
    and "(\<forall>c. length (cl_Send (gw_store g c)) \<le> sendBufferSize) \<Longrightarrow>
      length (cl_Send (gw_store (broadcast msg order g) c)) \<le> sendBufferSize"
  by (simp_all add: broadcast_def deliver_eq[OF assms])

lemmas loop_defs = Run_register_def Run_unregister_def Run_command_def Let_def call_hub_def
  Hub_Register_def Hub_Unregister_def ReadPump_frame_def ReadPump_exit_def WritePump_step_def BroadcastMarket_def BroadcastUser_def

lemma refs_ok_processCommand:
  assumes "refs_ok g" and "hb_commands (gw_hub g) = cmd # cmds" and "distinct order"
  shows "refs_ok (processCommand order cmd (on_hub (\<lambda>h. h\<lparr>hb_commands := cmds\<rparr>) g))"
  using assms members_remove_sub[of "hc_marketID cmd" "hc_client cmd" "hb_marketSubs (gw_hub g)"]
  by (cases "hc_typ cmd") (auto simp: refs_ok_def processCommand_def broadcast_store)

lemma sizes_ok_processCommand:
  assumes "sizes_ok g" and "hb_commands (gw_hub g) = cmd # cmds" and "distinct order"
  shows "sizes_ok (processCommand order cmd (on_hub (\<lambda>h. h\<lparr>hb_commands := cmds\<rparr>) g))"
  using assms
  by (cases "hc_typ cmd") (auto simp: sizes_ok_def processCommand_def broadcast_store no_empty_topic)

text \<open>What reading a frame can do: nothing, or one more command of that client.\<close>

definition more_commands :: "hubCommand \<Rightarrow> gateway \<Rightarrow> gateway" where
  "more_commands cmd = on_hub (\<lambda>h. h\<lparr>hb_commands := hb_commands h @ [cmd]\<rparr>)"

lemma ReadPump_frame_cases:
  assumes "ReadPump_frame unmarshal c data g = Some g'"
  obtains "c \<in> gw_readers g" "g' = g"
  | cmd where "c \<in> gw_readers g" "length (hb_commands (gw_hub g)) < 256" "g' = more_commands cmd g" "hc_client cmd = c"
      "hc_typ cmd \<notin> {CmdBroadcastMarket, CmdBroadcastUser}"
proof -
  from assms have c: "c \<in> gw_readers g"
    and "g' = g \<or> (\<exists>msg h. handleMessage c msg (gw_hub g) = Some h \<and> g' = g\<lparr>gw_hub := h\<rparr>)"
    by (auto simp: ReadPump_frame_def call_hub_def split: if_splits sum.splits)
  then consider "g' = g" | msg h where "handleMessage c msg (gw_hub g) = Some h" "g' = g\<lparr>gw_hub := h\<rparr>" by blast
  then show ?thesis
  proof cases
    case (2 msg h)
    from handleMessage_Some[OF 2(1)] 2(2) c that show ?thesis by (auto simp: more_commands_def)
  qed (use c that in blast)
qed

lemma more_commands_ok:
  "refs_ok g \<Longrightarrow> hc_client cmd \<in> gw_used g \<Longrightarrow> refs_ok (more_commands cmd g)"
  "sizes_ok g \<Longrightarrow> length (hb_commands (gw_hub g)) < 256 \<Longrightarrow> sizes_ok (more_commands cmd g)"
  by (simp_all add: refs_ok_def sizes_ok_def more_commands_def)

lemma refs_ok_act:
  assumes "refs_ok g" and "act unmarshal a g = Some g'"
  shows "refs_ok g'"
proof (cases a)
  case (ReadFrame c data)
  with assms(2) have "ReadPump_frame unmarshal c data g = Some g'" by simp
  then show ?thesis
    using assms(1) by (cases rule: ReadPump_frame_cases) (auto simp: refs_ok_def[of g] intro!: more_commands_ok)
next
  case (LoopCommand order)
  with assms show ?thesis
    by (auto simp: Run_command_def split: if_splits list.splits intro: refs_ok_processCommand)
next
  case (WriteNext c)
  with assms show ?thesis by (auto simp: refs_ok_def loop_defs split: list.splits if_splits)
next
  case LoopUnregister
  with assms show ?thesis by (auto simp: refs_ok_def loop_defs split: list.splits if_splits)
next
  case LoopRegister
  with assms show ?thesis by (auto simp: refs_ok_def loop_defs split: list.splits if_splits)
next
  case (Connect c uuid userID)
  with assms show ?thesis by (auto simp: refs_ok_def loop_defs NewClient_def split: if_splits)
qed (use assms in \<open>auto simp: refs_ok_def loop_defs split: if_splits\<close>)

lemma sizes_ok_act:
  assumes "sizes_ok g" and "act unmarshal a g = Some g'"
  shows "sizes_ok g'"
proof (cases a)
  case (ReadFrame c data)
  with assms(2) have "ReadPump_frame unmarshal c data g = Some g'" by simp
  then show ?thesis
    using assms(1) by (cases rule: ReadPump_frame_cases) (auto intro: more_commands_ok)
next
  case (LoopCommand order)
  with assms show ?thesis
    by (auto simp: Run_command_def split: if_splits list.splits intro: sizes_ok_processCommand)
next
  case (WriteNext c)
  with assms show ?thesis
    by (auto simp: sizes_ok_def loop_defs split: list.splits if_splits) (metis Suc_leD length_Cons)+
next
  case LoopUnregister
  with assms show ?thesis by (auto simp: sizes_ok_def loop_defs no_empty_topic split: list.splits if_splits)
next
  case LoopRegister
  with assms show ?thesis by (auto simp: sizes_ok_def loop_defs split: list.splits if_splits)
next
  case (Connect c uuid userID)
  with assms show ?thesis by (auto simp: sizes_ok_def loop_defs NewClient_def split: if_splits)
qed (use assms in \<open>auto simp: sizes_ok_def loop_defs split: if_splits\<close>)

lemma gateway_start_ok: "refs_ok gateway_start" "sizes_ok gateway_start"
  by (simp_all add: refs_ok_def sizes_ok_def gateway_start_def NewHub_def NewClient_def members_def)

lemma hub_step_ok:
  assumes "hub_step unmarshal g g'" and "refs_ok g \<and> sizes_ok g"
  shows "refs_ok g' \<and> sizes_ok g'"
  using assms refs_ok_act sizes_ok_act by (auto simp: hub_step.simps perform_def split: if_splits)

lemma hub_reachable_ok: "(hub_step unmarshal)\<^sup>*\<^sup>* gateway_start g \<Longrightarrow> refs_ok g \<and> sizes_ok g"
  by (induction rule: rtranclp_induct) (use gateway_start_ok hub_step_ok in blast)+

lemma perform_all_reach: "perform_all unmarshal as g = Some g' \<Longrightarrow> (hub_step unmarshal)\<^sup>*\<^sup>* g g'"
proof (induction "as" arbitrary: g)
  case (Cons a "as")
  then obtain g1 where "perform unmarshal a g = Some g1" "perform_all unmarshal as g1 = Some g'"
    by (auto split: bind_splits)
  with Cons.IH show ?case by (meson converse_rtranclp_into_rtranclp hub_step.step)
qed simp

section \<open>Runs in order\<close>

text \<open>No closed client is subscribed or has a command waiting.\<close>

definition closed_gone :: "gateway \<Rightarrow> bool" where
  "closed_gone g \<longleftrightarrow> (\<forall>c. cl_Closed (gw_store g c) \<longrightarrow>
     c \<notin> members (hb_marketSubs (gw_hub g)) \<and> c \<notin> members (hb_userSubs (gw_hub g)) \<and> c \<notin> senders (hb_commands (gw_hub g)))"

lemma subscribers_members:
  "subscribers cmd h \<subseteq> members (hb_marketSubs h) \<union> members (hb_userSubs h)"
  by (auto simp: subscribers_def member_iff split: option.splits commandType.splits) blast+

lemma broadcast_status:
  assumes "distinct order"
  shows "gw_status (broadcast msg order g) = (if \<exists>c \<in> set order. cl_Closed (gw_store g c) then Panicked else gw_status g)"
  by (simp add: broadcast_def deliver_eq[OF assms])

lemma closed_gone_command:
  assumes "closed_gone g" and "gw_status g \<noteq> Panicked" and "Run_command order g = Some g'"
  shows "closed_gone g' \<and> gw_status g' \<noteq> Panicked"
proof -
  from assms(3) obtain cmd cmds where q: "hb_commands (gw_hub g) = cmd # cmds" and d: "distinct order"
    and o: "set order = subscribers cmd (gw_hub g)"
    and g': "g' = processCommand order cmd (on_hub (\<lambda>h. h\<lparr>hb_commands := cmds\<rparr>) g)"
    by (auto simp: Run_command_def split: list.splits if_splits)
  have open_subs: "\<not> cl_Closed (gw_store g c)" if "c \<in> set order" for c
    using that assms(1) subscribers_members[of cmd "gw_hub g"] unfolding o closed_gone_def by blast
  have "hc_client cmd \<in> senders (hb_commands (gw_hub g))" if "hc_typ cmd \<notin> {CmdBroadcastMarket, CmdBroadcastUser}"
    using that by (simp add: q)
  then show ?thesis
    using assms(1,2) q open_subs members_remove_sub[of "hc_marketID cmd" "hc_client cmd" "hb_marketSubs (gw_hub g)"]
    unfolding g' by (cases "hc_typ cmd") (auto simp: closed_gone_def processCommand_def broadcast_store[OF d] broadcast_status[OF d])
qed

lemma closed_gone_step:
  assumes "ordered_step unmarshal g g'" and "refs_ok g" and "closed_gone g" and "gw_status g \<noteq> Panicked"
  shows "closed_gone g' \<and> gw_status g' \<noteq> Panicked"
proof -
  from assms(1) obtain a where run: "act unmarshal a g = Some g'" and o: "in_order a g"
    by (auto simp: ordered_step.simps perform_def split: if_splits)
  show ?thesis
  proof (cases a)
    case (ReadFrame c data)
    with run have "ReadPump_frame unmarshal c data g = Some g'" by simp
    then show ?thesis
      using assms(2-4) by (cases rule: ReadPump_frame_cases) (auto simp: closed_gone_def more_commands_def refs_ok_def)
  next
    case (LoopCommand order)
    with run closed_gone_command[OF assms(3,4)] show ?thesis by (auto split: if_splits)
  next
    case LoopUnregister
    with run o assms(2-4) show ?thesis
      by (auto simp: closed_gone_def loop_defs refs_ok_def in_order_def senders_def list_all_iff split: list.splits if_splits)
  next
    case LoopRegister
    with run assms(3,4) show ?thesis by (auto simp: closed_gone_def loop_defs split: list.splits if_splits)
  next
    case (WriteNext c)
    with run assms(3,4) show ?thesis by (auto simp: closed_gone_def loop_defs split: list.splits if_splits)
  next
    case (Connect c uuid userID)
    with run assms(3,4) show ?thesis by (auto simp: closed_gone_def loop_defs NewClient_def split: if_splits)
  next
    case (Publish market k msg)
    with run assms(3,4) show ?thesis by (auto simp: closed_gone_def loop_defs split: if_splits)
  qed (use run assms(3,4) in \<open>auto simp: closed_gone_def loop_defs split: if_splits\<close>)
qed

lemma ordered_run_ok:
  "(ordered_step unmarshal)\<^sup>*\<^sup>* gateway_start g \<Longrightarrow> refs_ok g \<and> sizes_ok g \<and> closed_gone g \<and> gw_status g \<noteq> Panicked"
proof (induction rule: rtranclp_induct)
  case base
  show ?case using gateway_start_ok by (simp add: closed_gone_def gateway_start_def NewClient_def)
next
  case (step g g')
  have "hub_step unmarshal g g'" using step(2) by (auto simp: ordered_step.simps hub_step.simps)
  with step.IH step(2) hub_step_ok closed_gone_step show ?case by blast
qed

section \<open>Properties\<close>

text \<open>
  C23: however the pumps, the publishers and the loop interleave, the reported number of clients is the
  number of connected ones, a closed client is neither connected nor still read from, only clients
  with a user id are on the channels of users, no topic is kept without subscriber, and no channel
  holds more than its capacity.
\<close>

theorem hub_invariant:
  assumes "(hub_step unmarshal)\<^sup>*\<^sup>* gateway_start g"
  shows "finite (hb_clients (gw_hub g)) \<and> Hub_Clients (gw_hub g) = card (hb_clients (gw_hub g)) \<and>
    (\<forall>c. cl_Closed (gw_store g c) \<longrightarrow> c \<notin> hb_clients (gw_hub g) \<and> c \<notin> gw_readers g) \<and>
    (\<forall>k S. hb_marketSubs (gw_hub g) k = Some S \<longrightarrow> S \<noteq> {}) \<and>
    (\<forall>k S. hb_userSubs (gw_hub g) k = Some S \<longrightarrow> S \<noteq> {} \<and> (\<forall>c \<in> S. cl_UserID (gw_store g c) \<noteq> '''')) \<and>
    (\<forall>c. length (cl_Send (gw_store g c)) \<le> 256) \<and> length (hb_commands (gw_hub g)) \<le> 256"
proof -
  from hub_reachable_ok[OF assms] have r: "refs_ok g" and z: "sizes_ok g" by simp_all
  from r have c: "\<forall>c. cl_Closed (gw_store g c) \<longrightarrow> c \<notin> hb_clients (gw_hub g) \<and> c \<notin> gw_readers g"
    by (auto simp: refs_ok_def)
  from r have u: "cl_UserID (gw_store g c) \<noteq> ''''" if "hb_userSubs (gw_hub g) k = Some S" "c \<in> S" for k S c
  proof -
    from that have "c \<in> members (hb_userSubs (gw_hub g))" unfolding member_iff by blast
    with r show ?thesis by (auto simp: refs_ok_def)
  qed
  from z have e: "S \<noteq> {}" if "hb_marketSubs (gw_hub g) k = Some S \<or> hb_userSubs (gw_hub g) k = Some S" for k S
    using that by (auto simp: sizes_ok_def ran_def)
  from z c u e show ?thesis by (simp add: sizes_ok_def sendBufferSize_def Hub_Clients_def) blast
qed

text \<open>A decoder for the examples: every frame subscribes to the topic it holds.\<close>

definition ex_unmarshal :: "string \<Rightarrow> string + WSMessage" where
  "ex_unmarshal data = Inr \<lparr>ws_Type = ''subscribe'', ws_Topic = data, ws_Payload = ''''\<rparr>"

definition ex_hub_run :: "action list" where
  "ex_hub_run = [Connect 1 ''a'' ''alice'', Connect 2 ''b'' '''', LoopRegister, LoopRegister,
     ReadFrame 1 ''market:m'', ReadFrame 2 ''market:m'', ReadFrame 1 ''user:bob'', ReadFrame 2 ''user:bob'',
     LoopCommand [], LoopCommand [], LoopCommand [], LoopCommand [], Publish True ''m'' ''trade'']"

definition ex_gateway :: gateway where
  "ex_gateway = the (perform_all ex_unmarshal ex_hub_run gateway_start)"

lemma ex_gateway_run: "perform_all ex_unmarshal ex_hub_run gateway_start = Some ex_gateway"
proof -
  have "perform_all ex_unmarshal ex_hub_run gateway_start \<noteq> None" by code_simp
  then show ?thesis by (simp add: ex_gateway_def)
qed

text \<open>Alice reads the channel of Bob; the client without a user id does not.\<close>

theorem hub_invariant_witness:
  "Hub_Clients (gw_hub ex_gateway) = 2 \<and> card (hb_clients (gw_hub ex_gateway)) = 2 \<and>
   hb_userSubs (gw_hub ex_gateway) ''bob'' = Some {1}"
proof -
  have "Hub_Clients (gw_hub ex_gateway) = 2" "hb_userSubs (gw_hub ex_gateway) ''bob'' = Some {1}" by code_simp+
  with hub_invariant[OF perform_all_reach[OF ex_gateway_run]] show ?thesis by simp
qed

text \<open>
  C24: as long as the loop takes no unregistration before the commands that client sent earlier,
  the process never panics, and no closed client stays subscribed to anything.
\<close>

theorem hub_in_order_never_panics:
  assumes "(ordered_step unmarshal)\<^sup>*\<^sup>* gateway_start g"
  shows "gw_status g \<noteq> Panicked \<and> (\<forall>c k S. cl_Closed (gw_store g c) \<longrightarrow>
    (hb_marketSubs (gw_hub g) k = Some S \<or> hb_userSubs (gw_hub g) k = Some S) \<longrightarrow> c \<notin> S)"
  using ordered_run_ok[OF assms] by (auto simp: closed_gone_def member_iff)

definition ex_leaves :: gateway where
  "ex_leaves = the (perform ex_unmarshal (ReadEnd 1) ex_gateway)"

definition ex_left :: gateway where
  "ex_left = the (perform ex_unmarshal (LoopCommand [1, 2]) ex_leaves)"

definition ex_gone :: gateway where
  "ex_gone = the (perform ex_unmarshal LoopUnregister ex_left)"

lemma perform_in_order:
  "perform_all unmarshal as g = Some g' \<Longrightarrow> LoopUnregister \<notin> set as \<Longrightarrow> (ordered_step unmarshal)\<^sup>*\<^sup>* g g'"
proof (induction "as" arbitrary: g)
  case (Cons a "as")
  then obtain g1 where "perform unmarshal a g = Some g1" "perform_all unmarshal as g1 = Some g'"
    by (auto split: bind_splits)
  moreover from Cons.prems have "in_order a g" by (auto simp: in_order_def)
  ultimately show ?case using Cons by (meson converse_rtranclp_into_rtranclp list.set_intros(2) ordered_step.ordered)
qed simp

text \<open>Alice leaves after the trade was delivered: she is closed and the other client stays subscribed.\<close>

theorem hub_in_order_never_panics_witness:
  "gw_status ex_gone \<noteq> Panicked \<and> cl_Closed (gw_store ex_gone 1) \<and> hb_marketSubs (gw_hub ex_gone) ''m'' = Some {2}"
proof -
  have "perform ex_unmarshal (ReadEnd 1) ex_gateway \<noteq> None" "perform ex_unmarshal (LoopCommand [1, 2]) ex_leaves \<noteq> None"
    "perform ex_unmarshal LoopUnregister ex_left \<noteq> None" by code_simp+
  then have steps: "perform ex_unmarshal (ReadEnd 1) ex_gateway = Some ex_leaves"
    "perform ex_unmarshal (LoopCommand [1, 2]) ex_leaves = Some ex_left" "perform ex_unmarshal LoopUnregister ex_left = Some ex_gone"
    by (simp_all add: ex_leaves_def ex_left_def ex_gone_def)
  have "in_order LoopUnregister ex_left" by code_simp
  with steps have "ordered_step ex_unmarshal ex_left ex_gone" by (rule_tac ordered_step.ordered)
  moreover have "(ordered_step ex_unmarshal)\<^sup>*\<^sup>* ex_gateway ex_left"
    by (rule perform_in_order[of _ "[ReadEnd 1, LoopCommand [1, 2]]"]) (simp_all add: steps del: One_nat_def)
  moreover have "(ordered_step ex_unmarshal)\<^sup>*\<^sup>* gateway_start ex_gateway"
    by (rule perform_in_order[OF ex_gateway_run]) (simp add: ex_hub_run_def)
  ultimately have "(ordered_step ex_unmarshal)\<^sup>*\<^sup>* gateway_start ex_gone" by (meson rtranclp.rtrancl_into_rtrancl rtranclp_trans)
  moreover have "cl_Closed (gw_store ex_gone 1)" "hb_marketSubs (gw_hub ex_gone) ''m'' = Some {2}" by code_simp+
  ultimately show ?thesis using hub_in_order_never_panics by blast
qed

text \<open>
  The loop does not ensure that order. A client that subscribes and then disconnects is
  unregistered, if the loop picks that channel first, before its subscription is made; the next trade
  of the market is then sent to a closed channel and the process panics. Likewise a client that
  disconnects before the loop has registered it stays registered for ever.
\<close>

theorem hub_races:
  assumes "unmarshal d = Inr \<lparr>ws_Type = ''subscribe'', ws_Topic = ''market:m'', ws_Payload = ''''\<rparr>" and "d \<noteq> ''''"
  shows "(\<exists>g. (hub_step unmarshal)\<^sup>*\<^sup>* gateway_start g \<and> gw_status g = Panicked) \<and>
    (\<exists>g. (hub_step unmarshal)\<^sup>*\<^sup>* gateway_start g \<and> gw_readers g = {} \<and> hb_register (gw_hub g) = [] \<and>
      hb_unregister (gw_hub g) = [] \<and> hb_commands (gw_hub g) = [] \<and> Hub_Clients (gw_hub g) = 1 \<and> \<not> cl_Closed (gw_store g 1))"
proof -
  let ?race = "[Connect 1 ''a'' ''alice'', LoopRegister, ReadFrame 1 d, ReadEnd 1, LoopUnregister, LoopCommand [],
      Publish True ''m'' ''trade'', LoopCommand [1]]"
  let ?leak = "[Connect 1 ''a'' ''alice'', ReadEnd 1, LoopUnregister, LoopRegister]"
  note defs = loop_defs perform_def gateway_start_def NewHub_def NewClient_def ParseWSMessage_def handleMessage_def
    handleSubscribe_def splitTopic_def SubscribeMarket_def send_command_def processCommand_def subscribers_def add_sub_def
    remove_all_def broadcast_def Hub_Clients_def
  have "\<exists>g. perform_all unmarshal ?race gateway_start = Some g \<and> gw_status g = Panicked"
    using assms by (simp add: defs)
  moreover have "\<exists>g. perform_all unmarshal ?leak gateway_start = Some g \<and> gw_readers g = {} \<and> hb_register (gw_hub g) = [] \<and>
      hb_unregister (gw_hub g) = [] \<and> hb_commands (gw_hub g) = [] \<and> Hub_Clients (gw_hub g) = 1 \<and> \<not> cl_Closed (gw_store g 1)"
    by (simp add: defs)
  ultimately show ?thesis by (meson perform_all_reach)
qed

theorem hub_races_witness:
  "\<exists>g. (hub_step ex_unmarshal)\<^sup>*\<^sup>* gateway_start g \<and> gw_status g = Panicked"
  using hub_races[of ex_unmarshal "''market:m''"] by (simp add: ex_unmarshal_def)

text \<open>
  A message for a market or a user reaches exactly the subscribers whose channel has room, in
  whatever order they are visited, unless one of them is closed: then the process panics.
\<close>

theorem broadcast_exact:
  assumes "Run_command order g = Some g'" and "hb_commands (gw_hub g) = cmd # cmds"
    and "hc_typ cmd \<in> {CmdBroadcastMarket, CmdBroadcastUser}"
  shows "if \<exists>c \<in> subscribers cmd (gw_hub g). cl_Closed (gw_store g c) then gw_status g' = Panicked
    else gw_status g' = gw_status g \<and> gw_hub g' = (gw_hub g)\<lparr>hb_commands := cmds\<rparr> \<and>
      (\<forall>c. cl_Send (gw_store g' c) =
        (if c \<in> subscribers cmd (gw_hub g) \<and> length (cl_Send (gw_store g c)) < 256 then cl_Send (gw_store g c) @ [hc_message cmd]
         else cl_Send (gw_store g c)))"
proof -
  from assms have d: "distinct order" and o: "set order = subscribers cmd (gw_hub g)"
    and g': "g' = broadcast (hc_message cmd) order (on_hub (\<lambda>h. h\<lparr>hb_commands := cmds\<rparr>) g)"
    by (auto simp: Run_command_def processCommand_def split: if_splits)
  show ?thesis unfolding g' o[symmetric] by (simp add: broadcast_def deliver_eq[OF d] sendBufferSize_def)
qed

theorem broadcast_exact_witness:
  "map_option (\<lambda>g. cl_Send (gw_store g 2)) (Run_command [2, 1] ex_gateway) = Some [''trade'']"
proof -
  obtain g' where r: "Run_command [2, 1] ex_gateway = Some g'" "cl_Send (gw_store ex_gateway 2) = []"
  proof -
    have "Run_command [2, 1] ex_gateway \<noteq> None" "cl_Send (gw_store ex_gateway 2) = []" by code_simp+
    with that show ?thesis by blast
  qed
  obtain cmd where q: "hb_commands (gw_hub ex_gateway) = [cmd]" and c: "hc_typ cmd = CmdBroadcastMarket" "hc_message cmd = ''trade''"
    "subscribers cmd (gw_hub ex_gateway) = {1, 2}"
  proof -
    let ?cmd = "hd (hb_commands (gw_hub ex_gateway))"
    have "hb_commands (gw_hub ex_gateway) = [?cmd]" "hc_typ ?cmd = CmdBroadcastMarket" "hc_message ?cmd = ''trade''"
      "subscribers ?cmd (gw_hub ex_gateway) = {1, 2}" by code_simp+
    then show ?thesis using that by blast
  qed
  have "\<not> cl_Closed (gw_store ex_gateway 1)" "\<not> cl_Closed (gw_store ex_gateway 2)" by code_simp+
  with broadcast_exact[OF r(1) q] c r show ?thesis by auto
qed

end
