(* ===== verification/Redis.thy ===== *)
theory Redis
  imports Repos
begin

text \<open>
  The Redis server as the services use it, through \<open>infra/redis\<close>: values and counters with a time
  to live. A command may fail; it is then not executed. \<open>session_store.go\<close> and
  \<open>rate_limiter.go\<close> follow. Instants and durations are nanoseconds.
\<close>

section \<open>The server\<close>

record redis =
  rd_values :: "string \<rightharpoonup> string \<times> time"
  rd_counters :: "string \<rightharpoonup> int \<times> time option"

text \<open>A key is there as long as its time to live has not passed.\<close>

definition redis_GET :: "string \<Rightarrow> time \<Rightarrow> redis \<Rightarrow> string option" where
  "redis_GET key t r = (case rd_values r key of None \<Rightarrow> None | Some (v, dies) \<Rightarrow> if t < dies then Some v else None)"

definition redis_SET :: "string \<Rightarrow> string \<Rightarrow> time \<Rightarrow> time \<Rightarrow> redis \<Rightarrow> redis" where
  "redis_SET key v ttl t r = r\<lparr>rd_values := (rd_values r)(key \<mapsto> (v, t + ttl))\<rparr>"

definition redis_DEL :: "string \<Rightarrow> redis \<Rightarrow> redis" where
  "redis_DEL key r = r\<lparr>rd_values := (rd_values r)(key := None)\<rparr>"

definition live_counter :: "string \<Rightarrow> time \<Rightarrow> redis \<Rightarrow> (int \<times> time option) option" where
  "live_counter key t r =
     (case rd_counters r key of
        None \<Rightarrow> None
      | Some (n, None) \<Rightarrow> Some (n, None)
      | Some (n, Some dies) \<Rightarrow> if t < dies then Some (n, Some dies) else None)"

definition redis_INCR :: "string \<Rightarrow> time \<Rightarrow> redis \<Rightarrow> int \<times> redis" where
  "redis_INCR key t r =
     (let (n, dies) = (case live_counter key t r of None \<Rightarrow> (0, None) | Some e \<Rightarrow> e)
      in (n + 1, r\<lparr>rd_counters := (rd_counters r)(key \<mapsto> (n + 1, dies))\<rparr>))"

definition redis_EXPIRE :: "string \<Rightarrow> time \<Rightarrow> time \<Rightarrow> redis \<Rightarrow> redis" where
  "redis_EXPIRE key ttl t r =
     (case live_counter key t r of
        None \<Rightarrow> r | Some (n, _) \<Rightarrow> r\<lparr>rd_counters := (rd_counters r)(key \<mapsto> (n, Some (t + ttl)))\<rparr>)"

text \<open>A command sent to the server: it fails, or it is executed at the time of the server.\<close>

type_synonym 'a rop = "(world \<times> redis, err, 'a) comp"

definition redis_cmd :: "(time \<Rightarrow> redis \<Rightarrow> 'a \<times> redis) \<Rightarrow> 'a rop" where
  "redis_cmd f = (\<lambda>(w, r).
     let (bad, w1) = next_fault w in
     if bad then (Inl DriverError, (w1, r))
     else let (t, w2) = time_now w1; (x, r') = f t r in (Inr x, (w2, r')))"

section \<open>Sessions\<close>

definition SessionStore_Set :: "string \<Rightarrow> string \<Rightarrow> time \<Rightarrow> unit rop" where
  "SessionStore_Set token userID ttl = redis_cmd (\<lambda>t r. ((), redis_SET (''session:'' @ token) userID ttl t r))"

definition SessionStore_Get :: "string \<Rightarrow> string rop" where
  "SessionStore_Get token =
     bnd (redis_cmd (\<lambda>t r. (redis_GET (''session:'' @ token) t r, r))) (\<lambda>v.
     case v of None \<Rightarrow> fail (Errorf ''session not found'' None) | Some x \<Rightarrow> ret x)"

definition SessionStore_Delete :: "string \<Rightarrow> unit rop" where
  "SessionStore_Delete token = redis_cmd (\<lambda>t r. ((), redis_DEL (''session:'' @ token) r))"

section \<open>Rate limits\<close>

definition RateLimiter_Allow :: "string \<Rightarrow> int \<Rightarrow> time \<Rightarrow> bool rop" where
  "RateLimiter_Allow key limit window =
     bnd (redis_cmd (redis_INCR (''ratelimit:'' @ key))) (\<lambda>count.
     andthen (if count = 1 then redis_cmd (\<lambda>t r. ((), redis_EXPIRE (''ratelimit:'' @ key) window t r)) else ret ())
       (ret (count \<le> limit)))"

end
