(* ===== verification/Encoding.thy ===== *)
theory Encoding
  imports Prelude
begin

text \<open>
  The encodings of bytes as text that the authentication service uses: \<open>encoding/hex\<close> and
  \<open>base64.RawURLEncoding\<close> of the standard library, and its splitting of strings. A Go string is a
  list of bytes, which is what a character of HOL is.
\<close>

section \<open>Hexadecimal\<close>

definition hex_digit :: "nat \<Rightarrow> char" where
  "hex_digit d = (if d < 10 then char_of (48 + d) else char_of (87 + d))"

definition hex_EncodeToString :: "string \<Rightarrow> string" where
  "hex_EncodeToString bs = concat (map (\<lambda>c. [hex_digit (of_char c div 16), hex_digit (of_char c mod 16)]) bs)"

lemma length_hex [simp]: "length (hex_EncodeToString bs) = 2 * length bs"
  by (induction bs) (simp_all add: hex_EncodeToString_def)

lemma of_char_256: "(of_char c :: nat) < 256"
proof -
  have "(of_char c :: nat) = of_char (char_of (of_char c :: nat))" by simp
  also have "\<dots> = of_char c mod 256" by (simp only: of_char_of)
  finally show ?thesis by (metis mod_less_divisor zero_less_numeral)
qed

lemma hex_digit_code: "d < 16 \<Longrightarrow> of_char (hex_digit d) = (if d < 10 then 48 + d else 87 + d)"
proof -
  assume "d < 16"
  then have "(48 + d) mod 256 = 48 + d" "(87 + d) mod 256 = 87 + d" by simp_all
  then show ?thesis unfolding hex_digit_def by (simp only: of_char_of if_distrib[where f = of_char])
qed

lemma hex_digit_inject: "d < 16 \<Longrightarrow> e < 16 \<Longrightarrow> hex_digit d = hex_digit e \<longleftrightarrow> d = e"
proof -
  assume "d < 16" "e < 16"
  then have "d = e" if "(of_char (hex_digit d) :: nat) = of_char (hex_digit e)"
    using that unfolding hex_digit_code[OF \<open>d < 16\<close>] hex_digit_code[OF \<open>e < 16\<close>] by (simp split: if_split_asm)
  then show ?thesis by auto
qed

lemma hex_inject: "hex_EncodeToString xs = hex_EncodeToString ys \<longleftrightarrow> xs = ys"
proof (induction xs arbitrary: ys)
  case Nil
  then show ?case by (cases ys) (simp_all add: hex_EncodeToString_def)
next
  case (Cons x xs)
  show ?case
  proof (cases ys)
    case Nil
    then show ?thesis by (simp add: hex_EncodeToString_def)
  next
    case (Cons y zs)
    have "hex_digit (of_char x div 16) = hex_digit (of_char y div 16) \<longleftrightarrow> (of_char x :: nat) div 16 = of_char y div 16"
      and "hex_digit (of_char x mod 16) = hex_digit (of_char y mod 16) \<longleftrightarrow> (of_char x :: nat) mod 16 = of_char y mod 16"
      using of_char_256[of x] of_char_256[of y] by (simp_all add: hex_digit_inject div_less_iff_less_mult)
    moreover have "x = y" if "(of_char x :: nat) div 16 = of_char y div 16" "(of_char x :: nat) mod 16 = of_char y mod 16"
      using that by (metis div_mult_mod_eq of_char_eq_iff)
    ultimately show ?thesis using Cons Cons.IH[of zs] by (auto simp: hex_EncodeToString_def)
  qed
qed

section \<open>Base 64\<close>

text \<open>The digits are the letters, small letters and decimal digits, the dash and the underscore.\<close>

definition base64_digit :: "nat \<Rightarrow> char" where
  "base64_digit n =
     (let d = n mod 64 in
      if d < 26 then char_of (65 + d) else if d < 52 then char_of (71 + d) else if d < 62 then char_of (d - 4)
      else if d = 62 then CHR ''-'' else CHR ''_'')"

definition base64_value :: "char \<Rightarrow> nat option" where
  "base64_value c =
     (let n = of_char c in
      if 65 \<le> n \<and> n \<le> 90 then Some (n - 65) else if 97 \<le> n \<and> n \<le> 122 then Some (n - 71)
      else if 48 \<le> n \<and> n \<le> 57 then Some (n + 4) else if c = CHR ''-'' then Some 62
      else if c = CHR ''_'' then Some 63 else None)"

fun base64URLEncode :: "string \<Rightarrow> string" where
  "base64URLEncode [] = []"
| "base64URLEncode [a] =
     (let v = of_char a * 65536 in [base64_digit (v div 262144), base64_digit (v div 4096)])"
| "base64URLEncode [a, b] =
     (let v = of_char a * 65536 + of_char b * 256
      in [base64_digit (v div 262144), base64_digit (v div 4096), base64_digit (v div 64)])"
| "base64URLEncode (a # b # c # bs) =
     (let v = of_char a * 65536 + of_char b * 256 + of_char c
      in base64_digit (v div 262144) # base64_digit (v div 4096) # base64_digit (v div 64) # base64_digit v
         # base64URLEncode bs)"

text \<open>
  The decoder skips line ends, refuses other characters outside the alphabet and a single left-over
  digit, and does not look at the unused bits of the last group.
\<close>

fun base64_bytes :: "nat list \<Rightarrow> string option" where
  "base64_bytes [] = Some []"
| "base64_bytes [_] = None"
| "base64_bytes [p, q] = (let v = p * 262144 + q * 4096 in Some [char_of (v div 65536)])"
| "base64_bytes [p, q, r] =
     (let v = p * 262144 + q * 4096 + r * 64 in Some [char_of (v div 65536), char_of (v div 256)])"
| "base64_bytes (p # q # r # t # ds) =
     (let v = p * 262144 + q * 4096 + r * 64 + t
      in map_option (\<lambda>bs. char_of (v div 65536) # char_of (v div 256) # char_of v # bs) (base64_bytes ds))"

definition base64_DecodeString :: "string \<Rightarrow> string option" where
  "base64_DecodeString s =
     Option.bind (those (map base64_value (filter (\<lambda>c. c \<noteq> CHR 0x0A \<and> c \<noteq> CHR 0x0D) s))) base64_bytes"

lemma base64_digit_code:
  "of_char (base64_digit n) = (let d = n mod 64 in
     if d < 26 then 65 + d else if d < 52 then 71 + d else if d < 62 then d - 4 else if d = 62 then 45 else 95)"
proof -
  have d: "n mod 64 < 64" by simp
  then have "(65 + n mod 64) mod 256 = 65 + n mod 64" "(71 + n mod 64) mod 256 = 71 + n mod 64"
    "(n mod 64 - 4) mod 256 = n mod 64 - 4" by simp_all
  moreover have "of_char (CHR ''-'') = (45::nat)" "of_char (CHR ''_'') = (95::nat)" by simp_all
  ultimately show ?thesis unfolding base64_digit_def Let_def by (simp only: of_char_of if_distrib[where f = of_char])
qed

lemma base64_value_code: "base64_value c =
     (let n = of_char c in
      if 65 \<le> n \<and> n \<le> 90 then Some (n - 65) else if 97 \<le> n \<and> n \<le> 122 then Some (n - 71)
      else if 48 \<le> n \<and> n \<le> 57 then Some (n + 4) else if n = 45 then Some 62
      else if n = 95 then Some 63 else None)"
proof -
  have "of_char (CHR ''-'') = (45::nat)" "of_char (CHR ''_'') = (95::nat)" by simp_all
  then have "c = CHR ''-'' \<longleftrightarrow> of_char c = (45::nat)" "c = CHR ''_'' \<longleftrightarrow> of_char c = (95::nat)"
    by (metis of_char_eq_iff)+
  then show ?thesis unfolding base64_value_def Let_def by simp
qed

lemma base64_digit_value: "base64_value (base64_digit n) = Some (n mod 64)"
proof -
  have "n mod 64 < 64" by simp
  then show ?thesis unfolding base64_value_code base64_digit_code Let_def by (auto split: if_splits)
qed

lemma base64_value_char: "base64_value c = Some d \<Longrightarrow> c \<notin> {CHR 0x0A, CHR 0x0D, CHR ''.''}"
  by (auto simp: base64_value_def)

lemma base64_digit_char [simp]:
  "base64_digit n \<noteq> CHR 0x0A" "base64_digit n \<noteq> CHR 0x0D" "base64_digit n \<noteq> CHR ''.''"
  using base64_value_char[OF base64_digit_value[of n]] by auto

lemma base64_split:
  fixes v :: nat
  assumes "v < 16777216"
  shows "(v div 262144 mod 64) * 262144 + (v div 4096 mod 64) * 4096 + (v div 64 mod 64) * 64 + v mod 64 = v"
proof -
  have a: "v div 4096 = v div 64 div 64" "v div 262144 = v div 64 div 64 div 64" by (simp_all add: div_mult2_eq[symmetric])
  have "v div 64 div 64 div 64 mod 64 = v div 64 div 64 div 64" using assms by (simp add: div_mult2_eq[symmetric] less_mult_imp_div_less)
  moreover note div_mult_mod_eq[of v 64] div_mult_mod_eq[of "v div 64" 64] div_mult_mod_eq[of "v div 64 div 64" 64]
  ultimately show ?thesis unfolding a by linarith
qed

lemma base64_group:
  fixes a b c :: nat
  assumes "a < 256" and "b < 256" and "c < 256"
  shows "(a * 65536 + b * 256 + c) div 65536 = a" "(a * 65536 + b * 256 + c) div 256 mod 256 = b"
    "(a * 65536 + b * 256 + c) mod 256 = c" "a * 65536 + b * 256 + c < 16777216"
proof -
  have "b * 256 + c < 65536" using assms by linarith
  then show "(a * 65536 + b * 256 + c) div 65536 = a" by (simp add: add.assoc)
  have "(a * 65536 + b * 256 + c) div 256 = a * 256 + b"
    using div_mult_self1[of 256 c "a * 256 + b"] assms(3) by (simp add: algebra_simps)
  then show "(a * 65536 + b * 256 + c) div 256 mod 256 = b" using assms(2) by simp
  have "(a * 65536 + b * 256 + c) = c + (a * 256 + b) * 256" by simp
  then show "(a * 65536 + b * 256 + c) mod 256 = c" using assms(3) by (simp only: mod_mult_self1) simp
  show "a * 65536 + b * 256 + c < 16777216" using assms by linarith
qed

lemma char_of_of_char_mod: "n mod 256 = of_char c \<Longrightarrow> char_of (n::nat) = c"
  by (metis char_of_mod_256 char_of_char)

lemma base64_chars: "c \<in> set (base64URLEncode bs) \<Longrightarrow> \<exists>n. c = base64_digit n"
  by (induction bs rule: base64URLEncode.induct) (auto simp: Let_def)

lemma base64_no_dot: "CHR ''.'' \<notin> set (base64URLEncode bs)"
  using base64_chars[of "CHR ''.''" bs] base64_digit_char(3) by metis

lemma base64_filter:
  "filter (\<lambda>c. c \<noteq> CHR 0x0A \<and> c \<noteq> CHR 0x0D) (base64URLEncode bs) = base64URLEncode bs"
proof (rule filter_True, rule ballI)
  fix c assume "c \<in> set (base64URLEncode bs)"
  then obtain n where "c = base64_digit n" using base64_chars by blast
  then show "c \<noteq> CHR 0x0A \<and> c \<noteq> CHR 0x0D" by simp
qed

lemma base64_zero_digits:
  fixes a b :: nat
  shows "(a * 65536) div 64 mod 64 = 0" "(a * 65536) mod 64 = 0" "(a * 65536 + b * 256) mod 64 = 0"
proof -
  have "a * 65536 = (a * 1024) * 64" "a * 65536 + b * 256 = (a * 1024 + b * 4) * 64" by simp_all
  then show "(a * 65536) mod 64 = 0" "(a * 65536 + b * 256) mod 64 = 0" by (metis mod_mult_self2_is_0)+
  have "(a * 65536) div 64 = (a * 16) * 64" by simp
  then show "(a * 65536) div 64 mod 64 = 0" by (metis mod_mult_self2_is_0)
qed

lemma base64_bytes_encode:
  "\<exists>ds. those (map base64_value (base64URLEncode bs)) = Some ds \<and> base64_bytes ds = Some bs"
proof (induction bs rule: base64URLEncode.induct)
  case (2 a)
  let ?v = "of_char a * 65536 :: nat"
  note g = base64_group[of "of_char a" 0 0, OF of_char_256]
  have "?v < 16777216" using of_char_256[of a] by linarith
  from base64_split[OF this] have v: "(?v div 262144 mod 64) * 262144 + (?v div 4096 mod 64) * 4096 = ?v"
    by (simp only: base64_zero_digits mult_zero_left add_0_right)
  have c: "char_of (?v div 65536) = a" using g(1) by simp
  have "base64_bytes [?v div 262144 mod 64, ?v div 4096 mod 64] = Some [a]" by (simp only: base64_bytes.simps Let_def v c)
  then show ?case by (simp add: Let_def base64_digit_value del: base64_bytes.simps)
next
  case (3 a b)
  let ?v = "of_char a * 65536 + of_char b * 256 :: nat"
  note g = base64_group[of "of_char a" "of_char b" 0, OF of_char_256 of_char_256]
  have "?v < 16777216" using of_char_256[of a] of_char_256[of b] by linarith
  from base64_split[OF this] have v: "(?v div 262144 mod 64) * 262144 + (?v div 4096 mod 64) * 4096 + (?v div 64 mod 64) * 64 = ?v"
    by (simp only: base64_zero_digits add_0_right)
  have c: "char_of (?v div 65536) = a" "char_of (?v div 256) = b" using g(1,2) by (auto intro!: char_of_of_char_mod)
  have "base64_bytes [?v div 262144 mod 64, ?v div 4096 mod 64, ?v div 64 mod 64] = Some [a, b]"
    by (simp only: base64_bytes.simps Let_def v c)
  then show ?case by (simp add: Let_def base64_digit_value del: base64_bytes.simps)
next
  case (4 a b c bs)
  let ?v = "of_char a * 65536 + of_char b * 256 + of_char c :: nat"
  note g = base64_group[of "of_char a" "of_char b" "of_char c", OF of_char_256 of_char_256 of_char_256]
  note v = base64_split[OF g(4)]
  have cs: "char_of (?v div 65536) = a" "char_of (?v div 256) = b" "char_of ?v = c"
    using g(1-3) by (auto intro!: char_of_of_char_mod)
  from 4 obtain ds where ds: "those (map base64_value (base64URLEncode bs)) = Some ds" "base64_bytes ds = Some bs" by blast
  have "base64_bytes (?v div 262144 mod 64 # ?v div 4096 mod 64 # ?v div 64 mod 64 # ?v mod 64 # ds) = Some (a # b # c # bs)"
    by (simp only: base64_bytes.simps Let_def v cs ds option.map)
  with ds(1) show ?case by (simp add: Let_def base64_digit_value del: base64_bytes.simps)
qed simp

text \<open>What was encoded is decoded.\<close>

lemma base64_roundtrip: "base64_DecodeString (base64URLEncode bs) = Some bs"
  using base64_bytes_encode[of bs] by (auto simp: base64_DecodeString_def base64_filter)

section \<open>Splitting\<close>

text \<open>\<open>strings.SplitN\<close> at a single character into at most \<open>n + 1\<close> parts.\<close>

fun SplitN :: "char \<Rightarrow> nat \<Rightarrow> string \<Rightarrow> string list" where
  "SplitN c 0 s = [s]"
| "SplitN c (Suc n) s =
     (if c \<in> set s then takeWhile (\<lambda>x. x \<noteq> c) s # SplitN c n (tl (dropWhile (\<lambda>x. x \<noteq> c) s)) else [s])"

lemma SplitN_append: "c \<notin> set xs \<Longrightarrow> SplitN c (Suc n) (xs @ c # ys) = xs # SplitN c n ys"
proof -
  assume "c \<notin> set xs"
  then have "takeWhile (\<lambda>x. x \<noteq> c) (xs @ c # ys) = xs" "dropWhile (\<lambda>x. x \<noteq> c) (xs @ c # ys) = c # ys"
    by (subst takeWhile_append2 dropWhile_append2; auto)+
  then show ?thesis by simp
qed

text \<open>\<open>strings.Split\<close> at a character, \<open>strings.TrimSpace\<close> on ASCII, prefixes and suffixes.\<close>

function Split :: "char \<Rightarrow> string \<Rightarrow> string list" where
  "Split c s = (if c \<in> set s then takeWhile (\<lambda>x. x \<noteq> c) s # Split c (tl (dropWhile (\<lambda>x. x \<noteq> c) s)) else [s])"
  by auto
termination
proof (relation "measure (\<lambda>(c, s). length s)")
  show "((c, tl (dropWhile (\<lambda>x. x \<noteq> c) s)), c, s) \<in> measure (\<lambda>(c, s). length s)" if "c \<in> set s" for c s
    using that length_dropWhile_le[of "\<lambda>x. x \<noteq> c" s] by (cases s) (auto simp: less_Suc_eq_le le_diff_conv)
qed simp

declare Split.simps [simp del]

definition is_space :: "char \<Rightarrow> bool" where
  "is_space c \<longleftrightarrow> c \<in> set [CHR 0x09, CHR 0x0A, CHR 0x0B, CHR 0x0C, CHR 0x0D, CHR '' '']"

definition TrimSpace :: "string \<Rightarrow> string" where
  "TrimSpace s = rev (dropWhile is_space (rev (dropWhile is_space s)))"

definition HasPrefix :: "string \<Rightarrow> string \<Rightarrow> bool" where
  "HasPrefix s p \<longleftrightarrow> take (length p) s = p"

definition TrimPrefix :: "string \<Rightarrow> string \<Rightarrow> string" where
  "TrimPrefix s p = (if HasPrefix s p then drop (length p) s else s)"

definition HasSuffix :: "string \<Rightarrow> string \<Rightarrow> bool" where
  "HasSuffix s p \<longleftrightarrow> length p \<le> length s \<and> drop (length s - length p) s = p"

end
