(* ===== verification/Auth.thy ===== *)
theory Auth
  imports Redis Encoding
begin

text \<open>
  The authentication service: \<open>services/auth-svc/internal/service/auth.go\<close> and \<open>apikey.go\<close>, and
  the table of API keys (\<open>infra/postgres/apikey_repo.go\<close>). The keyed hash, the hash and the
  encoding of JSON are arguments.
\<close>

section \<open>The state of the service\<close>

record APIKey =
  ak_ID :: string
  ak_UserID :: string
  ak_KeyHash :: string
  ak_KeyPrefix :: string
  ak_IsActive :: bool
  ak_ExpiresAt :: "time option"
  ak_CreatedAt :: time

text \<open>Beside the tables of the platform: the keys, the sessions and the source of random bytes.\<close>

record 'd auth_node = "'d node" +
  an_keys :: "APIKey list"
  an_redis :: redis
  an_random :: "nat \<Rightarrow> nat \<Rightarrow> char"
  an_nrandom :: nat

type_synonym ('d, 'a) aop = "('d auth_node, err, 'a) comp"

definition with_redis :: "'a rop \<Rightarrow> ('d, 'a) aop" where
  "with_redis m s = (let (x, (w, r)) = m (n_world s, an_redis s) in (x, s\<lparr>n_world := w, an_redis := r\<rparr>))"

definition rand_Read :: "nat \<Rightarrow> ('d, string) aop" where
  "rand_Read n s =
     (let (bad, w) = next_fault (n_world s) in
      if bad then (Inl DriverError, s\<lparr>n_world := w\<rparr>)
      else (Inr (map (an_random s (an_nrandom s)) [0..<n]), s\<lparr>n_world := w, an_nrandom := Suc (an_nrandom s)\<rparr>))"

text \<open>An error wrapped with a text.\<close>

definition wrapped :: "string \<Rightarrow> ('s, err, 'a) comp \<Rightarrow> ('s, err, 'a) comp" where
  "wrapped what m = handle m (\<lambda>e. fail (Errorf what (Some e)))"

section \<open>The table of keys\<close>

definition key_statement ::
    "string \<Rightarrow> ('d DB \<Rightarrow> APIKey list \<Rightarrow> bool) \<Rightarrow> (APIKey list \<Rightarrow> 'a \<times> APIKey list) \<Rightarrow> ('d, 'a) aop" where
  "key_statement what ok f s =
     (let (bad, w) = next_fault (n_world s) in
      if bad \<or> \<not> ok (n_db s) (an_keys s) then (Inl (Errorf what (Some DriverError)), s\<lparr>n_world := w\<rparr>)
      else let (x, keys) = f (an_keys s) in (Inr x, s\<lparr>n_world := w, an_keys := keys\<rparr>))"

definition APIKeyRepo_Create :: "APIKey \<Rightarrow> ('d, unit) aop" where
  "APIKeyRepo_Create key =
     key_statement ''postgres: create api key''
       (\<lambda>db keys. ak_ID key \<notin> ak_ID ` set keys \<and> ak_KeyHash key \<notin> ak_KeyHash ` set keys \<and>
          ak_UserID key \<in> u_ID ` set (db_users db) \<and> length (ak_KeyHash key) \<le> 64 \<and> length (ak_KeyPrefix key) \<le> 10)
       (\<lambda>keys. ((), keys @ [key]))"

definition APIKeyRepo_GetByHash :: "string \<Rightarrow> ('d, APIKey) aop" where
  "APIKeyRepo_GetByHash hash =
     bnd (key_statement ''postgres: get api key by hash'' (\<lambda>_ _. True) (\<lambda>keys. (find (\<lambda>k. ak_KeyHash k = hash) keys, keys)))
       (\<lambda>row. case row of None \<Rightarrow> fail (Errorf ''postgres: get api key by hash'' (Some ErrNoRows)) | Some k \<Rightarrow> ret k)"

definition APIKeyRepo_ListByUser :: "string \<Rightarrow> ('d, APIKey list) aop" where
  "APIKeyRepo_ListByUser userID =
     key_statement ''postgres: list api keys by user'' (\<lambda>_ _. True)
       (\<lambda>keys. (sort_key (\<lambda>k. - ak_CreatedAt k) (filter (\<lambda>k. ak_UserID k = userID) keys), keys))"

definition revoke_key :: "string \<Rightarrow> APIKey list \<Rightarrow> APIKey list" where
  "revoke_key i = map (\<lambda>k. if ak_ID k = i then k\<lparr>ak_IsActive := False\<rparr> else k)"

definition APIKeyRepo_Revoke :: "string \<Rightarrow> ('d, unit) aop" where
  "APIKeyRepo_Revoke i =
     bnd (key_statement ''postgres: revoke api key'' (\<lambda>_ _. True)
            (\<lambda>keys. (count_where (\<lambda>k. ak_ID k = i) keys, revoke_key i keys)))
       (\<lambda>n. check (n \<noteq> 0) (Errorf ''postgres: revoke api key'' (Some ErrNoRows)))"

section \<open>Nonces\<close>

definition extractNonce :: "string \<Rightarrow> err + string" where
  "extractNonce message =
     (case find (\<lambda>line. HasPrefix line ''Nonce: '') (map TrimSpace (Split CHR 0x0A message)) of
        None \<Rightarrow> Inl (Errorf ''nonce not found in SIWE message'' None)
      | Some line \<Rightarrow>
          let nonce = TrimSpace (TrimPrefix line ''Nonce: '') in
          if nonce = '''' then Inl (Errorf ''empty nonce in SIWE message'' None) else Inr nonce)"

definition minutes :: "int \<Rightarrow> time" where
  "minutes n = n * 60 * 10 ^ 9"

definition GenerateNonce :: "('d, string) aop" where
  "GenerateNonce =
     bnd (wrapped ''failed to generate random nonce'' (rand_Read 32)) (\<lambda>nonceBytes.
     let nonce = hex_EncodeToString nonceBytes in
     andthen (wrapped ''failed to store nonce'' (with_redis (SessionStore_Set (''nonce:'' @ nonce) ''pending'' (minutes 5))))
       (ret nonce))"

section \<open>Tokens\<close>

text \<open>Decoded JSON as the code looks at it; a number is a floating-point number, hence rational.\<close>

datatype jvalue = JString string | JNumber rat | JOther

record jwt_env =
  je_secret :: string
  je_hmac :: "string \<Rightarrow> string \<Rightarrow> string"
  je_marshal :: "(string \<times> jvalue) list \<Rightarrow> string option"
  je_unmarshal :: "string \<Rightarrow> (string \<rightharpoonup> jvalue) option"

text \<open>Seconds since 1970, and the conversion of a floating-point number to an integer.\<close>

definition unix :: "time \<Rightarrow> int" where
  "unix t = t div 10 ^ 9"

definition int64_of_float :: "rat \<Rightarrow> int" where
  "int64_of_float x = (if 0 \<le> x then \<lfloor>x\<rfloor> else \<lceil>x\<rceil>)"

definition jwtHeader :: string where
  "jwtHeader = base64URLEncode (''{'' @ [CHR 0x22] @ ''alg'' @ [CHR 0x22] @ '':'' @ [CHR 0x22] @ ''HS256'' @ [CHR 0x22] @
     '','' @ [CHR 0x22] @ ''typ'' @ [CHR 0x22] @ '':'' @ [CHR 0x22] @ ''JWT'' @ [CHR 0x22] @ ''}'')"

definition token_signature :: "jwt_env \<Rightarrow> string \<Rightarrow> string" where
  "token_signature env signingInput = base64URLEncode (je_hmac env (je_secret env) signingInput)"

definition generateJWT :: "jwt_env \<Rightarrow> string \<Rightarrow> ('d, 'z, string) dbop" where
  "generateJWT env userID =
     bnd now (\<lambda>t1. bnd now (\<lambda>t2.
     case je_marshal env [(''exp'', JNumber (of_int (unix (t1 + minutes (24 * 60))))), (''iat'', JNumber (of_int (unix t2))),
        (''sub'', JString userID)] of
       None \<Rightarrow> fail (Errorf ''failed to marshal JWT payload'' (Some DriverError))
     | Some payloadBytes \<Rightarrow>
         let signingInput = jwtHeader @ ''.'' @ base64URLEncode payloadBytes
         in ret (signingInput @ ''.'' @ token_signature env signingInput)))"

definition unauthorized :: "string \<Rightarrow> ('s, err, 'a) comp" where
  "unauthorized msg = fail (app_new ''UNAUTHORIZED'' msg)"

text \<open>The checks of a token up to the user id in it.\<close>

definition token_claims :: "jwt_env \<Rightarrow> string \<Rightarrow> ('s, err, string \<rightharpoonup> jvalue) comp" where
  "token_claims env token =
     (case SplitN CHR ''.'' 2 token of
        [header, payload, sig] \<Rightarrow>
          if sig \<noteq> token_signature env (header @ ''.'' @ payload) then unauthorized ''invalid token signature''
          else (case base64_DecodeString payload of
            None \<Rightarrow> unauthorized ''invalid token payload''
          | Some payloadBytes \<Rightarrow>
              (case je_unmarshal env payloadBytes of
                 None \<Rightarrow> unauthorized ''invalid token claims'' | Some claims \<Rightarrow> ret claims))
      | _ \<Rightarrow> unauthorized ''invalid token format'')"

definition token_expired :: "(string \<rightharpoonup> jvalue) \<Rightarrow> ('d, 'z, unit) dbop" where
  "token_expired claims =
     (case claims ''exp'' of
        None \<Rightarrow> unauthorized ''token missing exp claim''
      | Some (JNumber x) \<Rightarrow> bnd now (\<lambda>t. if unix t > int64_of_float x then unauthorized ''token expired'' else ret ())
      | Some _ \<Rightarrow> unauthorized ''invalid exp claim'')"

definition token_subject :: "(string \<rightharpoonup> jvalue) \<Rightarrow> ('s, err, string) comp" where
  "token_subject claims =
     (case claims ''sub'' of
        None \<Rightarrow> unauthorized ''token missing sub claim''
      | Some (JString userID) \<Rightarrow> if userID = '''' then unauthorized ''invalid sub claim'' else ret userID
      | Some _ \<Rightarrow> unauthorized ''invalid sub claim'')"

definition ValidateToken :: "jwt_env \<Rightarrow> string \<Rightarrow> ('d, 'z, 'd User) dbop" where
  "ValidateToken env token =
     bnd (token_claims env token) (\<lambda>claims.
     andthen (token_expired claims)
     (bnd (token_subject claims) (\<lambda>userID.
      handle (UserRepo_GetByID userID) (\<lambda>e.
        if IsNotFound e then unauthorized ''user not found'' else fail (Errorf ''failed to look up user'' (Some e))))))"

definition Auth_GetUser :: "string \<Rightarrow> ('d, 'z, 'd User) dbop" where
  "Auth_GetUser userID = UserRepo_GetByID userID"

section \<open>Sign-in\<close>

definition auth_generateID :: "('d, string) aop" where
  "auth_generateID = bnd (rand_Read 16) (\<lambda>b. ret (hex_EncodeToString b))"

definition create_user :: "string \<Rightarrow> ('d::linordered_field, 'd User) aop" where
  "create_user walletAddress =
     bnd (wrapped ''failed to generate user ID'' auth_generateID) (\<lambda>userID.
     bnd now (\<lambda>t.
     let user = \<lparr>u_ID = userID, u_WalletAddress = walletAddress, u_UserType = Human, u_Balance = InitialBalance,
                 u_LockedBalance = 0, u_IsAdmin = False, u_CreatedAt = t\<rparr>
     in andthen (wrapped ''failed to create user'' (UserRepo_Create user)) (ret user)))"

definition take_nonce :: "string \<Rightarrow> ('d, unit) aop" where
  "take_nonce message =
     (case extractNonce message of
        Inl e \<Rightarrow> fail (app_wrap e ''UNAUTHORIZED'' ''invalid SIWE message: missing nonce'')
      | Inr nonce \<Rightarrow>
          andthen (handle (with_redis (SessionStore_Get (''nonce:'' @ nonce))) (\<lambda>e. unauthorized ''invalid or expired nonce''))
            (handle (with_redis (SessionStore_Delete (''nonce:'' @ nonce))) (\<lambda>e. ret ())))"

definition VerifySIWE :: "jwt_env \<Rightarrow> string \<Rightarrow> string \<Rightarrow> string \<Rightarrow> ('d::linordered_field, 'd User \<times> string) aop" where
  "VerifySIWE env message signature walletAddress =
     andthen (take_nonce message)
     (andthen (if signature = '''' \<or> HasSuffix signature ''_bad'' then unauthorized ''invalid signature'' else ret ())
     (bnd (handle (UserRepo_GetByWallet walletAddress) (\<lambda>e.
             if \<not> IsNotFound e then fail (Errorf ''failed to look up user by wallet'' (Some e))
             else create_user walletAddress)) (\<lambda>user.
      bnd (wrapped ''failed to generate JWT'' (generateJWT env (u_ID user))) (\<lambda>token.
      ret (user, token)))))"

section \<open>API keys\<close>

text \<open>\<open>hash\<close> stands for SHA-256; the keys are stored under its hexadecimal text.\<close>

definition GenerateAPIKey :: "(string \<Rightarrow> string) \<Rightarrow> string \<Rightarrow> string \<Rightarrow> ('d, string \<times> APIKey) aop" where
  "GenerateAPIKey hash userID label =
     bnd (wrapped ''failed to generate random key'' (rand_Read 24)) (\<lambda>randomBytes.
     let rawKey = ''tm_'' @ hex_EncodeToString randomBytes;
         keyHash = hex_EncodeToString (hash rawKey)
     in bnd (wrapped ''failed to generate API key ID'' auth_generateID) (\<lambda>keyID.
        bnd now (\<lambda>t.
        let apiKey = \<lparr>ak_ID = keyID, ak_UserID = userID, ak_KeyHash = keyHash, ak_KeyPrefix = take 10 rawKey,
                      ak_IsActive = True, ak_ExpiresAt = None, ak_CreatedAt = t\<rparr>
        in andthen (wrapped ''failed to store API key'' (APIKeyRepo_Create apiKey)) (ret (rawKey, apiKey)))))"

definition ValidateAPIKey :: "(string \<Rightarrow> string) \<Rightarrow> string \<Rightarrow> ('d, 'd User) aop" where
  "ValidateAPIKey hash rawKey =
     bnd (handle (APIKeyRepo_GetByHash (hex_EncodeToString (hash rawKey))) (\<lambda>e.
            if IsNotFound e then unauthorized ''invalid API key'' else fail (Errorf ''failed to look up API key'' (Some e))))
     (\<lambda>apiKey.
        andthen (if \<not> ak_IsActive apiKey then unauthorized ''API key has been revoked'' else ret ())
          (wrapped ''failed to look up user for API key'' (UserRepo_GetByID (ak_UserID apiKey))))"

definition RevokeAPIKey :: "string \<Rightarrow> string \<Rightarrow> ('d, unit) aop" where
  "RevokeAPIKey userID keyPrefix =
     bnd (wrapped ''failed to list user API keys'' (APIKeyRepo_ListByUser userID)) (\<lambda>keys.
     case find (\<lambda>k. ak_KeyPrefix k = keyPrefix) keys of
       None \<Rightarrow> fail (app_new ''FORBIDDEN'' ''API key not found or not owned by user'')
     | Some targetKey \<Rightarrow> wrapped ''failed to revoke API key'' (APIKeyRepo_Revoke (ak_ID targetKey)))"

end
