(* ===== verification/SignIn.thy ===== *)
theory SignIn
  imports Auth
begin

text \<open>
  What the authentication service guarantees: a token is accepted exactly when it was signed with
  the secret, has not expired and names a user; a nonce signs in once; an account is made once per
  wallet; a revoked key stays dead.
\<close>

section \<open>Tokens\<close>

lemma SplitN_2:
  assumes "SplitN c 2 s = [a, b, d]"
  shows "s = a @ c # b @ c # d \<and> c \<notin> set a \<and> c \<notin> set b"
proof -
  have split: "s = takeWhile (\<lambda>x. x \<noteq> c) s @ c # tl (dropWhile (\<lambda>x. x \<noteq> c) s)" if "c \<in> set s" for s
  proof -
    from that have "dropWhile (\<lambda>x. x \<noteq> c) s \<noteq> []" by (simp add: dropWhile_eq_Nil_conv)
    then have "dropWhile (\<lambda>x. x \<noteq> c) s = c # tl (dropWhile (\<lambda>x. x \<noteq> c) s)"
      using hd_dropWhile[of "\<lambda>x. x \<noteq> c" s] by (cases "dropWhile (\<lambda>x. x \<noteq> c) s") auto
    then show ?thesis by (metis takeWhile_dropWhile_id)
  qed
  let ?r = "tl (dropWhile (\<lambda>x. x \<noteq> c) s)"
  from assms have 1: "c \<in> set s" "a = takeWhile (\<lambda>x. x \<noteq> c) s" and 2: "c \<in> set ?r" "b = takeWhile (\<lambda>x. x \<noteq> c) ?r"
    "d = tl (dropWhile (\<lambda>x. x \<noteq> c) ?r)"
    by (auto simp: numeral_2_eq_2 split: if_splits)
  from split[OF 1(1)] split[OF 2(1)] 1(2) 2(2,3) show ?thesis by (metis set_takeWhileD)
qed

lemma token_claims_Inr:
  assumes "token_claims env token s = (Inr claims, s')"
  obtains header payload bytes where
    "token = header @ ''.'' @ payload @ ''.'' @ token_signature env (header @ ''.'' @ payload)"
    "CHR ''.'' \<notin> set header" "CHR ''.'' \<notin> set payload" "base64_DecodeString payload = Some bytes"
    "je_unmarshal env bytes = Some claims" "s' = s"
proof -
  from assms obtain header payload sig where p: "SplitN CHR ''.'' 2 token = [header, payload, sig]"
    by (auto simp: token_claims_def unauthorized_def succeeds split: list.splits)
  from assms obtain bytes where "sig = token_signature env (header @ ''.'' @ payload)"
    "base64_DecodeString payload = Some bytes" "je_unmarshal env bytes = Some claims" "s' = s"
    by (auto simp: token_claims_def p unauthorized_def succeeds split: if_splits option.splits)
  with SplitN_2[OF p] show ?thesis by (intro that[of header payload bytes]) auto
qed

lemma find_user_id: "find_user i db = Some u \<Longrightarrow> u_ID u = i"
  by (simp add: find_user_def find_Some_iff) blast

lemma UserRepo_GetByID_Inr:
  "UserRepo_GetByID i s = (Inr u, s') \<Longrightarrow> find_user i (n_db s) = Some u \<and> n_db s' = n_db s"
  by (auto simp: UserRepo_GetByID_def succeeds split: option.splits dest!: query_effect)

text \<open>
  C25: an accepted token consists of a header, a payload and the signature of both under the
  secret; the payload decodes to claims that have not expired and whose subject is the user that is
  returned. Nothing changes.
\<close>

theorem ValidateToken_sound:
  assumes "ValidateToken env token s = (Inr user, s')"
  shows "\<exists>header payload bytes claims x.
    token = header @ ''.'' @ payload @ ''.'' @ token_signature env (header @ ''.'' @ payload) \<and>
    CHR ''.'' \<notin> set header \<and> CHR ''.'' \<notin> set payload \<and>
    base64_DecodeString payload = Some bytes \<and> je_unmarshal env bytes = Some claims \<and>
    claims ''exp'' = Some (JNumber x) \<and> unix (w_clock (n_world s) (w_nclock (n_world s))) \<le> int64_of_float x \<and>
    claims ''sub'' = Some (JString (u_ID user)) \<and> find_user (u_ID user) (n_db s) = Some user \<and> n_db s' = n_db s"
proof -
  from assms obtain claims s1 s2 s3 i where c: "token_claims env token s = (Inr claims, s1)"
    and e: "token_expired claims s1 = (Inr (), s2)" and i: "token_subject claims s2 = (Inr i, s3)"
    and u: "UserRepo_GetByID i s3 = (Inr user, s')"
    by (auto simp: ValidateToken_def succeeds unauthorized_def split: if_splits)
  from i have s3: "s3 = s2" "claims ''sub'' = Some (JString i)"
    by (auto simp: token_subject_def succeeds unauthorized_def split: option.splits jvalue.splits if_splits)
  from c obtain header payload bytes where tok:
    "token = header @ ''.'' @ payload @ ''.'' @ token_signature env (header @ ''.'' @ payload)"
    "CHR ''.'' \<notin> set header" "CHR ''.'' \<notin> set payload" "base64_DecodeString payload = Some bytes"
    "je_unmarshal env bytes = Some claims" and s1: "s1 = s" by (rule token_claims_Inr)
  from e s1 obtain x where x: "claims ''exp'' = Some (JNumber x)" "n_db s2 = n_db s"
    "unix (w_clock (n_world s) (w_nclock (n_world s))) \<le> int64_of_float x"
    by (auto simp: token_expired_def succeeds unauthorized_def now_def time_now_def Let_def split: option.splits jvalue.splits if_splits)
  from UserRepo_GetByID_Inr[OF u] s3 x(2) have u': "find_user i (n_db s) = Some user" "n_db s' = n_db s" by simp_all
  from find_user_id[OF u'(1)] have "u_ID user = i" .
  with tok x s3 u' show ?thesis by blast
qed

text \<open>
  Of the JSON encoder it is used that the claims of a token decode to themselves, for numbers a
  floating-point number holds exactly.
\<close>

definition json_ok :: "jwt_env \<Rightarrow> string \<Rightarrow> bool" where
  "json_ok env u \<longleftrightarrow> (\<forall>e i bytes. \<bar>e\<bar> < 2 ^ 53 \<longrightarrow> \<bar>i\<bar> < 2 ^ 53 \<longrightarrow>
     je_marshal env [(''exp'', JNumber (of_int e)), (''iat'', JNumber (of_int i)), (''sub'', JString u)] = Some bytes \<longrightarrow>
     je_unmarshal env bytes = Some [''exp'' \<mapsto> JNumber (of_int e), ''iat'' \<mapsto> JNumber (of_int i), ''sub'' \<mapsto> JString u])"

lemma int64_of_float_of_int [simp]: "int64_of_float (of_int n) = n"
  by (simp add: int64_of_float_def)

lemma token_claims_made:
  assumes "je_unmarshal env bytes = Some claims"
    and "token = (jwtHeader @ ''.'' @ base64URLEncode bytes) @ ''.'' @ token_signature env (jwtHeader @ ''.'' @ base64URLEncode bytes)"
  shows "token_claims env token s = (Inr claims, s)"
proof -
  have h: "CHR ''.'' \<notin> set jwtHeader" unfolding jwtHeader_def by (rule base64_no_dot)
  let ?sig = "token_signature env (jwtHeader @ ''.'' @ base64URLEncode bytes)"
  have "token = jwtHeader @ CHR ''.'' # (base64URLEncode bytes @ CHR ''.'' # ?sig)" by (simp add: assms(2))
  then have "SplitN CHR ''.'' 2 token = [jwtHeader, base64URLEncode bytes, ?sig]"
    using SplitN_append[OF h, of 1] SplitN_append[OF base64_no_dot, of 0] by (simp add: numeral_2_eq_2)
  then show ?thesis by (simp add: token_claims_def base64_roundtrip assms(1) ret_def)
qed

lemma generateJWT_Inr:
  assumes "generateJWT env u s = (Inr token, s')"
  obtains bytes where
    "je_marshal env [(''exp'', JNumber (of_int (unix (w_clock (n_world s) (w_nclock (n_world s)) + minutes (24 * 60))))),
       (''iat'', JNumber (of_int (unix (w_clock (n_world s) (Suc (w_nclock (n_world s))))))), (''sub'', JString u)] = Some bytes"
    "token = (jwtHeader @ ''.'' @ base64URLEncode bytes) @ ''.'' @ token_signature env (jwtHeader @ ''.'' @ base64URLEncode bytes)"
    "n_db s' = n_db s"
  using assms by (auto simp: generateJWT_def bnd_def now_def time_now_def Let_def ret_def fail_def split: option.splits)

lemma unix_day: "unix (t + minutes (24 * 60)) = unix t + 86400"
  by (simp add: unix_def minutes_def)

lemma token_made_accepted:
  assumes "generateJWT env u s = (Inr token, s1)" and "json_ok env u" and "u \<noteq> ''''"
    and clock: "\<bar>unix (w_clock (n_world s) (w_nclock (n_world s)))\<bar> < 2 ^ 52"
      "\<bar>unix (w_clock (n_world s) (Suc (w_nclock (n_world s))))\<bar> < 2 ^ 52"
    and known: "find_user u (n_db s2) = Some user" "n_tx s2 \<noteq> AbortedTx" "\<not> w_fault (n_world s2) (w_nfault (n_world s2))"
  shows "fst (ValidateToken env token s2) =
    (if unix (w_clock (n_world s2) (w_nclock (n_world s2))) \<le> unix (w_clock (n_world s) (w_nclock (n_world s))) + 86400
     then Inr user else Inl (app_new ''UNAUTHORIZED'' ''token expired''))"
proof -
  let ?t = "w_clock (n_world s) (w_nclock (n_world s))" and ?t' = "w_clock (n_world s) (Suc (w_nclock (n_world s)))"
  obtain bytes where m: "je_marshal env [(''exp'', JNumber (of_int (unix ?t + 86400))), (''iat'', JNumber (of_int (unix ?t'))),
      (''sub'', JString u)] = Some bytes"
    and tok: "token = (jwtHeader @ ''.'' @ base64URLEncode bytes) @ ''.'' @ token_signature env (jwtHeader @ ''.'' @ base64URLEncode bytes)"
    by (rule generateJWT_Inr[OF assms(1), unfolded unix_day])
  have small: "\<bar>unix ?t + 86400\<bar> < 2 ^ 53" "\<bar>unix ?t'\<bar> < 2 ^ 53" using clock by auto
  let ?claims = "[''exp'' \<mapsto> JNumber (of_int (unix ?t + 86400)), ''iat'' \<mapsto> JNumber (of_int (unix ?t')), ''sub'' \<mapsto> JString u]"
  have "je_unmarshal env bytes = Some ?claims" using assms(2) m small unfolding json_ok_def by blast
  from token_claims_made[OF this tok] have c: "token_claims env token s2 = (Inr ?claims, s2)" .
  have e: "token_expired ?claims s2 = (let s3 = s2\<lparr>n_world := snd (time_now (n_world s2))\<rparr> in
      if unix (w_clock (n_world s2) (w_nclock (n_world s2))) \<le> unix ?t + 86400 then (Inr (), s3)
      else (Inl (app_new ''UNAUTHORIZED'' ''token expired''), s3))"
    by (simp add: token_expired_def bnd_def now_def time_now_def unauthorized_def ret_def fail_def Let_def del: of_int_add)
  let ?s3 = "s2\<lparr>n_world := snd (time_now (n_world s2))\<rparr>"
  have "fst (UserRepo_GetByID u ?s3) = Inr user"
    using known by (simp add: UserRepo_GetByID_def bnd_def query_def statement_def next_fault_def time_now_def Let_def ret_def)
  moreover have "token_subject ?claims ?s3 = (Inr u, ?s3)" using assms(3) by (simp add: token_subject_def ret_def)
  ultimately show ?thesis
    by (cases "UserRepo_GetByID u ?s3") (simp add: ValidateToken_def bnd_def andthen_def c e handle_def Let_def del: of_int_add)
qed

text \<open>A small encoder: the numbers in unary, then the subject. The hash keeps everything.\<close>

definition ex_number :: "int \<Rightarrow> string" where
  "ex_number n = (if n < 0 then CHR ''-'' else CHR ''+'') # replicate (nat \<bar>n\<bar>) CHR ''1''"

definition ex_read_number :: "string \<Rightarrow> int" where
  "ex_read_number s = (if hd s = CHR ''-'' then - int (length s - 1) else int (length s - 1))"

definition ex_marshal :: "(string \<times> jvalue) list \<Rightarrow> string option" where
  "ex_marshal cs = (case cs of
     [(_, JNumber e), (_, JNumber i), (_, JString u)] \<Rightarrow> Some (ex_number \<lfloor>e\<rfloor> @ '','' @ ex_number \<lfloor>i\<rfloor> @ '','' @ u)
   | _ \<Rightarrow> None)"

definition ex_unmarshal_claims :: "string \<Rightarrow> (string \<rightharpoonup> jvalue) option" where
  "ex_unmarshal_claims s = (case SplitN CHR '','' 2 s of
     [e, i, u] \<Rightarrow> Some [''exp'' \<mapsto> JNumber (of_int (ex_read_number e)), ''iat'' \<mapsto> JNumber (of_int (ex_read_number i)), ''sub'' \<mapsto> JString u]
   | _ \<Rightarrow> None)"

definition ex_env :: jwt_env where
  "ex_env = \<lparr>je_secret = ''key'', je_hmac = (@), je_marshal = ex_marshal, je_unmarshal = ex_unmarshal_claims\<rparr>"

lemma ex_number_simps [simp]: "ex_read_number (ex_number n) = n" "CHR '','' \<notin> set (ex_number n)"
  by (auto simp: ex_number_def ex_read_number_def)

lemma ex_json_ok: "json_ok ex_env u"
proof -
  have "ex_unmarshal_claims (ex_number e @ '','' @ ex_number i @ '','' @ u) =
      Some [''exp'' \<mapsto> JNumber (of_int e), ''iat'' \<mapsto> JNumber (of_int i), ''sub'' \<mapsto> JString u]" for e i
    using SplitN_append[of "CHR '',''" "ex_number e" 1 "ex_number i @ '','' @ u"] SplitN_append[of "CHR '',''" "ex_number i" 0 u]
    by (simp add: ex_unmarshal_claims_def numeral_2_eq_2)
  then show ?thesis by (auto simp: json_ok_def ex_env_def ex_marshal_def)
qed

text \<open>Alice gets a token at time 0, which is accepted after a day and refused a second later.\<close>

definition ex_auth :: "(nat \<Rightarrow> time) \<Rightarrow> (nat \<Rightarrow> bool) \<Rightarrow> rat auth_node" where
  "ex_auth clock fault = \<lparr>n_db = \<lparr>db_users = [\<lparr>u_ID = ''alice'', u_WalletAddress = ''0xa'', u_UserType = Human,
       u_Balance = 1000, u_LockedBalance = 0, u_IsAdmin = False, u_CreatedAt = 0\<rparr>],
       db_markets = [], db_outcomes = [], db_orders = [], db_trades = [], db_positions = [], db_mints = []\<rparr>,
     n_tx = NoTx, n_world = \<lparr>w_uuid = (\<lambda>n. ''''), w_clock = clock, w_fault = fault, w_nuuid = 0, w_nclock = 0, w_nfault = 0\<rparr>,
     an_keys = [], an_redis = \<lparr>rd_values = Map.empty, rd_counters = Map.empty\<rparr>,
     an_random = (\<lambda>k n. if k = 0 then CHR ''A'' else CHR ''B''), an_nrandom = 0\<rparr>"

definition ex_token :: string where
  "ex_token = projr (fst (generateJWT ex_env ''alice'' (ex_auth (\<lambda>_. 0) (\<lambda>_. False))))"

lemma ex_token_made:
  "\<exists>s1. generateJWT ex_env ''alice'' (ex_auth (\<lambda>_. 0) (\<lambda>_. False)) = (Inr ex_token, s1)"
  by (auto simp: ex_token_def generateJWT_def bnd_def now_def time_now_def Let_def ret_def ex_env_def ex_marshal_def)

lemma ex_auth_alice:
  "find_user ''alice'' (n_db (ex_auth clock fault)) = Some (hd (db_users (n_db (ex_auth clock fault))))"
  by (simp add: ex_auth_def find_user_def)

theorem ValidateToken_sound_witness:
  "\<exists>header payload. ex_token = header @ ''.'' @ payload @ ''.'' @ token_signature ex_env (header @ ''.'' @ payload)"
proof -
  let ?s = "ex_auth (\<lambda>_. 0) (\<lambda>_. False)"
  obtain s1 where "generateJWT ex_env ''alice'' ?s = (Inr ex_token, s1)" using ex_token_made by blast
  from token_made_accepted[OF this ex_json_ok _ _ _ ex_auth_alice]
  have "fst (ValidateToken ex_env ex_token ?s) = Inr (hd (db_users (n_db ?s)))"
    by (simp add: ex_auth_def unix_def)
  then have "ValidateToken ex_env ex_token ?s = (Inr (hd (db_users (n_db ?s))), snd (ValidateToken ex_env ex_token ?s))"
    by (simp add: prod_eq_iff)
  from ValidateToken_sound[OF this] show ?thesis by blast
qed

text \<open>
  C26: a token made for a user is accepted until it expires, a day later, and refused from then on, whatever
  else happened in between, as long as the user is there.
\<close>

theorem token_roundtrip:
  assumes "generateJWT env u s = (Inr token, s1)" and "json_ok env u" and "u \<noteq> ''''"
    and clock: "\<bar>unix (w_clock (n_world s) (w_nclock (n_world s)))\<bar> < 2 ^ 52"
      "\<bar>unix (w_clock (n_world s) (Suc (w_nclock (n_world s))))\<bar> < 2 ^ 52"
    and known: "find_user u (n_db s2) = Some user" "n_tx s2 \<noteq> AbortedTx" "\<not> w_fault (n_world s2) (w_nfault (n_world s2))"
  shows "fst (ValidateToken env token s2) =
    (if unix (w_clock (n_world s2) (w_nclock (n_world s2))) \<le> unix (w_clock (n_world s) (w_nclock (n_world s))) + 86400
     then Inr user else Inl (app_new ''UNAUTHORIZED'' ''token expired''))"
  by (rule token_made_accepted[OF assms])

text \<open>The token of Alice is accepted on the last second of its day and refused on the next.\<close>

theorem token_roundtrip_witness:
  "fst (ValidateToken ex_env ex_token (ex_auth (\<lambda>_. 86400 * 10 ^ 9) (\<lambda>_. False))) =
     Inr (hd (db_users (n_db (ex_auth (\<lambda>_. 0) (\<lambda>_. False))))) \<and>
   fst (ValidateToken ex_env ex_token (ex_auth (\<lambda>_. 86401 * 10 ^ 9) (\<lambda>_. False))) =
     Inl (app_new ''UNAUTHORIZED'' ''token expired'')"
proof -
  obtain s1 where g: "generateJWT ex_env ''alice'' (ex_auth (\<lambda>_. 0) (\<lambda>_. False)) = (Inr ex_token, s1)"
    using ex_token_made by blast
  note A = token_roundtrip[OF g ex_json_ok _ _ _ ex_auth_alice]
  have "fst (ValidateToken ex_env ex_token (ex_auth (\<lambda>_. 86400 * 10 ^ 9) (\<lambda>_. False))) =
     Inr (hd (db_users (n_db (ex_auth (\<lambda>_. 86400 * 10 ^ 9) (\<lambda>_. False)))))"
    by (subst A) (simp_all add: ex_auth_def unix_def)
  moreover have "fst (ValidateToken ex_env ex_token (ex_auth (\<lambda>_. 86401 * 10 ^ 9) (\<lambda>_. False))) =
     Inl (app_new ''UNAUTHORIZED'' ''token expired'')"
    by (subst A) (simp_all add: ex_auth_def unix_def)
  ultimately show ?thesis by (simp add: ex_auth_def)
qed

lemma wrapped_Inr [succeeds]: "wrapped what m s = (Inr x, s') \<longleftrightarrow> m s = (Inr x, s')"
  by (auto simp: wrapped_def handle_iff fail_iff)

section \<open>Any sequence of requests\<close>

inductive auth_step :: "jwt_env \<Rightarrow> (string \<Rightarrow> string) \<Rightarrow> 'd::linordered_field auth_node \<Rightarrow> 'd auth_node \<Rightarrow> bool" for env hash where
  nonce: "auth_step env hash s (snd (GenerateNonce s))"
| verify: "auth_step env hash s (snd (VerifySIWE env message signature wallet s))"
| validate: "auth_step env hash s (snd (ValidateToken env token s))"
| user: "auth_step env hash s (snd (Auth_GetUser i s))"
| generate: "auth_step env hash s (snd (GenerateAPIKey hash i label s))"
| api_key: "auth_step env hash s (snd (ValidateAPIKey hash rawKey s))"
| revoke: "auth_step env hash s (snd (RevokeAPIKey i prefix s))"

text \<open>What the operations on the shared tables leave alone.\<close>

definition own_state :: "'d auth_node \<Rightarrow> APIKey list \<times> redis \<times> (nat \<Rightarrow> nat \<Rightarrow> char) \<times> nat" where
  "own_state s = (an_keys s, an_redis s, an_random s, an_nrandom s)"

lemma keeps_own_state: "keeps node.more m \<Longrightarrow> keeps own_state m"
proof (rule keepsI)
  fix s assume "keeps node.more m"
  then have "node.more (snd (m s)) = node.more s" by (simp add: keeps_def)
  then show "own_state (snd (m s)) = own_state s"
    by (cases s; cases "snd (m s)") (simp add: own_state_def)
qed

lemma maintains_own_state: "keeps own_state m \<Longrightarrow> (\<And>s s'. own_state s = own_state s' \<Longrightarrow> P s \<Longrightarrow> P s') \<Longrightarrow> maintains P m"
  unfolding keeps_def maintains_def by metis

lemma keeps_ValidateToken: "keeps own_state (ValidateToken env token)"
  unfolding ValidateToken_def UserRepo_GetByID_def token_claims_def token_expired_def token_subject_def unauthorized_def
  by (intro keeps_own_state keeping allI impI) (auto split: list.splits option.splits jvalue.splits intro!: keeping)

lemma keeps_user_ops:
  "keeps own_state (UserRepo_GetByID i)" "keeps own_state (UserRepo_GetByWallet w)" "keeps own_state (UserRepo_Create u)"
  "keeps own_state now" "keeps own_state (generateJWT env i)"
  unfolding UserRepo_GetByID_def UserRepo_GetByWallet_def UserRepo_Create_def generateJWT_def
  by (intro keeps_own_state keeping; auto split: option.splits intro!: keeping simp: Let_def)+

text \<open>
  An invariant of the service: it looks only at the service's own state, and the operations on
  random bytes, sessions and keys keep it. Then every request keeps it.
\<close>

locale auth_invariant =
  fixes P :: "'d::linordered_field auth_node \<Rightarrow> bool"
  assumes own: "own_state s = own_state s' \<Longrightarrow> P s \<Longrightarrow> P s'"
    and rand: "maintains P (rand_Read n)"
    and get: "maintains P (with_redis (SessionStore_Get t))"
    and delete: "maintains P (with_redis (SessionStore_Delete t))"
    and new_nonce: "maintains P GenerateNonce"
    and key_create: "maintains P (APIKeyRepo_Create k)"
    and key_get: "maintains P (APIKeyRepo_GetByHash h)"
    and key_list: "maintains P (APIKeyRepo_ListByUser i)"
    and key_revoke: "maintains P (APIKeyRepo_Revoke i)"
begin

lemma outside: "keeps own_state m \<Longrightarrow> maintains P m"
  using maintains_own_state own by blast

lemma wrapped: "maintains P m \<Longrightarrow> maintains P (wrapped what m)"
  unfolding wrapped_def by (intro keeping)

lemmas leaves = keeping rand get delete key_create key_get key_list key_revoke outside[OF keeps_user_ops(1)]
  outside[OF keeps_user_ops(2)] outside[OF keeps_user_ops(3)] outside[OF keeps_user_ops(4)] outside[OF keeps_user_ops(5)] wrapped

lemma generate_id: "maintains P auth_generateID"
  unfolding auth_generateID_def by (intro leaves)

lemma create: "maintains P (create_user wallet)"
  unfolding create_user_def Let_def by (intro leaves generate_id)

lemma take_nonce: "maintains P (take_nonce message)"
  unfolding take_nonce_def unauthorized_def by (cases "extractNonce message") (auto intro!: leaves)

lemma after_nonce:
  assumes "take_nonce message s = (r, s1)" and "P s1"
  shows "P (snd (VerifySIWE env message signature wallet s))"
proof -
  have "maintains P (andthen (if signature = '''' \<or> HasSuffix signature ''_bad'' then unauthorized ''invalid signature'' else ret ())
     (bnd (handle (UserRepo_GetByWallet wallet) (\<lambda>e.
             if \<not> IsNotFound e then fail (Errorf ''failed to look up user by wallet'' (Some e)) else create_user wallet)) (\<lambda>user.
      bnd (wrapped ''failed to generate JWT'' (generateJWT env (u_ID user))) (\<lambda>token. ret (user, token)))))"
    unfolding unauthorized_def by (intro leaves create)
  from this[unfolded maintains_def, rule_format, OF assms(2)] assms show ?thesis
    by (cases r) (simp_all add: VerifySIWE_def andthen_def bnd_def)
qed

lemma verify: "maintains P (VerifySIWE env message signature wallet)"
proof (rule maintainsI)
  fix s assume "P s"
  obtain r s1 where t: "take_nonce message s = (r, s1)" by force
  from maintainsD[OF take_nonce t \<open>P s\<close>] show "P (snd (VerifySIWE env message signature wallet s))"
    by (rule after_nonce[OF t])
qed

lemma api_keys:
  "maintains P (GenerateAPIKey hash i label)" "maintains P (ValidateAPIKey hash rawKey)" "maintains P (RevokeAPIKey i prefix)"
proof -
  show "maintains P (GenerateAPIKey hash i label)"
    unfolding GenerateAPIKey_def Let_def by (intro leaves generate_id)
  show "maintains P (ValidateAPIKey hash rawKey)"
    unfolding ValidateAPIKey_def unauthorized_def by (intro leaves)
  show "maintains P (RevokeAPIKey i prefix)"
    unfolding RevokeAPIKey_def by (intro leaves) (auto split: option.splits intro!: leaves)
qed

lemma auth_step: "auth_step env hash s s' \<Longrightarrow> P s \<Longrightarrow> P s'"
proof (induction rule: auth_step.induct)
  case (nonce s)
  then show ?case using new_nonce by (simp add: maintains_def)
next
  case (user s i)
  then show ?case using outside[OF keeps_user_ops(1)] by (simp add: maintains_def Auth_GetUser_def)
qed (use verify outside[OF keeps_ValidateToken] api_keys in \<open>simp_all add: maintains_def\<close>)

lemma auth_run: "(auth_step env hash)\<^sup>*\<^sup>* s s' \<Longrightarrow> P s \<Longrightarrow> P s'"
  by (induction rule: rtranclp_induct) (use auth_step in blast)+

end

text \<open>A nonce is gone when it is not stored and no later random bytes spell it.\<close>

definition nonce_gone :: "string \<Rightarrow> 'd auth_node \<Rightarrow> bool" where
  "nonce_gone nonce s \<longleftrightarrow> rd_values (an_redis s) (''session:nonce:'' @ nonce) = None \<and>
     (\<forall>k \<ge> an_nrandom s. hex_EncodeToString (map (an_random s k) [0..<32]) \<noteq> nonce)"

lemma rand_Read_cases:
  "rand_Read n s = (r, s') \<Longrightarrow> an_redis s' = an_redis s \<and> an_random s' = an_random s \<and> an_keys s' = an_keys s \<and> n_db s' = n_db s \<and>
     (case r of Inl e \<Rightarrow> an_nrandom s' = an_nrandom s
      | Inr b \<Rightarrow> an_nrandom s' = Suc (an_nrandom s) \<and> b = map (an_random s (an_nrandom s)) [0..<n])"
  by (auto simp: rand_Read_def Let_def case_prod_unfold split: if_splits)

lemma with_redis_cases:
  assumes "with_redis m s = (r, s')" and "snd (snd (m (n_world s, an_redis s))) = rd"
  shows "an_redis s' = rd \<and> an_random s' = an_random s \<and> an_nrandom s' = an_nrandom s \<and> an_keys s' = an_keys s \<and> n_db s' = n_db s"
  using assms by (auto simp: with_redis_def case_prod_unfold Let_def)

lemma session_ops:
  "snd (snd (SessionStore_Get t (w, r))) = r"
  "rd_values (snd (snd (SessionStore_Delete t (w, r)))) k \<in> {rd_values r k, if k = ''session:'' @ t then None else rd_values r k}"
  "k \<noteq> ''session:'' @ t \<Longrightarrow> rd_values (snd (snd (SessionStore_Set t v ttl (w, r)))) k = rd_values r k"
  by (auto simp: SessionStore_Get_def SessionStore_Delete_def SessionStore_Set_def redis_cmd_def bnd_def fail_def ret_def
      redis_DEL_def redis_SET_def Let_def case_prod_unfold split: option.splits)

lemma key_statement_cases:
  "key_statement what ok f s = (r, s') \<Longrightarrow> an_redis s' = an_redis s \<and> an_random s' = an_random s \<and> an_nrandom s' = an_nrandom s \<and>
     n_db s' = n_db s \<and>
     (case r of Inl e \<Rightarrow> an_keys s' = an_keys s
      | Inr x \<Rightarrow> ok (n_db s) (an_keys s) \<and> x = fst (f (an_keys s)) \<and> an_keys s' = snd (f (an_keys s)))"
  by (auto simp: key_statement_def Let_def case_prod_unfold split: if_splits)

text \<open>The operations on the keys, as far as they concern the table.\<close>

lemma key_ops:
  "APIKeyRepo_Create k s = (r, s') \<Longrightarrow> an_redis s' = an_redis s \<and> an_random s' = an_random s \<and> an_nrandom s' = an_nrandom s \<and> n_db s' = n_db s \<and>
     (an_keys s' = an_keys s \<or> ak_KeyHash k \<notin> ak_KeyHash ` set (an_keys s) \<and> ak_ID k \<notin> ak_ID ` set (an_keys s) \<and> an_keys s' = an_keys s @ [k])"
  "APIKeyRepo_GetByHash h s = (q, s') \<Longrightarrow> an_redis s' = an_redis s \<and> an_random s' = an_random s \<and> an_nrandom s' = an_nrandom s \<and> n_db s' = n_db s \<and>
     an_keys s' = an_keys s \<and> (\<forall>k. q = Inr k \<longrightarrow> find (\<lambda>k. ak_KeyHash k = h) (an_keys s) = Some k)"
  "APIKeyRepo_ListByUser i s = (ks, s') \<Longrightarrow> an_redis s' = an_redis s \<and> an_random s' = an_random s \<and> an_nrandom s' = an_nrandom s \<and> n_db s' = n_db s \<and>
     an_keys s' = an_keys s \<and> (\<forall>xs. ks = Inr xs \<longrightarrow> xs = sort_key (\<lambda>k. - ak_CreatedAt k) (filter (\<lambda>k. ak_UserID k = i) (an_keys s)))"
  "APIKeyRepo_Revoke j s = (r, s') \<Longrightarrow> an_redis s' = an_redis s \<and> an_random s' = an_random s \<and> an_nrandom s' = an_nrandom s \<and> n_db s' = n_db s \<and>
     (an_keys s' = an_keys s \<or> an_keys s' = revoke_key j (an_keys s)) \<and> (r = Inr () \<longrightarrow> an_keys s' = revoke_key j (an_keys s))"
  unfolding APIKeyRepo_Create_def APIKeyRepo_GetByHash_def APIKeyRepo_ListByUser_def APIKeyRepo_Revoke_def
  by (auto simp: bnd_def check_def ret_def fail_def split: sum.splits prod.splits option.splits if_splits
      dest!: key_statement_cases)

lemma maintains_cases: "(\<And>s r s'. m s = (r, s') \<Longrightarrow> P s \<Longrightarrow> P s') \<Longrightarrow> maintains P m"
  unfolding maintains_def by (metis prod.collapse)

text \<open>A dead key: its hash is taken, by keys that are all revoked.\<close>

definition key_dead :: "string \<Rightarrow> 'd auth_node \<Rightarrow> bool" where
  "key_dead h s \<longleftrightarrow> h \<in> ak_KeyHash ` set (an_keys s) \<and> (\<forall>k \<in> set (an_keys s). ak_KeyHash k = h \<longrightarrow> \<not> ak_IsActive k)"

lemma revoke_key_hashes: "map ak_KeyHash (revoke_key j keys) = map ak_KeyHash keys" "map ak_ID (revoke_key j keys) = map ak_ID keys"
  by (simp_all add: revoke_key_def)

lemma key_dead_revoke_key:
  assumes "key_dead h s" and "an_keys s' = revoke_key j (an_keys s)"
  shows "key_dead h s'"
proof -
  have "ak_KeyHash ` set (an_keys s') = ak_KeyHash ` set (an_keys s)"
    by (metis assms(2) list.set_map revoke_key_hashes(1))
  with assms show ?thesis by (auto simp: key_dead_def revoke_key_def)
qed

lemma nonce_gone_later:
  assumes "nonce_gone n s" and "an_random s' = an_random s" and "an_nrandom s \<le> an_nrandom s'"
    and "rd_values (an_redis s') (''session:nonce:'' @ n) \<in> {None, rd_values (an_redis s) (''session:nonce:'' @ n)}"
  shows "nonce_gone n s'"
  using assms by (auto simp: nonce_gone_def)

lemma GenerateNonce_cases:
  assumes "GenerateNonce s = (r, s')"
  shows "an_keys s' = an_keys s \<and> (nonce_gone nonce s \<longrightarrow> nonce_gone nonce s')"
proof -
  obtain b s1 where R: "rand_Read 32 s = (b, s1)" by force
  show ?thesis
  proof (cases b)
    case (Inl e)
    with R assms rand_Read_cases[OF R] show ?thesis
      by (auto simp: GenerateNonce_def wrapped_def handle_def bnd_def fail_def nonce_gone_def)
  next
    case (Inr bytes)
    let ?n = "hex_EncodeToString bytes"
    note c = rand_Read_cases[OF R, unfolded Inr sum.case]
    obtain q s2 where S: "with_redis (SessionStore_Set (''nonce:'' @ ?n) ''pending'' (minutes 5)) s1 = (q, s2)" by force
    from assms R Inr S have s': "s' = s2"
      by (auto simp: GenerateNonce_def wrapped_def handle_def bnd_def andthen_def fail_def ret_def Let_def split: sum.splits)
    note w = with_redis_cases[OF S refl]
    have "nonce_gone nonce s2" if g: "nonce_gone nonce s"
    proof -
      from g c have "nonce \<noteq> ?n" by (auto simp: nonce_gone_def)
      then have "''session:nonce:'' @ nonce \<noteq> ''session:'' @ (''nonce:'' @ ?n)" by simp
      from session_ops(3)[OF this, of "''pending''" "minutes 5" "n_world s1" "an_redis s1"] w c g
      show ?thesis by (auto simp: nonce_gone_def)
    qed
    with s' w c show ?thesis by simp
  qed
qed

interpretation nonce: auth_invariant "nonce_gone n" for n
proof
  show "maintains (nonce_gone n) (rand_Read m)" for m
    by (rule maintains_cases, drule rand_Read_cases, erule nonce_gone_later) (auto split: sum.splits)
  show "maintains (nonce_gone n) (with_redis (SessionStore_Get t))" for t
    by (rule maintains_cases, drule with_redis_cases[OF _ refl], erule nonce_gone_later) (simp_all add: session_ops)
  show "maintains (nonce_gone n) (with_redis (SessionStore_Delete t))" for t
  proof (rule maintains_cases)
    fix s r s' assume "with_redis (SessionStore_Delete t) s = (r, s')" and g: "nonce_gone n s"
    from with_redis_cases[OF this(1) refl] session_ops(2)[of t "n_world s" "an_redis s" "''session:nonce:'' @ n"]
    show "nonce_gone n s'" by (intro nonce_gone_later[OF g]) (auto split: if_splits)
  qed
  show "maintains (nonce_gone n) GenerateNonce"
    by (rule maintains_cases) (use GenerateNonce_cases in blast)
  show "nonce_gone n s \<Longrightarrow> nonce_gone n s'" if "own_state s = own_state s'" for s s' :: "'a auth_node"
    by (erule nonce_gone_later) (use that in \<open>simp_all add: own_state_def\<close>)
qed (rule maintains_cases, drule key_ops, erule nonce_gone_later, simp, simp, simp)+

interpretation revoked: auth_invariant "key_dead h" for h
proof
  show "maintains (key_dead h) (rand_Read m)" for m
    by (rule maintains_cases) (auto simp: key_dead_def dest!: rand_Read_cases split: sum.splits)
  show "maintains (key_dead h) (with_redis (SessionStore_Get t))" "maintains (key_dead h) (with_redis (SessionStore_Delete t))" for t
    by (rule maintains_cases; auto simp: key_dead_def dest!: with_redis_cases[OF _ refl])+
  show "maintains (key_dead h) GenerateNonce"
    by (rule maintains_cases) (auto simp: key_dead_def dest!: GenerateNonce_cases)
  show "maintains (key_dead h) (APIKeyRepo_Create k)" for k
    by (rule maintains_cases) (auto simp: key_dead_def dest!: key_ops)
  show "maintains (key_dead h) (APIKeyRepo_Revoke j)" for j
  proof (rule maintains_cases)
    fix s r s' assume "APIKeyRepo_Revoke j s = (r, s')" and d: "key_dead h s"
    from key_ops(4)[OF this(1)] d key_dead_revoke_key[OF d] show "key_dead h s'" by (auto simp: key_dead_def)
  qed
qed (auto simp: own_state_def key_dead_def intro!: maintains_cases dest!: key_ops)

section \<open>Sign-in, sign-out of keys\<close>

text \<open>Taking a nonce: it was stored and alive; unless the deletion fails it is gone afterwards.\<close>

lemma take_nonce_Inr:
  assumes "take_nonce message s = (Inr (), s')"
  obtains nonce v dies where "extractNonce message = Inr nonce"
    "rd_values (an_redis s) (''session:nonce:'' @ nonce) = Some (v, dies)" "w_clock (n_world s) (w_nclock (n_world s)) < dies"
    "n_db s' = n_db s" "an_keys s' = an_keys s" "an_random s' = an_random s" "an_nrandom s' = an_nrandom s"
    "\<not> w_fault (n_world s) (Suc (w_nfault (n_world s))) \<Longrightarrow> rd_values (an_redis s') (''session:nonce:'' @ nonce) = None"
  using assms
  by (auto simp: take_nonce_def andthen_def bnd_def handle_def with_redis_def SessionStore_Get_def SessionStore_Delete_def
      redis_cmd_def redis_GET_def redis_DEL_def next_fault_def time_now_def unauthorized_def ret_def fail_def Let_def app_wrap_def
      split: sum.splits option.splits if_splits prod.splits)

lemma take_nonce_gone:
  assumes "extractNonce message = Inr nonce" and "nonce_gone nonce s"
  shows "\<exists>s'. take_nonce message s = (Inl (app_new ''UNAUTHORIZED'' ''invalid or expired nonce''), s')"
  using assms by (auto simp: take_nonce_def nonce_gone_def andthen_def bnd_def handle_def with_redis_def SessionStore_Get_def
      redis_cmd_def redis_GET_def next_fault_def time_now_def unauthorized_def ret_def fail_def Let_def)

text \<open>
  C27: a nonce signs in once. After a sign-in whose deletion of the nonce did not fail, whatever
  requests were served since, no message with that nonce is accepted, with any signature, for any
  wallet, unless the random source repeats it.
\<close>

theorem nonce_single_use:
  assumes "VerifySIWE env message signature wallet s = (Inr (user, token), s1)" and "extractNonce message = Inr nonce"
    and "\<not> w_fault (n_world s) (Suc (w_nfault (n_world s)))"
    and "\<forall>k \<ge> an_nrandom s. hex_EncodeToString (map (an_random s k) [0..<32]) \<noteq> nonce"
    and "(auth_step env hash)\<^sup>*\<^sup>* s1 s2" and "extractNonce message' = Inr nonce"
  shows "fst (VerifySIWE env' message' signature' wallet' s2) = Inl (app_new ''UNAUTHORIZED'' ''invalid or expired nonce'')"
proof -
  from assms(1) obtain s0 where t: "take_nonce message s = (Inr (), s0)"
    by (auto simp: VerifySIWE_def succeeds)
  from take_nonce_Inr[OF t] assms(2-4) have "nonce_gone nonce s0" unfolding nonce_gone_def by (metis sum.inject(2))
  from nonce.after_nonce[OF t this, of env signature wallet] assms(1) have "nonce_gone nonce s1" by simp
  from nonce.auth_run[OF assms(5) this] have "nonce_gone nonce s2" .
  from take_nonce_gone[OF assms(6) this] show ?thesis by (auto simp: VerifySIWE_def andthen_def bnd_def)
qed

lemma GetByWallet_cases:
  assumes "UserRepo_GetByWallet w s = (r, s')"
  shows "n_db s' = n_db s \<and> (case r of
      Inr u \<Rightarrow> u \<in> set (db_users (n_db s)) \<and> u_WalletAddress u = w
    | Inl e \<Rightarrow> IsNotFound e \<longrightarrow> w \<notin> u_WalletAddress ` set (db_users (n_db s)))"
proof -
  let ?row = "find (\<lambda>u. u_WalletAddress u = w) (db_users (n_db s))"
  obtain q s1 where Q: "query ''postgres: get user by wallet'' (\<lambda>db. find (\<lambda>u. u_WalletAddress u = w) (db_users db)) s = (q, s1)"
    by force
  show ?thesis
  proof (cases q)
    case (Inl e)
    with Q have "e = Errorf ''postgres: get user by wallet'' (Some DriverError)" "n_db s1 = n_db s"
      by (auto simp: query_def statement_def Let_def case_prod_unfold split: if_splits)
    with Inl Q assms show ?thesis
      by (auto simp: UserRepo_GetByWallet_def bnd_def IsNotFound_def codeFromError_def error_code_def sentinel_defs)
  next
    case (Inr row)
    with query_effect[OF Q[unfolded Inr]] Q assms show ?thesis
      by (auto simp: UserRepo_GetByWallet_def bnd_def fail_def ret_def dest!: find_key_Some
          simp: find_key_None split: option.splits)
  qed
qed

lemma create_user_Inr:
  assumes "create_user w s = (Inr user, s')"
  shows "u_WalletAddress user = w \<and> u_Balance user = 1000 \<and> u_LockedBalance user = 0 \<and> u_UserType user = Human \<and>
    \<not> u_IsAdmin user \<and> n_db s' = (n_db s)\<lparr>db_users := db_users (n_db s) @ [user]\<rparr>"
proof -
  from assms obtain i s1 t s2 where r: "auth_generateID s = (Inr i, s1)" "now s1 = (Inr t, s2)"
    "user = \<lparr>u_ID = i, u_WalletAddress = w, u_UserType = Human, u_Balance = InitialBalance, u_LockedBalance = 0,
       u_IsAdmin = False, u_CreatedAt = t\<rparr>" "UserRepo_Create user s2 = (Inr (), s')"
    by (auto simp: create_user_def succeeds Let_def)
  from r(1) have "n_db s1 = n_db s" by (auto simp: auth_generateID_def succeeds dest!: rand_Read_cases)
  with r show ?thesis
    by (auto simp: UserRepo_Create_def InitialBalance_def dest!: now_effect execute_effect)
qed

text \<open>Bob, who is new, signs in with the first nonce; the same message is refused afterwards.\<close>

definition ex_plain :: jwt_env where
  "ex_plain = ex_env\<lparr>je_marshal := (\<lambda>_. Some ''c'')\<rparr>"

definition ex_nonced :: "(err + string) \<times> rat auth_node" where
  "ex_nonced = GenerateNonce (ex_auth (\<lambda>_. 0) (\<lambda>_. False))"

definition ex_nonce :: string where
  "ex_nonce = concat (replicate 32 ''41'')"

definition ex_signed :: "(err + rat User \<times> string) \<times> rat auth_node" where
  "ex_signed = VerifySIWE ex_plain (''Nonce: '' @ ex_nonce) ''sig'' ''0xb'' (snd ex_nonced)"

lemma VerifySIWE_run:
  assumes "take_nonce message s = (Inr (), s1)" and "signature \<noteq> ''''" and "\<not> HasSuffix signature ''_bad''"
    and "handle (UserRepo_GetByWallet wallet) (\<lambda>e. if \<not> IsNotFound e then fail (Errorf ''failed to look up user by wallet'' (Some e))
      else create_user wallet) s1 = (Inr user, s2)"
    and "generateJWT env (u_ID user) s2 = (Inr token, s3)"
  shows "VerifySIWE env message signature wallet s = (Inr (user, token), s3)"
proof -
  have "wrapped ''failed to generate JWT'' (generateJWT env (u_ID user)) s2 = (Inr token, s3)"
    by (simp only: wrapped_Inr assms(5))
  with assms(1-4) show ?thesis by (simp add: VerifySIWE_def andthen_def bnd_def ret_def)
qed

lemma ex_signed_run:
  "\<exists>user token. VerifySIWE ex_plain (''Nonce: '' @ ex_nonce) ''sig'' ''0xb'' (snd ex_nonced) = (Inr (user, token), snd ex_signed)"
proof -
  let ?t = "take_nonce (''Nonce: '' @ ex_nonce) (snd ex_nonced)"
  let ?found = "handle (UserRepo_GetByWallet ''0xb'') (\<lambda>e. if \<not> IsNotFound e then fail (Errorf ''failed to look up user by wallet'' (Some e))
      else create_user ''0xb'') (snd ?t)"
  have "fst ?t = Inr ()" by code_simp
  then have t: "?t = (Inr (), snd ?t)" by (simp add: prod_eq_iff)
  have "case fst ?found of Inl _ \<Rightarrow> False | Inr _ \<Rightarrow> True" by code_simp
  then obtain user where f: "?found = (Inr user, snd ?found)" by (cases ?found) (auto split: sum.splits)
  have "\<exists>token. fst (generateJWT ex_plain (u_ID user) (snd ?found)) = Inr token"
    by (simp add: ex_plain_def generateJWT_def bnd_def now_def ret_def Let_def case_prod_unfold)
  then obtain token s3 where j: "generateJWT ex_plain (u_ID user) (snd ?found) = (Inr token, s3)"
    by (cases "generateJWT ex_plain (u_ID user) (snd ?found)") auto
  have "\<not> HasSuffix ''sig'' ''_bad''" by code_simp
  from VerifySIWE_run[OF t _ this f j] have "ex_signed = (Inr (user, token), s3)" by (simp add: ex_signed_def)
  then show ?thesis by (simp add: ex_signed_def)
qed

lemma ex_nonce_read: "extractNonce (''Nonce: '' @ ex_nonce) = Inr ex_nonce"
  by code_simp

theorem nonce_single_use_witness:
  "fst (VerifySIWE ex_plain (''Nonce: '' @ ex_nonce) ''sig'' ''0xb'' (snd ex_signed)) =
     Inl (app_new ''UNAUTHORIZED'' ''invalid or expired nonce'')"
proof -
  obtain user token where v: "VerifySIWE ex_plain (''Nonce: '' @ ex_nonce) ''sig'' ''0xb'' (snd ex_nonced) = (Inr (user, token), snd ex_signed)"
    using ex_signed_run by blast
  have f: "\<not> w_fault (n_world (snd ex_nonced)) (Suc (w_nfault (n_world (snd ex_nonced))))" and n: "an_nrandom (snd ex_nonced) = 1"
    by code_simp+
  have r: "an_random (snd ex_nonced) = (\<lambda>k n. if k = 0 then CHR ''A'' else CHR ''B'')"
    by (simp add: ex_nonced_def ex_auth_def GenerateNonce_def wrapped_def handle_def bnd_def andthen_def rand_Read_def next_fault_def
        with_redis_def SessionStore_Set_def redis_cmd_def time_now_def ret_def Let_def)
  have "hex_EncodeToString (map (\<lambda>n. CHR ''B'') [0..<32]) \<noteq> ex_nonce" by code_simp
  with r n have "\<forall>k \<ge> an_nrandom (snd ex_nonced). hex_EncodeToString (map (an_random (snd ex_nonced) k) [0..<32]) \<noteq> ex_nonce"
    by simp
  from nonce_single_use[OF v ex_nonce_read f this rtranclp.rtrancl_refl ex_nonce_read] show ?thesis .
qed

text \<open>
  C28: a sign-in needs a stored nonce that has not expired and a signature that is not empty and does
  not end in \<open>_bad\<close>, no more. It returns the account of the wallet as it is, or makes one, with
  the initial balance, when the wallet has none; no other row changes.
\<close>

theorem VerifySIWE_exact:
  assumes "VerifySIWE env message signature wallet s = (Inr (user, token), s')"
  shows "(\<exists>nonce v dies. extractNonce message = Inr nonce \<and>
      rd_values (an_redis s) (''session:nonce:'' @ nonce) = Some (v, dies) \<and> w_clock (n_world s) (w_nclock (n_world s)) < dies) \<and>
    signature \<noteq> '''' \<and> \<not> HasSuffix signature ''_bad'' \<and> u_WalletAddress user = wallet \<and>
    (if wallet \<in> u_WalletAddress ` set (db_users (n_db s)) then user \<in> set (db_users (n_db s)) \<and> n_db s' = n_db s
     else u_Balance user = 1000 \<and> u_LockedBalance user = 0 \<and> u_UserType user = Human \<and> \<not> u_IsAdmin user \<and>
       n_db s' = (n_db s)\<lparr>db_users := db_users (n_db s) @ [user]\<rparr>)"
proof -
  from assms obtain s0 where t: "take_nonce message s = (Inr (), s0)" and sg: "signature \<noteq> ''''" "\<not> HasSuffix signature ''_bad''"
    and found: "(\<exists>s1. UserRepo_GetByWallet wallet s0 = (Inr user, s1) \<and> generateJWT env (u_ID user) s1 = (Inr token, s')) \<or>
      (\<exists>e s1 s2. UserRepo_GetByWallet wallet s0 = (Inl e, s1) \<and> IsNotFound e \<and> create_user wallet s1 = (Inr user, s2) \<and>
         generateJWT env (u_ID user) s2 = (Inr token, s'))"
    by (auto simp: VerifySIWE_def unauthorized_def succeeds split: if_splits)
  from t obtain nonce v dies where n: "extractNonce message = Inr nonce"
    "rd_values (an_redis s) (''session:nonce:'' @ nonce) = Some (v, dies)" "w_clock (n_world s) (w_nclock (n_world s)) < dies"
    and s0: "n_db s0 = n_db s" by (rule take_nonce_Inr)
  from found show ?thesis
  proof (elim disjE exE conjE)
    fix s1 assume g: "UserRepo_GetByWallet wallet s0 = (Inr user, s1)" and j: "generateJWT env (u_ID user) s1 = (Inr token, s')"
    have "n_db s' = n_db s1" using generateJWT_Inr[OF j] by metis
    with GetByWallet_cases[OF g] s0 n sg show ?thesis by auto
  next
    fix e s1 s2 assume g: "UserRepo_GetByWallet wallet s0 = (Inl e, s1)" and "IsNotFound e"
      and c: "create_user wallet s1 = (Inr user, s2)" and j: "generateJWT env (u_ID user) s2 = (Inr token, s')"
    from GetByWallet_cases[OF g] \<open>IsNotFound e\<close> s0 have a: "n_db s1 = n_db s" "wallet \<notin> u_WalletAddress ` set (db_users (n_db s))" by auto
    have "n_db s' = n_db s2" using generateJWT_Inr[OF j] by metis
    with create_user_Inr[OF c] a n sg show ?thesis by auto
  qed
qed

text \<open>Bob got an account with 1000; Alice, who had one, keeps hers.\<close>

theorem VerifySIWE_exact_witness:
  "map u_WalletAddress (db_users (n_db (snd ex_signed))) = [''0xa'', ''0xb''] \<and>
   map u_Balance (db_users (n_db (snd ex_signed))) = [1000, 1000]"
proof -
  obtain user token where v: "VerifySIWE ex_plain (''Nonce: '' @ ex_nonce) ''sig'' ''0xb'' (snd ex_nonced) = (Inr (user, token), snd ex_signed)"
    using ex_signed_run by blast
  have w: "map u_WalletAddress (db_users (n_db (snd ex_nonced))) = [''0xa'']" "map u_Balance (db_users (n_db (snd ex_nonced))) = [1000]"
    by code_simp+
  then have "''0xb'' \<notin> u_WalletAddress ` set (db_users (n_db (snd ex_nonced)))" by (auto simp flip: list.set_map)
  with VerifySIWE_exact[OF v] w show ?thesis by auto
qed

lemma ValidateAPIKey_dead:
  assumes "key_dead (hex_EncodeToString (hash rawKey)) s"
  shows "\<exists>e. fst (ValidateAPIKey hash rawKey s) = Inl e"
proof -
  let ?h = "hex_EncodeToString (hash rawKey)"
  obtain q s1 where G: "APIKeyRepo_GetByHash ?h s = (q, s1)" by force
  show ?thesis
  proof (cases q)
    case (Inl e)
    with G show ?thesis by (auto simp: ValidateAPIKey_def bnd_def handle_def unauthorized_def fail_def)
  next
    case (Inr k)
    with key_ops(2)[OF G] have "find (\<lambda>k. ak_KeyHash k = ?h) (an_keys s) = Some k" by blast
    from find_key_Some[OF this] assms have "\<not> ak_IsActive k" by (auto simp: key_dead_def)
    with G Inr show ?thesis by (simp add: ValidateAPIKey_def bnd_def handle_def unauthorized_def fail_def andthen_def)
  qed
qed

text \<open>
  C29: revoking takes the newest key of the user with that prefix, deactivates it and no other, and
  needs no more than the prefix; whatever requests are served later, that key is refused.
\<close>

theorem revoked_key_dead:
  assumes "RevokeAPIKey userID prefix s = (Inr (), s1)"
    and "distinct (map ak_ID (an_keys s))" and "distinct (map ak_KeyHash (an_keys s))"
    and "(auth_step env hash)\<^sup>*\<^sup>* s1 s2"
  shows "\<exists>k \<in> set (an_keys s). ak_UserID k = userID \<and> ak_KeyPrefix k = prefix \<and>
    (\<forall>k' \<in> set (an_keys s). ak_UserID k' = userID \<and> ak_KeyPrefix k' = prefix \<longrightarrow> ak_CreatedAt k' \<le> ak_CreatedAt k) \<and>
    an_keys s1 = map (\<lambda>k'. if k' = k then k\<lparr>ak_IsActive := False\<rparr> else k') (an_keys s) \<and> n_db s1 = n_db s \<and>
    (\<forall>rawKey. hex_EncodeToString (hash rawKey) = ak_KeyHash k \<longrightarrow> (\<exists>e. fst (ValidateAPIKey hash rawKey s2) = Inl e))"
proof -
  let ?mine = "sort_key (\<lambda>k. - ak_CreatedAt k) (filter (\<lambda>k. ak_UserID k = userID) (an_keys s))"
  from assms(1) obtain keys s0 k where L: "APIKeyRepo_ListByUser userID s = (Inr keys, s0)"
    and f: "find (\<lambda>k. ak_KeyPrefix k = prefix) keys = Some k" and R: "APIKeyRepo_Revoke (ak_ID k) s0 = (Inr (), s1)"
    by (auto simp: RevokeAPIKey_def succeeds split: option.splits)
  from key_ops(3)[OF L] have keys: "keys = ?mine" and s0: "an_keys s0 = an_keys s" "n_db s0 = n_db s" by auto
  from key_ops(4)[OF R] s0 have s1: "an_keys s1 = revoke_key (ak_ID k) (an_keys s)" "n_db s1 = n_db s" by auto
  from find_key_Some[OF f] keys have k: "k \<in> set (an_keys s)" "ak_UserID k = userID" "ak_KeyPrefix k = prefix" by auto
  have newest: "ak_CreatedAt k' \<le> ak_CreatedAt k"
    if "k' \<in> set (an_keys s)" "ak_UserID k' = userID" "ak_KeyPrefix k' = prefix" for k'
  proof -
    from f obtain i where i: "i < length keys" "k = keys ! i" "\<forall>j < i. ak_KeyPrefix (keys ! j) \<noteq> prefix"
      by (auto simp: find_Some_iff)
    from that keys have "k' \<in> set keys" by simp
    then obtain j where j: "j < length keys" "k' = keys ! j" by (auto simp: in_set_conv_nth)
    with i that(3) have "i \<le> j" by (metis not_less)
    moreover have "sorted (map (\<lambda>k. - ak_CreatedAt k) keys)" unfolding keys by (rule sorted_sort_key)
    ultimately show ?thesis using i j by (auto simp: sorted_iff_nth_mono)
  qed
  have same: "ak_ID k' = ak_ID k \<longleftrightarrow> k' = k" if "k' \<in> set (an_keys s)" for k'
    using assms(2) that k(1) by (auto simp: distinct_map inj_on_def)
  have "an_keys s1 = map (\<lambda>k'. if k' = k then k\<lparr>ak_IsActive := False\<rparr> else k') (an_keys s)"
    unfolding s1 revoke_key_def by (rule map_cong) (auto simp: same)
  moreover have "key_dead (ak_KeyHash k) s1"
  proof -
    have "ak_KeyHash k' = ak_KeyHash k \<longleftrightarrow> k' = k" if "k' \<in> set (an_keys s)" for k'
      using assms(3) that k(1) by (auto simp: distinct_map inj_on_def)
    moreover have "ak_KeyHash k \<in> ak_KeyHash ` set (an_keys s1)"
      using k(1) revoke_key_hashes(1)[of "ak_ID k" "an_keys s"] unfolding s1 by (metis image_eqI list.set_map)
    ultimately show ?thesis unfolding key_dead_def s1 revoke_key_def by auto
  qed
  from revoked.auth_run[OF assms(4) this] ValidateAPIKey_dead
  have "\<exists>e. fst (ValidateAPIKey hash rawKey s2) = Inl e" if "hex_EncodeToString (hash rawKey) = ak_KeyHash k" for rawKey
    using that by metis
  ultimately show ?thesis using k newest s1(2) by blast
qed

text \<open>Alice makes a key and revokes it by its first ten characters; it is refused.\<close>

definition ex_keyed :: "(err + string \<times> APIKey) \<times> rat auth_node" where
  "ex_keyed = GenerateAPIKey (take 4) ''alice'' ''bot'' (ex_auth (\<lambda>_. 0) (\<lambda>_. False))"

definition ex_raw :: string where
  "ex_raw = ''tm_'' @ concat (replicate 24 ''41'')"

definition ex_revoked :: "(err + unit) \<times> rat auth_node" where
  "ex_revoked = RevokeAPIKey ''alice'' ''tm_4141414'' (snd ex_keyed)"

lemma ex_keys: "an_keys (snd ex_keyed) = [\<lparr>ak_ID = concat (replicate 16 ''42''), ak_UserID = ''alice'', ak_KeyHash = ''746d5f34'',
    ak_KeyPrefix = ''tm_4141414'', ak_IsActive = True, ak_ExpiresAt = None, ak_CreatedAt = 0\<rparr>]"
  by code_simp

lemma ex_hash: "hex_EncodeToString (take 4 ex_raw) = ''746d5f34''"
  by code_simp

lemma ex_valid: "case fst (ValidateAPIKey (take 4) ex_raw (snd ex_keyed)) of Inl _ \<Rightarrow> False | Inr u \<Rightarrow> u_ID u = ''alice''"
  by code_simp

lemma ex_revokes: "fst ex_revoked = Inr ()"
  by code_simp

theorem revoked_key_dead_witness:
  "(case fst (ValidateAPIKey (take 4) ex_raw (snd ex_keyed)) of Inl _ \<Rightarrow> False | Inr u \<Rightarrow> u_ID u = ''alice'') \<and>
   (case fst (ValidateAPIKey (take 4) ex_raw (snd ex_revoked)) of Inl _ \<Rightarrow> True | Inr _ \<Rightarrow> False)"
proof (rule conjI[OF ex_valid])
  have r: "RevokeAPIKey ''alice'' ''tm_4141414'' (snd ex_keyed) = (Inr (), snd ex_revoked)"
    using ex_revokes by (simp add: ex_revoked_def prod_eq_iff)
  have d: "distinct (map ak_ID (an_keys (snd ex_keyed)))" "distinct (map ak_KeyHash (an_keys (snd ex_keyed)))"
    by (simp_all only: ex_keys list.map distinct_singleton)
  from revoked_key_dead[OF r d rtranclp.rtrancl_refl, where hash = "take 4"] obtain k where "k \<in> set (an_keys (snd ex_keyed))"
    and k: "\<forall>rawKey. hex_EncodeToString (take 4 rawKey) = ak_KeyHash k \<longrightarrow> (\<exists>e. fst (ValidateAPIKey (take 4) rawKey (snd ex_revoked)) = Inl e)"
    by blast
  then have "ak_KeyHash k = ''746d5f34''" by (simp add: ex_keys)
  with k ex_hash obtain e where e: "fst (ValidateAPIKey (take 4) ex_raw (snd ex_revoked)) = Inl e" by metis
  show "case fst (ValidateAPIKey (take 4) ex_raw (snd ex_revoked)) of Inl _ \<Rightarrow> True | Inr _ \<Rightarrow> False"
    unfolding e by simp
qed

end
