(* ===== verification/AuthServer.thy ===== *)
theory AuthServer
  imports SignIn GrpcStatus
begin

text \<open>
  The gRPC layer of the authentication service, \<open>services/auth-svc/internal/grpc/server.go\<close>.
\<close>

section \<open>Messages\<close>

record PbUser =
  pu_Id :: string
  pu_WalletAddress :: string
  pu_UserType :: int
  pu_Balance :: string
  pu_LockedBalance :: string
  pu_IsAdmin :: bool
  pu_CreatedAt :: "time option"

record PbCreateAPIKeyResponse =
  pa_Key :: string
  pa_KeyPrefix :: string
  pa_ExpiresAt :: "time option"

definition domainUserToProto :: "('d \<Rightarrow> string) \<Rightarrow> 'd User \<Rightarrow> PbUser" where
  "domainUserToProto str u =
     \<lparr>pu_Id = u_ID u, pu_WalletAddress = u_WalletAddress u,
      pu_UserType = (case u_UserType u of Human \<Rightarrow> 1 | Agent \<Rightarrow> 2),
      pu_Balance = str (u_Balance u), pu_LockedBalance = str (u_LockedBalance u), pu_IsAdmin = u_IsAdmin u,
      pu_CreatedAt = Some (u_CreatedAt u)\<rparr>"

definition Auth_toGRPCError :: "(err \<Rightarrow> string) \<Rightarrow> err \<Rightarrow> grpc_error" where
  "Auth_toGRPCError drv e =
     (case as_app_error e of
        None \<Rightarrow> (Internal, AppError_Error drv e)
      | Some (code, message) \<Rightarrow>
          if code = error_code ErrNotFound then (NotFound, message)
          else if code = error_code ErrUnauthorized then (Unauthenticated, message)
          else if code = error_code ErrForbidden then (PermissionDenied, message)
          else if code = error_code ErrBadRequest then (InvalidArgument, message)
          else if code = error_code ErrConflict then (AlreadyExists, message)
          else if code = error_code ErrInternalError then (Internal, message)
          else if code = error_code ErrInsufficientBalance then (FailedPrecondition, message)
          else if code = error_code ErrMarketClosed then (FailedPrecondition, message)
          else if code = error_code ErrInvalidPrice then (InvalidArgument, message)
          else (Internal, message))"

section \<open>Handlers\<close>

type_synonym ('d, 'a) ahandler = "('d auth_node, grpc_error, 'a) comp"

definition Server_GenerateNonce :: "(err \<Rightarrow> string) \<Rightarrow> ('d, string) ahandler" where
  "Server_GenerateNonce drv = rpc (Auth_toGRPCError drv) GenerateNonce"

definition Server_VerifySignature ::
    "('d \<Rightarrow> string) \<Rightarrow> (err \<Rightarrow> string) \<Rightarrow> jwt_env \<Rightarrow> string \<Rightarrow> string \<Rightarrow> string \<Rightarrow>
     ('d::linordered_field, PbUser \<times> string) ahandler" where
  "Server_VerifySignature str drv env message signature walletAddress =
     bnd (rpc (Auth_toGRPCError drv) (VerifySIWE env message signature walletAddress)) (\<lambda>(user, token).
     ret (domainUserToProto str user, token))"

definition Server_ValidateToken :: "('d \<Rightarrow> string) \<Rightarrow> (err \<Rightarrow> string) \<Rightarrow> jwt_env \<Rightarrow> string \<Rightarrow> ('d, PbUser) ahandler" where
  "Server_ValidateToken str drv env token =
     bnd (rpc (Auth_toGRPCError drv) (ValidateToken env token)) (\<lambda>user. ret (domainUserToProto str user))"

definition Server_ValidateAPIKey ::
    "('d \<Rightarrow> string) \<Rightarrow> (err \<Rightarrow> string) \<Rightarrow> (string \<Rightarrow> string) \<Rightarrow> string \<Rightarrow> ('d, PbUser) ahandler" where
  "Server_ValidateAPIKey str drv hash apiKey =
     bnd (rpc (Auth_toGRPCError drv) (ValidateAPIKey hash apiKey)) (\<lambda>user. ret (domainUserToProto str user))"

definition Server_CreateAPIKey ::
    "(err \<Rightarrow> string) \<Rightarrow> (string \<Rightarrow> string) \<Rightarrow> string \<Rightarrow> string \<Rightarrow> ('d, PbCreateAPIKeyResponse) ahandler" where
  "Server_CreateAPIKey drv hash userID label =
     bnd (rpc (Auth_toGRPCError drv) (GenerateAPIKey hash userID label)) (\<lambda>(rawKey, apiKey).
     ret \<lparr>pa_Key = rawKey, pa_KeyPrefix = ak_KeyPrefix apiKey, pa_ExpiresAt = ak_ExpiresAt apiKey\<rparr>)"

definition Server_RevokeAPIKey :: "(err \<Rightarrow> string) \<Rightarrow> string \<Rightarrow> string \<Rightarrow> ('d, unit) ahandler" where
  "Server_RevokeAPIKey drv userID keyPrefix = rpc (Auth_toGRPCError drv) (RevokeAPIKey userID keyPrefix)"

definition Server_GetUser :: "('d \<Rightarrow> string) \<Rightarrow> (err \<Rightarrow> string) \<Rightarrow> string \<Rightarrow> ('d, PbUser) ahandler" where
  "Server_GetUser str drv userID =
     bnd (rpc (Auth_toGRPCError drv) (Auth_GetUser userID)) (\<lambda>user. ret (domainUserToProto str user))"

text \<open>
  A user of the service is a user of the database, whichever way it signed in; a refused message
  without a nonce is Unauthenticated.
\<close>

lemma VerifySignature_without_nonce:
  assumes "extractNonce message = Inl e"
  shows "Server_VerifySignature str drv env message signature wallet s =
    (Inl (Unauthenticated, ''invalid SIWE message: missing nonce''), s)"
  using assms
  by (simp add: Server_VerifySignature_def VerifySIWE_def take_nonce_def andthen_def bnd_def fail_def rpc_def
      Auth_toGRPCError_def app_wrap_def sentinel_codes)

end
