(* ===== verification/Ranking.thy ===== *)
theory Ranking
  imports GrpcStatus
begin

text \<open>
  The ranking service: the materialized view of migration \<open>000008\<close> and its repository
  (\<open>infra/postgres/ranking_repo.go\<close>), the services \<open>ranking.go\<close> and \<open>portfolio.go\<close> of
  \<open>services/ranking-svc/internal/service\<close>, and the gRPC layer over them.
\<close>

section \<open>Data\<close>

datatype RankDimension = RankTotalAssets | RankPnL | RankVolume | RankWinRate | RankTradeCount

record 'd UserRanking =
  ur_UserID :: string
  ur_WalletAddress :: string
  ur_UserType :: UserType
  ur_Dimension :: RankDimension
  ur_Value :: 'd
  ur_Rank :: int
  ur_UpdatedAt :: time

record RankingFilter =
  rf_Dimension :: "RankDimension option"
  rf_UserType :: "UserType option"
  rf_Limit :: int
  rf_Offset :: int

text \<open>A row of the view, which is computed when it is refreshed and read until the next refresh.\<close>

record 'd rank_row =
  rr_user_id :: string
  rr_wallet_address :: string
  rr_user_type :: UserType
  rr_total_assets :: 'd
  rr_pnl :: 'd
  rr_volume :: 'd
  rr_win_rate :: 'd
  rr_updated_at :: time

record 'd ranking_node = "'d node" +
  rk_view :: "'d rank_row list"

type_synonym ('d, 'a) rkop = "('d ranking_node, err, 'a) comp"

section \<open>The view\<close>

definition position_value :: "'d::linordered_field DB \<Rightarrow> string \<Rightarrow> 'd" where
  "position_value db i =
     sum_list (map (\<lambda>p. p_Quantity p * (1 / 2)) (filter (\<lambda>p. p_UserID p = i \<and> 0 < p_Quantity p) (db_positions db)))"

definition traded_volume :: "'d::linordered_field DB \<Rightarrow> string \<Rightarrow> 'd" where
  "traded_volume db i =
     sum_list (map (\<lambda>t. t_Price t * t_Quantity t)
       (filter (\<lambda>t. t_MakerUserID t = i \<or> t_TakerUserID t = i) (db_trades db)))"

definition resolved_positions :: "'d DB \<Rightarrow> string \<Rightarrow> 'd Position list" where
  "resolved_positions db i =
     filter (\<lambda>p. p_UserID p = i \<and> outcome_exists (p_OutcomeID p) db \<and>
       (case find_market (p_MarketID p) db of None \<Rightarrow> False | Some m \<Rightarrow> m_Status m = MResolved)) (db_positions db)"

definition won :: "'d::linordered_field DB \<Rightarrow> 'd Position \<Rightarrow> bool" where
  "won db p \<longleftrightarrow> (\<exists>x \<in> set (db_outcomes db). oc_ID x = p_OutcomeID p \<and> oc_IsWinner x) \<and> 0 < p_Quantity p"

text \<open>The division of \<open>NUMERIC\<close> rounds; it is an argument.\<close>

definition win_rate :: "(nat \<Rightarrow> nat \<Rightarrow> 'd) \<Rightarrow> 'd::linordered_field DB \<Rightarrow> string \<Rightarrow> 'd" where
  "win_rate numeric_div db i =
     (let resolved = resolved_positions db i
      in if length resolved = 0 then 0 else numeric_div (count_where (won db) resolved) (length resolved))"

definition view_row ::
    "(nat \<Rightarrow> nat \<Rightarrow> 'd) \<Rightarrow> time \<Rightarrow> 'd::linordered_field DB \<Rightarrow> 'd User \<Rightarrow> 'd rank_row" where
  "view_row numeric_div t db u =
     \<lparr>rr_user_id = u_ID u, rr_wallet_address = u_WalletAddress u, rr_user_type = u_UserType u,
      rr_total_assets = u_Balance u + position_value db (u_ID u),
      rr_pnl = u_Balance u + position_value db (u_ID u) - 1000,
      rr_volume = traded_volume db (u_ID u), rr_win_rate = win_rate numeric_div db (u_ID u), rr_updated_at = t\<rparr>"

section \<open>The repository\<close>

definition view_query :: "string \<Rightarrow> ('d rank_row list \<Rightarrow> 'a) \<Rightarrow> ('d, 'a) rkop" where
  "view_query what f = andthen (query what (\<lambda>db. ())) (gets (\<lambda>s. f (rk_view s)))"

definition RankingRepo_RefreshMaterializedView ::
    "(nat \<Rightarrow> nat \<Rightarrow> 'd) \<Rightarrow> ('d::linordered_field, unit) rkop" where
  "RankingRepo_RefreshMaterializedView numeric_div =
     bnd now (\<lambda>t.
     bnd (query ''postgres: refresh rankings materialized view''
           (\<lambda>db. map (view_row numeric_div t db) (db_users db))) (\<lambda>rows.
     modify (\<lambda>s. s\<lparr>rk_view := rows\<rparr>)))"

definition RankingRepo_Upsert :: "'d UserRanking \<Rightarrow> ('d, unit) rkop" where
  "RankingRepo_Upsert ranking = ret ()"

definition dimensionColumn :: "RankDimension \<Rightarrow> 'd rank_row \<Rightarrow> 'd" where
  "dimensionColumn d =
     (case d of RankTotalAssets \<Rightarrow> rr_total_assets | RankPnL \<Rightarrow> rr_pnl | RankVolume \<Rightarrow> rr_volume
      | RankWinRate \<Rightarrow> rr_win_rate | _ \<Rightarrow> rr_total_assets)"

text \<open>\<open>RANK() OVER (ORDER BY col DESC)\<close> among the given rows.\<close>

definition sql_rank :: "('d rank_row \<Rightarrow> 'd::linorder) \<Rightarrow> 'd rank_row list \<Rightarrow> 'd rank_row \<Rightarrow> int" where
  "sql_rank col rows r = 1 + int (count_where (\<lambda>x. col r < col x) rows)"

definition ranking_of_row :: "RankDimension \<Rightarrow> 'd::linorder rank_row list \<Rightarrow> 'd rank_row \<Rightarrow> 'd UserRanking" where
  "ranking_of_row dm rows r =
     \<lparr>ur_UserID = rr_user_id r, ur_WalletAddress = rr_wallet_address r, ur_UserType = rr_user_type r,
      ur_Dimension = dm, ur_Value = dimensionColumn dm r, ur_Rank = sql_rank (dimensionColumn dm) rows r,
      ur_UpdatedAt = rr_updated_at r\<rparr>"

definition RankDimension_String :: "RankDimension \<Rightarrow> string" where
  "RankDimension_String d =
     (case d of RankTotalAssets \<Rightarrow> ''total_assets'' | RankPnL \<Rightarrow> ''pnl'' | RankVolume \<Rightarrow> ''volume''
      | RankWinRate \<Rightarrow> ''win_rate'' | RankTradeCount \<Rightarrow> ''trade_count'')"

fun rankings_by_dim ::
    "RankDimension list \<Rightarrow> string \<Rightarrow> 'd UserRanking list \<Rightarrow> ('d::linordered_field, 'd UserRanking list) rkop" where
  "rankings_by_dim [] userID rankings = ret rankings"
| "rankings_by_dim (dm # dims) userID rankings =
     bnd (view_query (''postgres: get ranking by user dim='' @ RankDimension_String dm)
           (\<lambda>rows. map_option (ranking_of_row dm rows) (find (\<lambda>r. rr_user_id r = userID) rows))) (\<lambda>row.
     case row of None \<Rightarrow> rankings_by_dim dims userID rankings
     | Some r \<Rightarrow> rankings_by_dim dims userID (rankings @ [r]))"

definition RankingRepo_GetByUser :: "string \<Rightarrow> ('d::linordered_field, 'd UserRanking list) rkop" where
  "RankingRepo_GetByUser userID = rankings_by_dim [RankTotalAssets, RankPnL, RankVolume, RankWinRate] userID []"

definition row_matches :: "UserType option \<Rightarrow> 'd rank_row \<Rightarrow> bool" where
  "row_matches t r \<longleftrightarrow> (case t of None \<Rightarrow> True | Some x \<Rightarrow> rr_user_type r = x)"

text \<open>The rows of one user type with their ranks, in the order of \<open>ORDER BY rank\<close>.\<close>

definition leaderboard :: "RankDimension \<Rightarrow> UserType option \<Rightarrow> 'd::linorder rank_row list \<Rightarrow> 'd UserRanking list" where
  "leaderboard dm t view =
     (let rows = filter (row_matches t) view in sort_key ur_Rank (map (ranking_of_row dm rows) rows))"

definition RankingRepo_List :: "RankingFilter \<Rightarrow> ('d::linordered_field, 'd UserRanking list \<times> nat) rkop" where
  "RankingRepo_List flt =
     (let dm = (case rf_Dimension flt of None \<Rightarrow> RankTotalAssets | Some d \<Rightarrow> d)
      in bnd (view_query ''postgres: list rankings count'' (count_where (row_matches (rf_UserType flt)))) (\<lambda>total.
         bnd (view_query ''postgres: list rankings query''
               (\<lambda>view. take (nat (page_limit (rf_Limit flt))) (drop (nat (page_offset (rf_Offset flt)))
                         (leaderboard dm (rf_UserType flt) view)))) (\<lambda>rankings.
         ret (rankings, total))))"

section \<open>The services\<close>

definition GetLeaderboard ::
    "RankDimension \<Rightarrow> UserType option \<Rightarrow> int \<Rightarrow> int \<Rightarrow> ('d::linordered_field, 'd UserRanking list \<times> nat) rkop" where
  "GetLeaderboard dimension userType page_no perPage =
     (let offset = (page_no - 1) * perPage;
          offset = (if offset < 0 then 0 else offset)
      in RankingRepo_List
           \<lparr>rf_Dimension = Some dimension, rf_UserType = userType, rf_Limit = perPage, rf_Offset = offset\<rparr>)"

definition GetUserRanking :: "string \<Rightarrow> ('d::linordered_field, 'd UserRanking list) rkop" where
  "GetUserRanking userID = RankingRepo_GetByUser userID"

definition RefreshRankings :: "(nat \<Rightarrow> nat \<Rightarrow> 'd) \<Rightarrow> ('d::linordered_field, unit) rkop" where
  "RefreshRankings numeric_div = RankingRepo_RefreshMaterializedView numeric_div"

record 'd PortfolioPosition =
  pf_MarketID :: string
  pf_OutcomeID :: string
  pf_Quantity :: 'd
  pf_AvgPrice :: 'd
  pf_Value :: 'd

record 'd Portfolio =
  pf_TotalValue :: 'd
  pf_UnrealizedPnL :: 'd
  pf_Positions :: "'d PortfolioPosition list"

fun aggregate ::
    "'d Position list \<Rightarrow> 'd \<Rightarrow> 'd PortfolioPosition list \<Rightarrow> 'd::linordered_field \<times> 'd PortfolioPosition list" where
  "aggregate [] tot ps = (tot, ps)"
| "aggregate (pos # rest) tot ps =
     (let value = p_Quantity pos * p_AvgPrice pos
      in aggregate rest (tot + value)
           (ps @ [\<lparr>pf_MarketID = p_MarketID pos, pf_OutcomeID = p_OutcomeID pos, pf_Quantity = p_Quantity pos,
                   pf_AvgPrice = p_AvgPrice pos, pf_Value = value\<rparr>]))"

definition GetPortfolio :: "string \<Rightarrow> ('d::linordered_field, 'd Portfolio) rkop" where
  "GetPortfolio userID =
     bnd (UserRepo_GetByID userID) (\<lambda>user.
     bnd (PositionRepo_ListByUser userID) (\<lambda>positions.
     (let (totalPositionValue, portfolioPositions) = aggregate positions 0 [];
          totalValue = u_Balance user + totalPositionValue
      in ret \<lparr>pf_TotalValue = totalValue, pf_UnrealizedPnL = totalValue - InitialBalance,
              pf_Positions = portfolioPositions\<rparr>)))"

text \<open>\<open>portfolioAdapter\<close> of \<open>services/ranking-svc/cmd\<close> copies the result field by field.\<close>

definition portfolioAdapter_GetPortfolio :: "string \<Rightarrow> ('d::linordered_field, 'd Portfolio) rkop" where
  "portfolioAdapter_GetPortfolio userID =
     bnd (GetPortfolio userID) (\<lambda>p.
     ret \<lparr>pf_TotalValue = pf_TotalValue p, pf_UnrealizedPnL = pf_UnrealizedPnL p,
          pf_Positions = map (\<lambda>q. \<lparr>pf_MarketID = pf_MarketID q, pf_OutcomeID = pf_OutcomeID q,
            pf_Quantity = pf_Quantity q, pf_AvgPrice = pf_AvgPrice q, pf_Value = pf_Value q\<rparr>) (pf_Positions p)\<rparr>)"

section \<open>The gRPC layer\<close>

record PbUserRanking =
  pr_UserId :: string
  pr_WalletAddress :: string
  pr_UserType :: string
  pr_Rank :: int
  pr_Value :: string
  pr_UpdatedAt :: time

record PbDimensionRank =
  pd_Dimension :: int
  pd_Rank :: int
  pd_Value :: string

record PbPortfolioPosition =
  pfp_MarketId :: string
  pfp_OutcomeId :: string
  pfp_Quantity :: string
  pfp_AvgPrice :: string

record PbPortfolio =
  pfr_TotalValue :: string
  pfr_UnrealizedPnl :: string
  pfr_Positions :: "PbPortfolioPosition list"

record PbGetLeaderboardRequest =
  pgl_Dimension :: int
  pgl_UserType :: int
  pgl_Page :: int
  pgl_PerPage :: int

definition domainDimensionToProto :: "RankDimension \<Rightarrow> int" where
  "domainDimensionToProto d =
     (case d of RankTotalAssets \<Rightarrow> 1 | RankPnL \<Rightarrow> 2 | RankVolume \<Rightarrow> 3 | RankWinRate \<Rightarrow> 4 | _ \<Rightarrow> 0)"

definition protoDimensionToDomain :: "int \<Rightarrow> RankDimension" where
  "protoDimensionToDomain d =
     (if d = 1 then RankTotalAssets else if d = 2 then RankPnL else if d = 3 then RankVolume
      else if d = 4 then RankWinRate else RankTotalAssets)"

definition protoUserTypeFilterToDomain :: "int \<Rightarrow> UserType option" where
  "protoUserTypeFilterToDomain f = (if f = 2 then Some Human else if f = 3 then Some Agent else None)"

definition UserType_String :: "UserType \<Rightarrow> string" where
  "UserType_String t = (case t of Human \<Rightarrow> ''human'' | Agent \<Rightarrow> ''agent'')"

definition domainRankingToProto :: "('d \<Rightarrow> string) \<Rightarrow> 'd UserRanking \<Rightarrow> PbUserRanking" where
  "domainRankingToProto str r =
     \<lparr>pr_UserId = ur_UserID r, pr_WalletAddress = ur_WalletAddress r, pr_UserType = UserType_String (ur_UserType r),
      pr_Rank = ur_Rank r, pr_Value = str (ur_Value r), pr_UpdatedAt = ur_UpdatedAt r\<rparr>"

definition Ranking_toGRPCError :: "(err \<Rightarrow> string) \<Rightarrow> err \<Rightarrow> grpc_error" where
  "Ranking_toGRPCError drv e =
     (case as_app_error e of
        None \<Rightarrow> (Internal, AppError_Error drv e)
      | Some (code, message) \<Rightarrow>
          if code = error_code ErrNotFound then (NotFound, message)
          else if code = error_code ErrUnauthorized then (Unauthenticated, message)
          else if code = error_code ErrForbidden then (PermissionDenied, message)
          else if code = error_code ErrBadRequest then (InvalidArgument, message)
          else if code = error_code ErrConflict then (AlreadyExists, message)
          else if code = error_code ErrInternalError then (Internal, message)
          else if code = error_code ErrInsufficientBalance then (FailedPrecondition, message)
          else if code = error_code ErrMarketClosed then (FailedPrecondition, message)
          else if code = error_code ErrInvalidPrice then (InvalidArgument, message)
          else (Internal, message))"

type_synonym ('d, 'a) rkhandler = "('d ranking_node, grpc_error, 'a) comp"

definition Server_GetLeaderboard ::
    "('d \<Rightarrow> string) \<Rightarrow> (err \<Rightarrow> string) \<Rightarrow> PbGetLeaderboardRequest \<Rightarrow>
     ('d::linordered_field, PbUserRanking list \<times> nat) rkhandler" where
  "Server_GetLeaderboard str drv req =
     (let dimension = protoDimensionToDomain (pgl_Dimension req);
          userType = protoUserTypeFilterToDomain (pgl_UserType req);
          page_no = (if pgl_Page req = 0 then 1 else pgl_Page req);
          perPage = (if pgl_PerPage req = 0 then 20 else pgl_PerPage req)
      in bnd (rpc (Ranking_toGRPCError drv) (GetLeaderboard dimension userType page_no perPage)) (\<lambda>(rankings, total).
         ret (map (domainRankingToProto str) rankings, total)))"

definition Server_GetUserRanking ::
    "('d \<Rightarrow> string) \<Rightarrow> (err \<Rightarrow> string) \<Rightarrow> string \<Rightarrow> ('d::linordered_field, PbDimensionRank list) rkhandler" where
  "Server_GetUserRanking str drv userID =
     bnd (rpc (Ranking_toGRPCError drv) (GetUserRanking userID)) (\<lambda>rankings.
     ret (map (\<lambda>r. \<lparr>pd_Dimension = domainDimensionToProto (ur_Dimension r), pd_Rank = ur_Rank r,
                    pd_Value = str (ur_Value r)\<rparr>) rankings))"

definition Server_GetPortfolio ::
    "('d \<Rightarrow> string) \<Rightarrow> (err \<Rightarrow> string) \<Rightarrow> string \<Rightarrow> ('d::linordered_field, PbPortfolio) rkhandler" where
  "Server_GetPortfolio str drv userID =
     bnd (rpc (Ranking_toGRPCError drv) (portfolioAdapter_GetPortfolio userID)) (\<lambda>p.
     ret \<lparr>pfr_TotalValue = str (pf_TotalValue p), pfr_UnrealizedPnl = str (pf_UnrealizedPnL p),
          pfr_Positions = map (\<lambda>q. \<lparr>pfp_MarketId = pf_MarketID q, pfp_OutcomeId = pf_OutcomeID q,
            pfp_Quantity = str (pf_Quantity q), pfp_AvgPrice = str (pf_AvgPrice q)\<rparr>) (pf_Positions p)\<rparr>)"

definition Server_RefreshRankings ::
    "(nat \<Rightarrow> nat \<Rightarrow> 'd) \<Rightarrow> (err \<Rightarrow> string) \<Rightarrow> ('d::linordered_field, int) rkhandler" where
  "Server_RefreshRankings numeric_div drv =
     andthen (rpc (Ranking_toGRPCError drv) (RefreshRankings numeric_div)) (ret 0)"

text \<open>The start of the service refreshes the view; a failure is only logged.\<close>

definition ranking_start :: "(nat \<Rightarrow> nat \<Rightarrow> 'd) \<Rightarrow> ('d::linordered_field, unit) rkop" where
  "ranking_start numeric_div = handle (RankingRepo_RefreshMaterializedView numeric_div) (\<lambda>_. ret ())"

section \<open>What the queries return\<close>

lemma more_view: "node.more s' = node.more s \<Longrightarrow> rk_view s' = rk_view s"
  by (cases s; cases s') simp

definition reads_only :: "'d ranking_node \<Rightarrow> 'd ranking_node \<Rightarrow> bool" where
  "reads_only s s' \<longleftrightarrow> n_db s' = n_db s \<and> rk_view s' = rk_view s"

lemma moved_reads: "moved s s' \<Longrightarrow> n_db s' = n_db s \<Longrightarrow> reads_only s s'"
  unfolding moved_def reads_only_def by (blast intro: more_view)

lemma view_query_effect [effects]:
  "view_query what f s = (Inr x, s') \<Longrightarrow> reads_only s s' \<and> x = f (rk_view s)"
  by (auto simp: view_query_def succeeds reads_only_def dest!: query_effect moved_reads)

lemma sql_rank_strict:
  assumes "b \<in> set rows" and "col a < col b"
  shows "sql_rank col rows b < sql_rank col rows a"
proof -
  have "filter (\<lambda>x. col b < col x) rows = filter (\<lambda>x. col b < col x) (filter (\<lambda>x. col a < col x) rows)"
    unfolding filter_filter by (rule filter_cong[OF refl]) (blast intro: less_trans[OF assms(2)])
  moreover have "length (filter (\<lambda>x. col b < col x) (filter (\<lambda>x. col a < col x) rows)) < length (filter (\<lambda>x. col a < col x) rows)"
    by (rule length_filter_less[of b]) (simp_all add: assms)
  ultimately show ?thesis by (simp add: sql_rank_def count_where_def)
qed

text \<open>An entry of the leaderboard, as a condition on the rows of the view.\<close>

definition entry_of :: "RankDimension \<Rightarrow> UserType option \<Rightarrow> 'd::linorder rank_row list \<Rightarrow> 'd UserRanking \<Rightarrow> 'd rank_row \<Rightarrow> bool" where
  "entry_of dm t view r row \<longleftrightarrow> row_matches t row \<and> ur_UserID r = rr_user_id row \<and>
     ur_Value r = dimensionColumn dm row \<and>
     ur_Rank r = 1 + int (count_where (\<lambda>x. row_matches t x \<and> ur_Value r < dimensionColumn dm x) view)"

lemma set_leaderboard:
  "set (leaderboard dm t view) = ranking_of_row dm (filter (row_matches t) view) ` set (filter (row_matches t) view)"
  by (simp add: leaderboard_def Let_def)

lemma leaderboard_by_rank: "sorted (map ur_Rank (leaderboard dm t view))"
  by (simp add: leaderboard_def Let_def)

lemma leaderboard_by_value: "sorted_wrt (\<lambda>a b. ur_Value b \<le> ur_Value a) (leaderboard dm t view)"
proof (rule sorted_wrt_mono_rel[of _ "\<lambda>a b. ur_Rank a \<le> ur_Rank b"])
  show "sorted_wrt (\<lambda>a b. ur_Rank a \<le> ur_Rank b) (leaderboard dm t view)"
    using leaderboard_by_rank by (simp add: sorted_map)
  fix a b assume "a \<in> set (leaderboard dm t view)" "b \<in> set (leaderboard dm t view)" "ur_Rank a \<le> ur_Rank b"
  then show "ur_Value b \<le> ur_Value a"
    using sql_rank_strict[of _ "filter (row_matches t) view" "dimensionColumn dm"]
    by (force simp: set_leaderboard ranking_of_row_def not_le[symmetric])
qed

lemma leaderboard_entries:
  assumes "r \<in> set (leaderboard dm t view)"
  shows "\<exists>row \<in> set view. entry_of dm t view r row"
proof -
  obtain row where row: "row \<in> set (filter (row_matches t) view)" "r = ranking_of_row dm (filter (row_matches t) view) row"
    using assms by (auto simp: set_leaderboard)
  then have "entry_of dm t view r row"
    by (simp add: entry_of_def ranking_of_row_def sql_rank_def count_where_def conj_commute)
  with row(1) show ?thesis by auto
qed

lemma mset_leaderboard:
  "mset (leaderboard dm t view) = mset (map (ranking_of_row dm (filter (row_matches t) view)) (filter (row_matches t) view))"
  by (simp add: leaderboard_def Let_def)

lemma GetLeaderboard_effect:
  assumes "GetLeaderboard dm t n m s = (Inr (rs, cnt), s')"
  shows "reads_only s s' \<and> cnt = count_where (row_matches t) (rk_view s) \<and>
    rs = take (nat (page_limit m)) (drop (nat ((n - 1) * m)) (leaderboard dm t (rk_view s)))"
proof -
  have "page_offset (if (n - 1) * m < 0 then 0 else (n - 1) * m) = (if (n - 1) * m < 0 then 0 else (n - 1) * m)"
    by (simp add: page_offset_def)
  then show ?thesis using assms
    by (auto simp: GetLeaderboard_def RankingRepo_List_def Let_def succeeds reads_only_def split: if_splits
        dest!: view_query_effect)
qed

text \<open>
  C37: a page of the leaderboard is in order of rank and of value, every entry is a user of the
  wanted type with its value in the view, its rank is one more than the number of users of that
  type with a greater value, and the total counts the users of the type.
\<close>

theorem leaderboard_exact:
  assumes "GetLeaderboard dm t n m s = (Inr (rs, cnt), s')"
  shows "n_db s' = n_db s \<and> rk_view s' = rk_view s \<and> cnt = count_where (row_matches t) (rk_view s) \<and>
    sorted (map ur_Rank rs) \<and> sorted_wrt (\<lambda>a b. ur_Value b \<le> ur_Value a) rs \<and>
    (\<forall>r \<in> set rs. \<exists>row \<in> set (rk_view s). entry_of dm t (rk_view s) r row)"
proof -
  note E = GetLeaderboard_effect[OF assms]
  have "sorted (map ur_Rank rs)"
    using E sorted_wrt_take sorted_wrt_drop leaderboard_by_rank by (metis drop_map take_map)
  moreover have "sorted_wrt (\<lambda>a b. ur_Value b \<le> ur_Value a) rs"
    using E by (simp add: sorted_wrt_take sorted_wrt_drop leaderboard_by_value)
  moreover have "set rs \<subseteq> set (leaderboard dm t (rk_view s))"
    using E by (meson set_drop_subset set_take_subset subset_trans)
  ultimately show ?thesis using E leaderboard_entries[of _ dm t "rk_view s"] unfolding reads_only_def by blast
qed

section \<open>Pages\<close>

lemma concat_pages: "concat (map (\<lambda>i. take n (drop (i * n) xs)) [0..<k]) = take (k * n) xs"
proof (induction k)
  case (Suc k)
  have "take (k * n) xs @ take n (drop (k * n) xs) = take (k * n + n) xs" by (simp add: take_add)
  with Suc show ?case by (simp add: add.commute)
qed simp

lemma reads_only_chain:
  assumes "\<forall>i<k. reads_only (st i) (st (Suc i))" and "i \<le> k"
  shows "rk_view (st i) = rk_view (st 0)"
  using assms(2) by (induction i) (use assms(1) in \<open>auto simp: reads_only_def\<close>)

text \<open>
  The pages of a leaderboard, read one after the other with no refresh in between, list
  every user of the type once and leave none out, as soon as they reach the total.
\<close>

theorem leaderboard_pages_complete:
  assumes "0 < m" and "\<forall>i<k. GetLeaderboard dm t (1 + int i) m (st i) = (Inr (pages i, cnt), st (Suc i))"
    and "0 < k" and "cnt \<le> k * nat m"
  shows "mset (map ur_UserID (concat (map pages [0..<k]))) =
    mset (map rr_user_id (filter (row_matches t) (rk_view (st 0))))"
proof -
  let ?all = "leaderboard dm t (rk_view (st 0))"
  have E: "reads_only (st i) (st (Suc i))" "cnt = count_where (row_matches t) (rk_view (st i))"
    "pages i = take (nat (page_limit m)) (drop (nat (int i * m)) (leaderboard dm t (rk_view (st i))))" if "i < k" for i
    using GetLeaderboard_effect[OF assms(2)[rule_format, OF that]] by simp_all
  have view: "rk_view (st i) = rk_view (st 0)" if "i < k" for i
    by (rule reads_only_chain[of k]) (use E(1) that in auto)
  have "pages i = take (nat m) (drop (i * nat m) ?all)" if "i < k" for i
    using E(3)[OF that] view[OF that] assms(1) by (simp add: page_limit_def nat_mult_distrib)
  then have "concat (map pages [0..<k]) = take (k * nat m) ?all"
    by (subst concat_pages[symmetric]) (intro arg_cong[where f = concat] map_cong, auto)
  moreover have "length ?all \<le> k * nat m"
    using E(2)[OF assms(3)] view[OF assms(3)] assms(4) by (simp add: leaderboard_def Let_def count_where_def)
  ultimately have "concat (map pages [0..<k]) = ?all" by simp
  moreover have "mset (map ur_UserID ?all) = mset (map rr_user_id (filter (row_matches t) (rk_view (st 0))))"
    by (simp add: leaderboard_def Let_def ranking_of_row_def image_mset.compositionality comp_def)
  ultimately show ?thesis by simp
qed

section \<open>A refresh\<close>

lemma Refresh_effect:
  assumes "RefreshRankings numeric_div s = (Inr x, s')"
  shows "\<exists>t. n_db s' = n_db s \<and> rk_view s' = map (view_row numeric_div t (n_db s)) (db_users (n_db s))"
  using assms by (auto simp: RefreshRankings_def RankingRepo_RefreshMaterializedView_def succeeds
      dest!: query_effect now_effect)

lemma rankings_by_dim_effect:
  assumes "rankings_by_dim dims i acc s = (Inr rs, s')"
  shows "reads_only s s' \<and> rs = acc @ (case find (\<lambda>r. rr_user_id r = i) (rk_view s) of None \<Rightarrow> []
    | Some r \<Rightarrow> map (\<lambda>dm. ranking_of_row dm (rk_view s) r) dims)"
  using assms
  by (induction dims arbitrary: acc s)
    (force simp: succeeds reads_only_def split: option.splits dest!: view_query_effect)+

lemma find_view:
  "find (\<lambda>r. rr_user_id r = i) (map (view_row numeric_div t db) us) =
   map_option (view_row numeric_div t db) (find (\<lambda>u. u_ID u = i) us)"
  by (induction us) (auto simp: view_row_def)

lemma sql_rank_shift:
  assumes "\<And>x. x \<in> set rows \<Longrightarrow> f x = g x + c" and "r \<in> set rows"
  shows "sql_rank f rows r = sql_rank (g :: _ \<Rightarrow> 'd::linordered_field) rows r"
proof -
  have "filter (\<lambda>x. f r < f x) rows = filter (\<lambda>x. g r < g x) rows"
    by (rule filter_cong[OF refl]) (simp add: assms)
  then show ?thesis by (simp add: sql_rank_def count_where_def)
qed

definition assets :: "'d::linordered_field DB \<Rightarrow> 'd User \<Rightarrow> 'd" where
  "assets db u = u_Balance u + position_value db (u_ID u)"

text \<open>
  C36: after a refresh a registered user has one ranking for each of the four dimensions, the
  values are those of the tables, the profit is the assets less the initial balance, and its
  rank is that of the assets: one more than the number of users who own more.
\<close>

theorem rankings_after_refresh:
  assumes "RefreshRankings numeric_div s = (Inr (), s1)" and "GetUserRanking i s1 = (Inr rs, s2)"
    and "find_user i (n_db s) = Some u"
  shows "map ur_Dimension rs = [RankTotalAssets, RankPnL, RankVolume, RankWinRate] \<and>
    map ur_Value rs = [assets (n_db s) u, assets (n_db s) u - InitialBalance, traded_volume (n_db s) i,
      win_rate numeric_div (n_db s) i] \<and>
    ur_Rank (rs ! 0) = 1 + int (count_where (\<lambda>x. assets (n_db s) u < assets (n_db s) x) (db_users (n_db s))) \<and>
    ur_Rank (rs ! 1) = ur_Rank (rs ! 0)"
proof -
  obtain t where view: "rk_view s1 = map (view_row numeric_div t (n_db s)) (db_users (n_db s))"
    using Refresh_effect[OF assms(1)] by blast
  let ?row = "view_row numeric_div t (n_db s)"
  have u: "u \<in> set (db_users (n_db s))" "u_ID u = i"
    using assms(3) by (auto simp: find_user_def find_Some_iff)
  have rs: "rs = map (\<lambda>dm. ranking_of_row dm (rk_view s1) (?row u)) [RankTotalAssets, RankPnL, RankVolume, RankWinRate]"
    using rankings_by_dim_effect[OF assms(2)[unfolded GetUserRanking_def RankingRepo_GetByUser_def]] assms(3)
    by (simp add: view find_view find_user_def)
  have "sql_rank rr_pnl (rk_view s1) (?row u) = sql_rank rr_total_assets (rk_view s1) (?row u)"
    by (rule sql_rank_shift[where c = "-1000"]) (use u(1) in \<open>auto simp: view view_row_def\<close>)
  moreover have "sql_rank rr_total_assets (rk_view s1) (?row u) =
      1 + int (count_where (\<lambda>x. assets (n_db s) u < assets (n_db s) x) (db_users (n_db s)))"
    by (simp add: sql_rank_def count_where_def view filter_map comp_def view_row_def assets_def)
  ultimately show ?thesis
    by (simp add: rs ranking_of_row_def dimensionColumn_def)
      (simp add: view_row_def assets_def u(2) InitialBalance_def)
qed

section \<open>The portfolio\<close>

definition held :: "'d Position \<Rightarrow> 'd::linordered_field" where
  "held p = p_Quantity p * p_AvgPrice p"

lemma aggregate_eq:
  "aggregate ps tot acc = (tot + sum_list (map held ps),
     acc @ map (\<lambda>p. \<lparr>pf_MarketID = p_MarketID p, pf_OutcomeID = p_OutcomeID p, pf_Quantity = p_Quantity p,
       pf_AvgPrice = p_AvgPrice p, pf_Value = held p\<rparr>) ps)"
  by (induction ps arbitrary: tot acc) (simp_all add: held_def Let_def add.assoc)

definition positions_of :: "'d DB \<Rightarrow> string \<Rightarrow> 'd Position list" where
  "positions_of db i = sort_key (\<lambda>p. - p_UpdatedAt p) (filter (\<lambda>p. p_UserID p = i) (db_positions db))"

lemma GetPortfolio_effect:
  assumes "portfolioAdapter_GetPortfolio i s = (Inr p, s')"
  shows "reads_only s s' \<and> (\<exists>u. find_user i (n_db s) = Some u \<and>
    pf_TotalValue p = u_Balance u + sum_list (map held (positions_of (n_db s) i)) \<and>
    pf_UnrealizedPnL p = pf_TotalValue p - InitialBalance \<and>
    map (\<lambda>q. (pf_MarketID q, pf_OutcomeID q, pf_Quantity q, pf_AvgPrice q)) (pf_Positions p) =
      map (\<lambda>q. (p_MarketID q, p_OutcomeID q, p_Quantity q, p_AvgPrice q)) (positions_of (n_db s) i) \<and>
    map pf_Value (pf_Positions p) = map held (positions_of (n_db s) i))"
  using assms
  by (auto simp: portfolioAdapter_GetPortfolio_def GetPortfolio_def PositionRepo_ListByUser_def positions_of_def
      succeeds aggregate_eq Let_def comp_def dest!: UserRepo_GetByID_effect query_effect moved_reads)
    (auto simp: reads_only_def)

lemma held_in_order: "sum_list (map held (positions_of db i)) = sum_list (map held (filter (\<lambda>p. p_UserID p = i) (db_positions db)))"
  unfolding positions_of_def by (metis mset_map mset_sort sum_mset_sum_list)

text \<open>
  A portfolio lists the positions of the user, the latest first, values each at its average price, totals
  them with the free balance, and reports the difference to the initial balance as profit;
  reading it changes nothing.
\<close>

theorem portfolio_exact:
  assumes "portfolioAdapter_GetPortfolio i s = (Inr p, s')"
  shows "n_db s' = n_db s \<and> rk_view s' = rk_view s \<and>
    (\<exists>u. find_user i (n_db s) = Some u \<and>
      pf_TotalValue p = u_Balance u + sum_list (map held (filter (\<lambda>q. p_UserID q = i) (db_positions (n_db s))))) \<and>
    pf_UnrealizedPnL p = pf_TotalValue p - InitialBalance \<and>
    sum_list (map pf_Value (pf_Positions p)) =
      sum_list (map held (filter (\<lambda>q. p_UserID q = i) (db_positions (n_db s)))) \<and>
    map (\<lambda>q. (pf_MarketID q, pf_OutcomeID q, pf_Quantity q, pf_AvgPrice q)) (pf_Positions p) =
      map (\<lambda>q. (p_MarketID q, p_OutcomeID q, p_Quantity q, p_AvgPrice q)) (positions_of (n_db s) i)"
  using GetPortfolio_effect[OF assms] unfolding held_in_order[symmetric] reads_only_def by auto

text \<open>
  The locked balance of an open buy order is counted neither in the portfolio nor in the
  assets of the ranking: locking an amount shows as a loss of that amount.
\<close>

lemma lock_shows_as_loss:
  assumes "find_user i db = Some u"
    and "portfolioAdapter_GetPortfolio i (s\<lparr>n_db := db\<rparr>) = (Inr p, s1)"
    and "portfolioAdapter_GetPortfolio i (s\<lparr>n_db := set_balance i (u_Balance u - c) (u_LockedBalance u + c) db\<rparr>) = (Inr q, s2)"
  shows "pf_UnrealizedPnL q = pf_UnrealizedPnL p - c"
  using GetPortfolio_effect[OF assms(2)] GetPortfolio_effect[OF assms(3)] assms(1)
  by (auto simp: find_user_set_balance positions_of_def)

text \<open>Four of the five dimensions survive the transport; a trade count becomes the total assets.\<close>

lemma dimension_roundtrip:
  "protoDimensionToDomain (domainDimensionToProto d) = (if d = RankTradeCount then RankTotalAssets else d)"
  by (cases d) (simp_all add: protoDimensionToDomain_def domainDimensionToProto_def)

section \<open>An example\<close>

text \<open>
  Three users, two of them people: one holds ten shares, one has lent half of its balance to an
  open order.
\<close>

definition ex_rank_user :: "string \<Rightarrow> UserType \<Rightarrow> rat \<Rightarrow> rat \<Rightarrow> rat User" where
  "ex_rank_user i t b l = \<lparr>u_ID = i, u_WalletAddress = ''0x'' @ i, u_UserType = t, u_Balance = b, u_LockedBalance = l,
     u_IsAdmin = False, u_CreatedAt = 0\<rparr>"

definition ex_rank_db :: "rat DB" where
  "ex_rank_db = \<lparr>db_users = [ex_rank_user ''ann'' Human 500 500, ex_rank_user ''bot'' Agent 2000 0, ex_rank_user ''cy'' Human 1000 0],
     db_markets = [], db_outcomes = [], db_orders = [], db_trades = [],
     db_positions = [\<lparr>p_ID = ''p'', p_UserID = ''cy'', p_MarketID = ''m'', p_OutcomeID = ''yes'', p_Quantity = 10,
       p_AvgPrice = 4 / 10, p_UpdatedAt = 3\<rparr>], db_mints = []\<rparr>"

definition ex_rank :: "rat ranking_node" where
  "ex_rank = \<lparr>n_db = ex_rank_db, n_tx = NoTx, n_world = \<lparr>w_uuid = (\<lambda>n. replicate n CHR ''x''), w_clock = int,
     w_fault = (\<lambda>n. False), w_nuuid = 0, w_nclock = 7, w_nfault = 0\<rparr>, rk_view = []\<rparr>"

definition ex_refreshed :: "(err + unit) \<times> rat ranking_node" where
  "ex_refreshed = RefreshRankings (\<lambda>a b. of_nat a / of_nat b) ex_rank"

definition ex_board :: "nat \<Rightarrow> (err + rat UserRanking list \<times> nat) \<times> rat ranking_node" where
  "ex_board n = GetLeaderboard RankTotalAssets (Some Human) (1 + int n) 1
     (if n = 0 then snd ex_refreshed else snd (GetLeaderboard RankTotalAssets (Some Human) 1 1 (snd ex_refreshed)))"

lemma ex_refreshed_runs: "fst ex_refreshed = Inr ()"
  by code_simp

lemma ex_board_runs:
  "map_sum id (\<lambda>(rs, cnt). (map ur_UserID rs, map ur_Rank rs, cnt)) (fst (ex_board 0)) = Inr ([''cy''], [1], 2)"
  "map_sum id (\<lambda>(rs, cnt). (map ur_UserID rs, map ur_Rank rs, cnt)) (fst (ex_board 1)) = Inr ([''ann''], [2], 2)"
  by code_simp+

lemma ex_board_result:
  assumes "map_sum id (\<lambda>(rs, cnt). (map ur_UserID rs, map ur_Rank rs, cnt)) (fst r) = Inr (is, ks, cnt)"
  obtains rs where "r = (Inr (rs, cnt), snd r)" "map ur_UserID rs = is" "map ur_Rank rs = ks"
  using assms by (cases r; cases "fst r") auto

theorem leaderboard_exact_witness:
  "\<exists>rs s'. GetLeaderboard RankTotalAssets (Some Human) 1 1 (snd ex_refreshed) = (Inr (rs, 2), s') \<and>
     map ur_UserID rs = [''cy''] \<and> map ur_Rank rs = [1] \<and> rk_view s' = rk_view (snd ex_refreshed) \<and>
     count_where (row_matches (Some Human)) (rk_view (snd ex_refreshed)) = 2"
proof -
  obtain rs where r: "ex_board 0 = (Inr (rs, 2), snd (ex_board 0))" "map ur_UserID rs = [''cy'']" "map ur_Rank rs = [1]"
    using ex_board_runs(1) by (rule ex_board_result)
  then have run: "GetLeaderboard RankTotalAssets (Some Human) 1 1 (snd ex_refreshed) = (Inr (rs, 2), snd (ex_board 0))"
    by (simp add: ex_board_def)
  show ?thesis using leaderboard_exact[OF run] run r(2,3) by auto
qed

theorem leaderboard_pages_complete_witness:
  "mset (map rr_user_id (filter (row_matches (Some Human)) (rk_view (snd ex_refreshed)))) = {#''cy'', ''ann''#}"
proof -
  obtain rs where r: "ex_board 0 = (Inr (rs, 2), snd (ex_board 0))" "map ur_UserID rs = [''cy'']"
    using ex_board_runs(1) by (rule ex_board_result)
  obtain qs where q: "ex_board 1 = (Inr (qs, 2), snd (ex_board 1))" "map ur_UserID qs = [''ann'']"
    using ex_board_runs(2) by (rule ex_board_result)
  let ?st = "\<lambda>n :: nat. if n = 0 then snd ex_refreshed else snd (ex_board (n - 1))"
  let ?pages = "\<lambda>n :: nat. if n = 0 then rs else qs"
  have "GetLeaderboard RankTotalAssets (Some Human) (1 + int i) 1 (?st i) = (Inr (?pages i, 2), ?st (Suc i))" if "i < 2" for i
    using r(1) q(1) that less_2_cases[of i] by (auto simp: ex_board_def)
  from leaderboard_pages_complete[of 1 2 RankTotalAssets "Some Human" ?st ?pages 2] this r(2) q(2)
  show ?thesis by (simp add: eval_nat_numeral upt_rec eq_commute[of "{#''cy'', ''ann''#}"])
qed

definition ex_ranks :: "(err + rat UserRanking list) \<times> rat ranking_node" where
  "ex_ranks = GetUserRanking ''ann'' (snd ex_refreshed)"

lemma ex_ranks_runs: "(case fst ex_ranks of Inl _ \<Rightarrow> False | Inr rs \<Rightarrow> length rs = 4)"
  by code_simp

theorem rankings_after_refresh_witness:
  "\<exists>rs s2. GetUserRanking ''ann'' (snd ex_refreshed) = (Inr rs, s2) \<and> map ur_Value rs = [500, - 500, 0, 0] \<and>
     ur_Rank (rs ! 0) = 3"
proof -
  obtain rs where run: "GetUserRanking ''ann'' (snd ex_refreshed) = (Inr rs, snd ex_ranks)"
    using ex_ranks_runs by (cases ex_ranks; cases "fst ex_ranks") (auto simp: ex_ranks_def)
  have "RefreshRankings (\<lambda>a b. of_nat a / of_nat b) ex_rank = (Inr (), snd ex_refreshed)"
    using ex_refreshed_runs by (simp add: ex_refreshed_def prod_eq_iff)
  moreover have "find_user ''ann'' (n_db ex_rank) = Some (ex_rank_user ''ann'' Human 500 500)"
    by (simp add: find_user_def ex_rank_def ex_rank_db_def ex_rank_user_def)
  ultimately show ?thesis using rankings_after_refresh[OF _ run] run
    by (auto simp: ex_rank_def ex_rank_db_def ex_rank_user_def assets_def position_value_def traded_volume_def win_rate_def
        resolved_positions_def InitialBalance_def count_where_def)
qed

definition ex_portfolio :: "(err + rat Portfolio) \<times> rat ranking_node" where
  "ex_portfolio = portfolioAdapter_GetPortfolio ''cy'' ex_rank"

lemma ex_portfolio_runs: "(case fst ex_portfolio of Inl _ \<Rightarrow> False | Inr p \<Rightarrow> True)"
  by code_simp

theorem portfolio_exact_witness:
  "\<exists>p s'. portfolioAdapter_GetPortfolio ''cy'' ex_rank = (Inr p, s') \<and> pf_TotalValue p = 1004 \<and> pf_UnrealizedPnL p = 4"
proof -
  obtain p where run: "portfolioAdapter_GetPortfolio ''cy'' ex_rank = (Inr p, snd ex_portfolio)"
    using ex_portfolio_runs by (cases ex_portfolio; cases "fst ex_portfolio") (auto simp: ex_portfolio_def)
  show ?thesis using portfolio_exact[OF run] run
    by (auto simp: ex_rank_def ex_rank_db_def ex_rank_user_def find_user_def held_def InitialBalance_def)
qed

end
