(* ===== verification/Gateway.thy ===== *)
theory Gateway
  imports AuthServer MarketServer TradingServer Ranking
begin

text \<open>
  The HTTP handlers of the gateway, \<open>services/gateway/internal/handler\<close>: a request becomes a call
  of a service and its answer a JSON response. The services are arguments, a record of clients; what
  \<open>gin\<close> does to bind a JSON body to a request type is an argument too, as is the printing
  of times. The order of the fields of a JSON object carries no meaning.
\<close>

section \<open>Requests and responses\<close>

datatype json = JSNull | JSBool bool | JSInt int | JSString string | JSArray "json list"
  | JSObject "(string \<times> json) list"

datatype http_body = NoBody | TextBody string | JsonBody json

record http_response =
  hp_status :: int
  hp_headers :: "(string \<times> string) list"
  hp_body :: http_body

text \<open>
  A header or a query parameter that is missing reads as the empty string. The path is the
  list of its segments.
\<close>

record http_request =
  hq_method :: string
  hq_path :: "string list"
  hq_header :: "string \<Rightarrow> string"
  hq_query :: "string \<Rightarrow> string"
  hq_body :: string
  hq_ip :: string

text \<open>What the middlewares put into the context of \<open>gin\<close>: a user (perhaps nil) and a flag, if at all.\<close>

record gin_ctx =
  cx_user :: "PbUser option option"
  cx_is_admin :: "bool option"

definition response :: "int \<Rightarrow> json \<Rightarrow> http_response" where
  "response status body = \<lparr>hp_status = status, hp_headers = [], hp_body = JsonBody body\<rparr>"

definition error_response :: "int \<Rightarrow> string \<Rightarrow> http_response" where
  "error_response status msg = response status (JSObject [(''ok'', JSBool False), (''error'', JSString msg)])"

definition ok_response :: "int \<Rightarrow> json \<Rightarrow> http_response" where
  "ok_response status data = response status (JSObject [(''ok'', JSBool True), (''data'', data)])"

section \<open>Numbers in text\<close>

definition is_digit :: "char \<Rightarrow> bool" where
  "is_digit c \<longleftrightarrow> 48 \<le> (of_char c :: nat) \<and> (of_char c :: nat) \<le> 57"

definition digits_value :: "string \<Rightarrow> int" where
  "digits_value ds = foldl (\<lambda>n c. 10 * n + (of_char c - 48)) 0 ds"

text \<open>\<open>strconv.Atoi\<close>: an optional sign and digits, in the range of 64 bits.\<close>

definition Atoi :: "string \<Rightarrow> int option" where
  "Atoi s =
     (let (neg, ds) = (case s of [] \<Rightarrow> (False, s)
        | c # cs \<Rightarrow> if c = CHR ''-'' then (True, cs) else if c = CHR ''+'' then (False, cs) else (False, s))
      in if ds = [] \<or> \<not> list_all is_digit ds then None
         else let v = (if neg then - digits_value ds else digits_value ds)
              in if - (2 ^ 63) \<le> v \<and> v < 2 ^ 63 then Some v else None)"

fun decimal_digits :: "nat \<Rightarrow> string" where
  "decimal_digits n = (if n < 10 then [char_of (48 + n)] else decimal_digits (n div 10) @ [char_of (48 + n mod 10)])"

declare decimal_digits.simps [simp del]

definition Itoa :: "int \<Rightarrow> string" where
  "Itoa n = (if n < 0 then CHR ''-'' # decimal_digits (nat (- n)) else decimal_digits (nat n))"

text \<open>A numeric query parameter: 0 when missing or not a number, and cut to 32 bits.\<close>

definition query_int32 :: "http_request \<Rightarrow> string \<Rightarrow> int" where
  "query_int32 req name =
     (if hq_query req name = '''' then 0
      else case Atoi (hq_query req name) of None \<Rightarrow> 0 | Some v \<Rightarrow> int32 v)"

section \<open>Clients\<close>

text \<open>The error of a client is a gRPC status or, for \<open>status.FromError\<close>, some other error.\<close>

datatype call_error = StatusError grpc_error | OtherError string

type_synonym ('s, 'a) client = "('s, call_error, 'a) comp"

record 's clients =
  cl_GenerateNonce :: "('s, string) client"
  cl_VerifySignature :: "string \<Rightarrow> string \<Rightarrow> string \<Rightarrow> ('s, PbUser option \<times> string) client"
  cl_ValidateToken :: "string \<Rightarrow> ('s, PbUser option) client"
  cl_ValidateAPIKey :: "string \<Rightarrow> ('s, PbUser option) client"
  cl_CreateAPIKey :: "string \<Rightarrow> string \<Rightarrow> ('s, PbCreateAPIKeyResponse) client"
  cl_ListMarkets :: "PbListMarketsRequest \<Rightarrow> ('s, PbMarket list \<times> nat) client"
  cl_GetMarket :: "string \<Rightarrow> ('s, PbMarket) client"
  cl_CreateMarket :: "PbCreateMarketRequest \<Rightarrow> ('s, PbMarket) client"
  cl_ResolveMarket :: "string \<Rightarrow> string \<Rightarrow> ('s, unit) client"
  cl_UpdateMarketStatus :: "string \<Rightarrow> int \<Rightarrow> ('s, unit) client"
  cl_PlaceOrder :: "PbPlaceOrderRequest \<Rightarrow> ('s, PbOrder \<times> PbTrade list) client"
  cl_MintTokens :: "string \<Rightarrow> string \<Rightarrow> string \<Rightarrow> ('s, PbPosition list \<times> string) client"
  cl_CancelOrder :: "string \<Rightarrow> string \<Rightarrow> ('s, PbOrder) client"
  cl_ListOrders :: "PbListOrdersRequest \<Rightarrow> ('s, PbOrder list \<times> nat) client"
  cl_GetPositions :: "string \<Rightarrow> string \<Rightarrow> ('s, PbPosition list) client"
  cl_GetOrderbook :: "string \<Rightarrow> string \<Rightarrow> ('s, PbLevel list \<times> PbLevel list) client"
  cl_GetLeaderboard :: "PbGetLeaderboardRequest \<Rightarrow> ('s, PbUserRanking list \<times> nat) client"
  cl_GetUserRanking :: "string \<Rightarrow> ('s, PbDimensionRank list) client"
  cl_RefreshRankings :: "('s, int) client"
  cl_Allow :: "(string \<Rightarrow> int \<Rightarrow> time \<Rightarrow> ('s, err, bool) comp) option"

section \<open>Bodies\<close>

record placeOrderRequest =
  bo_MarketID :: string
  bo_OutcomeID :: string
  bo_Side :: string
  bo_Price :: string
  bo_Quantity :: string

record createMarketRequest =
  bm_Title :: string
  bm_Description :: string
  bm_MarketType :: string
  bm_Category :: string
  bm_OutcomeLabels :: "string list"
  bm_EndTime :: string

text \<open>
  A body as it can be read: its first megabyte, and whether reading on would fail. For every
  kind of body \<open>ShouldBindJSON\<close> either fails or yields its fields.
\<close>

type_synonym body = "string \<times> bool"

record gw_env =
  ge_order :: "body \<Rightarrow> placeOrderRequest option"
  ge_mint :: "body \<Rightarrow> (string \<times> string) option"
  ge_market :: "body \<Rightarrow> createMarketRequest option"
  ge_resolve :: "body \<Rightarrow> string option"
  ge_status :: "body \<Rightarrow> string option"
  ge_agent :: "body \<Rightarrow> string option"
  ge_verify :: "body \<Rightarrow> (string \<times> string \<times> string) option"
  ge_apikey :: "body \<Rightarrow> string option"
  ge_rfc3339 :: "time \<Rightarrow> string"
  ge_now :: time

definition request_body :: "http_request \<Rightarrow> body" where
  "request_body req = (take (2 ^ 20) (hq_body req), 2 ^ 20 < length (hq_body req))"

section \<open>Errors\<close>

definition handleGRPCError :: "call_error \<Rightarrow> http_response" where
  "handleGRPCError e =
     (case e of
        OtherError _ \<Rightarrow> error_response 500 ''internal server error''
      | StatusError (code, message) \<Rightarrow>
          (case code of
             NotFound \<Rightarrow> error_response 404 message
           | InvalidArgument \<Rightarrow> error_response 400 message
           | Unauthenticated \<Rightarrow> error_response 401 message
           | PermissionDenied \<Rightarrow> error_response 403 message
           | FailedPrecondition \<Rightarrow> error_response 409 message
           | AlreadyExists \<Rightarrow> error_response 409 message
           | _ \<Rightarrow> error_response 500 ''internal server error''))"

text \<open>A handler may stop with a response at any point; both ends are responses.\<close>

type_synonym 's handling = "('s, http_response, http_response) comp"

definition call :: "(call_error \<Rightarrow> http_response) \<Rightarrow> ('s, 'a) client \<Rightarrow> ('s, http_response, 'a) comp" where
  "call tr m s = (case m s of (Inl e, s') \<Rightarrow> (Inl (tr e), s') | (Inr x, s') \<Rightarrow> (Inr x, s'))"

definition finish :: "'s handling \<Rightarrow> 's \<Rightarrow> http_response \<times> 's" where
  "finish m s = (case m s of (Inl r, s') \<Rightarrow> (r, s') | (Inr r, s') \<Rightarrow> (r, s'))"

definition bound :: "'a option \<Rightarrow> ('s, http_response, 'a) comp" where
  "bound x = require x (error_response 400 ''invalid request body'')"

definition current_user :: "gin_ctx \<Rightarrow> ('s, http_response, PbUser) comp" where
  "current_user ctx =
     (case cx_user ctx of Some (Some user) \<Rightarrow> ret user | _ \<Rightarrow> fail (error_response 401 ''unauthorized''))"

section \<open>Orders\<close>

definition protoOrderSideToString :: "int \<Rightarrow> string" where
  "protoOrderSideToString s = (if s = 1 then ''buy'' else if s = 2 then ''sell'' else ''unknown'')"

definition protoOrderStatusToString :: "int \<Rightarrow> string" where
  "protoOrderStatusToString s =
     (if s = 1 then ''open'' else if s = 2 then ''partial'' else if s = 3 then ''filled'' else if s = 4 then ''cancelled''
      else ''unknown'')"

definition orderResponse :: "PbOrder \<Rightarrow> (string \<times> json) list" where
  "orderResponse order =
     [(''id'', JSString (pb_Id order)), (''user_id'', JSString (pb_UserId order)),
      (''market_id'', JSString (pb_MarketId order)), (''outcome_id'', JSString (pb_OutcomeId order)),
      (''side'', JSString (protoOrderSideToString (pb_Side order))), (''price'', JSString (pb_Price order)),
      (''quantity'', JSString (pb_Quantity order)), (''filled_quantity'', JSString (pb_FilledQuantity order)),
      (''status'', JSString (protoOrderStatusToString (pb_Status order)))]"

definition tradeResponse :: "PbTrade \<Rightarrow> json" where
  "tradeResponse t =
     JSObject [(''id'', JSString (pt_Id t)), (''maker_order_id'', JSString (pt_MakerOrderId t)),
       (''taker_order_id'', JSString (pt_TakerOrderId t)), (''price'', JSString (pt_Price t)),
       (''quantity'', JSString (pt_Quantity t))]"

definition positionResponse :: "PbPosition \<Rightarrow> json" where
  "positionResponse p =
     JSObject [(''id'', JSString (pp_Id p)), (''user_id'', JSString (pp_UserId p)), (''market_id'', JSString (pp_MarketId p)),
       (''outcome_id'', JSString (pp_OutcomeId p)), (''quantity'', JSString (pp_Quantity p)),
       (''avg_price'', JSString (pp_AvgPrice p))]"

definition orderbookLevelResponse :: "PbLevel \<Rightarrow> json" where
  "orderbookLevelResponse l =
     JSObject [(''price'', JSString (pl_Price l)), (''quantity'', JSString (pl_Quantity l)),
       (''order_count'', JSInt (pl_OrderCount l))]"

definition OrderHandler_PlaceOrder :: "'s clients \<Rightarrow> gw_env \<Rightarrow> http_request \<Rightarrow> gin_ctx \<Rightarrow> 's handling" where
  "OrderHandler_PlaceOrder cl env hreq ctx =
     bnd (bound (ge_order env (request_body hreq))) (\<lambda>req.
     bnd (current_user ctx) (\<lambda>user.
     bnd (if bo_Side req = ''buy'' then ret 1 else if bo_Side req = ''sell'' then ret 2
          else fail (error_response 400 (''invalid side: must be 'buy' or 'sell'' @ [CHR 0x27]))) (\<lambda>side.
     bnd (call handleGRPCError (cl_PlaceOrder cl
            \<lparr>pq_UserId = pu_Id user, pq_MarketId = bo_MarketID req, pq_OutcomeId = bo_OutcomeID req,
             pq_Side = side, pq_Price = bo_Price req, pq_Quantity = bo_Quantity req\<rparr>)) (\<lambda>(order, trades).
     ret (ok_response 201 (JSObject (orderResponse order @
            (if trades \<noteq> [] then [(''trades'', JSArray (map tradeResponse trades))] else []))))))))"

text \<open>An empty slice that was never made prints as null.\<close>

definition OrderHandler_MintTokens :: "'s clients \<Rightarrow> gw_env \<Rightarrow> http_request \<Rightarrow> gin_ctx \<Rightarrow> 's handling" where
  "OrderHandler_MintTokens cl env hreq ctx =
     bnd (bound (ge_mint env (request_body hreq))) (\<lambda>(marketID, quantity).
     bnd (current_user ctx) (\<lambda>user.
     bnd (call handleGRPCError (cl_MintTokens cl (pu_Id user) marketID quantity)) (\<lambda>(positions, cost).
     ret (ok_response 200 (JSObject
       [(''positions'', if positions = [] then JSNull else JSArray (map positionResponse positions)),
        (''cost'', JSString cost)])))))"

definition OrderHandler_CancelOrder :: "'s clients \<Rightarrow> string \<Rightarrow> gin_ctx \<Rightarrow> 's handling" where
  "OrderHandler_CancelOrder cl orderID ctx =
     bnd (current_user ctx) (\<lambda>user.
     bnd (call handleGRPCError (cl_CancelOrder cl (pu_Id user) orderID)) (\<lambda>order.
     ret (ok_response 200 (JSObject (orderResponse order)))))"

text \<open>The names of the protocol for the statuses of orders.\<close>

definition OrderStatus_value :: "string \<Rightarrow> int option" where
  "OrderStatus_value s =
     (if s = ''ORDER_STATUS_UNSPECIFIED'' then Some 0 else if s = ''ORDER_STATUS_OPEN'' then Some 1
      else if s = ''ORDER_STATUS_PARTIALLY_FILLED'' then Some 2 else if s = ''ORDER_STATUS_FILLED'' then Some 3
      else if s = ''ORDER_STATUS_CANCELLED'' then Some 4 else None)"

definition orders_request :: "http_request \<Rightarrow> string \<Rightarrow> PbListOrdersRequest" where
  "orders_request hreq userID =
     \<lparr>plo_UserId = userID, plo_MarketId = hq_query hreq ''market_id'',
      plo_Status = (case OrderStatus_value (hq_query hreq ''status'') of None \<Rightarrow> 0 | Some v \<Rightarrow> v),
      plo_Page = query_int32 hreq ''page'', plo_PerPage = query_int32 hreq ''per_page''\<rparr>"

definition OrderHandler_ListOrders :: "'s clients \<Rightarrow> http_request \<Rightarrow> gin_ctx \<Rightarrow> 's handling" where
  "OrderHandler_ListOrders cl hreq ctx =
     bnd (current_user ctx) (\<lambda>user.
     bnd (call handleGRPCError (cl_ListOrders cl (orders_request hreq (pu_Id user)))) (\<lambda>(orders, total).
     ret (ok_response 200 (JSObject
       [(''orders'', JSArray (map (\<lambda>x. JSObject (orderResponse x)) orders)), (''total'', JSInt (int total))]))))"

definition OrderHandler_GetPositions :: "'s clients \<Rightarrow> http_request \<Rightarrow> gin_ctx \<Rightarrow> 's handling" where
  "OrderHandler_GetPositions cl hreq ctx =
     bnd (current_user ctx) (\<lambda>user.
     bnd (call handleGRPCError (cl_GetPositions cl (pu_Id user) (hq_query hreq ''market_id''))) (\<lambda>positions.
     ret (ok_response 200 (JSObject [(''positions'', JSArray (map positionResponse positions))]))))"

definition OrderHandler_GetOrderbook :: "'s clients \<Rightarrow> http_request \<Rightarrow> string \<Rightarrow> 's handling" where
  "OrderHandler_GetOrderbook cl hreq marketID =
     bnd (call handleGRPCError (cl_GetOrderbook cl marketID (hq_query hreq ''outcome_id''))) (\<lambda>(bids, asks).
     ret (ok_response 200 (JSObject
       [(''bids'', JSArray (map orderbookLevelResponse bids)), (''asks'', JSArray (map orderbookLevelResponse asks))])))"

section \<open>Markets\<close>

definition lower_ascii :: "char \<Rightarrow> char" where
  "lower_ascii c = (let n = of_char c :: nat in if 65 \<le> n \<and> n \<le> 90 then char_of (n + 32) else c)"

definition ToLower :: "string \<Rightarrow> string" where
  "ToLower s = map lower_ascii s"

definition stringToMarketStatus :: "string \<Rightarrow> int" where
  "stringToMarketStatus s =
     (let x = ToLower s in
      if x = ''draft'' then 1 else if x = ''open'' then 2 else if x = ''closed'' then 3 else if x = ''resolved'' then 4
      else if x = ''cancelled'' then 5 else 0)"

definition marketStatusToString :: "int \<Rightarrow> string" where
  "marketStatusToString s =
     (if s = 1 then ''draft'' else if s = 2 then ''open'' else if s = 3 then ''closed'' else if s = 4 then ''resolved''
      else if s = 5 then ''cancelled'' else ''unknown'')"

definition marketTypeToString :: "int \<Rightarrow> string" where
  "marketTypeToString t = (if t = 1 then ''binary'' else if t = 2 then ''multi'' else ''unknown'')"

definition protoMarketToResponse :: "gw_env \<Rightarrow> PbMarket \<Rightarrow> json" where
  "protoMarketToResponse env m =
     JSObject (
       [(''id'', JSString (pm_Id m)), (''title'', JSString (pm_Title m)), (''description'', JSString (pm_Description m)),
        (''category'', JSString (pm_Category m)), (''status'', JSString (marketStatusToString (pm_Status m))),
        (''market_type'', JSString (marketTypeToString (pm_MarketType m))), (''created_by'', JSString (pm_CreatedBy m)),
        (''volume'', JSString ''0''), (''liquidity'', JSString ''0'')] @
       (case pm_EndTime m of None \<Rightarrow> [] | Some t \<Rightarrow> [(''end_time'', JSString (ge_rfc3339 env t))]) @
       [(''created_at'', JSString (ge_rfc3339 env (pm_CreatedAt m)))] @
       (if pm_Outcomes m = [] then []
        else [(''outcomes'', JSArray (map (\<lambda>x. JSObject
          [(''id'', JSString (po_Id x)), (''label'', JSString (po_Label x)), (''index'', JSInt (po_Index x)),
           (''price'', JSString ''0.50''), (''is_winner'', JSBool (po_IsWinner x))]) (pm_Outcomes m)))]))"

definition markets_request :: "http_request \<Rightarrow> PbListMarketsRequest" where
  "markets_request hreq =
     (let perPage = query_int32 hreq ''per_page''
      in \<lparr>plm_Status = (if hq_query hreq ''status'' = '''' then 0 else stringToMarketStatus (hq_query hreq ''status'')),
          plm_Category = hq_query hreq ''category'', plm_Page = query_int32 hreq ''page'',
          plm_PerPage = (if perPage > 100 then 100 else perPage)\<rparr>)"

definition MarketHandler_ListMarkets :: "'s clients \<Rightarrow> gw_env \<Rightarrow> http_request \<Rightarrow> 's handling" where
  "MarketHandler_ListMarkets cl env hreq =
     bnd (call handleGRPCError (cl_ListMarkets cl (markets_request hreq))) (\<lambda>(markets, total).
     ret (ok_response 200 (JSObject
       [(''markets'', JSArray (map (protoMarketToResponse env) markets)), (''total'', JSInt (int total))])))"

definition MarketHandler_GetMarket :: "'s clients \<Rightarrow> gw_env \<Rightarrow> string \<Rightarrow> 's handling" where
  "MarketHandler_GetMarket cl env i =
     bnd (call handleGRPCError (cl_GetMarket cl i)) (\<lambda>market.
     ret (ok_response 200 (JSObject [(''market'', protoMarketToResponse env market)])))"

section \<open>Rankings\<close>

definition dimensionMap :: "string \<Rightarrow> int option" where
  "dimensionMap d =
     (if d = ''total_assets'' then Some 1 else if d = ''pnl'' then Some 2 else if d = ''volume'' then Some 3
      else if d = ''win_rate'' then Some 4 else None)"

definition userTypeFilterMap :: "string \<Rightarrow> int option" where
  "userTypeFilterMap t = (if t = ''human'' then Some 2 else if t = ''agent'' then Some 3 else None)"

definition leaderboard_request :: "http_request \<Rightarrow> PbGetLeaderboardRequest" where
  "leaderboard_request hreq =
     \<lparr>pgl_Dimension = (case dimensionMap (hq_query hreq ''dimension'') of None \<Rightarrow> 0 | Some v \<Rightarrow> v),
      pgl_UserType = (case userTypeFilterMap (hq_query hreq ''user_type'') of None \<Rightarrow> 0 | Some v \<Rightarrow> v),
      pgl_Page = query_int32 hreq ''page'', pgl_PerPage = query_int32 hreq ''per_page''\<rparr>"

definition RankingHandler_GetLeaderboard :: "'s clients \<Rightarrow> http_request \<Rightarrow> 's handling" where
  "RankingHandler_GetLeaderboard cl hreq =
     bnd (call handleGRPCError (cl_GetLeaderboard cl (leaderboard_request hreq))) (\<lambda>(rankings, total).
     ret (ok_response 200 (JSObject
       [(''rankings'', JSArray (map (\<lambda>r. JSObject
          [(''user_id'', JSString (pr_UserId r)), (''wallet_address'', JSString (pr_WalletAddress r)),
           (''user_type'', JSString (pr_UserType r)), (''rank'', JSInt (pr_Rank r)), (''value'', JSString (pr_Value r))]) rankings)),
        (''total'', JSInt (int total))])))"

definition RankDimension_name :: "int \<Rightarrow> string" where
  "RankDimension_name d =
     (if d = 0 then ''RANK_DIMENSION_UNSPECIFIED'' else if d = 1 then ''RANK_DIMENSION_TOTAL_ASSETS''
      else if d = 2 then ''RANK_DIMENSION_PNL'' else if d = 3 then ''RANK_DIMENSION_VOLUME''
      else if d = 4 then ''RANK_DIMENSION_WIN_RATE'' else Itoa d)"

definition RankingHandler_GetUserRanking :: "'s clients \<Rightarrow> string \<Rightarrow> 's handling" where
  "RankingHandler_GetUserRanking cl userID =
     bnd (call handleGRPCError (cl_GetUserRanking cl userID)) (\<lambda>ranks.
     ret (ok_response 200 (JSObject
       [(''ranks'', JSArray (map (\<lambda>r. JSObject
          [(''dimension'', JSString (RankDimension_name (pd_Dimension r))), (''rank'', JSInt (pd_Rank r)),
           (''value'', JSString (pd_Value r))]) ranks))])))"

section \<open>Authentication\<close>

text \<open>The getters of a message read the fields of a nil user as zero values.\<close>

definition some_user :: "PbUser option \<Rightarrow> PbUser" where
  "some_user u = (case u of Some x \<Rightarrow> x
     | None \<Rightarrow> \<lparr>pu_Id = '''', pu_WalletAddress = '''', pu_UserType = 0, pu_Balance = '''', pu_LockedBalance = '''',
                pu_IsAdmin = False, pu_CreatedAt = None\<rparr>)"

definition protoUserToResponse :: "gw_env \<Rightarrow> PbUser \<Rightarrow> json" where
  "protoUserToResponse env u =
     JSObject [(''id'', JSString (pu_Id u)), (''wallet_address'', JSString (pu_WalletAddress u)),
       (''user_type'', JSString (if pu_UserType u = 2 then ''agent'' else ''human'')),
       (''balance'', JSString (pu_Balance u)), (''locked_balance'', JSString (pu_LockedBalance u)),
       (''is_admin'', JSBool (pu_IsAdmin u)),
       (''created_at'', JSString (case pu_CreatedAt u of None \<Rightarrow> '''' | Some t \<Rightarrow> ge_rfc3339 env t))]"

definition AuthHandler_GetNonce :: "'s clients \<Rightarrow> 's handling" where
  "AuthHandler_GetNonce cl =
     bnd (call (\<lambda>_. error_response 500 ''internal server error'') (cl_GenerateNonce cl)) (\<lambda>nonce.
     ret (ok_response 200 (JSObject [(''nonce'', JSString nonce)])))"

definition AuthHandler_Verify :: "'s clients \<Rightarrow> gw_env \<Rightarrow> http_request \<Rightarrow> 's handling" where
  "AuthHandler_Verify cl env hreq =
     bnd (bound (ge_verify env (request_body hreq))) (\<lambda>(message, signature, walletAddress).
     andthen (check (\<not> (message = '''' \<or> signature = '''' \<or> walletAddress = ''''))
       (error_response 400 ''message, signature, and wallet_address are required''))
     (andthen (check (length walletAddress \<le> 42) (error_response 400 ''wallet_address must not exceed 42 characters''))
     (bnd (call (\<lambda>_. error_response 401 ''authentication failed'') (cl_VerifySignature cl message signature walletAddress))
        (\<lambda>(user, token).
      ret (ok_response 200 (JSObject
        [(''token'', JSString token), (''user'', protoUserToResponse env (some_user user))]))))))"

definition AuthHandler_Me :: "gw_env \<Rightarrow> gin_ctx \<Rightarrow> 's handling" where
  "AuthHandler_Me env ctx = bnd (current_user ctx) (\<lambda>user. ret (ok_response 200 (protoUserToResponse env user)))"

definition AuthHandler_CreateAPIKey :: "'s clients \<Rightarrow> gw_env \<Rightarrow> http_request \<Rightarrow> gin_ctx \<Rightarrow> 's handling" where
  "AuthHandler_CreateAPIKey cl env hreq ctx =
     bnd (current_user ctx) (\<lambda>user.
     bnd (bound (ge_apikey env (request_body hreq))) (\<lambda>label.
     bnd (call handleGRPCError (cl_CreateAPIKey cl (pu_Id user) label)) (\<lambda>r.
     ret (ok_response 201 (JSObject [(''key'', JSString (pa_Key r)), (''key_prefix'', JSString (pa_KeyPrefix r))])))))"

section \<open>Administration\<close>

definition requireAdmin :: "gin_ctx \<Rightarrow> ('s, http_response, unit) comp" where
  "requireAdmin ctx = check (cx_is_admin ctx = Some True) (error_response 403 ''forbidden: admin access required'')"

definition MarketType_value :: "string \<Rightarrow> int option" where
  "MarketType_value s =
     (if s = ''MARKET_TYPE_UNSPECIFIED'' then Some 0 else if s = ''MARKET_TYPE_BINARY'' then Some 1
      else if s = ''MARKET_TYPE_MULTI'' then Some 2 else None)"

text \<open>The market closes at the time of the request: \<open>EndTime\<close> of the body is not used.\<close>

definition create_market_request :: "gw_env \<Rightarrow> createMarketRequest \<Rightarrow> gin_ctx \<Rightarrow> PbCreateMarketRequest" where
  "create_market_request env req ctx =
     \<lparr>pc_Title = bm_Title req, pc_Description = bm_Description req,
      pc_MarketType = (case MarketType_value (bm_MarketType req) of None \<Rightarrow> 0 | Some v \<Rightarrow> v),
      pc_Category = bm_Category req, pc_OutcomeLabels = bm_OutcomeLabels req, pc_EndTime = Some (ge_now env),
      pc_CreatedBy = (case cx_user ctx of None \<Rightarrow> '''' | Some u \<Rightarrow> pu_Id (some_user u))\<rparr>"

definition AdminHandler_CreateMarket :: "'s clients \<Rightarrow> gw_env \<Rightarrow> http_request \<Rightarrow> gin_ctx \<Rightarrow> 's handling" where
  "AdminHandler_CreateMarket cl env hreq ctx =
     andthen (requireAdmin ctx)
     (bnd (bound (ge_market env (request_body hreq))) (\<lambda>req.
      andthen (check (length (bm_Title req) \<le> 256) (error_response 400 ''title must not exceed 256 characters''))
      (andthen (check (length (bm_Description req) \<le> 5000) (error_response 400 ''description must not exceed 5000 characters''))
      (andthen (check (length (bm_Category req) \<le> 100) (error_response 400 ''category must not exceed 100 characters''))
      (bnd (call handleGRPCError (cl_CreateMarket cl (create_market_request env req ctx))) (\<lambda>market.
       ret (ok_response 201 (protoMarketToResponse env market))))))))"

definition fetch_market :: "'s clients \<Rightarrow> gw_env \<Rightarrow> string \<Rightarrow> 's handling" where
  "fetch_market cl env marketID =
     bnd (call handleGRPCError (cl_GetMarket cl marketID)) (\<lambda>market.
     ret (ok_response 200 (protoMarketToResponse env market)))"

definition AdminHandler_ResolveMarket :: "'s clients \<Rightarrow> gw_env \<Rightarrow> http_request \<Rightarrow> string \<Rightarrow> gin_ctx \<Rightarrow> 's handling" where
  "AdminHandler_ResolveMarket cl env hreq marketID ctx =
     andthen (requireAdmin ctx)
     (bnd (bound (ge_resolve env (request_body hreq))) (\<lambda>winningOutcomeID.
      andthen (call handleGRPCError (cl_ResolveMarket cl marketID winningOutcomeID)) (fetch_market cl env marketID)))"

definition status_names :: "string \<Rightarrow> int option" where
  "status_names s =
     (if s = ''open'' then Some 2 else if s = ''closed'' then Some 3 else if s = ''cancelled'' then Some 5 else None)"

definition AdminHandler_UpdateMarketStatus :: "'s clients \<Rightarrow> gw_env \<Rightarrow> http_request \<Rightarrow> string \<Rightarrow> gin_ctx \<Rightarrow> 's handling" where
  "AdminHandler_UpdateMarketStatus cl env hreq marketID ctx =
     andthen (requireAdmin ctx)
     (bnd (bound (ge_status env (request_body hreq))) (\<lambda>name.
      bnd (require (status_names name) (error_response 400 ''invalid status: must be one of open, closed, cancelled'')) (\<lambda>status.
      andthen (call handleGRPCError (cl_UpdateMarketStatus cl marketID status)) (fetch_market cl env marketID))))"

definition UserType_name :: "int \<Rightarrow> string" where
  "UserType_name t =
     (if t = 0 then ''USER_TYPE_UNSPECIFIED'' else if t = 1 then ''USER_TYPE_HUMAN'' else if t = 2 then ''USER_TYPE_AGENT''
      else Itoa t)"

text \<open>An agent is registered by a sign-in with neither message nor signature.\<close>

definition AdminHandler_CreateAgentUser :: "'s clients \<Rightarrow> gw_env \<Rightarrow> http_request \<Rightarrow> gin_ctx \<Rightarrow> 's handling" where
  "AdminHandler_CreateAgentUser cl env hreq ctx =
     andthen (requireAdmin ctx)
     (bnd (bound (ge_agent env (request_body hreq))) (\<lambda>walletAddress.
      andthen (check (walletAddress \<noteq> '''') (error_response 400 ''wallet_address is required''))
      (bnd (call handleGRPCError (cl_VerifySignature cl '''' '''' walletAddress)) (\<lambda>(user, token).
       ret (response 201 (JSObject [(''ok'', JSBool True), (''data'', JSObject
         [(''id'', JSString (pu_Id (some_user user))), (''wallet_address'', JSString (pu_WalletAddress (some_user user))),
          (''user_type'', JSString (UserType_name (pu_UserType (some_user user)))), (''token'', JSString token)])]))))))"

definition AdminHandler_RefreshRankings :: "'s clients \<Rightarrow> gin_ctx \<Rightarrow> 's handling" where
  "AdminHandler_RefreshRankings cl ctx =
     andthen (requireAdmin ctx)
     (andthen (call handleGRPCError (cl_RefreshRankings cl))
       (ret (ok_response 200 (JSObject [(''message'', JSString ''rankings refreshed'')]))))"

end
