(* ===== verification/Router.thy ===== *)
theory Router
  imports Gateway
begin

text \<open>
  The middlewares (\<open>services/gateway/internal/middleware\<close>) and the routes
  (\<open>services/gateway/internal/router.go\<close>) of the gateway: the serving of one HTTP request. The
  matching of paths is that of \<open>gin\<close>: a segment of a pattern is itself or a parameter.
\<close>

section \<open>Authentication\<close>

text \<open>\<open>strings.EqualFold\<close> on ASCII.\<close>

definition EqualFold :: "string \<Rightarrow> string \<Rightarrow> bool" where
  "EqualFold a b \<longleftrightarrow> ToLower a = ToLower b"

definition no_auth :: "string \<Rightarrow> http_response" where
  "no_auth msg = error_response 401 msg"

definition signed_in :: "PbUser option \<Rightarrow> gin_ctx" where
  "signed_in u = \<lparr>cx_user = Some u, cx_is_admin = Some (pu_IsAdmin (some_user u))\<rparr>"

definition AuthMiddleware :: "'s clients \<Rightarrow> http_request \<Rightarrow> ('s, http_response, gin_ctx) comp" where
  "AuthMiddleware cl hreq =
     (let apiKey = hq_header hreq ''X-API-Key''; authHeader = hq_header hreq ''Authorization''
      in if apiKey \<noteq> ''''
         then bnd (call (\<lambda>_. no_auth ''invalid or expired API key'') (cl_ValidateAPIKey cl apiKey)) (\<lambda>u. ret (signed_in u))
         else case SplitN CHR '' '' 1 authHeader of
             [scheme, token] \<Rightarrow>
               if EqualFold scheme ''Bearer''
               then bnd (call (\<lambda>_. no_auth ''invalid or expired token'') (cl_ValidateToken cl token)) (\<lambda>u. ret (signed_in u))
               else fail (no_auth ''missing authentication credentials'')
           | _ \<Rightarrow> fail (no_auth ''missing authentication credentials''))"

section \<open>Rate limits\<close>

definition rateLimitKey :: "gin_ctx \<Rightarrow> http_request \<Rightarrow> string" where
  "rateLimitKey ctx hreq =
     (case cx_user ctx of Some (Some user) \<Rightarrow> ''user:'' @ pu_Id user | _ \<Rightarrow> ''ip:'' @ hq_ip hreq)"

definition too_many :: http_response where
  "too_many = response 429 (JSObject [(''ok'', JSBool False), (''error'', JSObject
     [(''code'', JSString ''RATE_LIMITED''), (''message'', JSString ''too many requests'')])])"

definition RateLimitMiddleware :: "'s clients \<Rightarrow> int \<Rightarrow> time \<Rightarrow> http_request \<Rightarrow> gin_ctx \<Rightarrow> ('s, http_response, unit) comp" where
  "RateLimitMiddleware cl limit window hreq ctx s =
     (case cl_Allow cl of
        None \<Rightarrow> (Inr (), s)
      | Some allow \<Rightarrow>
          (case allow (rateLimitKey ctx hreq) limit window s of
             (Inl e, s') \<Rightarrow> (Inr (), s')
           | (Inr allowed, s') \<Rightarrow> if allowed then (Inr (), s') else (Inl too_many, s')))"

section \<open>Routes\<close>

datatype route =
    Health | GetNonce | Verify | Me | CreateAPIKey
  | ListMarketsRoute | GetMarketRoute string | GetOrderbookRoute string
  | MintTokensRoute | PlaceOrderRoute | CancelOrderRoute string | ListOrdersRoute | GetPositionsRoute
  | GetLeaderboardRoute | GetUserRankingRoute string
  | CreateMarketRoute | UpdateStatusRoute string | ResolveMarketRoute string | CreateAgentUserRoute | RefreshRankingsRoute

definition route_of :: "string \<Rightarrow> string list \<Rightarrow> route option" where
  "route_of m p =
     (case p of
        [a] \<Rightarrow> if m = ''GET'' \<and> a = ''health'' then Some Health else None
      | [a, v, g] \<Rightarrow>
          if a = ''api'' \<and> v = ''v1'' \<and> m = ''GET'' \<and> g = ''markets'' then Some ListMarketsRoute
          else if a = ''api'' \<and> v = ''v1'' \<and> m = ''GET'' \<and> g = ''rankings'' then Some GetLeaderboardRoute
          else None
      | [a, v, g, x] \<Rightarrow>
          if a \<noteq> ''api'' \<or> v \<noteq> ''v1'' then None
          else if g = ''auth'' then
            (if m = ''GET'' \<and> x = ''nonce'' then Some GetNonce else if m = ''POST'' \<and> x = ''verify'' then Some Verify
             else if m = ''GET'' \<and> x = ''me'' then Some Me else if m = ''POST'' \<and> x = ''api-key'' then Some CreateAPIKey
             else None)
          else if g = ''markets'' then (if m = ''GET'' \<and> x \<noteq> '''' then Some (GetMarketRoute x) else None)
          else if g = ''trading'' then
            (if m = ''POST'' \<and> x = ''mint'' then Some MintTokensRoute
             else if m = ''POST'' \<and> x = ''orders'' then Some PlaceOrderRoute
             else if m = ''GET'' \<and> x = ''orders'' then Some ListOrdersRoute
             else if m = ''GET'' \<and> x = ''positions'' then Some GetPositionsRoute else None)
          else if g = ''admin'' then
            (if m = ''POST'' \<and> x = ''markets'' then Some CreateMarketRoute
             else if m = ''POST'' \<and> x = ''agent-users'' then Some CreateAgentUserRoute else None)
          else None
      | [a, v, g, x, y] \<Rightarrow>
          if a \<noteq> ''api'' \<or> v \<noteq> ''v1'' then None
          else if g = ''markets'' \<and> m = ''GET'' \<and> x \<noteq> '''' \<and> y = ''orderbook'' then Some (GetOrderbookRoute x)
          else if g = ''trading'' \<and> m = ''DELETE'' \<and> x = ''orders'' \<and> y \<noteq> '''' then Some (CancelOrderRoute y)
          else if g = ''rankings'' \<and> m = ''GET'' \<and> x = ''user'' \<and> y \<noteq> '''' then Some (GetUserRankingRoute y)
          else if g = ''admin'' \<and> m = ''POST'' \<and> x = ''rankings'' \<and> y = ''refresh'' then Some RefreshRankingsRoute
          else None
      | [a, v, g, x, y, z] \<Rightarrow>
          if a = ''api'' \<and> v = ''v1'' \<and> g = ''admin'' \<and> m = ''POST'' \<and> x = ''markets'' \<and> y \<noteq> ''''
          then (if z = ''status'' then Some (UpdateStatusRoute y) else if z = ''resolve'' then Some (ResolveMarketRoute y) else None)
          else None
      | _ \<Rightarrow> None)"

text \<open>The group of a route has a limit of requests a minute, or none.\<close>

definition group_limit :: "route \<Rightarrow> int option" where
  "group_limit r =
     (case r of
        Health \<Rightarrow> None
      | GetNonce \<Rightarrow> Some 10 | Verify \<Rightarrow> Some 10 | Me \<Rightarrow> Some 10 | CreateAPIKey \<Rightarrow> Some 10
      | ListMarketsRoute \<Rightarrow> Some 120 | GetMarketRoute _ \<Rightarrow> Some 120 | GetOrderbookRoute _ \<Rightarrow> Some 120
      | MintTokensRoute \<Rightarrow> Some 60 | PlaceOrderRoute \<Rightarrow> Some 60 | CancelOrderRoute _ \<Rightarrow> Some 60
      | ListOrdersRoute \<Rightarrow> Some 60 | GetPositionsRoute \<Rightarrow> Some 60
      | GetLeaderboardRoute \<Rightarrow> Some 120 | GetUserRankingRoute _ \<Rightarrow> Some 120
      | _ \<Rightarrow> None)"

definition needs_auth :: "route \<Rightarrow> bool" where
  "needs_auth r =
     (case r of
        Health \<Rightarrow> False | GetNonce \<Rightarrow> False | Verify \<Rightarrow> False
      | ListMarketsRoute \<Rightarrow> False | GetMarketRoute _ \<Rightarrow> False | GetOrderbookRoute _ \<Rightarrow> False
      | GetLeaderboardRoute \<Rightarrow> False | GetUserRankingRoute _ \<Rightarrow> False
      | _ \<Rightarrow> True)"

definition handler_of :: "'s clients \<Rightarrow> gw_env \<Rightarrow> http_request \<Rightarrow> route \<Rightarrow> gin_ctx \<Rightarrow> 's handling" where
  "handler_of cl env hreq r ctx =
     (case r of
        Health \<Rightarrow> ret (response 200 (JSObject [(''status'', JSString ''ok'')]))
      | GetNonce \<Rightarrow> AuthHandler_GetNonce cl
      | Verify \<Rightarrow> AuthHandler_Verify cl env hreq
      | Me \<Rightarrow> AuthHandler_Me env ctx
      | CreateAPIKey \<Rightarrow> AuthHandler_CreateAPIKey cl env hreq ctx
      | ListMarketsRoute \<Rightarrow> MarketHandler_ListMarkets cl env hreq
      | GetMarketRoute i \<Rightarrow> MarketHandler_GetMarket cl env i
      | GetOrderbookRoute i \<Rightarrow> OrderHandler_GetOrderbook cl hreq i
      | MintTokensRoute \<Rightarrow> OrderHandler_MintTokens cl env hreq ctx
      | PlaceOrderRoute \<Rightarrow> OrderHandler_PlaceOrder cl env hreq ctx
      | CancelOrderRoute i \<Rightarrow> OrderHandler_CancelOrder cl i ctx
      | ListOrdersRoute \<Rightarrow> OrderHandler_ListOrders cl hreq ctx
      | GetPositionsRoute \<Rightarrow> OrderHandler_GetPositions cl hreq ctx
      | GetLeaderboardRoute \<Rightarrow> RankingHandler_GetLeaderboard cl hreq
      | GetUserRankingRoute i \<Rightarrow> RankingHandler_GetUserRanking cl i
      | CreateMarketRoute \<Rightarrow> AdminHandler_CreateMarket cl env hreq ctx
      | UpdateStatusRoute i \<Rightarrow> AdminHandler_UpdateMarketStatus cl env hreq i ctx
      | ResolveMarketRoute i \<Rightarrow> AdminHandler_ResolveMarket cl env hreq i ctx
      | CreateAgentUserRoute \<Rightarrow> AdminHandler_CreateAgentUser cl env hreq ctx
      | RefreshRankingsRoute \<Rightarrow> AdminHandler_RefreshRankings cl ctx)"

definition no_ctx :: gin_ctx where
  "no_ctx = \<lparr>cx_user = None, cx_is_admin = None\<rparr>"

definition limit_group :: "'s clients \<Rightarrow> http_request \<Rightarrow> route \<Rightarrow> ('s, http_response, unit) comp" where
  "limit_group cl hreq r =
     (case group_limit r of None \<Rightarrow> ret () | Some limit \<Rightarrow> RateLimitMiddleware cl limit (minutes 1) hreq no_ctx)"

definition run_route :: "'s clients \<Rightarrow> gw_env \<Rightarrow> http_request \<Rightarrow> route \<Rightarrow> 's handling" where
  "run_route cl env hreq r =
     andthen (limit_group cl hreq r)
     (bnd (if needs_auth r then AuthMiddleware cl hreq else ret no_ctx) (handler_of cl env hreq r))"

definition cors_headers :: "http_request \<Rightarrow> (string \<times> string) list" where
  "cors_headers hreq =
     (let origin = hq_header hreq ''Origin'' in
      if origin = '''' then []
      else [(''Access-Control-Allow-Origin'', origin),
            (''Access-Control-Allow-Methods'', ''GET, POST, PUT, DELETE, OPTIONS, PATCH''),
            (''Access-Control-Allow-Headers'', ''Content-Type, Authorization, X-API-Key''),
            (''Access-Control-Allow-Credentials'', ''true''), (''Access-Control-Max-Age'', ''86400'')])"

text \<open>One request: the headers for other origins, the answer to \<open>OPTIONS\<close>, and the route.\<close>

definition serve :: "'s clients \<Rightarrow> gw_env \<Rightarrow> http_request \<Rightarrow> 's \<Rightarrow> http_response \<times> 's" where
  "serve cl env hreq s =
     (let (r, s') =
        (if hq_method hreq = ''OPTIONS'' then (\<lparr>hp_status = 204, hp_headers = [], hp_body = NoBody\<rparr>, s)
         else case route_of (hq_method hreq) (hq_path hreq) of
             None \<Rightarrow> (\<lparr>hp_status = 404, hp_headers = [], hp_body = TextBody ''404 page not found''\<rparr>, s)
           | Some r \<Rightarrow> finish (run_route cl env hreq r) s)
      in (r\<lparr>hp_headers := cors_headers hreq @ hp_headers r\<rparr>, s'))"

end
