(* ===== verification/Access.thy ===== *)
theory Access
  imports Router
begin

text \<open>
  Who may do what through the gateway: which calls of the services a request can make at all.
\<close>

section \<open>Calls and responses\<close>

lemma finish_bnd: "finish (bnd m f) s = (case m s of (Inl r, s') \<Rightarrow> (r, s') | (Inr x, s') \<Rightarrow> finish (f x) s')"
  by (auto simp: finish_def bnd_def split: prod.splits sum.splits)

lemma finish_Inl: "m s = (Inl p, s') \<Longrightarrow> finish m s = (p, s')"
  by (simp add: finish_def)

lemma finish_andthen: "finish (andthen m n) s = (case m s of (Inl r, s') \<Rightarrow> (r, s') | (Inr x, s') \<Rightarrow> finish n s')"
  by (simp add: andthen_def finish_bnd)

lemma serve_route:
  assumes "hq_method hreq \<noteq> ''OPTIONS''" and "route_of (hq_method hreq) (hq_path hreq) = Some r"
  shows "serve cl env hreq s = (let (p, s') = finish (run_route cl env hreq r) s
    in (p\<lparr>hp_headers := cors_headers hreq @ hp_headers p\<rparr>, s'))"
  using assms by (simp add: serve_def)

text \<open>What the requests for a route that needs authentication do first: the limit, then the credentials.\<close>

definition admitted :: "'s clients \<Rightarrow> http_request \<Rightarrow> route \<Rightarrow> ('s, http_response, gin_ctx) comp" where
  "admitted cl hreq r = andthen (limit_group cl hreq r) (AuthMiddleware cl hreq)"

lemma run_route_admitted: "needs_auth r \<Longrightarrow> run_route cl env hreq r = bnd (admitted cl hreq r) (handler_of cl env hreq r)"
  by (auto simp: run_route_def admitted_def andthen_def bnd_def fun_eq_iff split: prod.splits sum.splits)

lemma AuthMiddleware_refuses: "AuthMiddleware cl hreq s = (Inl p, s') \<Longrightarrow> hp_status p = 401"
  by (auto simp: AuthMiddleware_def Let_def call_def no_auth_def error_response_def response_def bnd_def fail_def ret_def
      split: if_splits list.splits prod.splits sum.splits)

lemma limit_group_refuses: "limit_group cl hreq r s = (Inl p, s') \<Longrightarrow> p = too_many"
  by (auto simp: limit_group_def RateLimitMiddleware_def ret_def split: option.splits prod.splits sum.splits if_splits)

lemma admitted_refuses: "admitted cl hreq r s = (Inl p, s') \<Longrightarrow> hp_status p \<in> {401, 429}"
  by (auto simp: admitted_def andthen_def bnd_def too_many_def response_def split: prod.splits sum.splits
      dest!: AuthMiddleware_refuses limit_group_refuses)

section \<open>Agreement of clients\<close>

text \<open>
  Two records of clients that agree on a set of calls; a request that is served in the same way by
  both, whatever they do otherwise, makes no call outside the set.
\<close>

definition same_guards :: "'s clients \<Rightarrow> 's clients \<Rightarrow> bool" where
  "same_guards cl cl' \<longleftrightarrow> cl_Allow cl' = cl_Allow cl \<and> cl_ValidateToken cl' = cl_ValidateToken cl \<and>
     cl_ValidateAPIKey cl' = cl_ValidateAPIKey cl"

lemma admitted_cong: "same_guards cl cl' \<Longrightarrow> admitted cl' hreq r = admitted cl hreq r"
proof -
  assume "same_guards cl cl'"
  then have g: "cl_Allow cl' = cl_Allow cl" "cl_ValidateToken cl' = cl_ValidateToken cl" "cl_ValidateAPIKey cl' = cl_ValidateAPIKey cl"
    by (simp_all add: same_guards_def)
  have "RateLimitMiddleware cl' = RateLimitMiddleware cl" by (intro ext) (simp only: RateLimitMiddleware_def g)
  then have "limit_group cl' hreq r = limit_group cl hreq r" by (simp add: limit_group_def split: option.splits)
  moreover have "AuthMiddleware cl' hreq = AuthMiddleware cl hreq" unfolding AuthMiddleware_def g ..
  ultimately show ?thesis by (simp add: admitted_def)
qed

definition admin_route :: "route \<Rightarrow> bool" where
  "admin_route r = (case r of CreateMarketRoute \<Rightarrow> True | UpdateStatusRoute _ \<Rightarrow> True | ResolveMarketRoute _ \<Rightarrow> True
     | CreateAgentUserRoute \<Rightarrow> True | RefreshRankingsRoute \<Rightarrow> True | _ \<Rightarrow> False)"

lemma admin_needs_auth: "admin_route r \<Longrightarrow> needs_auth r"
  by (cases r) (simp_all add: admin_route_def needs_auth_def)

lemma admin_handler_refuses:
  assumes "admin_route r" and "cx_is_admin ctx \<noteq> Some True"
  shows "handler_of cl env hreq r ctx s = (Inl (error_response 403 ''forbidden: admin access required''), s)"
  using assms
  by (cases r) (simp_all add: admin_route_def handler_of_def AdminHandler_CreateMarket_def AdminHandler_UpdateMarketStatus_def
      AdminHandler_ResolveMarket_def AdminHandler_CreateAgentUser_def AdminHandler_RefreshRankings_def requireAdmin_def
      check_def andthen_def bnd_def fail_def)


text \<open>
  C32: a request for an administrative route by a user who is not an administrator is answered
  with 403 and, the check of the credentials apart, makes no call and changes nothing.
\<close>

theorem admin_only:
  assumes "hq_method hreq \<noteq> ''OPTIONS''" and "route_of (hq_method hreq) (hq_path hreq) = Some r" and "admin_route r"
    and "admitted cl hreq r s = (Inr ctx, s')" and "cx_is_admin ctx \<noteq> Some True"
  shows "snd (serve cl env hreq s) = s' \<and> hp_status (fst (serve cl env hreq s)) = 403 \<and>
    (\<forall>cl'. same_guards cl cl' \<longrightarrow> serve cl' env hreq s = serve cl env hreq s)"
proof -
  let ?p = "error_response 403 ''forbidden: admin access required''"
  have "serve cl' env hreq s = (?p\<lparr>hp_headers := cors_headers hreq @ hp_headers ?p\<rparr>, s')" if "same_guards cl cl'" for cl'
  proof -
    have "finish (handler_of cl' env hreq r ctx) s' = (?p, s')"
      by (rule finish_Inl) (rule admin_handler_refuses[OF assms(3,5)])
    then show ?thesis using assms(4) admitted_cong[OF that, of hreq r]
      by (simp add: serve_route[OF assms(1,2)] run_route_admitted[OF admin_needs_auth[OF assms(3)]] finish_bnd)
  qed
  moreover have "same_guards cl cl" by (simp add: same_guards_def)
  ultimately show ?thesis by (simp add: error_response_def response_def)
qed

section \<open>Acting as oneself\<close>

text \<open>The calls of a request by a user: those for everybody, and those that name the user.\<close>

definition same_as :: "string \<Rightarrow> 's clients \<Rightarrow> 's clients \<Rightarrow> bool" where
  "same_as i cl cl' \<longleftrightarrow> same_guards cl cl' \<and>
     cl_GenerateNonce cl' = cl_GenerateNonce cl \<and> cl_VerifySignature cl' = cl_VerifySignature cl \<and>
     cl_ListMarkets cl' = cl_ListMarkets cl \<and> cl_GetMarket cl' = cl_GetMarket cl \<and>
     cl_ResolveMarket cl' = cl_ResolveMarket cl \<and> cl_UpdateMarketStatus cl' = cl_UpdateMarketStatus cl \<and>
     cl_GetOrderbook cl' = cl_GetOrderbook cl \<and> cl_GetLeaderboard cl' = cl_GetLeaderboard cl \<and>
     cl_GetUserRanking cl' = cl_GetUserRanking cl \<and> cl_RefreshRankings cl' = cl_RefreshRankings cl \<and>
     cl_CreateAPIKey cl' i = cl_CreateAPIKey cl i \<and> cl_MintTokens cl' i = cl_MintTokens cl i \<and>
     cl_CancelOrder cl' i = cl_CancelOrder cl i \<and> cl_GetPositions cl' i = cl_GetPositions cl i \<and>
     (\<forall>req. pq_UserId req = i \<longrightarrow> cl_PlaceOrder cl' req = cl_PlaceOrder cl req) \<and>
     (\<forall>req. plo_UserId req = i \<longrightarrow> cl_ListOrders cl' req = cl_ListOrders cl req) \<and>
     (\<forall>req. pc_CreatedBy req = i \<longrightarrow> cl_CreateMarket cl' req = cl_CreateMarket cl req)"

lemma bnd_ret [simp]: "bnd (ret x) f = f x"
  by (simp add: bnd_def ret_def fun_eq_iff)

lemma current_user_ret: "cx_user ctx = Some (Some u) \<Longrightarrow> current_user ctx = ret u"
  by (simp add: current_user_def)

lemma request_users: "plo_UserId (orders_request hreq i) = i"
    "cx_user ctx = Some (Some u) \<Longrightarrow> pc_CreatedBy (create_market_request env req ctx) = pu_Id u"
  by (simp_all add: orders_request_def create_market_request_def some_user_def)

lemma handler_as:
  assumes "same_as (pu_Id u) cl cl'" and "cx_user ctx = Some (Some u)"
  shows "handler_of cl' env hreq r ctx = handler_of cl env hreq r ctx"
  using assms(1) unfolding same_as_def
  by (cases r; simp only: handler_of_def route.case)
    (simp_all add: AuthHandler_GetNonce_def AuthHandler_Verify_def AuthHandler_CreateAPIKey_def
      MarketHandler_ListMarkets_def MarketHandler_GetMarket_def OrderHandler_GetOrderbook_def OrderHandler_MintTokens_def
      OrderHandler_PlaceOrder_def OrderHandler_CancelOrder_def OrderHandler_ListOrders_def OrderHandler_GetPositions_def
      RankingHandler_GetLeaderboard_def RankingHandler_GetUserRanking_def AdminHandler_CreateMarket_def
      AdminHandler_UpdateMarketStatus_def AdminHandler_ResolveMarket_def AdminHandler_CreateAgentUser_def
      AdminHandler_RefreshRankings_def fetch_market_def current_user_ret[OF assms(2)] request_users(1)
      request_users(2)[OF assms(2)])

text \<open>
  C30: whatever a signed-in user asks for, the calls the request makes on behalf of somebody name
  that user: orders are placed, cancelled and listed, tokens minted, positions read, keys and
  markets made for no one else, whatever the path, the parameters and the body say.
\<close>

theorem acts_as_self:
  assumes "hq_method hreq \<noteq> ''OPTIONS''" and "route_of (hq_method hreq) (hq_path hreq) = Some r" and "needs_auth r"
    and "admitted cl hreq r s = (Inr ctx, s')" and "cx_user ctx = Some (Some u)" and "same_as (pu_Id u) cl cl'"
  shows "serve cl' env hreq s = serve cl env hreq s"
proof -
  have "same_guards cl cl'" using assms(6) by (simp add: same_as_def)
  then show ?thesis
    using assms(4) admitted_cong[of cl cl' hreq r] handler_as[OF assms(6,5), of env hreq r]
    by (simp add: serve_route[OF assms(1,2)] run_route_admitted[OF assms(3)] finish_bnd)
qed

section \<open>An example\<close>

text \<open>
  Services that write down the calls they get. The token \<open>t\<close> is that of Ann, who is no
  administrator; every other one is refused.
\<close>

definition logged :: "string \<Rightarrow> 'a \<Rightarrow> (string list, 'a) client" where
  "logged what x calls = (Inr x, calls @ [what])"

definition ex_ann :: PbUser where
  "ex_ann = \<lparr>pu_Id = ''ann'', pu_WalletAddress = ''0xa'', pu_UserType = 1, pu_Balance = ''0'', pu_LockedBalance = ''0'',
     pu_IsAdmin = False, pu_CreatedAt = None\<rparr>"

definition ex_pb_order :: "string \<Rightarrow> PbOrder" where
  "ex_pb_order i = \<lparr>pb_Id = i, pb_UserId = ''ann'', pb_MarketId = ''m'', pb_OutcomeId = ''yes'', pb_Side = 1, pb_Price = ''0.5'',
     pb_Quantity = ''1'', pb_FilledQuantity = ''0'', pb_Status = 4, pb_CreatedAt = 0, pb_UpdatedAt = 0\<rparr>"

definition ex_pb_market :: PbMarket where
  "ex_pb_market = \<lparr>pm_Id = ''m'', pm_Title = '''', pm_Description = '''', pm_Category = '''', pm_MarketType = 1, pm_Status = 1,
     pm_CreatedBy = '''', pm_CreatedAt = 0, pm_EndTime = None, pm_Outcomes = []\<rparr>"

definition ex_clients :: "string list clients" where
  "ex_clients =
     \<lparr>cl_GenerateNonce = logged ''nonce'' '''', cl_VerifySignature = (\<lambda>m sg w. logged ''verify'' (None, '''')),
      cl_ValidateToken = (\<lambda>t calls. if t = ''t'' then (Inr (Some ex_ann), calls)
        else (Inl (StatusError (Unauthenticated, ''expired'')), calls)),
      cl_ValidateAPIKey = (\<lambda>k calls. (Inl (StatusError (Unauthenticated, ''unknown'')), calls)),
      cl_CreateAPIKey = (\<lambda>i l. logged (''key for '' @ i) \<lparr>pa_Key = '''', pa_KeyPrefix = '''', pa_ExpiresAt = None\<rparr>),
      cl_ListMarkets = (\<lambda>r. logged ''markets'' ([], 0)), cl_GetMarket = (\<lambda>i. logged ''market'' ex_pb_market),
      cl_CreateMarket = (\<lambda>r. logged ''create'' ex_pb_market), cl_ResolveMarket = (\<lambda>i w. logged ''resolve'' ()),
      cl_UpdateMarketStatus = (\<lambda>i n. logged ''status'' ()),
      cl_PlaceOrder = (\<lambda>r. logged (''order of '' @ pq_UserId r) (ex_pb_order ''x'', [])),
      cl_MintTokens = (\<lambda>i m q. logged (''mint for '' @ i) ([], '''')),
      cl_CancelOrder = (\<lambda>i x. logged (''cancel by '' @ i) (ex_pb_order x)),
      cl_ListOrders = (\<lambda>r. logged ''orders'' ([], 0)), cl_GetPositions = (\<lambda>i m. logged ''positions'' []),
      cl_GetOrderbook = (\<lambda>m x. logged ''book'' ([], [])), cl_GetLeaderboard = (\<lambda>r. logged ''ranks'' ([], 0)),
      cl_GetUserRanking = (\<lambda>i. logged ''rank'' []), cl_RefreshRankings = logged ''refresh'' 0, cl_Allow = None\<rparr>"

definition ex_gw :: gw_env where
  "ex_gw = \<lparr>ge_order = (\<lambda>_. None), ge_mint = (\<lambda>_. None), ge_market = (\<lambda>_. None), ge_resolve = (\<lambda>_. None),
     ge_status = (\<lambda>_. None), ge_agent = (\<lambda>_. None), ge_verify = (\<lambda>_. None), ge_apikey = (\<lambda>_. None),
     ge_rfc3339 = (\<lambda>_. ''''), ge_now = 0\<rparr>"

definition ex_http :: "string \<Rightarrow> string list \<Rightarrow> string \<Rightarrow> http_request" where
  "ex_http m p token = \<lparr>hq_method = m, hq_path = p,
     hq_header = (\<lambda>h. if h = ''Authorization'' then ''bearer '' @ token else ''''), hq_query = (\<lambda>_. ''''), hq_body = '''',
     hq_ip = ''10.0.0.1''\<rparr>"

definition ex_cancel :: "string \<Rightarrow> http_request" where
  "ex_cancel token = ex_http ''DELETE'' [''api'', ''v1'', ''trading'', ''orders'', ''x''] token"

lemma ex_admitted:
  "admitted ex_clients (ex_cancel ''t'') r [] = (Inr (signed_in (Some ex_ann)), [])"
  "admitted ex_clients (ex_cancel ''u'') r [] = (Inl (no_auth ''invalid or expired token''), [])"
proof -
  have "limit_group ex_clients h r = ret ()" for h
    by (simp add: limit_group_def RateLimitMiddleware_def[abs_def] ex_clients_def ret_def fun_eq_iff split: option.splits)
  moreover have "AuthMiddleware ex_clients (ex_cancel ''t'') [] = (Inr (signed_in (Some ex_ann)), [])"
    "AuthMiddleware ex_clients (ex_cancel ''u'') [] = (Inl (no_auth ''invalid or expired token''), [])"
    by code_simp+
  ultimately show "admitted ex_clients (ex_cancel ''t'') r [] = (Inr (signed_in (Some ex_ann)), [])"
    "admitted ex_clients (ex_cancel ''u'') r [] = (Inl (no_auth ''invalid or expired token''), [])"
    by (simp_all add: admitted_def andthen_def)
qed

lemma ex_cancel_route:
  "hq_method (ex_cancel t) \<noteq> ''OPTIONS''" "route_of (hq_method (ex_cancel t)) (hq_path (ex_cancel t)) = Some (CancelOrderRoute ''x'')"
  "needs_auth (CancelOrderRoute ''x'')"
  by (simp_all add: ex_cancel_def ex_http_def route_of_def needs_auth_def)


definition ex_refresh :: http_request where
  "ex_refresh = ex_http ''POST'' [''api'', ''v1'', ''admin'', ''rankings'', ''refresh''] ''t''"

lemma ex_refresh_admitted: "admitted ex_clients ex_refresh RefreshRankingsRoute [] = (Inr (signed_in (Some ex_ann)), [])"
  by (code_simp)

theorem admin_only_witness:
  "serve ex_clients ex_gw ex_refresh [] = (error_response 403 ''forbidden: admin access required'', []) \<and>
   hp_status (fst (serve ex_clients ex_gw ex_refresh [])) = 403"
proof -
  have r: "hq_method ex_refresh \<noteq> ''OPTIONS''" "route_of (hq_method ex_refresh) (hq_path ex_refresh) = Some RefreshRankingsRoute"
    "admin_route RefreshRankingsRoute" "cx_is_admin (signed_in (Some ex_ann)) \<noteq> Some True"
    by (simp_all add: ex_refresh_def ex_http_def route_of_def admin_route_def signed_in_def some_user_def ex_ann_def)
  have "fst (serve ex_clients ex_gw ex_refresh []) = error_response 403 ''forbidden: admin access required''"
    by code_simp
  with admin_only[OF r(1-3) ex_refresh_admitted r(4), of ex_gw] show ?thesis
    by (simp add: prod_eq_iff)
qed

text \<open>Ann cancels an order: the call names her, and what the service does for others does not matter.\<close>

definition ex_others :: "string list clients" where
  "ex_others = ex_clients\<lparr>cl_CancelOrder := (\<lambda>i x. if i = ''ann'' then logged ''cancel by ann'' (ex_pb_order x) else logged ''other'' (ex_pb_order x))\<rparr>"

theorem acts_as_self_witness:
  "snd (serve ex_others ex_gw (ex_cancel ''t'') []) = [''cancel by ann'']"
proof -
  have "same_as (pu_Id ex_ann) ex_clients ex_others"
    by (simp add: same_as_def same_guards_def ex_others_def ex_clients_def ex_ann_def)
  moreover have "cx_user (signed_in (Some ex_ann)) = Some (Some ex_ann)" by (simp add: signed_in_def)
  ultimately have "serve ex_others ex_gw (ex_cancel ''t'') [] = serve ex_clients ex_gw (ex_cancel ''t'') []"
    using acts_as_self[OF ex_cancel_route ex_admitted(1)] by blast
  moreover have "snd (serve ex_clients ex_gw (ex_cancel ''t'') []) = [''cancel by ann'']"
    by code_simp
  ultimately show ?thesis by simp
qed

end
