(* ===== verification/HttpContract.thy ===== *)
theory HttpContract
  imports Access
begin

text \<open>
  What the gateway makes of the services it calls: the status of an error from end to end, the
  numbers in the query, the length of a listing, and two requests of administrators that do not
  do what they say.
\<close>

section \<open>Errors from end to end\<close>

lemma copies_agree:
  "Market_toGRPCError = Trading_toGRPCError" "Auth_toGRPCError = Trading_toGRPCError" "Ranking_toGRPCError = Trading_toGRPCError"
  by (simp_all add: fun_eq_iff Market_toGRPCError_def Auth_toGRPCError_def Ranking_toGRPCError_def Trading_toGRPCError_def)

definition http_status :: "err \<Rightarrow> int" where
  "http_status e =
     (if IsNotFound e then 404 else if IsUnauthorized e then 401 else if IsForbidden e then 403
      else if IsBadRequest e \<or> IsInvalidPrice e then 400
      else if IsConflict e \<or> IsInsufficientBalance e \<or> IsMarketClosed e then 409 else 500)"



section \<open>Numbers of the query\<close>

lemma decimal_digits_props:
  "digits_value (decimal_digits n) = int n \<and> list_all is_digit (decimal_digits n) \<and> decimal_digits n \<noteq> []"
proof (induction n rule: decimal_digits.induct)
  case (1 n)
  have d: "(of_char (char_of (48 + k) :: char) :: nat) = 48 + k" if "k < 10" for k
    using that by simp
  have "(of_char (char_of (48 + k) :: char) :: int) = 48 + int k" if "k < 10" for k
    using d[OF that] by (metis of_char_of of_nat_of_char of_nat_add of_nat_numeral)
  note e = this
  show ?case
  proof (cases "n < 10")
    case True
    then show ?thesis using d[of n] e[of n]
      by (simp add: decimal_digits.simps[of n] digits_value_def is_digit_def)
  next
    case False
    have "10 * int (n div 10) + int (n mod 10) = int n" by presburger
    with False 1 d[of "n mod 10"] e[of "n mod 10"] show ?thesis
      by (simp add: decimal_digits.simps[of n] digits_value_def is_digit_def)
  qed
qed

lemma Atoi_digits:
  assumes "list_all is_digit ds" and "ds \<noteq> []" and "digits_value ds < 2 ^ 63" and "0 \<le> digits_value ds"
  shows "Atoi ds = Some (digits_value ds)"
proof -
  obtain c cs where ds: "ds = c # cs" using assms(2) by (cases ds) auto
  then have "c \<noteq> CHR ''-''" "c \<noteq> CHR ''+''" using assms(1) by (auto simp: is_digit_def)
  with assms ds show ?thesis by (auto simp: Atoi_def Let_def)
qed

lemma Atoi_minus:
  assumes "list_all is_digit ds" and "ds \<noteq> []" and "digits_value ds \<le> 2 ^ 63" and "0 \<le> digits_value ds"
  shows "Atoi (CHR ''-'' # ds) = Some (- digits_value ds)"
  using assms by (auto simp: Atoi_def Let_def)

lemma Atoi_Itoa: "- (2 ^ 63) \<le> v \<Longrightarrow> v < 2 ^ 63 \<Longrightarrow> Atoi (Itoa v) = Some v"
  using decimal_digits_props[of "nat v"] decimal_digits_props[of "nat (- v)"]
    Atoi_digits[of "decimal_digits (nat v)"] Atoi_minus[of "decimal_digits (nat (- v))"]
  by (auto simp: Itoa_def)

lemma int32_range: "- (2 ^ 31) \<le> int32 n \<and> int32 n < 2 ^ 31"
proof -
  have "0 \<le> (n + 2 ^ 31) mod 2 ^ 32" "(n + 2 ^ 31) mod 2 ^ 32 < (2 :: int) ^ 32" by simp_all
  then show ?thesis by (simp add: int32_def)
qed

lemma Itoa_nonempty: "Itoa v \<noteq> ''''"
  using decimal_digits_props by (auto simp: Itoa_def)

text \<open>
  A number of the query always fits in 32 bits; one that fits is read as it was printed, a
  larger one of 64 bits loses its upper half, and what is no number reads as 0.
\<close>

theorem query_int32_exact:
  "- (2 ^ 31) \<le> query_int32 hreq k \<and> query_int32 hreq k < 2 ^ 31 \<and>
   (hq_query hreq k = Itoa v \<and> - (2 ^ 63) \<le> v \<and> v < 2 ^ 63 \<longrightarrow> query_int32 hreq k = int32 v) \<and>
   (hq_query hreq k = Itoa v \<and> - (2 ^ 31) \<le> v \<and> v < 2 ^ 31 \<longrightarrow> query_int32 hreq k = v) \<and>
   (Atoi (hq_query hreq k) = None \<longrightarrow> query_int32 hreq k = 0)"
proof -
  have "- (2 ^ 31) \<le> query_int32 hreq k \<and> query_int32 hreq k < 2 ^ 31"
    using int32_range by (auto simp: query_int32_def split: option.splits)
  moreover have "query_int32 hreq k = int32 v" if "hq_query hreq k = Itoa v" "- (2 ^ 63) \<le> v" "v < 2 ^ 63"
    using that Itoa_nonempty[of v] by (simp add: query_int32_def Atoi_Itoa)
  moreover have "query_int32 hreq k = v" if "hq_query hreq k = Itoa v" "- (2 ^ 31) \<le> v" "v < 2 ^ 31"
    using that Itoa_nonempty[of v] int32_id[of v] by (simp add: query_int32_def Atoi_Itoa)
  moreover have "query_int32 hreq k = 0" if "Atoi (hq_query hreq k) = None"
    using that by (simp add: query_int32_def)
  ultimately show ?thesis by blast
qed

theorem query_int32_exact_witness:
  "query_int32 \<lparr>hq_method = '''', hq_path = [], hq_header = (\<lambda>_. ''''), hq_query = (\<lambda>k. ''4294967298''), hq_body = '''',
     hq_ip = ''''\<rparr> ''page'' = 2"
proof -
  have i: "Itoa 4294967298 = ''4294967298''" by (simp add: Itoa_def decimal_digits.simps) code_simp
  have "int32 4294967298 = 2" by (simp add: int32_def)
  with i query_int32_exact[of "\<lparr>hq_method = '''', hq_path = [], hq_header = (\<lambda>_. ''''), hq_query = (\<lambda>k. ''4294967298''), hq_body = '''',
     hq_ip = ''''\<rparr>" "''page''" 4294967298] show ?thesis by simp
qed

section \<open>Listings\<close>

lemma collect_length: "collect xs f s = (Inr ys, s') \<Longrightarrow> length ys = length xs"
  by (induction xs arbitrary: s ys) (auto simp: succeeds)

lemma int32_small: "0 \<le> n \<Longrightarrow> n \<le> 100 \<Longrightarrow> int32 n = n"
  by (rule int32_id) simp_all

text \<open>
  A listing of markets over HTTP never has more than a hundred markets, whatever page size
  is asked for, and the number that is reported with it counts all that match.
\<close>

theorem market_listing_bounded:
  assumes "Server_ListMarkets drv (markets_request hreq) s = (Inr (pms, cnt), s')"
  shows "length pms \<le> 100 \<and> (0 < query_int32 hreq ''per_page'' \<longrightarrow> int (length pms) \<le> query_int32 hreq ''per_page'') \<and>
    cnt = count_where (market_matches (markets_filter (markets_request hreq))) (db_markets (n_db s))"
proof -
  let ?flt = "markets_filter (markets_request hreq)"
  let ?per = "query_int32 hreq ''per_page''"
  obtain ms s1 where run: "MarketRepo_List ?flt s = (Inr (ms, cnt), s1)" and c: "collect ms list_one s1 = (Inr pms, s')"
    using assms by (auto simp: Server_ListMarkets_def ListMarkets_def succeeds)
  from run obtain xs where ms: "ms = page (page_limit (mf_Limit ?flt)) (page_offset (mf_Offset ?flt)) xs"
    and cnt: "cnt = count_where (market_matches ?flt) (db_markets (n_db s))"
    by (auto simp: MarketRepo_List_def succeeds dest!: query_effect page_query_effect)
  have lim: "page_limit (mf_Limit ?flt) = (if ?per \<le> 0 then 50 else if 100 < ?per then 100 else ?per)"
    by (simp add: page_limit_def markets_filter_def markets_request_def Let_def)
  have "int32 (page_limit (mf_Limit ?flt)) = page_limit (mf_Limit ?flt)"
    unfolding lim by (rule int32_small) auto
  moreover have "length ms \<le> nat (int32 (page_limit (mf_Limit ?flt)))" by (simp add: ms page_def)
  ultimately have "length pms \<le> nat (if ?per \<le> 0 then 50 else if 100 < ?per then 100 else ?per)"
    using collect_length[OF c] lim by simp
  with cnt show ?thesis by (auto split: if_splits)
qed

definition ex_big_page :: http_request where
  "ex_big_page = \<lparr>hq_method = ''GET'', hq_path = [''api'', ''v1'', ''markets''], hq_header = (\<lambda>_. ''''),
     hq_query = (\<lambda>k. if k = ''per_page'' then ''2'' else ''''), hq_body = '''', hq_ip = ''''\<rparr>"

definition ex_big_listing :: "(grpc_error + PbMarket list \<times> nat) \<times> rat node" where
  "ex_big_listing = Server_ListMarkets (\<lambda>_. '''') (markets_request ex_big_page) ex_two_markets"

lemma ex_big_listing_runs: "map_sum id (\<lambda>(pms, cnt). map pm_Id pms) (fst ex_big_listing) = Inr [''new'', ''old'']"
  by code_simp

theorem market_listing_bounded_witness:
  "\<exists>pms. fst ex_big_listing = Inr (pms, 2) \<and> int (length pms) \<le> 2"
proof -
  obtain pms cnt where r: "ex_big_listing = (Inr (pms, cnt), snd ex_big_listing)"
    using ex_big_listing_runs by (cases "fst ex_big_listing") (auto simp: prod_eq_iff)
  have "query_int32 ex_big_page ''per_page'' = 2" by code_simp
  moreover have "count_where (market_matches (markets_filter (markets_request ex_big_page))) (db_markets (n_db ex_two_markets)) = 2"
    by code_simp
  ultimately have "cnt = 2" "int (length pms) \<le> 2"
    using market_listing_bounded[OF r[unfolded ex_big_listing_def]] by auto
  with r show ?thesis by (metis fst_conv)
qed

section \<open>Two requests of administrators\<close>

text \<open>A server of the platform behind a client: its errors arrive as statuses.\<close>

definition over_grpc :: "('s, grpc_error, 'a) comp \<Rightarrow> ('s, 'a) client" where
  "over_grpc m s = (case m s of (Inl e, s') \<Rightarrow> (Inl (StatusError e), s') | (Inr x, s') \<Rightarrow> (Inr x, s'))"

text \<open>
  Registering an agent sends the authentication service a message without a nonce, which it
  refuses: no agent is ever registered, and nothing changes.
\<close>

lemma extractNonce_empty: "extractNonce '''' = Inl (Errorf ''nonce not found in SIWE message'' None)"
  by (simp add: extractNonce_def Split.simps TrimSpace_def HasPrefix_def)

lemma agent_never_registered:
  assumes "cl_VerifySignature cl = (\<lambda>message signature wallet.
      over_grpc (bnd (Server_VerifySignature str drv jenv message signature wallet) (\<lambda>(u, t). ret (Some u, t))))"
  shows "snd (finish (AdminHandler_CreateAgentUser cl env hreq ctx) s) = s \<and>
    hp_status (fst (finish (AdminHandler_CreateAgentUser cl env hreq ctx) s)) \<in> {400, 401, 403}"
  using VerifySignature_without_nonce[OF extractNonce_empty, of str drv jenv "''''"]
  by (simp add: AdminHandler_CreateAgentUser_def assms finish_def andthen_def bnd_def requireAdmin_def check_def bound_def
      require_def fail_def ret_def call_def over_grpc_def handleGRPCError_def error_response_def response_def
      split: option.splits)

text \<open>
  Responses call the types of markets \<open>binary\<close> and \<open>multi\<close>, but a request must use the names of the
  protocol: asked for a \<open>multi\<close> market, the gateway has a binary one made. The market closes at
  the time of the request, whatever closing time the body gives.
\<close>

lemma create_market_as_sent:
  "protoMarketTypeToDomain (pc_MarketType (create_market_request env req ctx)) =
     (if bm_MarketType req = ''MARKET_TYPE_MULTI'' then Multi else Binary) \<and>
   pc_EndTime (create_market_request env req ctx) = Some (ge_now env) \<and>
   marketTypeToString (domainMarketTypeToProto Multi) = ''multi''"
  by (simp add: create_market_request_def MarketType_value_def protoMarketTypeToDomain_def marketTypeToString_def
      domainMarketTypeToProto_def)

end
