(* ===== verification/RateLimit.thy ===== *)
theory RateLimit
  imports Router Redis
begin

text \<open>
  The limit of requests: the counters of \<open>infra/redis/rate_limiter.go\<close> under the requests of the
  gateway, which use one counter for each address, whatever the group of the route.
\<close>

section \<open>Counters\<close>

definition rate_key :: "string \<Rightarrow> string" where
  "rate_key key = ''ratelimit:'' @ key"

lemma rate_key_inject [simp]: "rate_key a = rate_key b \<longleftrightarrow> a = b"
  by (simp add: rate_key_def)

lemma Allow_eq:
  "RateLimiter_Allow key limit window =
     bnd (redis_cmd (redis_INCR (rate_key key))) (\<lambda>count.
     andthen (if count = 1 then redis_cmd (\<lambda>t r. ((), redis_EXPIRE (rate_key key) window t r)) else ret ())
       (ret (count \<le> limit)))"
  unfolding RateLimiter_Allow_def rate_key_def ..

text \<open>One call: what the two commands do when neither fails.\<close>

definition counted :: "string \<Rightarrow> int \<Rightarrow> redis \<Rightarrow> time option \<Rightarrow> redis" where
  "counted key n r dies = r\<lparr>rd_counters := (rd_counters r)(rate_key key \<mapsto> (n, dies))\<rparr>"

definition no_fault :: "world \<Rightarrow> nat \<Rightarrow> bool" where
  "no_fault w n \<longleftrightarrow> (\<forall>i < n. \<not> w_fault w (w_nfault w + i))"

text \<open>The clock of the server reads between \<open>a\<close> and \<open>b\<close> for the next \<open>n\<close> commands.\<close>

definition clock_within :: "world \<Rightarrow> nat \<Rightarrow> time \<Rightarrow> time \<Rightarrow> bool" where
  "clock_within w n a b \<longleftrightarrow> (\<forall>i < n. a \<le> w_clock w (w_nclock w + i) \<and> w_clock w (w_nclock w + i) < b)"

definition advanced :: "world \<Rightarrow> nat \<Rightarrow> world" where
  "advanced w n = w\<lparr>w_nfault := w_nfault w + n, w_nclock := w_nclock w + n\<rparr>"

lemma advanced_sources [simp]:
  "w_fault (advanced w n) = w_fault w" "w_clock (advanced w n) = w_clock w"
  "w_nfault (advanced w n) = w_nfault w + n" "w_nclock (advanced w n) = w_nclock w + n"
  by (simp_all add: advanced_def)

text \<open>
  The counter of a key in the middle of a window: absent or past, or at \<open>n\<close> requests with an end
  that no clock reading reaches.
\<close>

definition count_of :: "redis \<Rightarrow> time \<Rightarrow> time \<Rightarrow> string \<Rightarrow> nat \<Rightarrow> bool" where
  "count_of r a b key n \<longleftrightarrow>
     (if n = 0 then (\<forall>t. a \<le> t \<longrightarrow> live_counter (rate_key key) t r = None)
      else \<exists>dies. rd_counters r (rate_key key) = Some (int n, Some dies) \<and> b \<le> dies)"

lemma Allow_counts:
  assumes "no_fault w 2" and "clock_within w 2 a b" and "b \<le> a + window" and "count_of r a b key n"
  shows "\<exists>dies m. RateLimiter_Allow key limit window (w, r) =
      (Inr (int n < limit), advanced w m, counted key (int (Suc n)) r (Some dies)) \<and> m \<le> 2 \<and> b \<le> dies"
proof -
  let ?k = "rate_key key" and ?t = "w_clock w (w_nclock w)"
  have f: "\<not> w_fault w (w_nfault w)" "\<not> w_fault w (Suc (w_nfault w))"
    using assms(1) by (auto simp: no_fault_def numeral_2_eq_2 less_Suc_eq dest: spec[of _ 0] spec[of _ 1])
  have t: "a \<le> ?t" "?t < b" "a \<le> w_clock w (Suc (w_nclock w))" "w_clock w (Suc (w_nclock w)) < b"
    using assms(2) by (auto simp: clock_within_def numeral_2_eq_2 less_Suc_eq)
  have le: "1 \<le> limit \<longleftrightarrow> 0 < limit" "int n + 1 \<le> limit \<longleftrightarrow> int n < limit" "1 + int n \<le> limit \<longleftrightarrow> int n < limit" by auto
  show ?thesis
  proof (cases "n = 0")
    case True
    then have none: "live_counter ?k ?t r = None" using assms(4) t(1) by (simp add: count_of_def)
    let ?r1 = "r\<lparr>rd_counters := (rd_counters r)(?k \<mapsto> (1, None))\<rparr>"
    have "redis_INCR ?k ?t r = (1, ?r1)" by (simp add: redis_INCR_def none)
    moreover have "redis_EXPIRE ?k window (w_clock w (Suc (w_nclock w))) ?r1 =
        counted key 1 r (Some (w_clock w (Suc (w_nclock w)) + window))"
      by (simp add: redis_EXPIRE_def live_counter_def counted_def)
    ultimately have "RateLimiter_Allow key limit window (w, r) =
        (Inr (int n < limit), advanced w 2, counted key (int (Suc n)) r (Some (w_clock w (Suc (w_nclock w)) + window)))"
      using f True by (simp add: Allow_eq redis_cmd_def next_fault_def time_now_def bnd_def andthen_def ret_def
          Let_def advanced_def numeral_2_eq_2 le)
    moreover have "b \<le> w_clock w (Suc (w_nclock w)) + window" using t(3) assms(3) by simp
    ultimately show ?thesis by blast
  next
    case False
    then obtain dies where d: "rd_counters r ?k = Some (int n, Some dies)" "b \<le> dies"
      using assms(4) by (auto simp: count_of_def)
    then have "redis_INCR ?k ?t r = (int n + 1, counted key (int (Suc n)) r (Some dies))"
      using t(2) by (simp add: redis_INCR_def live_counter_def counted_def add.commute)
    with f False have "RateLimiter_Allow key limit window (w, r) =
        (Inr (int n < limit), advanced w 1, counted key (int (Suc n)) r (Some dies))"
      by (simp add: Allow_eq redis_cmd_def next_fault_def time_now_def bnd_def andthen_def ret_def Let_def
          advanced_def le)
    with d(2) show ?thesis by (metis one_le_numeral)
  qed
qed

section \<open>A run of requests\<close>

text \<open>Requests for the keys and under the limits given, one after the other, with one window.\<close>

fun allow_run :: "time \<Rightarrow> (string \<times> int) list \<Rightarrow> world \<times> redis \<Rightarrow> (err + bool) list \<times> (world \<times> redis)" where
  "allow_run window [] s = ([], s)"
| "allow_run window ((key, limit) # calls) s =
     (let (x, s1) = RateLimiter_Allow key limit window s; (xs, s2) = allow_run window calls s1 in (x # xs, s2))"

text \<open>The answers if every key has seen \<open>n key\<close> requests before.\<close>

fun granted :: "(string \<Rightarrow> nat) \<Rightarrow> (string \<times> int) list \<Rightarrow> bool list" where
  "granted n [] = []"
| "granted n ((key, limit) # calls) = (int (n key) < limit) # granted (n(key := Suc (n key))) calls"

lemma count_of_counted:
  "count_of r a b key' n \<Longrightarrow> key' \<noteq> key \<Longrightarrow> count_of (counted key m r dies) a b key' n"
  by (cases "n = 0") (simp_all add: count_of_def counted_def live_counter_def)

lemma count_of_next: "b \<le> dies \<Longrightarrow> count_of (counted key (int (Suc n)) r (Some dies)) a b key (Suc n)"
  by (simp add: count_of_def counted_def)

lemma no_fault_advanced: "no_fault w (m + n) \<Longrightarrow> k \<le> m \<Longrightarrow> no_fault (advanced w k) n"
  by (simp add: no_fault_def add.assoc)

lemma clock_within_advanced: "clock_within w (m + n) a b \<Longrightarrow> k \<le> m \<Longrightarrow> clock_within (advanced w k) n a b"
  by (simp add: clock_within_def add.assoc)

lemma no_fault_le: "no_fault w n \<Longrightarrow> m \<le> n \<Longrightarrow> no_fault w m"
  by (simp add: no_fault_def)

lemma clock_within_le: "clock_within w n a b \<Longrightarrow> m \<le> n \<Longrightarrow> clock_within w m a b"
  by (simp add: clock_within_def)

lemma allow_run_granted:
  assumes "no_fault w (2 * length calls)" and "clock_within w (2 * length calls) a b" and "b \<le> a + window"
    and "\<And>key. count_of r a b key (n key)"
  shows "fst (allow_run window calls (w, r)) = map Inr (granted n calls)"
  using assms
proof (induction calls arbitrary: w r n)
  case (Cons c calls)
  obtain key limit where c: "c = (key, limit)" by (cases c)
  have "no_fault w 2" "clock_within w 2 a b"
    using Cons.prems(1,2) by (auto intro: no_fault_le clock_within_le)
  from Allow_counts[OF this Cons.prems(3,4), of key limit] obtain dies m where
    A: "RateLimiter_Allow key limit window (w, r) =
        (Inr (int (n key) < limit), advanced w m, counted key (int (Suc (n key))) r (Some dies))" and m: "m \<le> 2" and d: "b \<le> dies"
    by blast
  have "fst (allow_run window calls (advanced w m, counted key (int (Suc (n key))) r (Some dies))) =
      map Inr (granted (n(key := Suc (n key))) calls)"
  proof (rule Cons.IH[OF _ _ Cons.prems(3)])
    show "no_fault (advanced w m) (2 * length calls)" "clock_within (advanced w m) (2 * length calls) a b"
      using no_fault_advanced[of w 2 "2 * length calls" m] clock_within_advanced[of w 2 "2 * length calls" a b m] Cons.prems(1,2) m
      by simp_all
    show "count_of (counted key (int (Suc (n key))) r (Some dies)) a b key' ((n(key := Suc (n key))) key')" for key'
      using count_of_counted[OF Cons.prems(4)[of key']] count_of_next[OF d] by simp
  qed
  then show ?case using A by (simp add: c case_prod_unfold Let_def)
qed simp

lemma granted_nth:
  "i < length calls \<Longrightarrow> granted n calls ! i =
     (int (n (fst (calls ! i)) + count_list (map fst (take i calls)) (fst (calls ! i))) < snd (calls ! i))"
proof (induction n calls arbitrary: i rule: granted.induct)
  case (2 n key limit calls)
  then show ?case by (cases i) (simp_all del: fun_upd_apply, simp add: ac_simps)
qed simp

lemma length_granted [simp]: "length (granted n calls) = length calls"
  by (induction n calls rule: granted.induct) (simp_all del: fun_upd_apply)

lemma count_before_mono:
  assumes "i < j" and "j < length xs" and "xs ! i = k"
  shows "count_list (take i xs) k < count_list (take j xs) k"
proof -
  have "take j xs = take i xs @ drop i (take j xs)" using assms(1) by (metis append_take_drop_id min.absorb1 less_imp_le take_take)
  moreover have "k \<in> set (drop i (take j xs))"
    using assms by (auto simp: in_set_conv_nth intro!: exI[of _ 0])
  ultimately show ?thesis by (metis count_list_append count_list_0_iff less_add_same_cancel1 not_gr_zero)
qed

text \<open>
  C34: within one window each request is allowed exactly when fewer requests for its key came
  before it than its own limit says; so a key whose requests all have at most the limit \<open>m\<close> is
  allowed at most \<open>m\<close> of them.
\<close>

theorem rate_limit_exact:
  assumes "no_fault w (2 * length calls)" and "clock_within w (2 * length calls) a (a + window)"
    and "\<And>key. count_of r a (a + window) key 0"
  shows "length (fst (allow_run window calls (w, r))) = length calls \<and>
    (\<forall>i < length calls. fst (allow_run window calls (w, r)) ! i =
       Inr (int (count_list (map fst (take i calls)) (fst (calls ! i))) < snd (calls ! i))) \<and>
    ((\<forall>c \<in> set calls. fst c = key \<longrightarrow> snd c \<le> int m) \<longrightarrow>
       card {i. i < length calls \<and> fst (calls ! i) = key \<and> fst (allow_run window calls (w, r)) ! i = Inr True} \<le> m)"
proof -
  have run: "fst (allow_run window calls (w, r)) = map Inr (granted (\<lambda>_. 0) calls)"
    by (rule allow_run_granted[OF assms(1,2) order_refl]) (rule assms(3))
  have nth: "fst (allow_run window calls (w, r)) ! i =
      Inr (int (count_list (map fst (take i calls)) (fst (calls ! i))) < snd (calls ! i))" if "i < length calls" for i
    using that granted_nth[OF that, of "\<lambda>_. 0"] by (simp add: run)
  have bound: "card {i. i < length calls \<and> fst (calls ! i) = key \<and> fst (allow_run window calls (w, r)) ! i = Inr True} \<le> m"
    if lim: "\<forall>c \<in> set calls. fst c = key \<longrightarrow> snd c \<le> int m"
  proof -
    let ?S = "{i. i < length calls \<and> fst (calls ! i) = key \<and> fst (allow_run window calls (w, r)) ! i = Inr True}"
    let ?f = "\<lambda>i. count_list (take i (map fst calls)) key"
    have "inj_on ?f ?S"
    proof (rule inj_onI)
      fix i j assume "i \<in> ?S" "j \<in> ?S" "?f i = ?f j"
      then show "i = j"
        using count_before_mono[of i j "map fst calls" key] count_before_mono[of j i "map fst calls" key]
        by (cases i j rule: linorder_cases) auto
    qed
    moreover have "?f ` ?S \<subseteq> {..<m}"
    proof
      fix x assume "x \<in> ?f ` ?S"
      then obtain i where i: "i < length calls" "fst (calls ! i) = key" "x = ?f i" "fst (allow_run window calls (w, r)) ! i = Inr True"
        by blast
      then have "int x < snd (calls ! i)" using nth[of i] by (simp add: take_map)
      moreover have "snd (calls ! i) \<le> int m" using lim i(1,2) by (metis nth_mem)
      ultimately show "x \<in> {..<m}" by simp
    qed
    ultimately show ?thesis using card_inj_on_le[of ?f ?S "{..<m}"] by simp
  qed
  show ?thesis using nth bound by (auto simp: run)
qed

text \<open>
  Three requests from one address: the listing of markets, under a limit of 120, uses up the
  limit of the sign-in, here 2.
\<close>

definition ex_limits :: "(string \<times> int) list" where
  "ex_limits = [(''ip:1'', 120), (''ip:1'', 2), (''ip:1'', 2)]"

definition ex_quiet :: "nat set \<Rightarrow> world" where
  "ex_quiet faults = \<lparr>w_uuid = (\<lambda>_. ''''), w_clock = (\<lambda>_. 0), w_fault = (\<lambda>n. n \<in> faults), w_nuuid = 0, w_nclock = 0, w_nfault = 0\<rparr>"

definition ex_no_counters :: redis where
  "ex_no_counters = \<lparr>rd_values = Map.empty, rd_counters = Map.empty\<rparr>"

theorem rate_limit_exact_witness:
  "fst (allow_run 10 ex_limits (ex_quiet {}, ex_no_counters)) = [Inr True, Inr True, Inr False]"
proof -
  have h: "no_fault (ex_quiet {}) (2 * length ex_limits)" "clock_within (ex_quiet {}) (2 * length ex_limits) 0 (0 + 10)"
    "count_of ex_no_counters 0 (0 + 10) key 0" for key
    by (simp_all add: no_fault_def clock_within_def count_of_def ex_quiet_def ex_no_counters_def live_counter_def)
  have len: "length ex_limits = 3" by (simp add: ex_limits_def)
  let ?x = "fst (allow_run 10 ex_limits (ex_quiet {}, ex_no_counters))"
  from rate_limit_exact[OF h] have l: "length ?x = 3"
    and n: "\<forall>i < 3. ?x ! i = Inr (int (count_list (map fst (take i ex_limits)) (fst (ex_limits ! i))) < snd (ex_limits ! i))"
    unfolding len by blast+
  from n[rule_format, of 0] n[rule_format, of 1] n[rule_format, of 2] l show ?thesis
    by (intro nth_equalityI) (auto simp: ex_limits_def less_Suc_eq numeral_3_eq_3 numeral_2_eq_2)
qed

section \<open>A counter without an end\<close>

definition answered :: "string \<Rightarrow> (string \<times> int) list \<Rightarrow> (err + bool) list \<Rightarrow> nat" where
  "answered key calls xs = length (filter (\<lambda>(c, x). fst c = key \<and> \<not> isl x) (zip calls xs))"

text \<open>What one call does to the counter of a key that has no end, whatever fails.\<close>

lemma Allow_stuck:
  assumes "rd_counters r (rate_key key) = Some (int n, None)" and "0 < n"
    and "RateLimiter_Allow key' limit window (w, r) = (x, (w', r'))"
  shows "rd_counters r' (rate_key key) = Some (int (if key' = key \<and> \<not> isl x then Suc n else n), None) \<and>
    (key' = key \<longrightarrow> x = Inr True \<longrightarrow> int n < limit)"
proof (cases "key' = key")
  case True
  then have "redis_INCR (rate_key key') t r = (int n + 1, r\<lparr>rd_counters := (rd_counters r)(rate_key key \<mapsto> (int n + 1, None))\<rparr>)" for t
    using assms(1) by (simp add: redis_INCR_def live_counter_def)
  with True assms show ?thesis
    by (auto simp: Allow_eq redis_cmd_def next_fault_def time_now_def bnd_def andthen_def ret_def Let_def split: if_splits)
next
  case False
  then have "rd_counters (snd (redis_INCR (rate_key key') t r)) (rate_key key) = rd_counters r (rate_key key)" for t r
    by (simp add: redis_INCR_def case_prod_unfold Let_def)
  moreover have "rd_counters (redis_EXPIRE (rate_key key') window t r) (rate_key key) = rd_counters r (rate_key key)" for t r
    using False by (auto simp: redis_EXPIRE_def split: option.splits)
  ultimately show ?thesis using False assms
    by (auto simp: Allow_eq redis_cmd_def next_fault_def time_now_def bnd_def andthen_def ret_def Let_def case_prod_unfold
        split: if_splits)
qed

lemma stuck_run:
  assumes "rd_counters r (rate_key key) = Some (int n, None)" and "0 < n" and "i < length calls" and "fst (calls ! i) = key"
    and "fst (allow_run window calls (w, r)) ! i = Inr True"
  shows "int (n + answered key (take i calls) (fst (allow_run window calls (w, r)))) < snd (calls ! i)"
  using assms
proof (induction calls arbitrary: i n w r)
  case (Cons c calls)
  obtain key' limit where c: "c = (key', limit)" by (cases c)
  obtain x w' r' where A: "RateLimiter_Allow key' limit window (w, r) = (x, (w', r'))" by (metis prod.exhaust)
  note S = Allow_stuck[OF Cons.prems(1,2) A]
  have run: "fst (allow_run window (c # calls) (w, r)) = x # fst (allow_run window calls (w', r'))"
    by (simp add: c A case_prod_unfold Let_def)
  show ?case
  proof (cases i)
    case 0
    then show ?thesis using Cons.prems(4) Cons.prems(5)[unfolded run] S by (simp add: c answered_def)
  next
    case (Suc j)
    let ?n = "if key' = key \<and> \<not> isl x then Suc n else n"
    have "int (?n + answered key (take j calls) (fst (allow_run window calls (w', r')))) < snd (calls ! j)"
      by (rule Cons.IH) (use S Cons.prems Suc in \<open>auto simp: run\<close>)
    then show ?thesis unfolding Suc run by (auto simp: c answered_def split: if_splits)
  qed
qed simp

text \<open>
  C35: when the first request for a key is counted but the command that limits the life of the
  counter fails, the counter never ends: however much later requests come, each is refused
  whose limit is not above the number of requests counted so far.
\<close>

theorem expire_failure_blocks:
  assumes "live_counter (rate_key key) (w_clock w (w_nclock w)) r = None"
    and "\<not> w_fault w (w_nfault w)" and "w_fault w (Suc (w_nfault w))"
    and "RateLimiter_Allow key limit window (w, r) = (x, (w1, r1))"
    and "i < length calls" and "fst (calls ! i) = key"
    and "snd (calls ! i) \<le> 1 + int (answered key (take i calls) (fst (allow_run window calls (w2, r1))))"
  shows "x = Inl DriverError \<and> fst (allow_run window calls (w2, r1)) ! i \<noteq> Inr True"
proof -
  have "redis_INCR (rate_key key) (w_clock w (w_nclock w)) r = (1, r\<lparr>rd_counters := (rd_counters r)(rate_key key \<mapsto> (1, None))\<rparr>)"
    using assms(1) by (simp add: redis_INCR_def)
  with assms(2-4) have x: "x = Inl DriverError" and "rd_counters r1 (rate_key key) = Some (int 1, None)"
    by (auto simp: Allow_eq redis_cmd_def next_fault_def time_now_def bnd_def andthen_def Let_def)
  from stuck_run[OF this(2) _ assms(5,6), of window w2] assms(7) x show ?thesis by auto
qed

text \<open>A year later, a counter that was left without an end still refuses the second of two requests.\<close>

definition ex_year :: world where
  "ex_year = (ex_quiet {})\<lparr>w_clock := (\<lambda>_. 365 * 24 * minutes 60)\<rparr>"

definition ex_stuck :: "(err + bool) \<times> world \<times> redis" where
  "ex_stuck = RateLimiter_Allow ''ip:1'' 2 (minutes 1) (ex_quiet {1}, ex_no_counters)"

theorem expire_failure_blocks_witness:
  "fst (allow_run (minutes 1) [(''ip:1'', 2), (''ip:1'', 2)] (ex_year, snd (snd ex_stuck))) ! 1 \<noteq> Inr True"
proof -
  have r: "RateLimiter_Allow ''ip:1'' 2 (minutes 1) (ex_quiet {1}, ex_no_counters) =
      (fst ex_stuck, (fst (snd ex_stuck), snd (snd ex_stuck)))"
    by (simp add: ex_stuck_def)
  have h: "live_counter (rate_key ''ip:1'') (w_clock (ex_quiet {1}) (w_nclock (ex_quiet {1}))) ex_no_counters = None"
    "\<not> w_fault (ex_quiet {1}) (w_nfault (ex_quiet {1}))" "w_fault (ex_quiet {1}) (Suc (w_nfault (ex_quiet {1})))"
    by (simp_all add: ex_quiet_def ex_no_counters_def live_counter_def)
  have "answered ''ip:1'' (take 1 [(''ip:1'', 2), (''ip:1'', 2)])
      (fst (allow_run (minutes 1) [(''ip:1'', 2), (''ip:1'', 2)] (ex_year, snd (snd ex_stuck)))) = 1"
    by code_simp
  then show ?thesis
    using expire_failure_blocks[OF h r, of 1 "[(''ip:1'', 2), (''ip:1'', 2)]" ex_year] by simp
qed

section \<open>The requests of the gateway\<close>

text \<open>
  The limit comes before the check of the credentials: the key is the address, never the user, and
  it is the same for every group of routes.
\<close>

lemma limit_key_is_address:
  "cl_Allow cl = Some allow \<Longrightarrow> group_limit r = Some limit \<Longrightarrow>
   limit_group cl hreq r s =
     (case allow (''ip:'' @ hq_ip hreq) limit (minutes 1) s of
        (Inl e, s') \<Rightarrow> (Inr (), s') | (Inr ok, s') \<Rightarrow> if ok then (Inr (), s') else (Inl too_many, s'))"
  by (simp add: limit_group_def RateLimitMiddleware_def rateLimitKey_def no_ctx_def)

section \<open>Windows\<close>

text \<open>Once the counter of a key has ended, its next request is the first of a new window.\<close>

lemma limit_recovers:
  assumes "live_counter (rate_key key) (w_clock w (w_nclock w)) r = None" and "no_fault w 2" and "1 \<le> limit"
  shows "fst (RateLimiter_Allow key limit window (w, r)) = Inr True"
proof -
  have f: "\<not> w_fault w (w_nfault w)" "\<not> w_fault w (Suc (w_nfault w))"
    using assms(2) by (auto simp: no_fault_def numeral_2_eq_2 less_Suc_eq dest: spec[of _ 0] spec[of _ 1])
  have "redis_INCR (rate_key key) (w_clock w (w_nclock w)) r = (1, r\<lparr>rd_counters := (rd_counters r)(rate_key key \<mapsto> (1, None))\<rparr>)"
    using assms(1) by (simp add: redis_INCR_def)
  with f assms(3) show ?thesis
    by (simp add: Allow_eq redis_cmd_def next_fault_def time_now_def bnd_def andthen_def ret_def Let_def)
qed

text \<open>
  The window is fixed to the first request, it does not slide: of two requests allowed in ten
  seconds, three are let through between the ninth and the eleventh second.
\<close>

definition ex_ticks :: world where
  "ex_ticks = (ex_quiet {})\<lparr>w_clock := (\<lambda>n. [0, 0, 9, 10, 10, 11] ! n)\<rparr>"

lemma window_is_fixed:
  "fst (allow_run 10 (replicate 4 (''ip:1'', 2)) (ex_ticks, ex_no_counters)) = [Inr True, Inr True, Inr True, Inr True]"
  by code_simp

end
