(* ===== verification/Memory.thy ===== *)
theory Memory
  imports Accounts
begin

text \<open>
  The repositories in memory, \<open>infra/memory\<close>: maps from identifiers to records. Go runs through a
  map in any order, so the order is an argument, of which a listing needs that it is a
  permutation of the records. There are no transactions.
\<close>

section \<open>The store\<close>

record 'd mem_store =
  ms_users :: "string \<rightharpoonup> 'd User"
  ms_orders :: "string \<rightharpoonup> 'd Order"
  ms_markets :: "string \<rightharpoonup> Market"
  ms_world :: world

type_synonym ('d, 'a) mop = "('d mem_store, err, 'a) comp"

definition plain_error :: "string \<Rightarrow> err" where
  "plain_error msg = Errorf msg None"

text \<open>\<open>matched[start:end]\<close> with the bounds the listings compute; a negative start panics.\<close>

definition mem_page :: "int \<Rightarrow> int \<Rightarrow> 'a list \<Rightarrow> ('s, err, 'a list) comp" where
  "mem_page limit offset matched =
     (let n = int (length matched);
          start = (if offset > n then n else offset);
          stop = (if limit > 0 \<and> start + limit < n then start + limit else n)
      in if start < 0 then fail (Panic ''slice bounds out of range'')
         else ret (take (nat (stop - start)) (drop (nat start) matched)))"

section \<open>Users\<close>

definition MemUser_Create :: "'d User \<Rightarrow> ('d, unit) mop" where
  "MemUser_Create user s =
     (if ms_users s (u_ID user) \<noteq> None then (Inl (plain_error (''user already exists: '' @ u_ID user)), s)
      else (Inr (), s\<lparr>ms_users := (ms_users s)(u_ID user \<mapsto> user)\<rparr>))"

definition MemUser_GetByID :: "string \<Rightarrow> ('d, 'd User) mop" where
  "MemUser_GetByID i s =
     (case ms_users s i of None \<Rightarrow> (Inl (plain_error (''user not found: '' @ i)), s) | Some u \<Rightarrow> (Inr u, s))"

definition MemUser_GetByWallet :: "((string \<rightharpoonup> 'd User) \<Rightarrow> 'd User list) \<Rightarrow> string \<Rightarrow> ('d, 'd User) mop" where
  "MemUser_GetByWallet iter addr s =
     (case find (\<lambda>u. u_WalletAddress u = addr) (iter (ms_users s)) of
        None \<Rightarrow> (Inl (plain_error (''user not found for wallet: '' @ addr)), s)
      | Some u \<Rightarrow> (Inr u, s))"

definition MemUser_UpdateBalance :: "string \<Rightarrow> 'd \<Rightarrow> 'd \<Rightarrow> ('d, unit) mop" where
  "MemUser_UpdateBalance i balance locked s =
     (case ms_users s i of
        None \<Rightarrow> (Inl (plain_error (''user not found: '' @ i)), s)
      | Some u \<Rightarrow> (Inr (), s\<lparr>ms_users := (ms_users s)(i \<mapsto> u\<lparr>u_Balance := balance, u_LockedBalance := locked\<rparr>)\<rparr>))"

definition MemUser_List ::
    "((string \<rightharpoonup> 'd User) \<Rightarrow> 'd User list) \<Rightarrow> UserFilter \<Rightarrow> ('d, 'd User list \<times> nat) mop" where
  "MemUser_List iter flt =
     bnd (gets (\<lambda>s. filter (user_matches flt) (iter (ms_users s)))) (\<lambda>matched.
     bnd (mem_page (uf_Limit flt) (uf_Offset flt) matched) (\<lambda>xs. ret (xs, length matched)))"

section \<open>Orders\<close>

definition MemOrder_Create :: "'d Order \<Rightarrow> ('d, unit) mop" where
  "MemOrder_Create ord s =
     (if ms_orders s (o_ID ord) \<noteq> None then (Inl (plain_error (''order already exists: '' @ o_ID ord)), s)
      else (Inr (), s\<lparr>ms_orders := (ms_orders s)(o_ID ord \<mapsto> ord)\<rparr>))"

definition MemOrder_GetByID :: "string \<Rightarrow> ('d, 'd Order) mop" where
  "MemOrder_GetByID i s =
     (case ms_orders s i of None \<Rightarrow> (Inl (plain_error (''order not found: '' @ i)), s) | Some x \<Rightarrow> (Inr x, s))"

definition MemOrder_UpdateStatus :: "string \<Rightarrow> OrderStatus \<Rightarrow> 'd \<Rightarrow> ('d, unit) mop" where
  "MemOrder_UpdateStatus i status filled s =
     (case ms_orders s i of
        None \<Rightarrow> (Inl (plain_error (''order not found: '' @ i)), s)
      | Some x \<Rightarrow>
          let (t, w) = time_now (ms_world s)
          in (Inr (), s\<lparr>ms_world := w,
               ms_orders := (ms_orders s)(i \<mapsto> x\<lparr>o_Status := status, o_FilledQty := filled, o_UpdatedAt := t\<rparr>)\<rparr>))"

definition MemOrder_ListOpenByMarket :: "((string \<rightharpoonup> 'd Order) \<Rightarrow> 'd Order list) \<Rightarrow> string \<Rightarrow> ('d, 'd Order list) mop" where
  "MemOrder_ListOpenByMarket iter marketID =
     gets (\<lambda>s. filter (\<lambda>x. o_MarketID x = marketID \<and> is_open x) (iter (ms_orders s)))"

definition MemOrder_ListAllOpen :: "((string \<rightharpoonup> 'd Order) \<Rightarrow> 'd Order list) \<Rightarrow> ('d, 'd Order list) mop" where
  "MemOrder_ListAllOpen iter = gets (\<lambda>s. filter is_open (iter (ms_orders s)))"

definition MemOrder_ListByUser ::
    "((string \<rightharpoonup> 'd Order) \<Rightarrow> 'd Order list) \<Rightarrow> string \<Rightarrow> int \<Rightarrow> int \<Rightarrow> ('d, 'd Order list \<times> nat) mop" where
  "MemOrder_ListByUser iter userID limit offset =
     bnd (gets (\<lambda>s. filter (\<lambda>x. o_UserID x = userID) (iter (ms_orders s)))) (\<lambda>matched.
     bnd (mem_page limit offset matched) (\<lambda>xs. ret (xs, length matched)))"

definition MemOrder_CancelAllByMarket :: "((string \<rightharpoonup> 'd Order) \<Rightarrow> 'd Order list) \<Rightarrow> string \<Rightarrow> ('d, nat) mop" where
  "MemOrder_CancelAllByMarket iter marketID s =
     (let (t, w) = time_now (ms_world s);
          hit = (\<lambda>x. o_MarketID x = marketID \<and> is_open x)
      in (Inr (length (filter hit (iter (ms_orders s)))),
          s\<lparr>ms_world := w,
            ms_orders := (\<lambda>i. map_option (\<lambda>x. if hit x then x\<lparr>o_Status := Cancelled, o_UpdatedAt := t\<rparr> else x)
              (ms_orders s i))\<rparr>))"

section \<open>Markets\<close>

definition MemMarket_Create :: "Market \<Rightarrow> ('d, unit) mop" where
  "MemMarket_Create market s =
     (if ms_markets s (m_ID market) \<noteq> None then (Inl (plain_error (''market already exists: '' @ m_ID market)), s)
      else (Inr (), s\<lparr>ms_markets := (ms_markets s)(m_ID market \<mapsto> market)\<rparr>))"

definition MemMarket_GetByID :: "string \<Rightarrow> ('d, Market) mop" where
  "MemMarket_GetByID i s =
     (case ms_markets s i of None \<Rightarrow> (Inl (plain_error (''market not found: '' @ i)), s) | Some m \<Rightarrow> (Inr m, s))"

definition MemMarket_Update :: "Market \<Rightarrow> ('d, unit) mop" where
  "MemMarket_Update market s =
     (if ms_markets s (m_ID market) = None then (Inl (plain_error (''market not found: '' @ m_ID market)), s)
      else (Inr (), s\<lparr>ms_markets := (ms_markets s)(m_ID market \<mapsto> market)\<rparr>))"

definition MemMarket_List :: "((string \<rightharpoonup> Market) \<Rightarrow> Market list) \<Rightarrow> MarketFilter \<Rightarrow> ('d, Market list \<times> nat) mop" where
  "MemMarket_List iter flt =
     bnd (gets (\<lambda>s. filter (market_matches flt) (iter (ms_markets s)))) (\<lambda>matched.
     bnd (mem_page (mf_Limit flt) (mf_Offset flt) matched) (\<lambda>xs. ret (xs, length matched)))"

text \<open>\<open>NoOpTxManager\<close>: what a failing function wrote stays.\<close>

definition MemWithTx :: "('d, 'a) mop \<Rightarrow> ('d, 'a) mop" where
  "MemWithTx fn = fn"

section \<open>A store of accounts\<close>

definition mem_acct :: "'d mem_store \<Rightarrow> string \<Rightarrow> ('d \<times> 'd) option" where
  "mem_acct s i = map_option (\<lambda>u. (u_Balance u, u_LockedBalance u)) (ms_users s i)"

definition mem_money :: "'d::linordered_field mem_store \<Rightarrow> 'd" where
  "mem_money s = (\<Sum>i \<in> dom (ms_users s). case mem_acct s i of None \<Rightarrow> 0 | Some (b, l) \<Rightarrow> b + l)"

interpretation memory: account_store
  "MemUser_GetByID :: string \<Rightarrow> ('d::linordered_field, 'd User) mop" MemUser_UpdateBalance
  "\<lambda>s. finite (dom (ms_users s))" mem_acct mem_money
proof unfold_locales
  fix i u b l
  fix s s' :: "'d mem_store"
  show "MemUser_GetByID i s = (Inr u, s') \<Longrightarrow> mem_acct s i = Some (u_Balance u, u_LockedBalance u) \<and>
    mem_acct s' = mem_acct s \<and> mem_money s' = mem_money s \<and> finite (dom (ms_users s')) = finite (dom (ms_users s))"
    by (auto simp: MemUser_GetByID_def mem_acct_def split: option.splits)
  assume upd: "MemUser_UpdateBalance i b l s = (Inr (), s')" and fin: "finite (dom (ms_users s))"
  then obtain v where v: "ms_users s i = Some v"
    and s': "s' = s\<lparr>ms_users := (ms_users s)(i \<mapsto> v\<lparr>u_Balance := b, u_LockedBalance := l\<rparr>)\<rparr>"
    by (auto simp: MemUser_UpdateBalance_def split: option.splits)
  have acct: "mem_acct s' = (mem_acct s)(i \<mapsto> (b, l))"
    by (auto simp: mem_acct_def s' fun_eq_iff)
  have "dom (ms_users s') = dom (ms_users s)" and i: "i \<in> dom (ms_users s)" using v by (auto simp: s')
  then have "mem_money s' = (b + l) + (\<Sum>j \<in> dom (ms_users s) - {i}. case mem_acct s' j of None \<Rightarrow> 0 | Some (b, l) \<Rightarrow> b + l)"
    unfolding mem_money_def using fin by (subst sum.remove[of _ i]) (auto simp: acct)
  also have "(\<Sum>j \<in> dom (ms_users s) - {i}. case mem_acct s' j of None \<Rightarrow> 0 | Some (b, l) \<Rightarrow> b + l) =
      (\<Sum>j \<in> dom (ms_users s) - {i}. case mem_acct s j of None \<Rightarrow> 0 | Some (b, l) \<Rightarrow> b + l)"
    by (rule sum.cong) (auto simp: acct)
  also have "\<dots> = mem_money s - (u_Balance v + u_LockedBalance v)"
    unfolding mem_money_def using fin i v by (subst (2) sum.remove[of _ i]) (auto simp: mem_acct_def)
  finally show "\<exists>b0 l0. mem_acct s i = Some (b0, l0) \<and> mem_acct s' = (mem_acct s)(i \<mapsto> (b, l)) \<and>
      mem_money s' = mem_money s - (b0 + l0) + (b + l) \<and> finite (dom (ms_users s'))"
    using v acct fin by (auto simp: mem_acct_def s')
qed

section \<open>Simulation of the database\<close>

text \<open>The users of the store are those of the tables.\<close>

definition same_users :: "('d, 'z) node_scheme \<Rightarrow> 'd mem_store \<Rightarrow> bool" where
  "same_users s t \<longleftrightarrow> users_ok (n_db s) \<and> (\<forall>i. ms_users t i = find_user i (n_db s))"

lemma find_user_None: "find_user i db = None \<longleftrightarrow> i \<notin> u_ID ` set (db_users db)"
  by (auto simp: find_user_def find_None_iff)

lemma find_user_append:
  "find_user i (db\<lparr>db_users := db_users db @ [u]\<rparr>) =
   (case find_user i db of None \<Rightarrow> if u_ID u = i then Some u else None | Some v \<Rightarrow> Some v)"
proof -
  have "find P (xs @ [u]) = (case find P xs of None \<Rightarrow> if P u then Some u else None | Some v \<Rightarrow> Some v)" for P and xs :: "'a User list"
    by (induction xs) auto
  then show ?thesis by (simp add: find_user_def)
qed

text \<open>
  The repository in memory follows the database: whatever an operation on users does in the
  tables when it succeeds, the same operation does in memory, with the same result, and the
  users are the same again afterwards.
\<close>

theorem memory_simulates:
  assumes "same_users s t"
  shows "(UserRepo_Create u s = (Inr (), s') \<longrightarrow> (\<exists>t'. MemUser_Create u t = (Inr (), t') \<and> same_users s' t')) \<and>
    (UserRepo_GetByID i s = (Inr v, s') \<longrightarrow> (\<exists>t'. MemUser_GetByID i t = (Inr v, t') \<and> same_users s' t')) \<and>
    (UserRepo_UpdateBalance i b l s = (Inr (), s') \<longrightarrow> (\<exists>t'. MemUser_UpdateBalance i b l t = (Inr (), t') \<and> same_users s' t'))"
proof (intro conjI impI)
  note R = assms[unfolded same_users_def]
  show "\<exists>t'. MemUser_Create u t = (Inr (), t') \<and> same_users s' t'" if "UserRepo_Create u s = (Inr (), s')"
  proof -
    have new: "u_ID u \<notin> u_ID ` set (db_users (n_db s))" and db: "n_db s' = (n_db s)\<lparr>db_users := db_users (n_db s) @ [u]\<rparr>"
      using UserRepo_Create_effect[OF that] by auto
    then have none: "find_user (u_ID u) (n_db s) = None" by (simp add: find_user_None)
    then have "ms_users t (u_ID u) = None" using R by simp
    moreover have "same_users s' (t\<lparr>ms_users := (ms_users t)(u_ID u \<mapsto> u)\<rparr>)"
      using R new none by (auto simp: same_users_def db users_ok_def find_user_append split: option.splits)
    ultimately show ?thesis by (auto simp: MemUser_Create_def)
  qed
  show "\<exists>t'. MemUser_GetByID i t = (Inr v, t') \<and> same_users s' t'" if "UserRepo_GetByID i s = (Inr v, s')"
    using UserRepo_GetByID_effect[OF that] R by (simp add: MemUser_GetByID_def same_users_def)
  show "\<exists>t'. MemUser_UpdateBalance i b l t = (Inr (), t') \<and> same_users s' t'" if "UserRepo_UpdateBalance i b l s = (Inr (), s')"
  proof -
    have i: "i \<in> u_ID ` set (db_users (n_db s))" and db: "n_db s' = set_balance i b l (n_db s)"
      using UserRepo_UpdateBalance_effect[OF that] by auto
    then obtain v where v: "find_user i (n_db s) = Some v" using find_user_None[of i "n_db s"] by blast
    then have "same_users s' (t\<lparr>ms_users := (ms_users t)(i \<mapsto> v\<lparr>u_Balance := b, u_LockedBalance := l\<rparr>)\<rparr>)"
      using R by (auto simp: same_users_def db find_user_set_balance)
    with v R show ?thesis by (auto simp: MemUser_UpdateBalance_def)
  qed
qed

text \<open>Ann is in the table and in memory; her balance is set in both.\<close>

definition ex_mem_user :: "rat User" where
  "ex_mem_user = \<lparr>u_ID = ''ann'', u_WalletAddress = ''0xa'', u_UserType = Human, u_Balance = 1000, u_LockedBalance = 0,
     u_IsAdmin = False, u_CreatedAt = 0\<rparr>"

definition ex_mem_node :: "rat node" where
  "ex_mem_node = \<lparr>n_db = \<lparr>db_users = [ex_mem_user], db_markets = [], db_outcomes = [], db_orders = [], db_trades = [],
     db_positions = [], db_mints = []\<rparr>, n_tx = NoTx, n_world = \<lparr>w_uuid = (\<lambda>_. ''''), w_clock = int, w_fault = (\<lambda>n. False),
     w_nuuid = 0, w_nclock = 0, w_nfault = 0\<rparr>\<rparr>"

definition ex_mem :: "rat mem_store" where
  "ex_mem = \<lparr>ms_users = [''ann'' \<mapsto> ex_mem_user], ms_orders = Map.empty, ms_markets = Map.empty, ms_world = n_world ex_mem_node\<rparr>"

lemma ex_mem_updates: "fst (UserRepo_UpdateBalance ''ann'' 5 7 ex_mem_node) = Inr ()"
  by (simp add: UserRepo_UpdateBalance_def update_rows_def statement_def bnd_def check_def ret_def next_fault_def Let_def
      ex_mem_node_def ex_mem_user_def count_where_def)

theorem memory_simulates_witness:
  "\<exists>t'. MemUser_UpdateBalance ''ann'' 5 7 ex_mem = (Inr (), t') \<and>
     same_users (snd (UserRepo_UpdateBalance ''ann'' 5 7 ex_mem_node)) t'"
proof -
  let ?r = "UserRepo_UpdateBalance ''ann'' 5 7 ex_mem_node"
  have same: "same_users ex_mem_node ex_mem"
    by (simp add: same_users_def users_ok_def ex_mem_node_def ex_mem_def find_user_def ex_mem_user_def)
  have run: "?r = (Inr (), snd ?r)"
    using ex_mem_updates by (metis prod.collapse)
  show ?thesis
    by (rule memory_simulates[OF same, where i = "''ann''" and b = 5 and l = 7 and s' = "snd ?r",
          THEN conjunct2, THEN conjunct2, THEN mp, OF run])
qed

section \<open>Differences\<close>

text \<open>
  A missing user is no \<open>NOT_FOUND\<close>, so the sign-in of a new wallet would fail on this store; and a
  page with a negative offset panics where the database starts at the first row.
\<close>

lemma memory_missing_user:
  "ms_users t i = None \<Longrightarrow> \<exists>e. MemUser_GetByID i t = (Inl e, t) \<and> \<not> IsNotFound e"
  by (simp add: MemUser_GetByID_def plain_error_def IsNotFound_def codeFromError_def error_code_def sentinel_defs)

lemma memory_negative_offset: "offset < 0 \<Longrightarrow> mem_page limit offset xs s = (Inl (Panic ''slice bounds out of range''), s)"
  by (simp add: mem_page_def Let_def fail_def)

lemma memory_page: "0 \<le> offset \<Longrightarrow> 0 < limit \<Longrightarrow>
    mem_page limit offset xs s = (Inr (take (nat limit) (drop (nat offset) xs)), s)"
  by (auto simp: mem_page_def Let_def ret_def nat_add_distrib nat_diff_distrib')

end
