(* ===== verification/Convert.thy ===== *)
theory Convert
  imports Prelude "HOL-Library.Word"
begin

text \<open>
  The conversions of \<open>infra/postgres/convert.go\<close> between the strings of the program and the values
  of the database driver; a value that may be null is an option. A UUID is sixteen bytes.
\<close>

unbundle bit_operations_syntax

section \<open>Definitions\<close>

definition stringFromText :: "string option \<Rightarrow> string" where
  "stringFromText t = (case t of None \<Rightarrow> '''' | Some s \<Rightarrow> s)"

text \<open>A byte that is no hexadecimal digit counts as 0.\<close>

definition unhex :: "char \<Rightarrow> 8 word" where
  "unhex c =
     (let n = of_char c :: 8 word
      in if 48 \<le> n \<and> n \<le> 57 then n - 48
         else if 97 \<le> n \<and> n \<le> 102 then n - 97 + 10
         else if 65 \<le> n \<and> n \<le> 70 then n - 65 + 10 else 0)"

fun uuid_bytes :: "string \<Rightarrow> 8 word list" where
  "uuid_bytes (h # l # cs) = (push_bit 4 (unhex h) OR unhex l) # uuid_bytes cs"
| "uuid_bytes _ = []"

definition parseUUID :: "string \<Rightarrow> 8 word list option" where
  "parseUUID s = (let src = filter (\<lambda>c. c \<noteq> CHR ''-'') s in if length src \<noteq> 32 then None else Some (uuid_bytes src))"

definition hex_char :: "8 word \<Rightarrow> char" where
  "hex_char n = ''0123456789abcdef'' ! unat n"

definition byte_chars :: "8 word \<Rightarrow> string" where
  "byte_chars v = [hex_char (drop_bit 4 v), hex_char (v AND 15)]"

definition formatUUID :: "8 word list \<Rightarrow> string" where
  "formatUUID b = concat (map (\<lambda>(i, v). (if i \<in> {4, 6, 8, 10} then ''-'' else '''') @ byte_chars v) (enumerate 0 b))"

definition uuidFromOptionalString :: "string option \<Rightarrow> 8 word list option" where
  "uuidFromOptionalString s = (case s of None \<Rightarrow> None | Some x \<Rightarrow> parseUUID x)"

definition optionalStringFromUUID :: "8 word list option \<Rightarrow> string option" where
  "optionalStringFromUUID u = (case u of None \<Rightarrow> None | Some b \<Rightarrow> Some (formatUUID b))"

section \<open>Bytes\<close>

lemma low_nibble: "v AND 15 = take_bit 4 (v :: 8 word)"
  by (simp add: take_bit_eq_mask mask_eq_exp_minus_1)

lemma nibbles: "push_bit 4 (drop_bit 4 v) OR (v AND 15) = (v :: 8 word)"
  unfolding low_nibble by (rule bit_eqI) (auto simp: bit_simps)

lemma nibble_less: "unat (drop_bit 4 (v :: 8 word)) < 16" "unat (v AND (15 :: 8 word)) < 16"
proof -
  have "unat v < 2 ^ LENGTH(8)" by (rule unsigned_less)
  then have "unat v < 256" by simp
  moreover have "unat (drop_bit 4 v) = unat v div 16"
    by (simp only: unat_drop_bit_eq) (simp add: drop_bit_eq_div)
  ultimately show "unat (drop_bit 4 v) < 16" by simp
  have "unat (v AND 15) = unat v mod 16" by (simp only: low_nibble unsigned_take_bit_eq) (simp add: take_bit_eq_mod)
  then show "unat (v AND 15) < 16" by simp
qed

lemma all_nibbles: "n < 16 \<Longrightarrow> n \<in> {0, 1, 2, 3, 4, 5, 6, 7, 8, 9, 10, 11, 12, 13, 14, 15 :: nat}"
  by (simp add: less_Suc_eq numeral_eq_Suc)

lemma unhex_digit: "n < 16 \<Longrightarrow> unhex (''0123456789abcdef'' ! n) = of_nat n \<and> ''0123456789abcdef'' ! n \<noteq> CHR ''-''"
  by (drule all_nibbles) (elim insertE emptyE; simp add: unhex_def Let_def)

lemma unhex_hex_char:
  assumes "unat n < 16"
  shows "unhex (hex_char n) = n" and "hex_char n \<noteq> CHR ''-''"
  using unhex_digit[OF assms] by (simp_all add: hex_char_def)

lemma filter_byte_chars: "filter (\<lambda>c. c \<noteq> CHR ''-'') (byte_chars v) = byte_chars v"
  using unhex_hex_char(2)[OF nibble_less(1)] unhex_hex_char(2)[OF nibble_less(2)] by (simp add: byte_chars_def)

lemma uuid_bytes_chars: "uuid_bytes (byte_chars v @ cs) = v # uuid_bytes cs"
  using unhex_hex_char(1)[OF nibble_less(1)] unhex_hex_char(1)[OF nibble_less(2)] nibbles
  by (simp add: byte_chars_def)

lemma filter_formatUUID: "filter (\<lambda>c. c \<noteq> CHR ''-'') (formatUUID b) = concat (map byte_chars b)"
proof -
  have "filter (\<lambda>c. c \<noteq> CHR ''-'') (concat (map (\<lambda>(i, v). (if i \<in> {4, 6, 8, 10} then ''-'' else '''') @ byte_chars v) (enumerate n b)))
      = concat (map byte_chars b)" for n :: nat
    by (induction b arbitrary: n) (simp_all add: filter_byte_chars)
  then show ?thesis by (simp add: formatUUID_def)
qed

lemma uuid_bytes_concat: "uuid_bytes (concat (map byte_chars b)) = b"
  by (induction b) (simp_all add: uuid_bytes_chars)

lemma length_byte_chars [simp]: "length (byte_chars v) = 2"
  by (simp add: byte_chars_def)

lemma length_concat_chars: "length (concat (map byte_chars b)) = 2 * length b"
  by (induction b) simp_all

lemma length_uuid_bytes: "length (uuid_bytes cs) = length cs div 2"
  by (induction cs rule: uuid_bytes.induct) simp_all

text \<open>A hexadecimal digit in lower case.\<close>

definition is_hex :: "char \<Rightarrow> bool" where
  "is_hex c \<longleftrightarrow> c \<in> set ''0123456789abcdefABCDEF''"

definition lower_hex :: "char \<Rightarrow> char" where
  "lower_hex c = hex_char (unhex c)"

lemma lower_hex_digits: "map lower_hex ''0123456789abcdefABCDEF'' = ''0123456789abcdefabcdef''"
  by (simp add: lower_hex_def hex_char_def unhex_def Let_def)

lemma unhex_less: "unat (unhex c) < 16"
proof -
  have "unhex c < 16" unfolding unhex_def Let_def by unat_arith
  then show ?thesis by (simp add: word_less_nat_alt)
qed

lemma low_high: "drop_bit 4 (push_bit 4 v) = take_bit 4 (v :: 8 word)"
  by (rule bit_eqI) (auto simp: bit_simps)

lemma byte_chars_bytes: "byte_chars (push_bit 4 (unhex h) OR unhex l) = [lower_hex h, lower_hex l]"
proof -
  have t: "take_bit 4 (unhex c) = unhex c" for c
  proof -
    have "unat (take_bit 4 (unhex c)) = unat (unhex c) mod 16"
      by (simp add: unsigned_take_bit_eq) (simp add: take_bit_eq_mod)
    then have "unat (take_bit 4 (unhex c)) = unat (unhex c)" using unhex_less[of c] by simp
    then show ?thesis by (simp only: unsigned_word_eqI)
  qed
  then have d: "drop_bit 4 (unhex c) = 0" for c
    using drop_bit_take_bit[of 4 4 "unhex c"] by simp
  have "drop_bit 4 (push_bit 4 (unhex h) OR unhex l) = unhex h"
    using d[of l] low_high[of "unhex h"] t[of h] by simp
  moreover have "(push_bit 4 (unhex h) OR unhex l) AND 15 = unhex l"
    using t[of l] take_bit_push_bit[of 4 4 "unhex h"] by (simp add: low_nibble)
  ultimately show ?thesis by (simp add: byte_chars_def lower_hex_def)
qed

lemma chars_of_bytes: "even (length cs) \<Longrightarrow> concat (map byte_chars (uuid_bytes cs)) = map lower_hex cs"
  by (induction cs rule: uuid_bytes.induct) (simp_all add: byte_chars_bytes)

section \<open>Properties\<close>



text \<open>A text of 32 other letters reads as the UUID of zeros.\<close>

lemma not_hex_reads_as_zero: "parseUUID (replicate 32 CHR ''z'') = Some (replicate 16 0)"
  by code_simp

end
