(* ===== verification/Caches.thy ===== *)
theory Caches
  imports Redis Ranking
begin

text \<open>
  The caches on sorted sets, \<open>infra/redis/ranking_cache.go\<close> and \<open>infra/redis/orderbook_cache.go\<close>. A
  sorted set has at most one score for a member and lists its members by score, and by their
  text where the scores are equal. Floating-point numbers are elements of a linear order; their
  printing and parsing, the conversion from decimals and the JSON of a member are arguments.
\<close>

section \<open>Sorted sets\<close>

type_synonym 'f zset = "(string \<times> 'f) list"

type_synonym 'f zstore = "string \<Rightarrow> 'f zset"

definition zadd :: "string \<Rightarrow> 'f \<Rightarrow> 'f zset \<Rightarrow> 'f zset" where
  "zadd m x z = (m, x) # filter (\<lambda>(k, _). k \<noteq> m) z"

definition zrem :: "string \<Rightarrow> 'f zset \<Rightarrow> 'f zset" where
  "zrem m z = filter (\<lambda>(k, _). k \<noteq> m) z"

text \<open>\<open>ZRANGE\<close> over the whole set: ascending scores, equal scores by member.\<close>

definition text_key :: "string \<Rightarrow> nat list" where
  "text_key s = map of_char s"

fun lex_le :: "nat list \<Rightarrow> nat list \<Rightarrow> bool" where
  "lex_le [] ys = True"
| "lex_le (x # xs) [] = False"
| "lex_le (x # xs) (y # ys) = (x < y \<or> x = y \<and> lex_le xs ys)"

fun zinsert :: "string \<times> 'f::linorder \<Rightarrow> 'f zset \<Rightarrow> 'f zset" where
  "zinsert (m, x) [] = [(m, x)]"
| "zinsert (m, x) ((k, y) # z) =
     (if x < y \<or> x = y \<and> lex_le (text_key m) (text_key k) then (m, x) # (k, y) # z
      else (k, y) # zinsert (m, x) z)"

definition zrange :: "'f::linorder zset \<Rightarrow> 'f zset" where
  "zrange z = foldr zinsert z []"

definition zrevrange :: "'f::linorder zset \<Rightarrow> int \<Rightarrow> 'f zset" where
  "zrevrange z stop = (let xs = rev (zrange z) in if stop < 0 then take (nat (int (length xs) + stop + 1)) xs else take (nat stop + 1) xs)"

text \<open>A command of Redis fails as a whole or runs; a pipeline is sent as one.\<close>

type_synonym ('f, 'a) zop = "(world \<times> 'f zstore, err, 'a) comp"

definition zcmd :: "('f zstore \<Rightarrow> 'a \<times> 'f zstore) \<Rightarrow> ('f, 'a) zop" where
  "zcmd f = (\<lambda>(w, z). let (bad, w1) = next_fault w in
     if bad then (Inl DriverError, (w1, z)) else let (x, z') = f z in (Inr x, (w1, z')))"

section \<open>Order books\<close>

definition orderbookKey :: "string \<Rightarrow> string \<Rightarrow> string \<Rightarrow> string" where
  "orderbookKey marketID outcomeID side = ''orderbook:'' @ marketID @ '':'' @ outcomeID @ '':'' @ side"

definition UpdateLevel ::
    "('f \<Rightarrow> string) \<Rightarrow> string \<Rightarrow> string \<Rightarrow> string \<Rightarrow> 'f \<Rightarrow> 'f \<Rightarrow> ('f::linordered_field, unit) zop" where
  "UpdateLevel fmt marketID outcomeID side price qty =
     (let key = orderbookKey marketID outcomeID side; member = fmt price
      in if qty \<le> 0 then zcmd (\<lambda>z. ((), z(key := zrem member (z key))))
         else zcmd (\<lambda>z. ((), z(key := zadd member qty (z key)))))"

fun parse_levels :: "(string \<Rightarrow> 'f option) \<Rightarrow> 'f zset \<Rightarrow> err + ('f \<times> 'f) list" where
  "parse_levels parse [] = Inr []"
| "parse_levels parse ((m, q) # z) =
     (case parse m of
        None \<Rightarrow> Inl (Errorf ''parse price level'' (Some DriverError))
      | Some p \<Rightarrow> (case parse_levels parse z of Inl e \<Rightarrow> Inl e | Inr ls \<Rightarrow> Inr ((p, q) # ls)))"

definition GetSide ::
    "(string \<Rightarrow> 'f option) \<Rightarrow> string \<Rightarrow> string \<Rightarrow> string \<Rightarrow> ('f::linordered_field, ('f \<times> 'f) list) zop" where
  "GetSide parse marketID outcomeID side =
     bnd (zcmd (\<lambda>z. (zrange (z (orderbookKey marketID outcomeID side)), z))) (\<lambda>results.
     case parse_levels parse results of Inl e \<Rightarrow> fail e | Inr levels \<Rightarrow> ret levels)"

definition RemoveLevel :: "('f \<Rightarrow> string) \<Rightarrow> string \<Rightarrow> string \<Rightarrow> string \<Rightarrow> 'f \<Rightarrow> ('f::linordered_field, unit) zop" where
  "RemoveLevel fmt marketID outcomeID side price =
     zcmd (\<lambda>z. ((), z(orderbookKey marketID outcomeID side := zrem (fmt price) (z (orderbookKey marketID outcomeID side)))))"

section \<open>Rankings\<close>

text \<open>A member is the JSON of a user id and a user type.\<close>

record member_json =
  mj_marshal :: "string \<Rightarrow> string \<Rightarrow> string option"
  mj_unmarshal :: "string \<Rightarrow> (string \<times> string) option"

record cached_ranking =
  cr_UserID :: string
  cr_UserType :: string
  cr_Dimension :: string
  cr_Rank :: int

definition rankingKey :: "string \<Rightarrow> string \<Rightarrow> string" where
  "rankingKey dimension userType = ''ranking:'' @ dimension @ '':'' @ userType"

fun ranking_members ::
    "member_json \<Rightarrow> ('d \<Rightarrow> 'f) \<Rightarrow> 'd UserRanking list \<Rightarrow> 'f zset \<Rightarrow> err + 'f zset" where
  "ranking_members js fl [] z = Inr z"
| "ranking_members js fl (r # rs) z =
     (case mj_marshal js (ur_UserID r) (UserType_String (ur_UserType r)) of
        None \<Rightarrow> Inl (Errorf ''marshal ranking member'' (Some DriverError))
      | Some member \<Rightarrow> ranking_members js fl rs (zadd member (fl (ur_Value r)) z))"

text \<open>The commands of the pipeline are sent only when every member could be written.\<close>

definition SetRankings ::
    "member_json \<Rightarrow> ('d \<Rightarrow> 'f) \<Rightarrow> string \<Rightarrow> string \<Rightarrow> 'd UserRanking list \<Rightarrow> ('f, unit) zop" where
  "SetRankings js fl dimension userType rankings =
     (case ranking_members js fl rankings [] of
        Inl e \<Rightarrow> fail e
      | Inr z' \<Rightarrow> zcmd (\<lambda>z. ((), z(rankingKey dimension userType := z'))))"

fun top_rankings :: "member_json \<Rightarrow> string \<Rightarrow> int \<Rightarrow> 'f zset \<Rightarrow> err + cached_ranking list" where
  "top_rankings js dimension i [] = Inr []"
| "top_rankings js dimension i ((m, _) # z) =
     (case mj_unmarshal js m of
        None \<Rightarrow> Inl (Errorf ''unmarshal ranking member'' (Some DriverError))
      | Some (user, userType) \<Rightarrow>
          (case top_rankings js dimension (i + 1) z of
             Inl e \<Rightarrow> Inl e
           | Inr rs \<Rightarrow> Inr (\<lparr>cr_UserID = user, cr_UserType = userType, cr_Dimension = dimension, cr_Rank = i + 1\<rparr> # rs)))"

definition GetTopN :: "member_json \<Rightarrow> string \<Rightarrow> string \<Rightarrow> int \<Rightarrow> ('f::linorder, cached_ranking list) zop" where
  "GetTopN js dimension userType n =
     bnd (zcmd (\<lambda>z. (zrevrange (z (rankingKey dimension userType)) (n - 1), z))) (\<lambda>results.
     case top_rankings js dimension 0 results of Inl e \<Rightarrow> fail e | Inr rs \<Rightarrow> ret rs)"

fun position_in :: "string \<Rightarrow> 'f zset \<Rightarrow> nat option" where
  "position_in m [] = None"
| "position_in m ((k, _) # z) = (if k = m then Some 0 else map_option Suc (position_in m z))"

definition GetUserRank :: "member_json \<Rightarrow> string \<Rightarrow> string \<Rightarrow> string \<Rightarrow> ('f::linorder, int) zop" where
  "GetUserRank js dimension userType userID =
     (case mj_marshal js userID userType of
        None \<Rightarrow> fail (Errorf ''marshal ranking member'' (Some DriverError))
      | Some member \<Rightarrow>
          bnd (zcmd (\<lambda>z. (position_in member (rev (zrange (z (rankingKey dimension userType)))), z))) (\<lambda>rank.
          case rank of None \<Rightarrow> ret 0 | Some k \<Rightarrow> ret (int k + 1)))"

section \<open>Lemmas\<close>

lemma mset_zinsert: "mset (zinsert p z) = add_mset p (mset z)"
  by (induction p z rule: zinsert.induct) simp_all

lemma mset_zrange: "mset (zrange z) = mset z"
  unfolding zrange_def by (induction z) (simp_all add: mset_zinsert)

lemma zinsert_sorted:
  "sorted_wrt (\<lambda>p q. snd p \<le> snd q) z \<Longrightarrow> sorted_wrt (\<lambda>p q. snd p \<le> snd q) (zinsert p z)"
proof (induction p z rule: zinsert.induct)
  case (2 m x k y z)
  have "set (zinsert (m, x) z) = insert (m, x) (set z)" by (metis mset_zinsert set_mset_mset set_mset_add_mset_insert)
  with 2 show ?case by (auto intro: order_trans less_imp_le)
qed simp

lemma zrange_sorted: "sorted_wrt (\<lambda>p q. snd p \<le> snd q) (zrange z)"
  unfolding zrange_def by (induction z) (simp_all add: zinsert_sorted)

lemma zadd_distinct: "distinct (map fst z) \<Longrightarrow> distinct (map fst (zadd m x z))"
  by (induction z) (auto simp: zadd_def)

text \<open>
  A side of the book comes in the order of the quantities, not of the prices: a level of 5 at
  price 2 comes after one of 1 at price 3.
\<close>

lemma sides_by_quantity:
  "fst (bnd (UpdateLevel fmt mk oc sd 2 5) (\<lambda>_. bnd (UpdateLevel fmt mk oc sd 3 1) (\<lambda>_. GetSide parse mk oc sd)) (w, z)) =
     Inr [(3, 1), (2, 5)]"
  if "z (orderbookKey mk oc sd) = []" "fmt (2 :: rat) \<noteq> fmt 3" "parse (fmt 2) = Some 2" "parse (fmt 3) = Some 3"
    "\<And>n. \<not> w_fault w n"
  using that
  by (simp add: UpdateLevel_def GetSide_def zcmd_def bnd_def ret_def next_fault_def Let_def zadd_def zrange_def)

end
