(* ===== verification/Rounds.thy ===== *)
theory Rounds
  imports MatchSpec
begin

text \<open>How long the matching loop runs, on any book and any memory, in order or not.\<close>

section \<open>Rounds of the loop\<close>

text \<open>
  The rounds that may follow: none when nothing of the taker is left, otherwise at most one for each
  order on the other side of the book.
\<close>

definition rounds_left :: "ref \<Rightarrow> 'd::linordered_field matching \<Rightarrow> nat" where
  "rounds_left t s =
     (let x = cell (ms_mem s) t in if remaining x \<le> 0 then 0 else length (flat (opp (o_Side x) (ms_book s))))"

text \<open>A round either takes an order off the book or leaves nothing of the taker.\<close>

lemma match_step_round:
  assumes "match_step t s = Some s'"
  shows "rounds_left t s' < rounds_left t s"
    and "length (ms_trades s') + length (ms_skipped s') = Suc (length (ms_trades s) + length (ms_skipped s))"
proof -
  have "rounds_left t s' < rounds_left t s \<and>
    length (ms_trades s') + length (ms_skipped s') = Suc (length (ms_trades s) + length (ms_skipped s))"
    using assms
  proof (cases rule: match_step_cases)
    case (1 m rs)
    then show ?thesis by (simp add: rounds_left_def Let_def flat_dequeue_opp)
  next
    case (2 m rs w)
    then show ?thesis
      using fill_maker_static[of t m s t] by (simp add: rounds_left_def Let_def static_of_iff flat_dequeue_opp)
  next
    case (3 m rs w)
    then show ?thesis
      using fill_maker_static[of t m s t] fill_maker_remaining(1)[of t m s]
      by (simp add: rounds_left_def Let_def static_of_iff min_def)
  qed
  then show "rounds_left t s' < rounds_left t s"
    and "length (ms_trades s') + length (ms_skipped s') = Suc (length (ms_trades s) + length (ms_skipped s))" by blast+
qed

section \<open>Property\<close>

lemma match_loop_rounds:
  "\<exists>n \<le> rounds_left t s. ((\<lambda>a b. match_step t a = Some b) ^^ n) s (match_loop t s) \<and>
     match_step t (match_loop t s) = None \<and>
     length (ms_trades (match_loop t s)) + length (ms_skipped (match_loop t s)) = length (ms_trades s) + length (ms_skipped s) + n"
proof (induction t s rule: match_loop.induct)
  case (1 t s)
  show ?case
  proof (cases "match_step t s")
    case None
    then show ?thesis by (intro exI[of _ 0]) (simp add: match_loop_stop)
  next
    case (Some s')
    from "1.IH"[OF Some] obtain n where n: "n \<le> rounds_left t s'" "((\<lambda>a b. match_step t a = Some b) ^^ n) s' (match_loop t s')"
      "match_step t (match_loop t s') = None"
      "length (ms_trades (match_loop t s')) + length (ms_skipped (match_loop t s')) = length (ms_trades s') + length (ms_skipped s') + n"
      by blast
    have "((\<lambda>a b. match_step t a = Some b) ^^ Suc n) s (match_loop t s')" using Some n(2) by (rule relpowp_Suc_I2)
    with n match_step_round[OF Some] show ?thesis
      by (intro exI[of _ "Suc n"]) (simp add: match_loop_step[OF Some])
  qed
qed

text \<open>
  C8: on every book and memory, well formed or not, the loop of \<open>matchOrder\<close> stops after a number of rounds that is at
  most the number of orders on the other side of the book, and none when nothing of the taker is left; it stops
  in a state in which its conditions to go on fail, and every round made one trade or skipped one order.
\<close>

theorem matching_terminates:
  "\<exists>n \<le> if remaining (cell (ms_mem s) t) \<le> 0 then 0 else length (flat (opp (o_Side (cell (ms_mem s) t)) (ms_book s))).
     ((\<lambda>a b. match_step t a = Some b) ^^ n) s (match_loop t s) \<and> match_step t (match_loop t s) = None \<and>
     length (ms_trades (match_loop t s)) + length (ms_skipped (match_loop t s)) = length (ms_trades s) + length (ms_skipped s) + n"
  using match_loop_rounds[of t s] by (simp only: rounds_left_def Let_def)

end
