(* ===== verification/Sqlc.thy ===== *)
theory Sqlc
  imports MarketService Ranking Auth Convert
begin

text \<open>
  The rows of the database as PostgreSQL stores them and the queries of \<open>infra/postgres/sqlcgen\<close>
  (generated from \<open>infra/postgres/queries\<close>) on them: enumerations are texts, instants and texts may be
  null, the winning outcome of a market is a UUID of sixteen bytes. The constraints of \<open>migrations\<close>,
  with the checks of the texts, are the conditions of the statements that write. Columns the program
  neither reads nor writes are left out.
\<close>

section \<open>Values\<close>

text \<open>The helpers of \<open>convert.go\<close>; an instant that is null reads as the zero time.\<close>

definition textFromString :: "string \<Rightarrow> string option" where
  "textFromString s = Some s"

definition textFromOptionalString :: "string option \<Rightarrow> string option" where
  "textFromOptionalString s = (case s of None \<Rightarrow> None | Some x \<Rightarrow> Some x)"

definition tstz :: "time \<Rightarrow> time option" where
  "tstz t = Some t"

definition tstzFromOptional :: "time option \<Rightarrow> time option" where
  "tstzFromOptional t = (case t of None \<Rightarrow> None | Some x \<Rightarrow> Some x)"

definition optionalTimeFromTstz :: "time option \<Rightarrow> time option" where
  "optionalTimeFromTstz t = (case t of None \<Rightarrow> None | Some x \<Rightarrow> Some x)"

definition tstz_Time :: "time option \<Rightarrow> time" where
  "tstz_Time t = (case t of None \<Rightarrow> 0 | Some x \<Rightarrow> x)"

lemma optional_conversions [simp]:
  "textFromOptionalString s = s" "tstzFromOptional t = t" "optionalTimeFromTstz t = t" "tstz_Time (tstz i) = i"
  "stringFromText (textFromString x) = x" "tstz i \<noteq> None" "textFromString x \<noteq> None"
  by (simp_all add: textFromOptionalString_def tstzFromOptional_def optionalTimeFromTstz_def tstz_Time_def tstz_def
      stringFromText_def textFromString_def split: option.splits)

text \<open>The values of the string types of \<open>pkg/domain\<close>, and the value of a text, if it is one.\<close>

definition OrderSide_String :: "OrderSide \<Rightarrow> string" where
  "OrderSide_String v = (case v of Buy \<Rightarrow> ''buy'' | Sell \<Rightarrow> ''sell'')"

definition OrderStatus_String :: "OrderStatus \<Rightarrow> string" where
  "OrderStatus_String v = (case v of Open \<Rightarrow> ''open'' | PartiallyFilled \<Rightarrow> ''partially_filled'' | Filled \<Rightarrow> ''filled''
     | Cancelled \<Rightarrow> ''cancelled'')"

definition MarketType_String :: "MarketType \<Rightarrow> string" where
  "MarketType_String v = (case v of Binary \<Rightarrow> ''binary'' | Multi \<Rightarrow> ''multi'')"

definition value_of :: "('v \<Rightarrow> string) \<Rightarrow> 'v list \<Rightarrow> string \<Rightarrow> 'v option" where
  "value_of str vs t = find (\<lambda>v. str v = t) vs"

definition OrderSide_of :: "string \<Rightarrow> OrderSide option" where
  "OrderSide_of = value_of OrderSide_String [Buy, Sell]"

definition OrderStatus_of :: "string \<Rightarrow> OrderStatus option" where
  "OrderStatus_of = value_of OrderStatus_String [Open, PartiallyFilled, Filled, Cancelled]"

definition MarketType_of :: "string \<Rightarrow> MarketType option" where
  "MarketType_of = value_of MarketType_String [Binary, Multi]"

definition MarketStatus_of :: "string \<Rightarrow> MarketStatus option" where
  "MarketStatus_of = value_of MarketStatus_String [MDraft, MOpen, MClosed, MResolved, MCancelled]"

definition UserType_of :: "string \<Rightarrow> UserType option" where
  "UserType_of = value_of UserType_String [Human, Agent]"

lemmas enum_defs = value_of_def OrderSide_of_def OrderSide_String_def OrderStatus_of_def OrderStatus_String_def
  MarketType_of_def MarketType_String_def MarketStatus_of_def MarketStatus_String_def UserType_of_def UserType_String_def

text \<open>The texts of different values differ, so a text is read as the value that was written.\<close>

lemma value_of_Some:
  assumes "inj str" and "v \<in> set vs"
  shows "value_of str vs t = Some v \<longleftrightarrow> t = str v"
proof
  assume "value_of str vs t = Some v"
  then show "t = str v" by (auto simp: value_of_def find_Some_iff)
next
  assume t: "t = str v"
  then obtain w where "value_of str vs t = Some w" using assms(2) by (cases "value_of str vs t") (auto simp: value_of_def find_None_iff)
  moreover from this t assms(1) have "w = v" by (auto simp: value_of_def find_Some_iff inj_eq)
  ultimately show "value_of str vs t = Some v" by simp
qed

lemma enum_inj:
  "inj OrderSide_String" "inj OrderStatus_String" "inj MarketType_String" "inj MarketStatus_String" "inj UserType_String"
  by (rule injI, simp add: enum_defs split: OrderSide.splits OrderStatus.splits MarketType.splits MarketStatus.splits
      UserType.splits)+

lemma enum_values:
  "OrderSide_of x = Some a \<longleftrightarrow> x = OrderSide_String a" "OrderStatus_of x = Some b \<longleftrightarrow> x = OrderStatus_String b"
  "MarketType_of x = Some c \<longleftrightarrow> x = MarketType_String c" "MarketStatus_of x = Some d \<longleftrightarrow> x = MarketStatus_String d"
  "UserType_of x = Some e \<longleftrightarrow> x = UserType_String e"
proof -
  show "OrderSide_of x = Some a \<longleftrightarrow> x = OrderSide_String a"
    unfolding OrderSide_of_def by (rule value_of_Some[OF enum_inj(1)]) (cases a; simp)
  show "OrderStatus_of x = Some b \<longleftrightarrow> x = OrderStatus_String b"
    unfolding OrderStatus_of_def by (rule value_of_Some[OF enum_inj(2)]) (cases b; simp)
  show "MarketType_of x = Some c \<longleftrightarrow> x = MarketType_String c"
    unfolding MarketType_of_def by (rule value_of_Some[OF enum_inj(3)]) (cases c; simp)
  show "MarketStatus_of x = Some d \<longleftrightarrow> x = MarketStatus_String d"
    unfolding MarketStatus_of_def by (rule value_of_Some[OF enum_inj(4)]) (cases d; simp)
  show "UserType_of x = Some e \<longleftrightarrow> x = UserType_String e"
    unfolding UserType_of_def by (rule value_of_Some[OF enum_inj(5)]) (cases e; simp)
qed

lemma enum_texts [simp]:
  "OrderSide_of (OrderSide_String a) = Some a" "OrderStatus_of (OrderStatus_String b) = Some b"
  "MarketType_of (MarketType_String c) = Some c" "MarketStatus_of (MarketStatus_String d) = Some d"
  "UserType_of (UserType_String e) = Some e"
  by (simp_all add: enum_values)

section \<open>Rows\<close>

record 'd UserRow =
  qu_ID :: string
  qu_WalletAddress :: "string option"
  qu_UserType :: string
  qu_Balance :: 'd
  qu_LockedBalance :: 'd
  qu_IsAdmin :: bool
  qu_CreatedAt :: "time option"

record MarketRow =
  qm_ID :: string
  qm_Title :: string
  qm_Description :: string
  qm_Category :: string
  qm_MarketType :: string
  qm_Status :: string
  qm_CreatedBy :: string
  qm_ResolvedOutcomeID :: "8 word list option"
  qm_CreatedAt :: "time option"
  qm_UpdatedAt :: "time option"
  qm_EndTime :: "time option"

record OutcomeRow =
  qc_ID :: string
  qc_MarketID :: string
  qc_Label :: string
  qc_Index :: int
  qc_IsWinner :: bool

record 'd OrderRow =
  qo_ID :: string
  qo_UserID :: string
  qo_MarketID :: string
  qo_OutcomeID :: string
  qo_Side :: string
  qo_Price :: 'd
  qo_Quantity :: 'd
  qo_FilledQuantity :: 'd
  qo_Status :: string
  qo_CreatedAt :: "time option"
  qo_UpdatedAt :: "time option"

record 'd TradeRow =
  qt_ID :: string
  qt_MarketID :: string
  qt_OutcomeID :: string
  qt_MakerOrderID :: string
  qt_TakerOrderID :: string
  qt_MakerUserID :: string
  qt_TakerUserID :: string
  qt_Price :: 'd
  qt_Quantity :: 'd
  qt_CreatedAt :: "time option"

record 'd PositionRow =
  qp_ID :: string
  qp_UserID :: string
  qp_MarketID :: string
  qp_OutcomeID :: string
  qp_Quantity :: 'd
  qp_AvgPrice :: 'd
  qp_UpdatedAt :: "time option"

record 'd MintRow =
  qn_ID :: string
  qn_UserID :: string
  qn_MarketID :: string
  qn_Quantity :: 'd
  qn_Cost :: 'd
  qn_CreatedAt :: "time option"

record 'd rows =
  rw_users :: "'d UserRow list"
  rw_markets :: "MarketRow list"
  rw_outcomes :: "OutcomeRow list"
  rw_orders :: "'d OrderRow list"
  rw_trades :: "'d TradeRow list"
  rw_positions :: "'d PositionRow list"
  rw_mints :: "'d MintRow list"

record 'd row_node =
  rn_rows :: "'d rows"
  rn_tx :: txstate
  rn_world :: world

type_synonym ('d, 'z, 'a) rowop = "(('d, 'z) row_node_scheme, err, 'a) comp"

section \<open>Statements\<close>

text \<open>As on the tables: any statement may fail, and a failed one aborts its transaction.\<close>

definition row_statement :: "('d rows \<Rightarrow> bool) \<Rightarrow> ('d rows \<Rightarrow> 'a \<times> 'd rows) \<Rightarrow> ('d, 'z, 'a) rowop" where
  "row_statement ok f s =
     (if rn_tx s = AbortedTx then (Inl DriverError, s)
      else let (bad, w) = next_fault (rn_world s)
           in if bad \<or> \<not> ok (rn_rows s)
              then (Inl DriverError, s\<lparr>rn_world := w, rn_tx := if rn_tx s = ActiveTx then AbortedTx else rn_tx s\<rparr>)
              else let (x, rows) = f (rn_rows s) in (Inr x, s\<lparr>rn_world := w, rn_rows := rows\<rparr>))"

definition row_query :: "('d rows \<Rightarrow> 'a) \<Rightarrow> ('d, 'z, 'a) rowop" where
  "row_query f = row_statement (\<lambda>r. True) (\<lambda>r. (f r, r))"

text \<open>\<open>QueryRow\<close> and \<open>Scan\<close>, a page with \<open>LIMIT\<close> and \<open>OFFSET\<close>, \<open>Exec\<close>.\<close>

definition row_one :: "('d rows \<Rightarrow> 'a option) \<Rightarrow> ('d, 'z, 'a) rowop" where
  "row_one f = bnd (row_query f) (\<lambda>x. case x of None \<Rightarrow> fail ErrNoRows | Some r \<Rightarrow> ret r)"

definition row_page :: "int \<Rightarrow> int \<Rightarrow> ('d rows \<Rightarrow> 'a list) \<Rightarrow> ('d, 'z, 'a list) rowop" where
  "row_page limit offset f =
     row_statement (\<lambda>r. 0 \<le> limit \<and> 0 \<le> offset) (\<lambda>r. (take (nat limit) (drop (nat offset) (f r)), r))"

definition row_exec :: "('d rows \<Rightarrow> bool) \<Rightarrow> ('d rows \<Rightarrow> 'd rows) \<Rightarrow> ('d, 'z, unit) rowop" where
  "row_exec ok f = row_statement ok (\<lambda>r. ((), f r))"

definition NOW :: "('d, 'z, time) rowop" where
  "NOW s = (let (t, w) = time_now (rn_world s) in (Inr t, s\<lparr>rn_world := w\<rparr>))"

text \<open>\<open>$1::text IS NULL OR column = $1\<close>, and the keys rows refer to.\<close>

definition null_or :: "'v option \<Rightarrow> 'v \<Rightarrow> bool" where
  "null_or arg x = (case arg of None \<Rightarrow> True | Some v \<Rightarrow> x = v)"

definition user_row :: "string \<Rightarrow> 'd rows \<Rightarrow> bool" where
  "user_row i r = list_ex (\<lambda>u. qu_ID u = i) (rw_users r)"

definition market_row :: "string \<Rightarrow> 'd rows \<Rightarrow> bool" where
  "market_row i r = list_ex (\<lambda>m. qm_ID m = i) (rw_markets r)"

definition outcome_row :: "string \<Rightarrow> 'd rows \<Rightarrow> bool" where
  "outcome_row i r = list_ex (\<lambda>c. qc_ID c = i) (rw_outcomes r)"

definition order_row :: "string \<Rightarrow> 'd rows \<Rightarrow> bool" where
  "order_row i r = list_ex (\<lambda>x. qo_ID x = i) (rw_orders r)"

definition resolved_row :: "8 word list option \<Rightarrow> 'd rows \<Rightarrow> bool" where
  "resolved_row u r = (case u of None \<Rightarrow> True | Some b \<Rightarrow> length b = 16 \<and> outcome_row (formatUUID b) r)"

lemmas row_key_defs = user_row_def market_row_def outcome_row_def order_row_def list_ex_iff

section \<open>Users\<close>

definition sql_CountUsers :: "string option \<Rightarrow> bool option \<Rightarrow> ('d, 'z, nat) rowop" where
  "sql_CountUsers userType isAdmin =
     row_query (\<lambda>r. count_where (\<lambda>u. null_or userType (qu_UserType u) \<and> null_or isAdmin (qu_IsAdmin u)) (rw_users r))"

definition sql_CreateUser :: "'d UserRow \<Rightarrow> ('d, 'z, unit) rowop" where
  "sql_CreateUser arg =
     row_exec (\<lambda>r. \<not> user_row (qu_ID arg) r \<and> qu_UserType arg \<in> {''human'', ''agent''} \<and> qu_CreatedAt arg \<noteq> None \<and>
         (case qu_WalletAddress arg of None \<Rightarrow> True
          | Some a \<Rightarrow> list_all (\<lambda>u. qu_WalletAddress u \<noteq> Some a) (rw_users r) \<and> length a \<le> 42))
       (\<lambda>r. r\<lparr>rw_users := rw_users r @ [arg]\<rparr>)"

definition sql_GetUserByID :: "string \<Rightarrow> ('d, 'z, 'd UserRow) rowop" where
  "sql_GetUserByID i = row_one (\<lambda>r. find (\<lambda>u. qu_ID u = i) (rw_users r))"

definition sql_GetUserByWallet :: "string option \<Rightarrow> ('d, 'z, 'd UserRow) rowop" where
  "sql_GetUserByWallet addr =
     row_one (\<lambda>r. find (\<lambda>u. addr \<noteq> None \<and> qu_WalletAddress u = addr) (rw_users r))"

definition sql_ListUsers :: "int \<Rightarrow> int \<Rightarrow> string option \<Rightarrow> bool option \<Rightarrow> ('d, 'z, 'd UserRow list) rowop" where
  "sql_ListUsers limit offset userType isAdmin =
     row_page limit offset (\<lambda>r. sort_key (\<lambda>u. - tstz_Time (qu_CreatedAt u))
       (filter (\<lambda>u. null_or userType (qu_UserType u) \<and> null_or isAdmin (qu_IsAdmin u)) (rw_users r)))"

definition sql_UpdateUserBalance :: "'d \<Rightarrow> 'd \<Rightarrow> string \<Rightarrow> ('d, 'z, nat) rowop" where
  "sql_UpdateUserBalance balance locked i =
     row_statement (\<lambda>r. True)
       (\<lambda>r. (count_where (\<lambda>u. qu_ID u = i) (rw_users r),
             r\<lparr>rw_users := map (\<lambda>u. if qu_ID u = i then u\<lparr>qu_Balance := balance, qu_LockedBalance := locked\<rparr> else u) (rw_users r)\<rparr>))"

section \<open>Markets and outcomes\<close>

definition market_checks :: "MarketRow \<Rightarrow> 'd rows \<Rightarrow> bool" where
  "market_checks arg r \<longleftrightarrow>
     qm_MarketType arg \<in> {''binary'', ''multi''} \<and>
     qm_Status arg \<in> {''draft'', ''open'', ''closed'', ''resolved'', ''cancelled''} \<and>
     user_row (qm_CreatedBy arg) r \<and> resolved_row (qm_ResolvedOutcomeID arg) r \<and> qm_UpdatedAt arg \<noteq> None \<and>
     length (qm_Title arg) \<le> 500 \<and> length (qm_Category arg) \<le> 100"

definition sql_CountMarkets :: "string option \<Rightarrow> string option \<Rightarrow> ('d, 'z, nat) rowop" where
  "sql_CountMarkets status category =
     row_query (\<lambda>r. count_where (\<lambda>m. null_or status (qm_Status m) \<and> null_or category (qm_Category m)) (rw_markets r))"

definition sql_CreateMarket :: "MarketRow \<Rightarrow> ('d, 'z, unit) rowop" where
  "sql_CreateMarket arg =
     row_exec (\<lambda>r. \<not> market_row (qm_ID arg) r \<and> qm_CreatedAt arg \<noteq> None \<and> market_checks arg r)
       (\<lambda>r. r\<lparr>rw_markets := rw_markets r @ [arg]\<rparr>)"

definition sql_GetMarketByID :: "string \<Rightarrow> ('d, 'z, MarketRow) rowop" where
  "sql_GetMarketByID i = row_one (\<lambda>r. find (\<lambda>m. qm_ID m = i) (rw_markets r))"

definition sql_ListMarkets :: "int \<Rightarrow> int \<Rightarrow> string option \<Rightarrow> string option \<Rightarrow> ('d, 'z, MarketRow list) rowop" where
  "sql_ListMarkets limit offset status category =
     row_page limit offset (\<lambda>r. sort_key (\<lambda>m. - tstz_Time (qm_CreatedAt m))
       (filter (\<lambda>m. null_or status (qm_Status m) \<and> null_or category (qm_Category m)) (rw_markets r)))"

text \<open>The parameters are those of a row but for the time of creation, which the statement leaves alone.\<close>

definition sql_UpdateMarket :: "MarketRow \<Rightarrow> ('d, 'z, nat) rowop" where
  "sql_UpdateMarket arg =
     row_statement (\<lambda>r. market_row (qm_ID arg) r \<longrightarrow> market_checks arg r)
       (\<lambda>r. (count_where (\<lambda>m. qm_ID m = qm_ID arg) (rw_markets r),
             r\<lparr>rw_markets := map (\<lambda>m. if qm_ID m = qm_ID arg then arg\<lparr>qm_CreatedAt := qm_CreatedAt m\<rparr> else m) (rw_markets r)\<rparr>))"

definition sql_CreateOutcomeBatch :: "OutcomeRow list \<Rightarrow> ('d, 'z, unit) rowop" where
  "sql_CreateOutcomeBatch args =
     row_exec (\<lambda>r. distinct (map qc_ID (rw_outcomes r @ args)) \<and>
                   distinct (map (\<lambda>c. (qc_MarketID c, qc_Index c)) (rw_outcomes r @ args)) \<and>
                   list_all (\<lambda>c. market_row (qc_MarketID c) r \<and> length (qc_Label c) \<le> 200) args)
       (\<lambda>r. r\<lparr>rw_outcomes := rw_outcomes r @ args\<rparr>)"

definition sql_ListOutcomesByMarket :: "string \<Rightarrow> ('d, 'z, OutcomeRow list) rowop" where
  "sql_ListOutcomesByMarket i =
     row_query (\<lambda>r. sort_key qc_Index (filter (\<lambda>c. qc_MarketID c = i) (rw_outcomes r)))"

definition sql_SetOutcomeWinner :: "string \<Rightarrow> ('d, 'z, nat) rowop" where
  "sql_SetOutcomeWinner i =
     row_statement (\<lambda>r. True)
       (\<lambda>r. (count_where (\<lambda>c. qc_ID c = i) (rw_outcomes r),
             r\<lparr>rw_outcomes := map (\<lambda>c. if qc_ID c = i then c\<lparr>qc_IsWinner := True\<rparr> else c) (rw_outcomes r)\<rparr>))"

section \<open>Orders\<close>

definition open_row :: "'d OrderRow \<Rightarrow> bool" where
  "open_row x \<longleftrightarrow> qo_Status x \<in> {''open'', ''partially_filled''}"

definition order_statuses :: "string set" where
  "order_statuses = {''open'', ''partially_filled'', ''filled'', ''cancelled''}"

definition sql_CancelAllOrdersByMarket :: "string \<Rightarrow> ('d, 'z, nat) rowop" where
  "sql_CancelAllOrdersByMarket i =
     bnd NOW (\<lambda>t. row_statement (\<lambda>r. True)
       (\<lambda>r. (count_where (\<lambda>x. qo_MarketID x = i \<and> open_row x) (rw_orders r),
             r\<lparr>rw_orders := map (\<lambda>x. if qo_MarketID x = i \<and> open_row x
                 then x\<lparr>qo_Status := ''cancelled'', qo_UpdatedAt := Some t\<rparr> else x) (rw_orders r)\<rparr>)))"

definition sql_CountOrdersByUser :: "string \<Rightarrow> ('d, 'z, nat) rowop" where
  "sql_CountOrdersByUser i = row_query (\<lambda>r. count_where (\<lambda>x. qo_UserID x = i) (rw_orders r))"

definition sql_CreateOrder :: "'d::linordered_field OrderRow \<Rightarrow> ('d, 'z, unit) rowop" where
  "sql_CreateOrder arg =
     row_exec (\<lambda>r. \<not> order_row (qo_ID arg) r \<and> user_row (qo_UserID arg) r \<and> market_row (qo_MarketID arg) r \<and>
         outcome_row (qo_OutcomeID arg) r \<and> qo_Side arg \<in> {''buy'', ''sell''} \<and> 0 < qo_Price arg \<and> qo_Price arg < 1 \<and>
         0 < qo_Quantity arg \<and> qo_Status arg \<in> order_statuses \<and> qo_CreatedAt arg \<noteq> None \<and> qo_UpdatedAt arg \<noteq> None)
       (\<lambda>r. r\<lparr>rw_orders := rw_orders r @ [arg]\<rparr>)"

definition sql_GetOrderByID :: "string \<Rightarrow> ('d, 'z, 'd OrderRow) rowop" where
  "sql_GetOrderByID i = row_one (\<lambda>r. find (\<lambda>x. qo_ID x = i) (rw_orders r))"

definition sql_ListAllOpenOrders :: "(string \<Rightarrow> nat) \<Rightarrow> ('d, 'z, 'd OrderRow list) rowop" where
  "sql_ListAllOpenOrders uuid_rank =
     row_query (\<lambda>r. sort_key (\<lambda>x. uuid_rank (qo_MarketID x)) (sort_key (\<lambda>x. uuid_rank (qo_OutcomeID x))
       (sort_key (\<lambda>x. tstz_Time (qo_CreatedAt x)) (filter open_row (rw_orders r)))))"

definition sql_ListOpenOrdersByMarket :: "string \<Rightarrow> ('d::linordered_field, 'z, 'd OrderRow list) rowop" where
  "sql_ListOpenOrdersByMarket i =
     row_query (\<lambda>r. sort_key (\<lambda>x. - qo_Price x)
       (sort_key (\<lambda>x. tstz_Time (qo_CreatedAt x)) (filter (\<lambda>x. qo_MarketID x = i \<and> open_row x) (rw_orders r))))"

definition sql_ListOrdersByUser :: "string \<Rightarrow> int \<Rightarrow> int \<Rightarrow> ('d, 'z, 'd OrderRow list) rowop" where
  "sql_ListOrdersByUser i limit offset =
     row_page limit offset (\<lambda>r. sort_key (\<lambda>x. - tstz_Time (qo_CreatedAt x)) (filter (\<lambda>x. qo_UserID x = i) (rw_orders r)))"

definition sql_UpdateOrderStatus :: "string \<Rightarrow> 'd \<Rightarrow> string \<Rightarrow> ('d, 'z, nat) rowop" where
  "sql_UpdateOrderStatus status filled i =
     bnd NOW (\<lambda>t. row_statement (\<lambda>r. order_row i r \<longrightarrow> status \<in> order_statuses)
       (\<lambda>r. (count_where (\<lambda>x. qo_ID x = i) (rw_orders r),
             r\<lparr>rw_orders := map (\<lambda>x. if qo_ID x = i
                 then x\<lparr>qo_Status := status, qo_FilledQuantity := filled, qo_UpdatedAt := Some t\<rparr> else x) (rw_orders r)\<rparr>)))"

section \<open>Trades, mints and positions\<close>

definition sql_CountTradesByMarket :: "string \<Rightarrow> ('d, 'z, nat) rowop" where
  "sql_CountTradesByMarket i = row_query (\<lambda>r. count_where (\<lambda>x. qt_MarketID x = i) (rw_trades r))"

definition sql_CountTradesByUser :: "string \<Rightarrow> ('d, 'z, nat) rowop" where
  "sql_CountTradesByUser i =
     row_query (\<lambda>r. count_where (\<lambda>x. qt_MakerUserID x = i \<or> qt_TakerUserID x = i) (rw_trades r))"

definition sql_CreateTrade :: "'d TradeRow \<Rightarrow> ('d, 'z, unit) rowop" where
  "sql_CreateTrade arg =
     row_exec (\<lambda>r. list_all (\<lambda>x. qt_ID x \<noteq> qt_ID arg) (rw_trades r) \<and> order_row (qt_MakerOrderID arg) r \<and>
         order_row (qt_TakerOrderID arg) r \<and> user_row (qt_MakerUserID arg) r \<and> user_row (qt_TakerUserID arg) r \<and>
         market_row (qt_MarketID arg) r \<and> outcome_row (qt_OutcomeID arg) r \<and> qt_CreatedAt arg \<noteq> None)
       (\<lambda>r. r\<lparr>rw_trades := rw_trades r @ [arg]\<rparr>)"

definition sql_ListTradesByMarket :: "string \<Rightarrow> int \<Rightarrow> int \<Rightarrow> ('d, 'z, 'd TradeRow list) rowop" where
  "sql_ListTradesByMarket i limit offset =
     row_page limit offset (\<lambda>r. sort_key (\<lambda>x. - tstz_Time (qt_CreatedAt x)) (filter (\<lambda>x. qt_MarketID x = i) (rw_trades r)))"

definition sql_ListTradesByUser :: "string \<Rightarrow> int \<Rightarrow> int \<Rightarrow> ('d, 'z, 'd TradeRow list) rowop" where
  "sql_ListTradesByUser i limit offset =
     row_page limit offset (\<lambda>r. sort_key (\<lambda>x. - tstz_Time (qt_CreatedAt x))
       (filter (\<lambda>x. qt_MakerUserID x = i \<or> qt_TakerUserID x = i) (rw_trades r)))"

definition sql_CreateMintTransaction :: "'d MintRow \<Rightarrow> ('d, 'z, unit) rowop" where
  "sql_CreateMintTransaction arg =
     row_exec (\<lambda>r. list_all (\<lambda>x. qn_ID x \<noteq> qn_ID arg) (rw_mints r) \<and> user_row (qn_UserID arg) r \<and>
         market_row (qn_MarketID arg) r \<and> qn_CreatedAt arg \<noteq> None)
       (\<lambda>r. r\<lparr>rw_mints := rw_mints r @ [arg]\<rparr>)"

definition sql_GetPositionByUserAndOutcome :: "string \<Rightarrow> string \<Rightarrow> ('d, 'z, 'd PositionRow) rowop" where
  "sql_GetPositionByUserAndOutcome userID outcomeID =
     row_one (\<lambda>r. find (\<lambda>p. qp_UserID p = userID \<and> qp_OutcomeID p = outcomeID) (rw_positions r))"

definition sql_ListPositionsByMarket :: "string \<Rightarrow> ('d, 'z, 'd PositionRow list) rowop" where
  "sql_ListPositionsByMarket i =
     row_query (\<lambda>r. sort_key (\<lambda>p. - tstz_Time (qp_UpdatedAt p)) (filter (\<lambda>p. qp_MarketID p = i) (rw_positions r)))"

definition sql_ListPositionsByUser :: "string \<Rightarrow> ('d, 'z, 'd PositionRow list) rowop" where
  "sql_ListPositionsByUser i =
     row_query (\<lambda>r. sort_key (\<lambda>p. - tstz_Time (qp_UpdatedAt p)) (filter (\<lambda>p. qp_UserID p = i) (rw_positions r)))"

text \<open>The arbiter of \<open>ON CONFLICT\<close> is the key of user, market and outcome.\<close>

definition conflicts :: "'d PositionRow \<Rightarrow> 'd PositionRow \<Rightarrow> bool" where
  "conflicts p q \<longleftrightarrow> qp_UserID p = qp_UserID q \<and> qp_MarketID p = qp_MarketID q \<and> qp_OutcomeID p = qp_OutcomeID q"

definition sql_UpsertPosition :: "'d PositionRow \<Rightarrow> ('d, 'z, unit) rowop" where
  "sql_UpsertPosition arg =
     row_exec (\<lambda>r. user_row (qp_UserID arg) r \<and> market_row (qp_MarketID arg) r \<and> outcome_row (qp_OutcomeID arg) r \<and>
         (list_ex (\<lambda>p. conflicts p arg) (rw_positions r) \<or> list_all (\<lambda>p. qp_ID p \<noteq> qp_ID arg) (rw_positions r)) \<and>
         qp_UpdatedAt arg \<noteq> None)
       (\<lambda>r. if list_ex (\<lambda>p. conflicts p arg) (rw_positions r)
            then r\<lparr>rw_positions := map (\<lambda>p. if conflicts p arg
                then p\<lparr>qp_Quantity := qp_Quantity arg, qp_AvgPrice := qp_AvgPrice arg, qp_UpdatedAt := qp_UpdatedAt arg\<rparr>
                else p) (rw_positions r)\<rparr>
            else r\<lparr>rw_positions := rw_positions r @ [arg]\<rparr>)"

section \<open>What the checks of the tables guarantee\<close>

text \<open>
  Every text of an enumeration names one of its values, no mandatory instant is null, a UUID has sixteen
  bytes.
\<close>

definition rows_typed :: "'d rows \<Rightarrow> bool" where
  "rows_typed r \<longleftrightarrow>
     (\<forall>u \<in> set (rw_users r). UserType_of (qu_UserType u) \<noteq> None \<and> qu_CreatedAt u \<noteq> None) \<and>
     (\<forall>m \<in> set (rw_markets r). MarketType_of (qm_MarketType m) \<noteq> None \<and> MarketStatus_of (qm_Status m) \<noteq> None \<and>
        qm_CreatedAt m \<noteq> None \<and> qm_UpdatedAt m \<noteq> None \<and> pred_option (\<lambda>b. length b = 16) (qm_ResolvedOutcomeID m)) \<and>
     (\<forall>x \<in> set (rw_orders r). OrderSide_of (qo_Side x) \<noteq> None \<and> OrderStatus_of (qo_Status x) \<noteq> None \<and>
        qo_CreatedAt x \<noteq> None \<and> qo_UpdatedAt x \<noteq> None) \<and>
     (\<forall>x \<in> set (rw_trades r). qt_CreatedAt x \<noteq> None) \<and> (\<forall>p \<in> set (rw_positions r). qp_UpdatedAt p \<noteq> None) \<and>
     (\<forall>x \<in> set (rw_mints r). qn_CreatedAt x \<noteq> None)"

lemma enum_checks:
  "OrderSide_of a \<noteq> None \<longleftrightarrow> a \<in> {''buy'', ''sell''}" "OrderStatus_of b \<noteq> None \<longleftrightarrow> b \<in> order_statuses"
  "MarketType_of c \<noteq> None \<longleftrightarrow> c \<in> {''binary'', ''multi''}"
  "MarketStatus_of d \<noteq> None \<longleftrightarrow> d \<in> {''draft'', ''open'', ''closed'', ''resolved'', ''cancelled''}"
  "UserType_of e \<noteq> None \<longleftrightarrow> e \<in> {''human'', ''agent''}"
  by (auto simp: enum_defs order_statuses_def)

definition row_safe :: "('d, 'z, 'a) rowop \<Rightarrow> bool" where
  "row_safe m \<longleftrightarrow> maintains (\<lambda>s. rows_typed (rn_rows s)) m"

lemma row_safe_statement:
  assumes "\<And>r. rows_typed r \<Longrightarrow> ok r \<Longrightarrow> rows_typed (snd (f r))"
  shows "row_safe (row_statement ok f)"
  unfolding row_safe_def
  by (rule maintainsI) (use assms in \<open>auto simp: row_statement_def Let_def case_prod_unfold\<close>)

lemma row_safe_reads: "row_safe (row_query f)" "row_safe (row_page limit offset g)" "row_safe NOW"
proof -
  show "row_safe (row_query f)" "row_safe (row_page limit offset g)"
    unfolding row_query_def row_page_def by (rule row_safe_statement; simp)+
  show "row_safe NOW" unfolding row_safe_def by (rule maintainsI) (simp add: NOW_def case_prod_unfold Let_def)
qed

lemma row_safe_one: "row_safe (row_one f)"
  unfolding row_safe_def row_one_def
  by (intro keeping maintains_bnd) (use row_safe_reads(1) in \<open>auto simp: row_safe_def maintains_ret maintains_fail split: option.splits\<close>)

lemma row_safe_NOW: "(\<And>t. row_safe (m t)) \<Longrightarrow> row_safe (bnd NOW m)"
  unfolding row_safe_def by (intro maintains_bnd row_safe_reads(3)[unfolded row_safe_def])

section \<open>Property\<close>

lemma row_safe_exec: "(\<And>r. rows_typed r \<Longrightarrow> ok r \<Longrightarrow> rows_typed (f r)) \<Longrightarrow> row_safe (row_exec ok f)"
  unfolding row_exec_def by (rule row_safe_statement) simp

lemma resolved_row_length: "resolved_row u r \<Longrightarrow> pred_option (\<lambda>b. length b = 16) u"
  by (cases u) (auto simp: resolved_row_def)

lemma row_safe_creates:
  "row_safe (sql_CreateUser ua)" "row_safe (sql_CreateMarket ma)" "row_safe (sql_CreateOutcomeBatch cs)"
  "row_safe (sql_CreateOrder xa)" "row_safe (sql_CreateTrade ta)" "row_safe (sql_CreateMintTransaction na)"
  unfolding sql_CreateUser_def sql_CreateMarket_def sql_CreateOutcomeBatch_def sql_CreateOrder_def sql_CreateTrade_def
    sql_CreateMintTransaction_def market_checks_def
  by (rule row_safe_exec; auto simp: rows_typed_def enum_checks simp del: not_None_eq dest!: resolved_row_length)+

lemma row_safe_updates:
  "row_safe (sql_UpdateUserBalance b l i)" "row_safe (sql_SetOutcomeWinner i)" "row_safe (sql_CancelAllOrdersByMarket i)"
  "row_safe (sql_UpdateOrderStatus st fl i)" "row_safe (sql_UpdateMarket ma)" "row_safe (sql_UpsertPosition pa)"
proof -
  show "row_safe (sql_UpdateUserBalance b l i)" "row_safe (sql_SetOutcomeWinner i)"
    unfolding sql_UpdateUserBalance_def sql_SetOutcomeWinner_def
    by (rule row_safe_statement; auto simp: rows_typed_def)+
  show "row_safe (sql_CancelAllOrdersByMarket i)" "row_safe (sql_UpdateOrderStatus st fl i)"
    unfolding sql_CancelAllOrdersByMarket_def sql_UpdateOrderStatus_def
    by (rule row_safe_NOW, rule row_safe_statement, auto simp: rows_typed_def enum_checks order_statuses_def row_key_defs simp del: not_None_eq)+
  show "row_safe (sql_UpdateMarket ma)"
    unfolding sql_UpdateMarket_def
    by (rule row_safe_statement) (auto simp: rows_typed_def enum_checks market_checks_def row_key_defs simp del: not_None_eq dest!: resolved_row_length)
  show "row_safe (sql_UpsertPosition pa)"
    unfolding sql_UpsertPosition_def by (rule row_safe_exec) (auto simp: rows_typed_def)
qed


end
