(* ===== verification/SqlRepos.thy ===== *)
theory SqlRepos
  imports Sqlc
begin

text \<open>
  The repositories of \<open>infra/postgres\<close> over the generated queries, with the conversions of both
  directions, and the proof that each of them does on the stored rows what the operation of the same name
  in \<open>Repos\<close> does on the tables of domain values: same result, same error, same changes.
\<close>

section \<open>Rows and domain values\<close>

definition userFromRow :: "'d UserRow \<Rightarrow> 'd User" where
  "userFromRow r =
     \<lparr>u_ID = qu_ID r, u_WalletAddress = stringFromText (qu_WalletAddress r), u_UserType = the (UserType_of (qu_UserType r)),
      u_Balance = qu_Balance r, u_LockedBalance = qu_LockedBalance r, u_IsAdmin = qu_IsAdmin r,
      u_CreatedAt = tstz_Time (qu_CreatedAt r)\<rparr>"

definition CreateUserParams :: "'d User \<Rightarrow> 'd UserRow" where
  "CreateUserParams u =
     \<lparr>qu_ID = u_ID u, qu_WalletAddress = textFromString (u_WalletAddress u), qu_UserType = UserType_String (u_UserType u),
      qu_Balance = u_Balance u, qu_LockedBalance = u_LockedBalance u, qu_IsAdmin = u_IsAdmin u,
      qu_CreatedAt = tstz (u_CreatedAt u)\<rparr>"

definition marketFromGetRow :: "MarketRow \<Rightarrow> Market" where
  "marketFromGetRow r =
     \<lparr>m_ID = qm_ID r, m_Title = qm_Title r, m_Description = qm_Description r, m_Category = qm_Category r,
      m_MarketType = the (MarketType_of (qm_MarketType r)), m_Status = the (MarketStatus_of (qm_Status r)),
      m_CreatorID = qm_CreatedBy r, m_ResolvedOutcomeID = optionalStringFromUUID (qm_ResolvedOutcomeID r),
      m_CreatedAt = tstz_Time (qm_CreatedAt r), m_UpdatedAt = tstz_Time (qm_UpdatedAt r),
      m_ClosesAt = optionalTimeFromTstz (qm_EndTime r)\<rparr>"

definition CreateMarketParams :: "Market \<Rightarrow> MarketRow" where
  "CreateMarketParams m =
     \<lparr>qm_ID = m_ID m, qm_Title = m_Title m, qm_Description = m_Description m, qm_Category = m_Category m,
      qm_MarketType = MarketType_String (m_MarketType m), qm_Status = MarketStatus_String (m_Status m),
      qm_CreatedBy = m_CreatorID m, qm_ResolvedOutcomeID = uuidFromOptionalString (m_ResolvedOutcomeID m),
      qm_CreatedAt = tstz (m_CreatedAt m), qm_UpdatedAt = tstz (m_UpdatedAt m), qm_EndTime = tstzFromOptional (m_ClosesAt m)\<rparr>"

definition outcomeFromRow :: "OutcomeRow \<Rightarrow> Outcome" where
  "outcomeFromRow r =
     \<lparr>oc_ID = qc_ID r, oc_MarketID = qc_MarketID r, oc_Label = qc_Label r, oc_Index = qc_Index r, oc_IsWinner = qc_IsWinner r\<rparr>"

definition CreateOutcomeBatchParams :: "Outcome \<Rightarrow> OutcomeRow" where
  "CreateOutcomeBatchParams x =
     \<lparr>qc_ID = oc_ID x, qc_MarketID = oc_MarketID x, qc_Label = oc_Label x, qc_Index = int32 (oc_Index x), qc_IsWinner = oc_IsWinner x\<rparr>"

definition orderFromModel :: "'d OrderRow \<Rightarrow> 'd Order" where
  "orderFromModel r =
     \<lparr>o_ID = qo_ID r, o_UserID = qo_UserID r, o_MarketID = qo_MarketID r, o_OutcomeID = qo_OutcomeID r,
      o_Side = the (OrderSide_of (qo_Side r)), o_Price = qo_Price r, o_Quantity = qo_Quantity r,
      o_FilledQty = qo_FilledQuantity r, o_Status = the (OrderStatus_of (qo_Status r)),
      o_CreatedAt = tstz_Time (qo_CreatedAt r), o_UpdatedAt = tstz_Time (qo_UpdatedAt r)\<rparr>"

definition CreateOrderParams :: "'d Order \<Rightarrow> 'd OrderRow" where
  "CreateOrderParams x =
     \<lparr>qo_ID = o_ID x, qo_UserID = o_UserID x, qo_MarketID = o_MarketID x, qo_OutcomeID = o_OutcomeID x,
      qo_Side = OrderSide_String (o_Side x), qo_Price = o_Price x, qo_Quantity = o_Quantity x,
      qo_FilledQuantity = o_FilledQty x, qo_Status = OrderStatus_String (o_Status x),
      qo_CreatedAt = tstz (o_CreatedAt x), qo_UpdatedAt = tstz (o_UpdatedAt x)\<rparr>"

definition tradeFromRow :: "'d TradeRow \<Rightarrow> 'd Trade" where
  "tradeFromRow r =
     \<lparr>t_ID = qt_ID r, t_MarketID = qt_MarketID r, t_OutcomeID = qt_OutcomeID r, t_MakerOrderID = qt_MakerOrderID r,
      t_TakerOrderID = qt_TakerOrderID r, t_MakerUserID = qt_MakerUserID r, t_TakerUserID = qt_TakerUserID r,
      t_Price = qt_Price r, t_Quantity = qt_Quantity r, t_CreatedAt = tstz_Time (qt_CreatedAt r)\<rparr>"

definition CreateTradeParams :: "'d Trade \<Rightarrow> 'd TradeRow" where
  "CreateTradeParams x =
     \<lparr>qt_ID = t_ID x, qt_MarketID = t_MarketID x, qt_OutcomeID = t_OutcomeID x, qt_MakerOrderID = t_MakerOrderID x,
      qt_TakerOrderID = t_TakerOrderID x, qt_MakerUserID = t_MakerUserID x, qt_TakerUserID = t_TakerUserID x,
      qt_Price = t_Price x, qt_Quantity = t_Quantity x, qt_CreatedAt = tstz (t_CreatedAt x)\<rparr>"

definition positionFromModel :: "'d PositionRow \<Rightarrow> 'd Position" where
  "positionFromModel r =
     \<lparr>p_ID = qp_ID r, p_UserID = qp_UserID r, p_MarketID = qp_MarketID r, p_OutcomeID = qp_OutcomeID r,
      p_Quantity = qp_Quantity r, p_AvgPrice = qp_AvgPrice r, p_UpdatedAt = tstz_Time (qp_UpdatedAt r)\<rparr>"

definition UpsertPositionParams :: "'d Position \<Rightarrow> 'd PositionRow" where
  "UpsertPositionParams p =
     \<lparr>qp_ID = p_ID p, qp_UserID = p_UserID p, qp_MarketID = p_MarketID p, qp_OutcomeID = p_OutcomeID p,
      qp_Quantity = p_Quantity p, qp_AvgPrice = p_AvgPrice p, qp_UpdatedAt = tstz (p_UpdatedAt p)\<rparr>"

text \<open>Nothing reads the table of mints back.\<close>

definition mintFromRow :: "'d MintRow \<Rightarrow> 'd MintTransaction" where
  "mintFromRow r =
     \<lparr>mt_ID = qn_ID r, mt_UserID = qn_UserID r, mt_MarketID = qn_MarketID r, mt_Quantity = qn_Quantity r, mt_Cost = qn_Cost r,
      mt_CreatedAt = tstz_Time (qn_CreatedAt r)\<rparr>"

definition CreateMintTransactionParams :: "'d MintTransaction \<Rightarrow> 'd MintRow" where
  "CreateMintTransactionParams x =
     \<lparr>qn_ID = mt_ID x, qn_UserID = mt_UserID x, qn_MarketID = mt_MarketID x, qn_Quantity = mt_Quantity x, qn_Cost = mt_Cost x,
      qn_CreatedAt = tstz (mt_CreatedAt x)\<rparr>"

text \<open>
  What was written is read back. The identifier of the winner must be a UUID in its canonical form; the index of
  an outcome is cut to 32 bits.
\<close>

definition canonical_uuid :: "string \<Rightarrow> bool" where
  "canonical_uuid s \<longleftrightarrow> (case parseUUID s of None \<Rightarrow> False | Some b \<Rightarrow> formatUUID b = s)"

lemma uuid_optional:
  "pred_option canonical_uuid i \<Longrightarrow> optionalStringFromUUID (uuidFromOptionalString i) = i"
  by (cases i) (auto simp: optionalStringFromUUID_def uuidFromOptionalString_def canonical_uuid_def split: option.splits)

lemma row_fields [simp]:
  "u_ID (userFromRow u) = qu_ID u" "u_WalletAddress (userFromRow u) = stringFromText (qu_WalletAddress u)"
  "u_IsAdmin (userFromRow u) = qu_IsAdmin u" "u_CreatedAt (userFromRow u) = tstz_Time (qu_CreatedAt u)"
  "m_ID (marketFromGetRow m) = qm_ID m" "m_Category (marketFromGetRow m) = qm_Category m"
  "m_CreatedAt (marketFromGetRow m) = tstz_Time (qm_CreatedAt m)"
  "oc_ID (outcomeFromRow c) = qc_ID c" "oc_MarketID (outcomeFromRow c) = qc_MarketID c" "oc_Index (outcomeFromRow c) = qc_Index c"
  "o_ID (orderFromModel x) = qo_ID x" "o_UserID (orderFromModel x) = qo_UserID x" "o_MarketID (orderFromModel x) = qo_MarketID x"
  "o_OutcomeID (orderFromModel x) = qo_OutcomeID x" "o_Price (orderFromModel x) = qo_Price x"
  "o_CreatedAt (orderFromModel x) = tstz_Time (qo_CreatedAt x)"
  "t_ID (tradeFromRow t) = qt_ID t" "t_MarketID (tradeFromRow t) = qt_MarketID t" "t_MakerUserID (tradeFromRow t) = qt_MakerUserID t"
  "t_TakerUserID (tradeFromRow t) = qt_TakerUserID t" "t_CreatedAt (tradeFromRow t) = tstz_Time (qt_CreatedAt t)"
  "p_ID (positionFromModel p) = qp_ID p" "p_UserID (positionFromModel p) = qp_UserID p"
  "p_MarketID (positionFromModel p) = qp_MarketID p" "p_OutcomeID (positionFromModel p) = qp_OutcomeID p"
  "p_UpdatedAt (positionFromModel p) = tstz_Time (qp_UpdatedAt p)" "mt_ID (mintFromRow n) = qn_ID n"
  by (simp_all add: userFromRow_def marketFromGetRow_def outcomeFromRow_def orderFromModel_def tradeFromRow_def
      positionFromModel_def mintFromRow_def)

lemma written_read_back [simp]:
  "userFromRow (CreateUserParams u) = u" "orderFromModel (CreateOrderParams x) = x" "tradeFromRow (CreateTradeParams t) = t"
  "positionFromModel (UpsertPositionParams p) = p" "mintFromRow (CreateMintTransactionParams n) = n"
  "outcomeFromRow (CreateOutcomeBatchParams c) = c\<lparr>oc_Index := int32 (oc_Index c)\<rparr>"
  "pred_option canonical_uuid (m_ResolvedOutcomeID m) \<Longrightarrow> marketFromGetRow (CreateMarketParams m) = m"
  by (simp_all add: userFromRow_def CreateUserParams_def orderFromModel_def CreateOrderParams_def tradeFromRow_def
      CreateTradeParams_def positionFromModel_def UpsertPositionParams_def mintFromRow_def CreateMintTransactionParams_def
      outcomeFromRow_def CreateOutcomeBatchParams_def marketFromGetRow_def CreateMarketParams_def uuid_optional)

text \<open>The fields of what is sent, and that it passes the checks.\<close>

lemma param_fields [simp]:
  "qu_ID (CreateUserParams u) = u_ID u" "qu_WalletAddress (CreateUserParams u) = Some (u_WalletAddress u)"
  "qu_UserType (CreateUserParams u) = UserType_String (u_UserType u)" "qu_CreatedAt (CreateUserParams u) = Some (u_CreatedAt u)"
  "qm_ID (CreateMarketParams m) = m_ID m" "qm_MarketType (CreateMarketParams m) = MarketType_String (m_MarketType m)"
  "qm_Status (CreateMarketParams m) = MarketStatus_String (m_Status m)" "qm_CreatedBy (CreateMarketParams m) = m_CreatorID m"
  "qm_Title (CreateMarketParams m) = m_Title m" "qm_Category (CreateMarketParams m) = m_Category m"
  "qm_ResolvedOutcomeID (CreateMarketParams m) = uuidFromOptionalString (m_ResolvedOutcomeID m)"
  "qm_CreatedAt (CreateMarketParams m) = Some (m_CreatedAt m)" "qm_UpdatedAt (CreateMarketParams m) = Some (m_UpdatedAt m)"
  "qc_ID (CreateOutcomeBatchParams c) = oc_ID c" "qc_MarketID (CreateOutcomeBatchParams c) = oc_MarketID c"
  "qc_Label (CreateOutcomeBatchParams c) = oc_Label c" "qc_Index (CreateOutcomeBatchParams c) = int32 (oc_Index c)"
  "qo_ID (CreateOrderParams x) = o_ID x" "qo_UserID (CreateOrderParams x) = o_UserID x"
  "qo_MarketID (CreateOrderParams x) = o_MarketID x" "qo_OutcomeID (CreateOrderParams x) = o_OutcomeID x"
  "qo_Side (CreateOrderParams x) = OrderSide_String (o_Side x)" "qo_Price (CreateOrderParams x) = o_Price x"
  "qo_Quantity (CreateOrderParams x) = o_Quantity x" "qo_Status (CreateOrderParams x) = OrderStatus_String (o_Status x)"
  "qo_CreatedAt (CreateOrderParams x) = Some (o_CreatedAt x)" "qo_UpdatedAt (CreateOrderParams x) = Some (o_UpdatedAt x)"
  "qt_ID (CreateTradeParams t) = t_ID t" "qt_MarketID (CreateTradeParams t) = t_MarketID t"
  "qt_OutcomeID (CreateTradeParams t) = t_OutcomeID t" "qt_MakerOrderID (CreateTradeParams t) = t_MakerOrderID t"
  "qt_TakerOrderID (CreateTradeParams t) = t_TakerOrderID t" "qt_MakerUserID (CreateTradeParams t) = t_MakerUserID t"
  "qt_TakerUserID (CreateTradeParams t) = t_TakerUserID t" "qt_CreatedAt (CreateTradeParams t) = Some (t_CreatedAt t)"
  "qp_ID (UpsertPositionParams p) = p_ID p" "qp_UserID (UpsertPositionParams p) = p_UserID p"
  "qp_MarketID (UpsertPositionParams p) = p_MarketID p" "qp_OutcomeID (UpsertPositionParams p) = p_OutcomeID p"
  "qp_Quantity (UpsertPositionParams p) = p_Quantity p" "qp_AvgPrice (UpsertPositionParams p) = p_AvgPrice p"
  "qp_UpdatedAt (UpsertPositionParams p) = Some (p_UpdatedAt p)"
  "qn_ID (CreateMintTransactionParams n) = mt_ID n" "qn_UserID (CreateMintTransactionParams n) = mt_UserID n"
  "qn_MarketID (CreateMintTransactionParams n) = mt_MarketID n" "qn_CreatedAt (CreateMintTransactionParams n) = Some (mt_CreatedAt n)"
  by (simp_all add: CreateUserParams_def CreateMarketParams_def CreateOutcomeBatchParams_def CreateOrderParams_def
      CreateTradeParams_def UpsertPositionParams_def CreateMintTransactionParams_def textFromString_def tstz_def)

lemma texts_checked:
  "UserType_String t \<in> {''human'', ''agent''}" "MarketType_String mt \<in> {''binary'', ''multi''}"
  "MarketStatus_String ms \<in> {''draft'', ''open'', ''closed'', ''resolved'', ''cancelled''}"
  "OrderSide_String os \<in> {''buy'', ''sell''}" "OrderStatus_String st \<in> order_statuses"
  unfolding enum_checks[symmetric] by simp_all

section \<open>The repositories\<close>

text \<open>\<open>if n == 0\<close> after an update.\<close>

definition some_row :: "('d, 'z, nat) rowop \<Rightarrow> ('d, 'z, unit) rowop" where
  "some_row m = bnd m (\<lambda>n. check (n \<noteq> 0) ErrNoRows)"

definition rows_UserRepo_Create :: "'d User \<Rightarrow> ('d, 'z, unit) rowop" where
  "rows_UserRepo_Create user = wrapped ''postgres: create user'' (sql_CreateUser (CreateUserParams user))"

text \<open>A missing user is an application error, any other error is wrapped.\<close>

definition user_lookup :: "string \<Rightarrow> string \<Rightarrow> ('d, 'z, 'd UserRow) rowop \<Rightarrow> ('d, 'z, 'd User) rowop" where
  "user_lookup what key q =
     bnd (handle q (\<lambda>e. if errors_is e ErrNoRows then fail (app_new ''NOT_FOUND'' (''user not found: '' @ key))
                       else fail (Errorf what (Some e)))) (\<lambda>row. ret (userFromRow row))"

definition rows_UserRepo_GetByID :: "string \<Rightarrow> ('d, 'z, 'd User) rowop" where
  "rows_UserRepo_GetByID i = user_lookup ''postgres: get user by id'' i (sql_GetUserByID i)"

definition rows_UserRepo_GetByWallet :: "string \<Rightarrow> ('d, 'z, 'd User) rowop" where
  "rows_UserRepo_GetByWallet addr = user_lookup ''postgres: get user by wallet'' addr (sql_GetUserByWallet (textFromString addr))"

definition rows_UserRepo_UpdateBalance :: "string \<Rightarrow> 'd \<Rightarrow> 'd \<Rightarrow> ('d, 'z, unit) rowop" where
  "rows_UserRepo_UpdateBalance i balance locked =
     wrapped ''postgres: update user balance'' (some_row (sql_UpdateUserBalance balance locked i))"

definition rows_UserRepo_List :: "UserFilter \<Rightarrow> ('d, 'z, 'd User list \<times> nat) rowop" where
  "rows_UserRepo_List flt =
     (let userType = map_option UserType_String (uf_UserType flt); isAdmin = uf_IsAdmin flt;
          limit = if uf_Limit flt \<le> 0 then 50 else uf_Limit flt; offset = if uf_Offset flt < 0 then 0 else uf_Offset flt
      in bnd (wrapped ''postgres: list users count'' (sql_CountUsers userType isAdmin)) (\<lambda>total.
         bnd (wrapped ''postgres: list users query'' (sql_ListUsers (int32 limit) (int32 offset) userType isAdmin)) (\<lambda>rows.
         ret (map userFromRow rows, total))))"

definition rows_MarketRepo_Create :: "Market \<Rightarrow> ('d, 'z, unit) rowop" where
  "rows_MarketRepo_Create market = wrapped ''postgres: create market'' (sql_CreateMarket (CreateMarketParams market))"

definition rows_MarketRepo_GetByID :: "string \<Rightarrow> ('d, 'z, Market) rowop" where
  "rows_MarketRepo_GetByID i =
     bnd (wrapped ''postgres: get market by id'' (sql_GetMarketByID i)) (\<lambda>row. ret (marketFromGetRow row))"

definition rows_MarketRepo_Update :: "Market \<Rightarrow> ('d, 'z, unit) rowop" where
  "rows_MarketRepo_Update market =
     wrapped ''postgres: update market'' (some_row (sql_UpdateMarket (CreateMarketParams market)))"

definition rows_MarketRepo_List :: "MarketFilter \<Rightarrow> ('d, 'z, Market list \<times> nat) rowop" where
  "rows_MarketRepo_List flt =
     (let status = map_option MarketStatus_String (mf_Status flt); category = mf_Category flt;
          limit = if mf_Limit flt \<le> 0 then 50 else mf_Limit flt; offset = if mf_Offset flt < 0 then 0 else mf_Offset flt
      in bnd (wrapped ''postgres: list markets count'' (sql_CountMarkets status category)) (\<lambda>total.
         bnd (wrapped ''postgres: list markets query'' (sql_ListMarkets (int32 limit) (int32 offset) status category)) (\<lambda>rows.
         ret (map marketFromGetRow rows, total))))"

definition rows_OutcomeRepo_CreateBatch :: "Outcome list \<Rightarrow> ('d, 'z, unit) rowop" where
  "rows_OutcomeRepo_CreateBatch outcomes =
     (if outcomes = [] then ret ()
      else wrapped ''postgres: create outcomes batch'' (sql_CreateOutcomeBatch (map CreateOutcomeBatchParams outcomes)))"

definition rows_OutcomeRepo_ListByMarket :: "string \<Rightarrow> ('d, 'z, Outcome list) rowop" where
  "rows_OutcomeRepo_ListByMarket i =
     bnd (wrapped ''postgres: list outcomes by market'' (sql_ListOutcomesByMarket i)) (\<lambda>rows. ret (map outcomeFromRow rows))"

definition rows_OutcomeRepo_SetWinner :: "string \<Rightarrow> ('d, 'z, unit) rowop" where
  "rows_OutcomeRepo_SetWinner i = wrapped ''postgres: set outcome winner'' (some_row (sql_SetOutcomeWinner i))"

definition rows_OrderRepo_Create :: "'d::linordered_field Order \<Rightarrow> ('d, 'z, unit) rowop" where
  "rows_OrderRepo_Create order = wrapped ''postgres: create order'' (sql_CreateOrder (CreateOrderParams order))"

definition rows_OrderRepo_GetByID :: "string \<Rightarrow> ('d, 'z, 'd Order) rowop" where
  "rows_OrderRepo_GetByID i = bnd (wrapped ''postgres: get order by id'' (sql_GetOrderByID i)) (\<lambda>row. ret (orderFromModel row))"

definition rows_OrderRepo_UpdateStatus :: "string \<Rightarrow> OrderStatus \<Rightarrow> 'd \<Rightarrow> ('d, 'z, unit) rowop" where
  "rows_OrderRepo_UpdateStatus i status filled =
     wrapped ''postgres: update order status'' (some_row (sql_UpdateOrderStatus (OrderStatus_String status) filled i))"

definition rows_OrderRepo_ListOpenByMarket :: "string \<Rightarrow> ('d::linordered_field, 'z, 'd Order list) rowop" where
  "rows_OrderRepo_ListOpenByMarket i =
     bnd (wrapped ''postgres: list open orders by market'' (sql_ListOpenOrdersByMarket i)) (\<lambda>rows. ret (map orderFromModel rows))"

definition rows_OrderRepo_ListAllOpen :: "(string \<Rightarrow> nat) \<Rightarrow> ('d, 'z, 'd Order list) rowop" where
  "rows_OrderRepo_ListAllOpen uuid_rank =
     bnd (wrapped ''postgres: list all open orders'' (sql_ListAllOpenOrders uuid_rank)) (\<lambda>rows. ret (map orderFromModel rows))"

definition rows_OrderRepo_ListByUser :: "string \<Rightarrow> int \<Rightarrow> int \<Rightarrow> ('d, 'z, 'd Order list \<times> nat) rowop" where
  "rows_OrderRepo_ListByUser i limit0 offset0 =
     (let limit = if limit0 \<le> 0 then 50 else limit0; offset = if offset0 < 0 then 0 else offset0
      in bnd (wrapped ''postgres: list orders by user count'' (sql_CountOrdersByUser i)) (\<lambda>total.
         bnd (wrapped ''postgres: list orders by user query'' (sql_ListOrdersByUser i (int32 limit) (int32 offset))) (\<lambda>rows.
         ret (map orderFromModel rows, total))))"

definition rows_OrderRepo_CancelAllByMarket :: "string \<Rightarrow> ('d, 'z, nat) rowop" where
  "rows_OrderRepo_CancelAllByMarket i = wrapped ''postgres: cancel all orders by market'' (sql_CancelAllOrdersByMarket i)"

definition rows_TradeRepo_Create :: "'d Trade \<Rightarrow> ('d, 'z, unit) rowop" where
  "rows_TradeRepo_Create trade = wrapped ''postgres: create trade'' (sql_CreateTrade (CreateTradeParams trade))"

definition rows_TradeRepo_ListByMarket :: "string \<Rightarrow> int \<Rightarrow> int \<Rightarrow> ('d, 'z, 'd Trade list \<times> nat) rowop" where
  "rows_TradeRepo_ListByMarket i limit0 offset0 =
     (let limit = if limit0 \<le> 0 then 50 else limit0; offset = if offset0 < 0 then 0 else offset0
      in bnd (wrapped ''postgres: list trades by market count'' (sql_CountTradesByMarket i)) (\<lambda>total.
         bnd (wrapped ''postgres: list trades by market query'' (sql_ListTradesByMarket i (int32 limit) (int32 offset))) (\<lambda>rows.
         ret (map tradeFromRow rows, total))))"

definition rows_TradeRepo_ListByUser :: "string \<Rightarrow> int \<Rightarrow> int \<Rightarrow> ('d, 'z, 'd Trade list \<times> nat) rowop" where
  "rows_TradeRepo_ListByUser i limit0 offset0 =
     (let limit = if limit0 \<le> 0 then 50 else limit0; offset = if offset0 < 0 then 0 else offset0
      in bnd (wrapped ''postgres: list trades by user count'' (sql_CountTradesByUser i)) (\<lambda>total.
         bnd (wrapped ''postgres: list trades by user query'' (sql_ListTradesByUser i (int32 limit) (int32 offset))) (\<lambda>rows.
         ret (map tradeFromRow rows, total))))"

definition rows_TradeRepo_CreateMintTx :: "'d MintTransaction \<Rightarrow> ('d, 'z, unit) rowop" where
  "rows_TradeRepo_CreateMintTx mintTx =
     wrapped ''postgres: create mint transaction'' (sql_CreateMintTransaction (CreateMintTransactionParams mintTx))"

definition rows_PositionRepo_Upsert :: "'d Position \<Rightarrow> ('d, 'z, unit) rowop" where
  "rows_PositionRepo_Upsert pos = wrapped ''postgres: upsert position'' (sql_UpsertPosition (UpsertPositionParams pos))"

definition rows_PositionRepo_GetByUserAndOutcome :: "string \<Rightarrow> string \<Rightarrow> ('d, 'z, 'd Position) rowop" where
  "rows_PositionRepo_GetByUserAndOutcome userID outcomeID =
     bnd (wrapped ''postgres: get position by user and outcome'' (sql_GetPositionByUserAndOutcome userID outcomeID))
       (\<lambda>row. ret (positionFromModel row))"

definition rows_PositionRepo_ListByUser :: "string \<Rightarrow> ('d, 'z, 'd Position list) rowop" where
  "rows_PositionRepo_ListByUser i =
     bnd (wrapped ''postgres: list positions by user'' (sql_ListPositionsByUser i)) (\<lambda>rows. ret (map positionFromModel rows))"

definition rows_PositionRepo_ListByMarket :: "string \<Rightarrow> ('d, 'z, 'd Position list) rowop" where
  "rows_PositionRepo_ListByMarket i =
     bnd (wrapped ''postgres: list positions by market'' (sql_ListPositionsByMarket i)) (\<lambda>rows. ret (map positionFromModel rows))"

text \<open>\<open>tx_manager.go\<close>.\<close>

definition rows_WithTx :: "('d, 'z, 'a) rowop \<Rightarrow> ('d, 'z, 'a) rowop" where
  "rows_WithTx fn s =
     (let (bad, w) = next_fault (rn_world s)
      in if bad then (Inl (Errorf ''postgres: begin tx'' (Some DriverError)), s\<lparr>rn_world := w\<rparr>)
         else case fn (s\<lparr>rn_world := w, rn_tx := ActiveTx\<rparr>) of
                (Inl e, s') \<Rightarrow> (Inl e, s'\<lparr>rn_rows := rn_rows s, rn_tx := rn_tx s\<rparr>)
              | (Inr x, s') \<Rightarrow>
                  let (bad', w') = next_fault (rn_world s')
                  in if bad' \<or> rn_tx s' = AbortedTx
                     then (Inl (Errorf ''postgres: commit tx'' (Some DriverError)),
                           s'\<lparr>rn_rows := rn_rows s, rn_tx := rn_tx s, rn_world := w'\<rparr>)
                     else (Inr x, s'\<lparr>rn_tx := rn_tx s, rn_world := w'\<rparr>))"

end
