(* ===== verification/SqlRefinement.thy ===== *)
theory SqlRefinement
  imports SqlRepos
begin

text \<open>
  The repositories over the stored rows refine those over the tables of domain values that the rest of
  the development is about.
\<close>

section \<open>The tables a database of rows stands for\<close>

definition db_of :: "'d rows \<Rightarrow> 'd DB" where
  "db_of r =
     \<lparr>db_users = map userFromRow (rw_users r), db_markets = map marketFromGetRow (rw_markets r),
      db_outcomes = map outcomeFromRow (rw_outcomes r), db_orders = map orderFromModel (rw_orders r),
      db_trades = map tradeFromRow (rw_trades r), db_positions = map positionFromModel (rw_positions r),
      db_mints = map mintFromRow (rw_mints r)\<rparr>"

definition node_of :: "('d, 'z) row_node_scheme \<Rightarrow> ('d, 'z) node_scheme" where
  "node_of s = \<lparr>n_db = db_of (rn_rows s), n_tx = rn_tx s, n_world = rn_world s, \<dots> = row_node.more s\<rparr>"

text \<open>The program stores no user without an address.\<close>

definition rows_ok :: "'d rows \<Rightarrow> bool" where
  "rows_ok r \<longleftrightarrow> rows_typed r \<and> (\<forall>u \<in> set (rw_users r). qu_WalletAddress u \<noteq> None)"

text \<open>
  \<open>implements h c m\<close>: on every database in order, \<open>c\<close> and \<open>m\<close> have the same result, up to the conversion
  \<open>h\<close> of a value, and end with the same tables and the same part of the state outside, in order again.
\<close>

definition implements ::
    "('b \<Rightarrow> 'a) \<Rightarrow> ('d, 'z, 'b) rowop \<Rightarrow> ('d, 'z, 'a) dbop \<Rightarrow> bool" where
  "implements h c m \<longleftrightarrow>
     (\<forall>s. rows_ok (rn_rows s) \<longrightarrow>
        m (node_of s) = (map_sum id h (fst (c s)), node_of (snd (c s))) \<and> rows_ok (rn_rows (snd (c s))))"

named_theorems implementing \<open>rules for the refinement of computations\<close>

lemma implementsI:
  assumes "\<And>s. rows_ok (rn_rows s) \<Longrightarrow> m (node_of s) = (map_sum id h (fst (c s)), node_of (snd (c s)))"
    and "\<And>s. rows_ok (rn_rows s) \<Longrightarrow> rows_ok (rn_rows (snd (c s)))"
  shows "implements h c m"
  using assms by (simp add: implements_def)

lemma implementsD:
  assumes "implements h c m" and "rows_ok (rn_rows s)" and "c s = (r, s')"
  shows "m (node_of s) = (map_sum id h r, node_of s')" and "rows_ok (rn_rows s')"
  using assms by (auto simp: implements_def)

lemma implements_ret [implementing]: "y = h x \<Longrightarrow> implements h (ret x) (ret y)"
  by (simp add: implements_def ret_def)

lemma implements_fail [implementing]: "implements h (fail e) (fail e)"
  by (simp add: implements_def fail_def)

lemma implements_check [implementing]: "implements id (check b e) (check b e)"
  by (simp add: implements_def check_def ret_def fail_def)

lemma implements_bnd:
  assumes c: "implements h c m" and f: "\<And>x. implements k (f x) (g (h x))"
  shows "implements k (bnd c f) (bnd m g)"
proof -
  have "bnd m g (node_of s) = (map_sum id k (fst (bnd c f s)), node_of (snd (bnd c f s))) \<and>
      rows_ok (rn_rows (snd (bnd c f s)))" if ok: "rows_ok (rn_rows s)" for s
  proof (cases "c s")
    case (Pair r s')
    note A = implementsD[OF c ok Pair]
    show ?thesis
    proof (cases r)
      case (Inl e)
      with A Pair show ?thesis by (simp add: bnd_def)
    next
      case (Inr x)
      with A Pair implementsD[OF f A(2), of x] show ?thesis by (cases "f x s'") (simp add: bnd_def)
    qed
  qed
  then show ?thesis by (simp add: implements_def)
qed

lemma implements_converted: "implements h c m \<Longrightarrow> implements id (bnd c (\<lambda>x. ret (h x))) m"
  by (auto simp: implements_def bnd_def ret_def split: prod.splits sum.splits)

text \<open>Transactions are taken back in the same cases.\<close>

lemma implements_WithTx [implementing]:
  assumes "implements h c m"
  shows "implements h (rows_WithTx c) (WithTx m)"
proof -
  have "WithTx m (node_of s) = (map_sum id h (fst (rows_WithTx c s)), node_of (snd (rows_WithTx c s))) \<and>
      rows_ok (rn_rows (snd (rows_WithTx c s)))" if ok: "rows_ok (rn_rows s)" for s
  proof -
    obtain bad w where n: "next_fault (rn_world s) = (bad, w)" by (cases "next_fault (rn_world s)")
    obtain r s' where r: "c (s\<lparr>rn_world := w, rn_tx := ActiveTx\<rparr>) = (r, s')"
      by (cases "c (s\<lparr>rn_world := w, rn_tx := ActiveTx\<rparr>)")
    have "rows_ok (rn_rows (s\<lparr>rn_world := w, rn_tx := ActiveTx\<rparr>))" using ok by simp
    note A = implementsD[OF assms this r]
    have "m ((node_of s)\<lparr>n_world := w, n_tx := ActiveTx\<rparr>) = (map_sum id h r, node_of s')"
      using A(1) by (simp add: node_of_def)
    with ok A(2) n r show ?thesis
      by (cases r) (auto simp: WithTx_def rows_WithTx_def node_of_def split: prod.splits)
  qed
  then show ?thesis by (simp add: implements_def)
qed

section \<open>Statements\<close>

lemma implements_statement:
  assumes "\<And>r. rows_ok r \<Longrightarrow> ok (db_of r) \<longleftrightarrow> okr r"
    and "\<And>r. rows_ok r \<Longrightarrow> okr r \<Longrightarrow> f (db_of r) = (h (fst (fr r)), db_of (snd (fr r)))"
    and "\<And>r. rows_ok r \<Longrightarrow> okr r \<Longrightarrow> rows_ok (snd (fr r))"
  shows "implements h (wrapped what (row_statement okr fr)) (statement what ok f)"
  using assms
  by (intro implementsI)
    (auto simp: row_statement_def statement_def node_of_def wrapped_def handle_def fail_def Let_def case_prod_unfold)

lemma implements_query:
  "(\<And>r. rows_ok r \<Longrightarrow> f (db_of r) = h (fr r)) \<Longrightarrow> implements h (wrapped what (row_query fr)) (query what f)"
  unfolding row_query_def query_def by (rule implements_statement) auto

lemma wrapped_bnd: "wrapped what (bnd m f) = bnd (wrapped what m) (\<lambda>x. wrapped what (f x))"
  by (auto simp: wrapped_def handle_def bnd_def fail_def split: prod.splits sum.splits)

lemma wrapped_simps: "wrapped what (ret x) = ret x" "wrapped what (fail e) = fail (Errorf what (Some e))"
  "wrapped what (check b e) = check b (Errorf what (Some e))"
  by (auto simp: wrapped_def handle_def ret_def fail_def check_def)

lemma implements_one:
  assumes "\<And>r. rows_ok r \<Longrightarrow> f (db_of r) = map_option h (fr r)"
  shows "implements h (wrapped what (row_one fr)) (one_row what f)"
  unfolding row_one_def one_row_def wrapped_bnd
proof (rule implements_bnd)
  show "implements (map_option h) (wrapped what (row_query fr)) (query what f)"
    using assms by (rule implements_query)
next
  fix x
  show "implements h (wrapped what (case x of None \<Rightarrow> fail ErrNoRows | Some r \<Rightarrow> ret r))
      (case map_option h x of None \<Rightarrow> fail (Errorf what (Some ErrNoRows)) | Some x \<Rightarrow> ret x)"
    by (cases x) (auto simp: wrapped_simps intro: implementing)
qed

lemma map_page: "map g (take n (drop k xs)) = take n (drop k (map g xs))"
  by (simp add: take_map drop_map)

lemma implements_page:
  assumes "\<And>r. rows_ok r \<Longrightarrow> f (db_of r) = map h (fr r)"
  shows "implements (map h) (wrapped what (row_page (int32 limit) (int32 offset) fr)) (page_query what limit offset f)"
  unfolding row_page_def page_query_def page_def
  by (rule implements_statement) (auto simp: assms map_page)

lemma implements_execute:
  assumes "\<And>r. rows_ok r \<Longrightarrow> ok (db_of r) \<longleftrightarrow> okr r"
    and "\<And>r. rows_ok r \<Longrightarrow> okr r \<Longrightarrow> f (db_of r) = db_of (fr r)"
    and "\<And>r. rows_ok r \<Longrightarrow> okr r \<Longrightarrow> rows_ok (fr r)"
  shows "implements id (wrapped what (row_exec okr fr)) (execute what ok f)"
  unfolding row_exec_def execute_def by (rule implements_statement) (simp_all add: assms)

lemma implements_update:
  assumes "\<And>r. rows_ok r \<Longrightarrow> ok (db_of r) \<longleftrightarrow> okr r"
    and "\<And>r. rows_ok r \<Longrightarrow> okr r \<Longrightarrow> f (db_of r) = (fst (fr r), db_of (snd (fr r)))"
    and "\<And>r. rows_ok r \<Longrightarrow> okr r \<Longrightarrow> rows_ok (snd (fr r))"
  shows "implements id (wrapped what (some_row (row_statement okr fr))) (update_rows what ok f)"
  unfolding some_row_def update_rows_def wrapped_bnd wrapped_simps
  by (rule implements_bnd[where h = id])
    (use assms implements_statement[of ok okr f id fr] implements_check in \<open>auto\<close>)

lemma implements_NOW: "implements id NOW now"
  by (rule implementsI) (auto simp: NOW_def now_def node_of_def case_prod_unfold Let_def)

section \<open>Lists of rows\<close>

lemma find_rows: "find P (map g xs) = map_option g (find (\<lambda>x. P (g x)) xs)"
  by (induction xs) auto

lemma count_rows: "count_where P (map g xs) = count_where (\<lambda>x. P (g x)) xs"
  by (simp add: count_where_def filter_map o_def)

lemma sort_key_rows: "sort_key f (map g xs) = map g (sort_key (\<lambda>x. f (g x)) xs)"
proof (induction xs)
  case (Cons x xs)
  have "insort_key f (g y) (map g ys) = map g (insort_key (\<lambda>x. f (g x)) y ys)" for y ys
    by (induction ys) auto
  with Cons show ?case by simp
qed simp

lemma filter_rows: "filter P (map g xs) = map g (filter (\<lambda>x. P (g x)) xs)"
  by (simp add: filter_map o_def)

lemma update_rows_map:
  "(\<And>x. x \<in> set xs \<Longrightarrow> g (f' x) = f (g x)) \<Longrightarrow> map g (map f' xs) = map f (map g xs)"
  by simp

lemmas row_lists = find_rows count_rows sort_key_rows filter_rows

section \<open>Typed rows\<close>

lemma db_of_tables [simp]:
  "db_users (db_of r) = map userFromRow (rw_users r)" "db_markets (db_of r) = map marketFromGetRow (rw_markets r)"
  "db_outcomes (db_of r) = map outcomeFromRow (rw_outcomes r)" "db_orders (db_of r) = map orderFromModel (rw_orders r)"
  "db_trades (db_of r) = map tradeFromRow (rw_trades r)" "db_positions (db_of r) = map positionFromModel (rw_positions r)"
  "db_mints (db_of r) = map mintFromRow (rw_mints r)"
  by (simp_all add: db_of_def)

lemma row_keys:
  "i \<in> u_ID ` set (db_users (db_of r)) \<longleftrightarrow> user_row i r" "i \<in> m_ID ` set (db_markets (db_of r)) \<longleftrightarrow> market_row i r"
  "outcome_exists i (db_of r) \<longleftrightarrow> outcome_row i r" "i \<in> o_ID ` set (db_orders (db_of r)) \<longleftrightarrow> order_row i r"
  "i \<in> t_ID ` set (db_trades (db_of r)) \<longleftrightarrow> \<not> list_all (\<lambda>x. qt_ID x \<noteq> i) (rw_trades r)"
  "i \<in> p_ID ` set (db_positions (db_of r)) \<longleftrightarrow> \<not> list_all (\<lambda>x. qp_ID x \<noteq> i) (rw_positions r)"
  "i \<in> mt_ID ` set (db_mints (db_of r)) \<longleftrightarrow> \<not> list_all (\<lambda>x. qn_ID x \<noteq> i) (rw_mints r)"
  by (auto simp: row_key_defs outcome_exists_def list_all_iff image_image)

lemma open_rows:
  assumes "rows_ok r" and "x \<in> set (rw_orders r)"
  shows "is_open (orderFromModel x) \<longleftrightarrow> open_row x"
proof -
  obtain st where "OrderStatus_of (qo_Status x) = Some st" using assms by (auto simp: rows_ok_def rows_typed_def)
  then show ?thesis
    by (cases st) (auto simp: enum_values is_open_def open_row_def orderFromModel_def, auto simp: OrderStatus_String_def)
qed

lemma matching_rows:
  assumes "rows_ok r"
  shows "u \<in> set (rw_users r) \<Longrightarrow>
      user_matches uflt (userFromRow u) \<longleftrightarrow>
        null_or (map_option UserType_String (uf_UserType uflt)) (qu_UserType u) \<and> null_or (uf_IsAdmin uflt) (qu_IsAdmin u)"
    and "m \<in> set (rw_markets r) \<Longrightarrow>
      market_matches mflt (marketFromGetRow m) \<longleftrightarrow>
        null_or (map_option MarketStatus_String (mf_Status mflt)) (qm_Status m) \<and> null_or (mf_Category mflt) (qm_Category m)"
proof -
  assume "u \<in> set (rw_users r)"
  with assms obtain t where "UserType_of (qu_UserType u) = Some t" by (auto simp: rows_ok_def rows_typed_def)
  then show "user_matches uflt (userFromRow u) \<longleftrightarrow>
        null_or (map_option UserType_String (uf_UserType uflt)) (qu_UserType u) \<and> null_or (uf_IsAdmin uflt) (qu_IsAdmin u)"
    using enum_inj(5)
    by (auto simp: enum_values user_matches_def null_or_def userFromRow_def inj_eq split: option.splits)
next
  assume "m \<in> set (rw_markets r)"
  with assms obtain t where "MarketStatus_of (qm_Status m) = Some t" by (auto simp: rows_ok_def rows_typed_def)
  then show "market_matches mflt (marketFromGetRow m) \<longleftrightarrow>
        null_or (map_option MarketStatus_String (mf_Status mflt)) (qm_Status m) \<and> null_or (mf_Category mflt) (qm_Category m)"
    using enum_inj(4)
    by (auto simp: enum_values market_matches_def null_or_def marketFromGetRow_def inj_eq split: option.splits)
qed

lemma same_wallet:
  assumes "rows_ok r" and "u \<in> set (rw_users r)"
  shows "stringFromText (qu_WalletAddress u) = a \<longleftrightarrow> qu_WalletAddress u = Some a"
  using assms by (auto simp: rows_ok_def stringFromText_def split: option.splits)

lemma db_of_updates [simp]:
  "db_of (r\<lparr>rw_users := us\<rparr>) = (db_of r)\<lparr>db_users := map userFromRow us\<rparr>"
  "db_of (r\<lparr>rw_markets := ms\<rparr>) = (db_of r)\<lparr>db_markets := map marketFromGetRow ms\<rparr>"
  "db_of (r\<lparr>rw_outcomes := cs\<rparr>) = (db_of r)\<lparr>db_outcomes := map outcomeFromRow cs\<rparr>"
  "db_of (r\<lparr>rw_orders := xs\<rparr>) = (db_of r)\<lparr>db_orders := map orderFromModel xs\<rparr>"
  "db_of (r\<lparr>rw_trades := ts\<rparr>) = (db_of r)\<lparr>db_trades := map tradeFromRow ts\<rparr>"
  "db_of (r\<lparr>rw_positions := ps\<rparr>) = (db_of r)\<lparr>db_positions := map positionFromModel ps\<rparr>"
  "db_of (r\<lparr>rw_mints := ns\<rparr>) = (db_of r)\<lparr>db_mints := map mintFromRow ns\<rparr>"
  by (simp_all add: db_of_def)

section \<open>Each repository\<close>

lemma wallet_taken:
  "rows_ok r \<Longrightarrow> a \<in> u_WalletAddress ` set (db_users (db_of r)) \<longleftrightarrow> \<not> list_all (\<lambda>v. qu_WalletAddress v \<noteq> Some a) (rw_users r)"
  using same_wallet[of r _ a] by (force simp: list_all_iff image_image)

lemmas rows_ok_defs = rows_ok_def rows_typed_def

lemma sql_inserts:
  "implements id (rows_UserRepo_Create u) (UserRepo_Create u)"
  "implements id (rows_OrderRepo_Create x) (OrderRepo_Create x)"
  "implements id (rows_TradeRepo_Create t) (TradeRepo_Create t)"
  "implements id (rows_TradeRepo_CreateMintTx n) (TradeRepo_CreateMintTx n)"
proof -
  show "implements id (rows_UserRepo_Create u) (UserRepo_Create u)"
    unfolding rows_UserRepo_Create_def UserRepo_Create_def sql_CreateUser_def
    by (rule implements_execute)
      (simp add: row_keys texts_checked wallet_taken del: db_of_tables insert_iff, simp, auto simp: rows_ok_defs)
  show "implements id (rows_OrderRepo_Create x) (OrderRepo_Create x)"
    unfolding rows_OrderRepo_Create_def OrderRepo_Create_def sql_CreateOrder_def
    by (rule implements_execute)
      (simp add: row_keys texts_checked parties_exist_def del: db_of_tables insert_iff, simp, auto simp: rows_ok_defs)
  show "implements id (rows_TradeRepo_Create t) (TradeRepo_Create t)"
    unfolding rows_TradeRepo_Create_def TradeRepo_Create_def sql_CreateTrade_def
    by (rule implements_execute)
      (simp add: row_keys parties_exist_def conj_ac del: db_of_tables, simp, auto simp: rows_ok_defs)
  show "implements id (rows_TradeRepo_CreateMintTx n) (TradeRepo_CreateMintTx n)"
    unfolding rows_TradeRepo_CreateMintTx_def TradeRepo_CreateMintTx_def sql_CreateMintTransaction_def
    by (rule implements_execute)
      (simp add: row_keys del: db_of_tables, simp, auto simp: rows_ok_defs)
qed

lemma sql_updates:
  "implements id (rows_UserRepo_UpdateBalance i b l) (UserRepo_UpdateBalance i b l)"
  "implements id (rows_OutcomeRepo_SetWinner i) (OutcomeRepo_SetWinner i)"
proof -
  show "implements id (rows_UserRepo_UpdateBalance i b l) (UserRepo_UpdateBalance i b l)"
    unfolding rows_UserRepo_UpdateBalance_def UserRepo_UpdateBalance_def sql_UpdateUserBalance_def
    by (rule implements_update) (auto simp: row_lists set_balance_def rows_ok_defs userFromRow_def)
  show "implements id (rows_OutcomeRepo_SetWinner i) (OutcomeRepo_SetWinner i)"
    unfolding rows_OutcomeRepo_SetWinner_def OutcomeRepo_SetWinner_def sql_SetOutcomeWinner_def
    by (rule implements_update) (auto simp: row_lists set_winner_def rows_ok_defs outcomeFromRow_def)
qed

text \<open>The time of a statement is read before it.\<close>

lemma wrapped_NOW: "wrapped what (bnd NOW f) = bnd NOW (\<lambda>t. wrapped what (f t))"
  by (auto simp: wrapped_bnd wrapped_def handle_def bnd_def NOW_def case_prod_unfold Let_def)

lemma some_row_NOW: "some_row (bnd NOW f) = bnd NOW (\<lambda>t. some_row (f t))"
  by (auto simp: some_row_def bnd_def NOW_def case_prod_unfold Let_def)

lemma implements_timed:
  "(\<And>t. implements k (wrapped what (f t)) (g t)) \<Longrightarrow> implements k (wrapped what (bnd NOW f)) (bnd now g)"
  unfolding wrapped_NOW by (rule implements_bnd[OF implements_NOW]) simp

lemma cancelled_text: "OrderStatus_of ''cancelled'' = Some Cancelled"
  by (simp add: enum_defs)

lemma cancel_rows:
  assumes "rows_ok r"
  shows "count_where (\<lambda>x. o_MarketID x = i \<and> is_open x) (db_orders (db_of r)) =
      count_where (\<lambda>x. qo_MarketID x = i \<and> open_row x) (rw_orders r)"
    and "cancel_market_orders i t (db_of r) = db_of (r\<lparr>rw_orders := map (\<lambda>x. if qo_MarketID x = i \<and> open_row x
      then x\<lparr>qo_Status := ''cancelled'', qo_UpdatedAt := Some t\<rparr> else x) (rw_orders r)\<rparr>)"
proof -
  have "orderFromModel (x\<lparr>qo_Status := ''cancelled'', qo_UpdatedAt := Some t\<rparr>) =
      (orderFromModel x)\<lparr>o_Status := Cancelled, o_UpdatedAt := t\<rparr>" for x :: "'a OrderRow"
    by (simp add: orderFromModel_def tstz_Time_def enum_defs)
  then show "cancel_market_orders i t (db_of r) = db_of (r\<lparr>rw_orders := map (\<lambda>x. if qo_MarketID x = i \<and> open_row x
      then x\<lparr>qo_Status := ''cancelled'', qo_UpdatedAt := Some t\<rparr> else x) (rw_orders r)\<rparr>)"
    using open_rows[OF assms] by (auto simp: cancel_market_orders_def)
  show "count_where (\<lambda>x. o_MarketID x = i \<and> is_open x) (db_orders (db_of r)) =
      count_where (\<lambda>x. qo_MarketID x = i \<and> open_row x) (rw_orders r)"
    using open_rows[OF assms] by (auto simp: count_where_def filter_rows intro!: arg_cong[where f = length] filter_cong)
qed

lemma sql_order_updates:
  "implements id (rows_OrderRepo_UpdateStatus i st fl) (OrderRepo_UpdateStatus i st fl)"
  "implements id (rows_OrderRepo_CancelAllByMarket i) (OrderRepo_CancelAllByMarket i)"
proof -
  show "implements id (rows_OrderRepo_UpdateStatus i st fl) (OrderRepo_UpdateStatus i st fl)"
    unfolding rows_OrderRepo_UpdateStatus_def OrderRepo_UpdateStatus_def sql_UpdateOrderStatus_def some_row_NOW
    by (intro implements_timed implements_update)
      (auto simp: row_lists set_order_status_def texts_checked rows_ok_defs orderFromModel_def tstz_Time_def simp del: insert_iff)
  show "implements id (rows_OrderRepo_CancelAllByMarket i) (OrderRepo_CancelAllByMarket i)"
    unfolding rows_OrderRepo_CancelAllByMarket_def OrderRepo_CancelAllByMarket_def sql_CancelAllOrdersByMarket_def
    by (intro implements_timed implements_statement) (simp, simp add: cancel_rows del: db_of_tables, auto simp: rows_ok_defs cancelled_text)
qed

lemma sql_gets:
  "implements id (rows_MarketRepo_GetByID i) (MarketRepo_GetByID i)"
  "implements id (rows_OrderRepo_GetByID i) (OrderRepo_GetByID i)"
  "implements id (rows_PositionRepo_GetByUserAndOutcome i j) (PositionRepo_GetByUserAndOutcome i j)"
  unfolding rows_MarketRepo_GetByID_def MarketRepo_GetByID_def sql_GetMarketByID_def rows_OrderRepo_GetByID_def
    OrderRepo_GetByID_def sql_GetOrderByID_def rows_PositionRepo_GetByUserAndOutcome_def
    PositionRepo_GetByUserAndOutcome_def sql_GetPositionByUserAndOutcome_def
  by (rule implements_converted, rule implements_one, simp add: row_lists find_market_def find_order_def find_position_def)+

lemma user_lookup_eq:
  "user_lookup what key (row_one g) =
    bnd (wrapped what (row_query g)) (\<lambda>row. case row of
        None \<Rightarrow> fail (app_new ''NOT_FOUND'' (''user not found: '' @ key)) | Some u \<Rightarrow> ret (userFromRow u))"
  by (auto simp: user_lookup_def row_one_def wrapped_def bnd_def handle_def row_query_def row_statement_def fail_def ret_def
      Let_def case_prod_unfold split: option.splits)

lemma implements_user_lookup:
  assumes "\<And>r. rows_ok r \<Longrightarrow> f (db_of r) = map_option userFromRow (g r)"
  shows "implements id (user_lookup what key (row_one g))
    (bnd (query what f) (\<lambda>row. case row of None \<Rightarrow> fail (app_new ''NOT_FOUND'' (''user not found: '' @ key)) | Some user \<Rightarrow> ret user))"
  unfolding user_lookup_eq
proof (rule implements_bnd)
  show "implements (map_option userFromRow) (wrapped what (row_query g)) (query what f)"
    using assms by (rule implements_query)
qed (auto intro: implementing split: option.split)

lemma sql_user_gets:
  "implements id (rows_UserRepo_GetByID i) (UserRepo_GetByID i)"
  "implements id (rows_UserRepo_GetByWallet a) (UserRepo_GetByWallet a)"
proof -
  show "implements id (rows_UserRepo_GetByID i) (UserRepo_GetByID i)"
    unfolding rows_UserRepo_GetByID_def UserRepo_GetByID_def sql_GetUserByID_def
    by (rule implements_user_lookup) (simp add: row_lists find_user_def)
  show "implements id (rows_UserRepo_GetByWallet a) (UserRepo_GetByWallet a)"
    unfolding rows_UserRepo_GetByWallet_def UserRepo_GetByWallet_def sql_GetUserByWallet_def
    by (rule implements_user_lookup)
      (simp add: row_lists textFromString_def same_wallet cong: find_cong)
qed

lemma open_filters:
  assumes "rows_ok r"
  shows "filter (\<lambda>x. P x \<and> is_open (orderFromModel x)) (rw_orders r) = filter (\<lambda>x. P x \<and> open_row x) (rw_orders r)"
    and "filter (\<lambda>x. is_open (orderFromModel x)) (rw_orders r) = filter open_row (rw_orders r)"
  using open_rows[OF assms] by (auto intro!: filter_cong)

lemma sql_lists:
  "implements id (rows_OutcomeRepo_ListByMarket i) (OutcomeRepo_ListByMarket i)"
  "implements id (rows_PositionRepo_ListByUser i) (PositionRepo_ListByUser i)"
  "implements id (rows_PositionRepo_ListByMarket i) (PositionRepo_ListByMarket i)"
  "implements id (rows_OrderRepo_ListOpenByMarket i) (OrderRepo_ListOpenByMarket i)"
  "implements id (rows_OrderRepo_ListAllOpen uuid_rank) (OrderRepo_ListAllOpen uuid_rank)"
proof -
  show "implements id (rows_OutcomeRepo_ListByMarket i) (OutcomeRepo_ListByMarket i)"
    "implements id (rows_PositionRepo_ListByUser i) (PositionRepo_ListByUser i)"
    "implements id (rows_PositionRepo_ListByMarket i) (PositionRepo_ListByMarket i)"
    unfolding rows_OutcomeRepo_ListByMarket_def OutcomeRepo_ListByMarket_def sql_ListOutcomesByMarket_def outcomes_of_def
      rows_PositionRepo_ListByUser_def PositionRepo_ListByUser_def sql_ListPositionsByUser_def
      rows_PositionRepo_ListByMarket_def PositionRepo_ListByMarket_def sql_ListPositionsByMarket_def
    by (rule implements_converted, rule implements_query, simp add: row_lists)+
  show "implements id (rows_OrderRepo_ListOpenByMarket i) (OrderRepo_ListOpenByMarket i)"
    unfolding rows_OrderRepo_ListOpenByMarket_def OrderRepo_ListOpenByMarket_def sql_ListOpenOrdersByMarket_def
    by (rule implements_converted, rule implements_query) (simp add: row_lists open_filters)
  show "implements id (rows_OrderRepo_ListAllOpen uuid_rank) (OrderRepo_ListAllOpen uuid_rank)"
    unfolding rows_OrderRepo_ListAllOpen_def OrderRepo_ListAllOpen_def sql_ListAllOpenOrders_def
    by (rule implements_converted, rule implements_query) (simp add: row_lists open_filters)
qed

text \<open>A count and then a page.\<close>

lemma implements_counted:
  assumes "\<And>r. rows_ok r \<Longrightarrow> c (db_of r) = cr r" and "\<And>r. rows_ok r \<Longrightarrow> f (db_of r) = map h (fr r)"
  shows "implements id
     (bnd (wrapped what1 (row_query cr)) (\<lambda>total. bnd (wrapped what2 (row_page (int32 limit) (int32 offset) fr)) (\<lambda>rows. ret (map h rows, total))))
     (bnd (query what1 c) (\<lambda>total. bnd (page_query what2 limit offset f) (\<lambda>xs. ret (xs, total))))"
proof (rule implements_bnd)
  show "implements id (wrapped what1 (row_query cr)) (query what1 c)"
    using assms(1) by (intro implements_query) simp
  fix total
  show "implements id (bnd (wrapped what2 (row_page (int32 limit) (int32 offset) fr)) (\<lambda>rows. ret (map h rows, total)))
      (bnd (page_query what2 limit offset f) (\<lambda>xs. ret (xs, id total)))"
    by (rule implements_bnd, rule implements_page) (auto simp: assms(2) intro: implementing)
qed

lemma sql_pages:
  "implements id (rows_OrderRepo_ListByUser i l k) (OrderRepo_ListByUser i l k)"
  "implements id (rows_TradeRepo_ListByMarket i l k) (TradeRepo_ListByMarket i l k)"
  "implements id (rows_TradeRepo_ListByUser i l k) (TradeRepo_ListByUser i l k)"
  unfolding rows_OrderRepo_ListByUser_def OrderRepo_ListByUser_def sql_CountOrdersByUser_def sql_ListOrdersByUser_def
    rows_TradeRepo_ListByMarket_def TradeRepo_ListByMarket_def sql_CountTradesByMarket_def sql_ListTradesByMarket_def
    rows_TradeRepo_ListByUser_def TradeRepo_ListByUser_def sql_CountTradesByUser_def sql_ListTradesByUser_def
    page_limit_def page_offset_def Let_def
  by (rule implements_counted; simp add: row_lists)+

lemma sql_filtered_pages:
  "implements id (rows_UserRepo_List uflt) (UserRepo_List uflt)"
  "implements id (rows_MarketRepo_List mflt) (MarketRepo_List mflt)"
  unfolding rows_UserRepo_List_def UserRepo_List_def sql_CountUsers_def sql_ListUsers_def
    rows_MarketRepo_List_def MarketRepo_List_def sql_CountMarkets_def sql_ListMarkets_def page_limit_def page_offset_def Let_def
  by (rule implements_counted; simp add: row_lists count_where_def matching_rows cong: filter_cong)+

text \<open>Markets: the identifier of the winner has to be a UUID in canonical form, or it is lost on the way.\<close>

lemma resolved_sent:
  assumes "pred_option canonical_uuid (m_ResolvedOutcomeID m)"
  shows "resolved_row (uuidFromOptionalString (m_ResolvedOutcomeID m)) r \<longleftrightarrow> resolved_ok m (db_of r)"
  using assms
  by (auto simp: resolved_row_def resolved_ok_def uuidFromOptionalString_def canonical_uuid_def row_keys parseUUID_def
      Let_def length_uuid_bytes split: option.splits if_splits)

lemma market_checks_sent:
  assumes "pred_option canonical_uuid (m_ResolvedOutcomeID m)"
  shows "market_checks (CreateMarketParams m) r \<longleftrightarrow> user_row (m_CreatorID m) r \<and> resolved_ok m (db_of r) \<and>
    length (m_Title m) \<le> 500 \<and> length (m_Category m) \<le> 100"
  by (simp add: market_checks_def texts_checked resolved_sent[OF assms] del: insert_iff)

lemma market_checks_length: "market_checks arg r \<Longrightarrow> pred_option (\<lambda>b. length b = 16) (qm_ResolvedOutcomeID arg)"
  by (auto simp: market_checks_def dest: resolved_row_length)

lemma set_market_rows:
  assumes "pred_option canonical_uuid (m_ResolvedOutcomeID m)"
  shows "set_market m (db_of r) = (db_of r)\<lparr>db_markets := map marketFromGetRow (map (\<lambda>x. if qm_ID x = m_ID m
      then CreateMarketParams m\<lparr>qm_CreatedAt := qm_CreatedAt x\<rparr> else x) (rw_markets r))\<rparr>"
proof -
  have "marketFromGetRow (CreateMarketParams m\<lparr>qm_CreatedAt := t\<rparr>) = m\<lparr>m_CreatedAt := tstz_Time t\<rparr>" for t
    using written_read_back(7)[OF assms] by (simp add: marketFromGetRow_def) (cases m, simp)
  then show ?thesis by (auto simp: set_market_def)
qed

lemma sql_market_writes:
  assumes "pred_option canonical_uuid (m_ResolvedOutcomeID m)"
  shows "implements id (rows_MarketRepo_Create m) (MarketRepo_Create m)"
    and "implements id (rows_MarketRepo_Update m) (MarketRepo_Update m)"
proof -
  show "implements id (rows_MarketRepo_Create m) (MarketRepo_Create m)"
    unfolding rows_MarketRepo_Create_def MarketRepo_Create_def sql_CreateMarket_def
    by (rule implements_execute)
      (simp add: row_keys market_checks_sent[OF assms] del: db_of_tables, simp add: assms,
       use market_checks_length[of "CreateMarketParams m"] in \<open>auto simp: rows_ok_defs\<close>)
  show "implements id (rows_MarketRepo_Update m) (MarketRepo_Update m)"
    unfolding rows_MarketRepo_Update_def MarketRepo_Update_def sql_UpdateMarket_def
    by (rule implements_update)
      (simp add: row_keys market_checks_sent[OF assms] del: db_of_tables, simp add: row_lists set_market_rows[OF assms],
       use market_checks_length[of "CreateMarketParams m"] in \<open>auto simp: rows_ok_defs market_row_def list_ex_iff\<close>)
qed

lemma sql_outcome_batch: "implements id (rows_OutcomeRepo_CreateBatch cs) (OutcomeRepo_CreateBatch cs)"
proof (cases "cs = []")
  case True
  then show ?thesis by (simp add: rows_OutcomeRepo_CreateBatch_def OutcomeRepo_CreateBatch_def implements_ret)
next
  case False
  let ?ps = "map (\<lambda>x. x\<lparr>oc_Index := int32 (oc_Index x)\<rparr>) cs"
  have "distinct (map oc_ID (db_outcomes (db_of r) @ ?ps)) \<longleftrightarrow> distinct (map qc_ID (rw_outcomes r @ map CreateOutcomeBatchParams cs))"
    "distinct (map (\<lambda>x. (oc_MarketID x, oc_Index x)) (db_outcomes (db_of r) @ ?ps)) \<longleftrightarrow>
       distinct (map (\<lambda>c. (qc_MarketID c, qc_Index c)) (rw_outcomes r @ map CreateOutcomeBatchParams cs))" for r :: "'a rows"
    by (simp_all add: o_def)
  moreover have "oc_MarketID ` set ?ps \<subseteq> m_ID ` set (db_markets (db_of r)) \<and> (\<forall>x \<in> set ?ps. length (oc_Label x) \<le> 200) \<longleftrightarrow>
      list_all (\<lambda>c. market_row (qc_MarketID c) r \<and> length (qc_Label c) \<le> 200) (map CreateOutcomeBatchParams cs)" for r :: "'a rows"
    by (auto simp: list_all_iff image_image image_subset_iff row_keys simp del: db_of_tables)
  ultimately show ?thesis
    unfolding rows_OutcomeRepo_CreateBatch_def OutcomeRepo_CreateBatch_def sql_CreateOutcomeBatch_def Let_def if_not_P[OF False]
    by (intro implements_execute) (simp_all only:, simp_all, auto simp: rows_ok_defs)
qed

lemma position_rows:
  "same_position (positionFromModel q) p \<longleftrightarrow> conflicts q (UpsertPositionParams p)"
  by (simp add: same_position_def conflicts_def)

lemma upsert_rows:
  "upsert_position p (db_of r) = db_of (if list_ex (\<lambda>q. conflicts q (UpsertPositionParams p)) (rw_positions r)
     then r\<lparr>rw_positions := map (\<lambda>q. if conflicts q (UpsertPositionParams p)
         then q\<lparr>qp_Quantity := p_Quantity p, qp_AvgPrice := p_AvgPrice p, qp_UpdatedAt := Some (p_UpdatedAt p)\<rparr>
         else q) (rw_positions r)\<rparr>
     else r\<lparr>rw_positions := rw_positions r @ [UpsertPositionParams p]\<rparr>)"
proof -
  have "positionFromModel (q\<lparr>qp_Quantity := p_Quantity p, qp_AvgPrice := p_AvgPrice p, qp_UpdatedAt := Some (p_UpdatedAt p)\<rparr>) =
      (positionFromModel q)\<lparr>p_Quantity := p_Quantity p, p_AvgPrice := p_AvgPrice p, p_UpdatedAt := p_UpdatedAt p\<rparr>" for q
    by (simp add: positionFromModel_def tstz_Time_def)
  then show ?thesis by (auto simp: upsert_position_def position_rows list_ex_iff)
qed

lemma sql_upsert: "implements id (rows_PositionRepo_Upsert p) (PositionRepo_Upsert p)"
  unfolding rows_PositionRepo_Upsert_def PositionRepo_Upsert_def sql_UpsertPosition_def
proof (rule implements_execute)
  fix r :: "'a rows"
  show "parties_exist (p_UserID p) (p_MarketID p) (p_OutcomeID p) (db_of r) \<and>
      ((\<exists>q \<in> set (db_positions (db_of r)). same_position q p) \<or> p_ID p \<notin> p_ID ` set (db_positions (db_of r))) \<longleftrightarrow>
    user_row (qp_UserID (UpsertPositionParams p)) r \<and> market_row (qp_MarketID (UpsertPositionParams p)) r \<and>
      outcome_row (qp_OutcomeID (UpsertPositionParams p)) r \<and>
      (list_ex (\<lambda>q. conflicts q (UpsertPositionParams p)) (rw_positions r) \<or>
       list_all (\<lambda>q. qp_ID q \<noteq> qp_ID (UpsertPositionParams p)) (rw_positions r)) \<and> qp_UpdatedAt (UpsertPositionParams p) \<noteq> None"
    unfolding parties_exist_def row_keys by (auto simp: position_rows list_ex_iff)
qed (simp add: upsert_rows, auto simp: rows_ok_defs)

section \<open>Property\<close>

text \<open>
  C7: on a database whose rows pass the checks of the schema, each method of the repositories over the
  generated queries, in and outside transactions, has the result and the error of the operation on domain values
  that the rest of the development is about, leaves the rows that stand for its tables, and they pass the
  checks again. For a market that is written, the identifier of its winner, if any, must be a UUID in
  canonical form.
\<close>

theorem repositories_refine_rows:
  assumes "pred_option canonical_uuid (m_ResolvedOutcomeID m)"
  shows "implements id (rows_UserRepo_Create u) (UserRepo_Create u) \<and>
    implements id (rows_UserRepo_GetByID i) (UserRepo_GetByID i) \<and>
    implements id (rows_UserRepo_GetByWallet a) (UserRepo_GetByWallet a) \<and>
    implements id (rows_UserRepo_UpdateBalance i b l) (UserRepo_UpdateBalance i b l) \<and>
    implements id (rows_UserRepo_List uflt) (UserRepo_List uflt) \<and>
    implements id (rows_MarketRepo_Create m) (MarketRepo_Create m) \<and>
    implements id (rows_MarketRepo_GetByID i) (MarketRepo_GetByID i) \<and>
    implements id (rows_MarketRepo_Update m) (MarketRepo_Update m) \<and>
    implements id (rows_MarketRepo_List mflt) (MarketRepo_List mflt) \<and>
    implements id (rows_OutcomeRepo_CreateBatch cs) (OutcomeRepo_CreateBatch cs) \<and>
    implements id (rows_OutcomeRepo_ListByMarket i) (OutcomeRepo_ListByMarket i) \<and>
    implements id (rows_OutcomeRepo_SetWinner i) (OutcomeRepo_SetWinner i) \<and>
    implements id (rows_OrderRepo_Create x) (OrderRepo_Create x) \<and>
    implements id (rows_OrderRepo_GetByID i) (OrderRepo_GetByID i) \<and>
    implements id (rows_OrderRepo_UpdateStatus i st fl) (OrderRepo_UpdateStatus i st fl) \<and>
    implements id (rows_OrderRepo_ListOpenByMarket i) (OrderRepo_ListOpenByMarket i) \<and>
    implements id (rows_OrderRepo_ListAllOpen uuid_rank) (OrderRepo_ListAllOpen uuid_rank) \<and>
    implements id (rows_OrderRepo_ListByUser i n k) (OrderRepo_ListByUser i n k) \<and>
    implements id (rows_OrderRepo_CancelAllByMarket i) (OrderRepo_CancelAllByMarket i) \<and>
    implements id (rows_TradeRepo_Create t) (TradeRepo_Create t) \<and>
    implements id (rows_TradeRepo_ListByMarket i n k) (TradeRepo_ListByMarket i n k) \<and>
    implements id (rows_TradeRepo_ListByUser i n k) (TradeRepo_ListByUser i n k) \<and>
    implements id (rows_TradeRepo_CreateMintTx mtx) (TradeRepo_CreateMintTx mtx) \<and>
    implements id (rows_PositionRepo_Upsert p) (PositionRepo_Upsert p) \<and>
    implements id (rows_PositionRepo_GetByUserAndOutcome i j) (PositionRepo_GetByUserAndOutcome i j) \<and>
    implements id (rows_PositionRepo_ListByUser i) (PositionRepo_ListByUser i) \<and>
    implements id (rows_PositionRepo_ListByMarket i) (PositionRepo_ListByMarket i) \<and>
    (implements h c d \<longrightarrow> implements h (rows_WithTx c) (WithTx d))"
  by (intro conjI impI sql_inserts sql_user_gets sql_updates sql_filtered_pages sql_market_writes assms sql_gets
      sql_outcome_batch sql_lists sql_order_updates sql_pages sql_upsert implements_WithTx)

text \<open>A market of one outcome, which wins.\<close>

definition ex_winner :: string where
  "ex_winner = ''00000000-0000-0000-0000-00000000000a''"

definition ex_won :: Market where
  "ex_won = \<lparr>m_ID = ''m'', m_Title = ''rain'', m_Description = '''', m_Category = ''weather'', m_MarketType = Binary,
     m_Status = MResolved, m_CreatorID = ''ann'', m_ResolvedOutcomeID = Some ex_winner, m_CreatedAt = 1, m_UpdatedAt = 9,
     m_ClosesAt = None\<rparr>"

definition ex_rows :: "rat rows" where
  "ex_rows =
     \<lparr>rw_users = [\<lparr>qu_ID = ''ann'', qu_WalletAddress = Some ''0x1'', qu_UserType = ''human'', qu_Balance = 5, qu_LockedBalance = 0,
        qu_IsAdmin = False, qu_CreatedAt = Some 0\<rparr>],
      rw_markets = [\<lparr>qm_ID = ''m'', qm_Title = ''rain'', qm_Description = '''', qm_Category = ''weather'', qm_MarketType = ''binary'',
        qm_Status = ''closed'', qm_CreatedBy = ''ann'', qm_ResolvedOutcomeID = None, qm_CreatedAt = Some 1, qm_UpdatedAt = Some 2,
        qm_EndTime = None\<rparr>],
      rw_outcomes = [\<lparr>qc_ID = ex_winner, qc_MarketID = ''m'', qc_Label = ''yes'', qc_Index = 0, qc_IsWinner = False\<rparr>],
      rw_orders = [], rw_trades = [], rw_positions = [], rw_mints = []\<rparr>"

definition ex_row_node :: "rat row_node" where
  "ex_row_node = \<lparr>rn_rows = ex_rows, rn_tx = NoTx,
     rn_world = \<lparr>w_uuid = (\<lambda>n. replicate n CHR ''u''), w_clock = int, w_fault = (\<lambda>_. False), w_nuuid = 0, w_nclock = 0, w_nfault = 0\<rparr>\<rparr>"

lemma ex_won_stored:
  "(\<lambda>(r, s). (r, map qm_Status (rw_markets (rn_rows s)), map qm_CreatedAt (rw_markets (rn_rows s)),
      map qm_ResolvedOutcomeID (rw_markets (rn_rows s)))) (rows_MarketRepo_Update ex_won ex_row_node) =
   (Inr (), [''resolved''], [Some 1], [Some (replicate 15 0 @ [10])])"
  by code_simp

theorem repositories_refine_rows_witness:
  "\<exists>s'. rows_MarketRepo_Update ex_won ex_row_node = (Inr (), s') \<and>
     MarketRepo_Update ex_won (node_of ex_row_node) = (Inr (), node_of s') \<and>
     map qm_ResolvedOutcomeID (rw_markets (rn_rows s')) = [Some (replicate 15 0 @ [10])]"
proof -
  have "canonical_uuid ex_winner" by code_simp
  then have m: "pred_option canonical_uuid (m_ResolvedOutcomeID ex_won)" by (simp add: ex_won_def)
  have ok: "rows_ok (rn_rows ex_row_node)"
    by (simp add: ex_row_node_def ex_rows_def rows_ok_defs enum_defs)
  obtain s' where s': "rows_MarketRepo_Update ex_won ex_row_node = (Inr (), s')"
    "map qm_ResolvedOutcomeID (rw_markets (rn_rows s')) = [Some (replicate 15 0 @ [10])]"
    using ex_won_stored by (cases "rows_MarketRepo_Update ex_won ex_row_node") simp
  have "implements id (rows_MarketRepo_Update ex_won :: (rat, unit, unit) rowop) (MarketRepo_Update ex_won)"
    by (rule repositories_refine_rows[OF m, THEN conjunct2, THEN conjunct2, THEN conjunct2, THEN conjunct2, THEN conjunct2,
          THEN conjunct2, THEN conjunct2, THEN conjunct1])
  from implementsD(1)[OF this ok s'(1)] s' show ?thesis by simp
qed

end
