(* ===== verification/KeyRows.thy ===== *)
theory KeyRows
  imports SqlRefinement
begin

text \<open>
  The rows of the API keys, the queries of \<open>sqlcgen/api_keys.sql.go\<close>, and \<open>infra/postgres/apikey_repo.go\<close>
  over them: each method does what the operation of \<open>Auth\<close> does on the keys the rows stand for.
\<close>

section \<open>Rows and queries\<close>

record KeyRow =
  qk_ID :: string
  qk_UserID :: string
  qk_KeyHash :: string
  qk_KeyPrefix :: string
  qk_IsActive :: bool
  qk_ExpiresAt :: "time option"
  qk_CreatedAt :: "time option"

record 'd key_node = "'d node" +
  kn_keys :: "KeyRow list"
  kn_redis :: redis
  kn_random :: "nat \<Rightarrow> nat \<Rightarrow> char"
  kn_nrandom :: nat

type_synonym ('d, 'a) keyop = "('d key_node, err, 'a) comp"

definition key_row_statement ::
    "('d DB \<Rightarrow> KeyRow list \<Rightarrow> bool) \<Rightarrow> (KeyRow list \<Rightarrow> 'a \<times> KeyRow list) \<Rightarrow> ('d, 'a) keyop" where
  "key_row_statement ok f s =
     (let (bad, w) = next_fault (n_world s) in
      if bad \<or> \<not> ok (n_db s) (kn_keys s) then (Inl DriverError, s\<lparr>n_world := w\<rparr>)
      else let (x, keys) = f (kn_keys s) in (Inr x, s\<lparr>n_world := w, kn_keys := keys\<rparr>))"

definition sql_CreateAPIKey :: "KeyRow \<Rightarrow> ('d, unit) keyop" where
  "sql_CreateAPIKey arg =
     key_row_statement
       (\<lambda>db keys. list_all (\<lambda>k. qk_ID k \<noteq> qk_ID arg \<and> qk_KeyHash k \<noteq> qk_KeyHash arg) keys \<and>
          list_ex (\<lambda>u. u_ID u = qk_UserID arg) (db_users db) \<and> length (qk_KeyHash arg) \<le> 64 \<and>
          length (qk_KeyPrefix arg) \<le> 10 \<and> qk_CreatedAt arg \<noteq> None)
       (\<lambda>keys. ((), keys @ [arg]))"

definition sql_GetAPIKeyByHash :: "string \<Rightarrow> ('d, KeyRow) keyop" where
  "sql_GetAPIKeyByHash hash =
     bnd (key_row_statement (\<lambda>_ _. True) (\<lambda>keys. (find (\<lambda>k. qk_KeyHash k = hash) keys, keys)))
       (\<lambda>row. case row of None \<Rightarrow> fail ErrNoRows | Some k \<Rightarrow> ret k)"

definition sql_ListAPIKeysByUser :: "string \<Rightarrow> ('d, KeyRow list) keyop" where
  "sql_ListAPIKeysByUser userID =
     key_row_statement (\<lambda>_ _. True)
       (\<lambda>keys. (sort_key (\<lambda>k. - tstz_Time (qk_CreatedAt k)) (filter (\<lambda>k. qk_UserID k = userID) keys), keys))"

definition sql_RevokeAPIKey :: "string \<Rightarrow> ('d, nat) keyop" where
  "sql_RevokeAPIKey i =
     key_row_statement (\<lambda>_ _. True)
       (\<lambda>keys. (count_where (\<lambda>k. qk_ID k = i) keys, map (\<lambda>k. if qk_ID k = i then k\<lparr>qk_IsActive := False\<rparr> else k) keys))"

section \<open>The repository\<close>

definition apikeyFromRow :: "KeyRow \<Rightarrow> APIKey" where
  "apikeyFromRow r =
     \<lparr>ak_ID = qk_ID r, ak_UserID = qk_UserID r, ak_KeyHash = qk_KeyHash r, ak_KeyPrefix = qk_KeyPrefix r,
      ak_IsActive = qk_IsActive r, ak_ExpiresAt = optionalTimeFromTstz (qk_ExpiresAt r), ak_CreatedAt = tstz_Time (qk_CreatedAt r)\<rparr>"

definition CreateAPIKeyParams :: "APIKey \<Rightarrow> KeyRow" where
  "CreateAPIKeyParams k =
     \<lparr>qk_ID = ak_ID k, qk_UserID = ak_UserID k, qk_KeyHash = ak_KeyHash k, qk_KeyPrefix = ak_KeyPrefix k,
      qk_IsActive = ak_IsActive k, qk_ExpiresAt = tstzFromOptional (ak_ExpiresAt k), qk_CreatedAt = tstz (ak_CreatedAt k)\<rparr>"

definition rows_APIKeyRepo_Create :: "APIKey \<Rightarrow> ('d, unit) keyop" where
  "rows_APIKeyRepo_Create key = wrapped ''postgres: create api key'' (sql_CreateAPIKey (CreateAPIKeyParams key))"

definition rows_APIKeyRepo_GetByHash :: "string \<Rightarrow> ('d, APIKey) keyop" where
  "rows_APIKeyRepo_GetByHash hash =
     bnd (wrapped ''postgres: get api key by hash'' (sql_GetAPIKeyByHash hash)) (\<lambda>row. ret (apikeyFromRow row))"

definition rows_APIKeyRepo_ListByUser :: "string \<Rightarrow> ('d, APIKey list) keyop" where
  "rows_APIKeyRepo_ListByUser userID =
     bnd (wrapped ''postgres: list api keys by user'' (sql_ListAPIKeysByUser userID)) (\<lambda>rows. ret (map apikeyFromRow rows))"

definition rows_APIKeyRepo_Revoke :: "string \<Rightarrow> ('d, unit) keyop" where
  "rows_APIKeyRepo_Revoke i =
     wrapped ''postgres: revoke api key'' (bnd (sql_RevokeAPIKey i) (\<lambda>n. check (n \<noteq> 0) ErrNoRows))"

section \<open>Refinement\<close>

definition keys_of :: "'d key_node \<Rightarrow> 'd auth_node" where
  "keys_of s = \<lparr>n_db = n_db s, n_tx = n_tx s, n_world = n_world s, an_keys = map apikeyFromRow (kn_keys s),
     an_redis = kn_redis s, an_random = kn_random s, an_nrandom = kn_nrandom s\<rparr>"

definition key_implements :: "('b \<Rightarrow> 'a) \<Rightarrow> ('d, 'b) keyop \<Rightarrow> ('d, 'a) aop \<Rightarrow> bool" where
  "key_implements h c m \<longleftrightarrow> (\<forall>s. m (keys_of s) = (map_sum id h (fst (c s)), keys_of (snd (c s))))"

lemma key_fields [simp]:
  "ak_ID (apikeyFromRow k) = qk_ID k" "ak_UserID (apikeyFromRow k) = qk_UserID k" "ak_KeyHash (apikeyFromRow k) = qk_KeyHash k"
  "ak_CreatedAt (apikeyFromRow k) = tstz_Time (qk_CreatedAt k)" "apikeyFromRow (CreateAPIKeyParams key) = key"
  "qk_ID (CreateAPIKeyParams key) = ak_ID key" "qk_UserID (CreateAPIKeyParams key) = ak_UserID key"
  "qk_KeyHash (CreateAPIKeyParams key) = ak_KeyHash key" "qk_KeyPrefix (CreateAPIKeyParams key) = ak_KeyPrefix key"
  "qk_CreatedAt (CreateAPIKeyParams key) = Some (ak_CreatedAt key)"
  by (simp_all add: apikeyFromRow_def CreateAPIKeyParams_def tstz_def tstz_Time_def)

lemma key_implements_statement:
  assumes "\<And>db keys. ok db (map apikeyFromRow keys) \<longleftrightarrow> okr db keys"
    and "\<And>keys. f (map apikeyFromRow keys) = (h (fst (fr keys)), map apikeyFromRow (snd (fr keys)))"
  shows "key_implements h (wrapped what (key_row_statement okr fr)) (key_statement what ok f)"
  using assms
  by (auto simp: key_implements_def key_row_statement_def key_statement_def keys_of_def wrapped_def handle_def fail_def
      Let_def case_prod_unfold)

lemma key_implements_bnd:
  assumes "key_implements h c m" and "\<And>x. key_implements k (f x) (g (h x))"
  shows "key_implements k (bnd c f) (bnd m g)"
  using assms by (auto simp: key_implements_def bnd_def split: prod.splits sum.splits)

lemma key_implements_simple:
  "key_implements id (check b e) (check b e)" "key_implements h (fail e) (fail e)" "y = h x \<Longrightarrow> key_implements h (ret x) (ret y)"
  by (auto simp: key_implements_def check_def ret_def fail_def)

lemma key_implements_converted: "key_implements h c m \<Longrightarrow> key_implements id (bnd c (\<lambda>x. ret (h x))) m"
  by (auto simp: key_implements_def bnd_def ret_def split: prod.splits sum.splits)

lemma key_implements_lookup:
  "key_implements apikeyFromRow (wrapped ''postgres: get api key by hash'' (sql_GetAPIKeyByHash hash)) (APIKeyRepo_GetByHash hash)"
  unfolding APIKeyRepo_GetByHash_def sql_GetAPIKeyByHash_def wrapped_bnd
proof (rule key_implements_bnd[where h = "map_option apikeyFromRow"])
  show "key_implements (map_option apikeyFromRow)
      (wrapped ''postgres: get api key by hash'' (key_row_statement (\<lambda>_ _. True) (\<lambda>keys. (find (\<lambda>k. qk_KeyHash k = hash) keys, keys))))
      (key_statement ''postgres: get api key by hash'' (\<lambda>_ _. True) (\<lambda>keys. (find (\<lambda>k. ak_KeyHash k = hash) keys, keys)))"
    by (rule key_implements_statement) (simp_all add: row_lists)
qed (auto simp: wrapped_simps intro: key_implements_simple split: option.split)

lemma revoke_key_rows:
  "revoke_key i (map apikeyFromRow keys) = map apikeyFromRow (map (\<lambda>k. if qk_ID k = i then k\<lparr>qk_IsActive := False\<rparr> else k) keys)"
  by (auto simp: revoke_key_def apikeyFromRow_def)

lemma key_repository_refines:
  "key_implements id (rows_APIKeyRepo_Create key) (APIKeyRepo_Create key)"
  "key_implements id (rows_APIKeyRepo_GetByHash hash) (APIKeyRepo_GetByHash hash)"
  "key_implements id (rows_APIKeyRepo_ListByUser i) (APIKeyRepo_ListByUser i)"
  "key_implements id (rows_APIKeyRepo_Revoke i) (APIKeyRepo_Revoke i)"
proof -
  show "key_implements id (rows_APIKeyRepo_Create key) (APIKeyRepo_Create key)"
    unfolding rows_APIKeyRepo_Create_def APIKeyRepo_Create_def sql_CreateAPIKey_def
    by (rule key_implements_statement) (force simp: list_all_iff list_ex_iff image_iff, simp)
  show "key_implements id (rows_APIKeyRepo_GetByHash hash) (APIKeyRepo_GetByHash hash)"
    unfolding rows_APIKeyRepo_GetByHash_def by (rule key_implements_converted[OF key_implements_lookup])
  show "key_implements id (rows_APIKeyRepo_ListByUser i) (APIKeyRepo_ListByUser i)"
    unfolding rows_APIKeyRepo_ListByUser_def APIKeyRepo_ListByUser_def sql_ListAPIKeysByUser_def
    by (intro key_implements_converted key_implements_statement) (simp_all add: row_lists)
  show "key_implements id (rows_APIKeyRepo_Revoke i) (APIKeyRepo_Revoke i)"
    unfolding rows_APIKeyRepo_Revoke_def APIKeyRepo_Revoke_def sql_RevokeAPIKey_def wrapped_bnd wrapped_simps
    by (intro key_implements_bnd[where h = id] key_implements_statement)
      (auto simp: row_lists revoke_key_rows simp del: map_map intro: key_implements_simple)
qed

end
