(* ===== verification/EventBus.thy ===== *)
theory EventBus
  imports Redis "HOL-Library.Sublist"
begin

text \<open>
  The event bus of \<open>infra/redis/publisher.go\<close>: \<open>Publish\<close>, \<open>Subscribe\<close> with the goroutine it starts, and
  \<open>Close\<close>. Redis delivers a message to the subscriptions that are connected when it arrives, or loses it;
  which of them a message reaches is an argument, and so is JSON. The calls of a handler are recorded.
\<close>

section \<open>State\<close>

text \<open>A subscription: its channel, whether it was closed, the messages not yet read, the events handled.\<close>

record pubsub =
  ps_topic :: string
  ps_open :: bool
  ps_queue :: "string list"
  ps_handled :: "DomainEvent list"

text \<open>\<open>RedisEventBus\<close>: all subscriptions ever made, and which of them \<open>subs\<close> holds.\<close>

record event_bus =
  eb_pubsubs :: "pubsub list"
  eb_subs :: "nat list"

definition NewEventBus :: event_bus where
  "NewEventBus = \<lparr>eb_pubsubs = [], eb_subs = []\<rparr>"

section \<open>Operations\<close>

definition receives :: "string \<Rightarrow> string \<Rightarrow> bool \<Rightarrow> pubsub \<Rightarrow> pubsub" where
  "receives topic data reached p =
     (if ps_open p \<and> ps_topic p = topic \<and> reached then p\<lparr>ps_queue := ps_queue p @ [data]\<rparr> else p)"

definition RedisEventBus_Publish ::
    "(DomainEvent \<Rightarrow> string option) \<Rightarrow> bool \<Rightarrow> (nat \<Rightarrow> bool) \<Rightarrow> string \<Rightarrow> DomainEvent \<Rightarrow> event_bus \<Rightarrow> (err + unit) \<times> event_bus" where
  "RedisEventBus_Publish marshal failed reaches topic ev b =
     (case marshal ev of
        None \<Rightarrow> (Inl (Errorf ''marshal event'' (Some DriverError)), b)
      | Some data \<Rightarrow>
          (if failed then Inl DriverError else Inr (),
           b\<lparr>eb_pubsubs := map (\<lambda>(k, p). receives topic data (reaches k) p) (enumerate 0 (eb_pubsubs b))\<rparr>))"

definition RedisEventBus_Subscribe :: "string \<Rightarrow> event_bus \<Rightarrow> event_bus" where
  "RedisEventBus_Subscribe topic b =
     \<lparr>eb_pubsubs = eb_pubsubs b @ [\<lparr>ps_topic = topic, ps_open = True, ps_queue = [], ps_handled = []\<rparr>],
      eb_subs = eb_subs b @ [length (eb_pubsubs b)]\<rparr>"

text \<open>
  One round of the loop of a subscription: a message that is no event is skipped, the error of the handler
  is ignored. What was read before the connection closed is still handled.
\<close>

definition handle_next :: "(string \<Rightarrow> DomainEvent option) \<Rightarrow> pubsub \<Rightarrow> pubsub" where
  "handle_next unmarshal p =
     (case ps_queue p of
        [] \<Rightarrow> p
      | data # rest \<Rightarrow>
          (case unmarshal data of
             None \<Rightarrow> p\<lparr>ps_queue := rest\<rparr>
           | Some ev \<Rightarrow> p\<lparr>ps_queue := rest, ps_handled := ps_handled p @ [ev]\<rparr>))"

definition Subscribe_loop :: "(string \<Rightarrow> DomainEvent option) \<Rightarrow> nat \<Rightarrow> event_bus \<Rightarrow> event_bus" where
  "Subscribe_loop unmarshal k b =
     (if k < length (eb_pubsubs b) then b\<lparr>eb_pubsubs := (eb_pubsubs b)[k := handle_next unmarshal (eb_pubsubs b ! k)]\<rparr> else b)"

text \<open>Every subscription is closed, whatever the others report; the first error is returned.\<close>

definition RedisEventBus_Close :: "(nat \<Rightarrow> err option) \<Rightarrow> event_bus \<Rightarrow> (err + unit) \<times> event_bus" where
  "RedisEventBus_Close errs b =
     (case List.map_filter errs (eb_subs b) of [] \<Rightarrow> Inr () | e # _ \<Rightarrow> Inl e,
      b\<lparr>eb_pubsubs := map (\<lambda>(k, p). if k \<in> set (eb_subs b) then p\<lparr>ps_open := False\<rparr> else p) (enumerate 0 (eb_pubsubs b)),
        eb_subs := []\<rparr>)"

section \<open>Runs\<close>

datatype bus_action =
    Publish string DomainEvent bool "nat \<Rightarrow> bool"
  | Subscribe string
  | Next nat
  | CloseBus "nat \<Rightarrow> err option"

definition bus_step :: "(DomainEvent \<Rightarrow> string option) \<Rightarrow> (string \<Rightarrow> DomainEvent option) \<Rightarrow> bus_action \<Rightarrow> event_bus \<Rightarrow> event_bus" where
  "bus_step marshal unmarshal act b =
     (case act of
        Publish topic ev failed reaches \<Rightarrow> snd (RedisEventBus_Publish marshal failed reaches topic ev b)
      | Subscribe topic \<Rightarrow> RedisEventBus_Subscribe topic b
      | Next k \<Rightarrow> Subscribe_loop unmarshal k b
      | CloseBus errs \<Rightarrow> snd (RedisEventBus_Close errs b))"

definition bus_run :: "(DomainEvent \<Rightarrow> string option) \<Rightarrow> (string \<Rightarrow> DomainEvent option) \<Rightarrow> bus_action list \<Rightarrow> event_bus" where
  "bus_run marshal unmarshal acts = fold (bus_step marshal unmarshal) acts NewEventBus"

text \<open>The events sent to a topic, and how many subscriptions were made.\<close>

fun sent :: "(DomainEvent \<Rightarrow> string option) \<Rightarrow> string \<Rightarrow> bus_action list \<Rightarrow> DomainEvent list" where
  "sent marshal topic (Publish t ev failed reaches # acts) =
     (if t = topic \<and> marshal ev \<noteq> None then ev # sent marshal topic acts else sent marshal topic acts)"
| "sent marshal topic (_ # acts) = sent marshal topic acts"
| "sent marshal topic [] = []"

definition is_subscribe :: "bus_action \<Rightarrow> bool" where
  "is_subscribe act = (case act of Subscribe _ \<Rightarrow> True | _ \<Rightarrow> False)"

text \<open>An action that neither closes the subscription \<open>k\<close> nor loses a message for it.\<close>

definition keeps_subscription :: "nat \<Rightarrow> bus_action \<Rightarrow> bool" where
  "keeps_subscription k act =
     (case act of CloseBus _ \<Rightarrow> False | Publish _ _ _ reaches \<Rightarrow> reaches k | _ \<Rightarrow> True)"

section \<open>What a subscription has received\<close>

definition waiting :: "(string \<Rightarrow> DomainEvent option) \<Rightarrow> pubsub \<Rightarrow> DomainEvent list" where
  "waiting unmarshal p = ps_handled p @ List.map_filter unmarshal (ps_queue p)"

text \<open>JSON gives back what was written.\<close>

definition decodes :: "(DomainEvent \<Rightarrow> string option) \<Rightarrow> (string \<Rightarrow> DomainEvent option) \<Rightarrow> bool" where
  "decodes marshal unmarshal \<longleftrightarrow> (\<forall>ev data. marshal ev = Some data \<longrightarrow> unmarshal data = Some ev)"

lemma map_filter_append: "List.map_filter f (xs @ ys) = List.map_filter f xs @ List.map_filter f ys"
  by (simp add: List.map_filter_def)

lemma waiting_next [simp]: "waiting unmarshal (handle_next unmarshal p) = waiting unmarshal p"
  by (auto simp: waiting_def handle_next_def List.map_filter_simps split: list.splits option.splits)

lemma handle_next_frame [simp]:
  "ps_topic (handle_next unmarshal p) = ps_topic p" "ps_open (handle_next unmarshal p) = ps_open p"
  by (auto simp: handle_next_def split: list.splits option.splits)

lemma length_bus_step:
  "length (eb_pubsubs (bus_step marshal unmarshal act b)) = length (eb_pubsubs b) + (if is_subscribe act then 1 else 0)"
  by (auto simp: bus_step_def is_subscribe_def RedisEventBus_Publish_def RedisEventBus_Subscribe_def Subscribe_loop_def
      RedisEventBus_Close_def split: bus_action.splits option.splits)

lemma length_bus_run: "length (eb_pubsubs (fold (bus_step marshal unmarshal) acts b)) = length (eb_pubsubs b) + length (filter is_subscribe acts)"
  by (induction acts arbitrary: b) (auto simp: length_bus_step)

lemma waiting_receives:
  assumes "decodes marshal unmarshal" and "marshal ev = Some data"
  shows "waiting unmarshal (receives topic data reached p) =
     waiting unmarshal p @ (if ps_open p \<and> ps_topic p = topic \<and> reached then [ev] else [])"
  using assms by (simp add: decodes_def waiting_def receives_def List.map_filter_simps map_filter_append)

lemma receives_frame [simp]: "ps_topic (receives topic data reached p) = ps_topic p" "ps_open (receives topic data reached p) = ps_open p"
  by (simp_all add: receives_def)

text \<open>One step, seen from one subscription.\<close>

lemma bus_step_one:
  assumes k: "k < length (eb_pubsubs b)" and rt: "decodes marshal unmarshal"
    and p: "eb_pubsubs b ! k = p" and q: "eb_pubsubs (bus_step marshal unmarshal act b) ! k = q"
  shows "ps_topic q = ps_topic p \<and>
    (waiting unmarshal q = waiting unmarshal p \<or> waiting unmarshal q = waiting unmarshal p @ sent marshal (ps_topic p) [act]) \<and>
    (keeps_subscription k act \<and> ps_open p \<longrightarrow>
       ps_open q \<and> waiting unmarshal q = waiting unmarshal p @ sent marshal (ps_topic p) [act]) \<and>
    (\<not> ps_open p \<longrightarrow> \<not> ps_open q \<and> waiting unmarshal q = waiting unmarshal p)"
proof (cases act)
  case (Publish topic ev failed reaches)
  with k p q waiting_receives[OF rt, where ev = ev] show ?thesis
    by (cases "marshal ev") (auto simp: bus_step_def RedisEventBus_Publish_def nth_enumerate_eq keeps_subscription_def)
next
  case (Subscribe topic)
  with k p q show ?thesis by (simp add: bus_step_def RedisEventBus_Subscribe_def nth_append)
next
  case (Next j)
  with k p q show ?thesis by (auto simp: bus_step_def Subscribe_loop_def nth_list_update split: if_splits)
next
  case (CloseBus errs)
  with k p q show ?thesis
    by (auto simp: bus_step_def RedisEventBus_Close_def nth_enumerate_eq keeps_subscription_def waiting_def split: if_splits)
qed

lemma sent_Cons: "sent marshal topic (act # acts) = sent marshal topic [act] @ sent marshal topic acts"
  by (cases act) simp_all

lemma sent_append: "sent marshal topic (xs @ ys) = sent marshal topic xs @ sent marshal topic ys"
proof (induction xs)
  case (Cons act xs)
  then show ?case using sent_Cons[of marshal topic act "xs @ ys"] sent_Cons[of marshal topic act xs] by simp
qed simp

lemma sent_Nexts: "sent marshal topic (replicate n (Next k)) = []"
  by (induction n) simp_all

lemma bus_run_one:
  assumes "k < length (eb_pubsubs b)" and rt: "decodes marshal unmarshal"
    and "eb_pubsubs b ! k = p" and "eb_pubsubs (fold (bus_step marshal unmarshal) acts b) ! k = q"
  shows "ps_topic q = ps_topic p \<and>
    (\<exists>es. waiting unmarshal q = waiting unmarshal p @ es \<and> subseq es (sent marshal (ps_topic p) acts) \<and>
      (list_all (keeps_subscription k) acts \<and> ps_open p \<longrightarrow> ps_open q \<and> es = sent marshal (ps_topic p) acts) \<and>
      (\<not> ps_open p \<longrightarrow> \<not> ps_open q \<and> es = []))"
  using assms(1,3,4)
proof (induction acts arbitrary: b p)
  case Nil
  then show ?case by simp
next
  case (Cons act acts)
  let ?b = "bus_step marshal unmarshal act b"
  obtain p1 where p1: "eb_pubsubs ?b ! k = p1" by simp
  note one = bus_step_one[OF Cons.prems(1) rt Cons.prems(2) p1]
  have "k < length (eb_pubsubs ?b)" using Cons.prems(1) by (simp add: length_bus_step)
  from Cons.IH[OF this p1] Cons.prems(3) obtain es where es: "ps_topic q = ps_topic p1"
    "waiting unmarshal q = waiting unmarshal p1 @ es" "subseq es (sent marshal (ps_topic p1) acts)"
    "list_all (keeps_subscription k) acts \<and> ps_open p1 \<longrightarrow> ps_open q \<and> es = sent marshal (ps_topic p1) acts"
    "\<not> ps_open p1 \<longrightarrow> \<not> ps_open q \<and> es = []" by auto
  obtain es0 where es0: "waiting unmarshal p1 = waiting unmarshal p @ es0" "subseq es0 (sent marshal (ps_topic p) [act])"
    "keeps_subscription k act \<and> ps_open p \<longrightarrow> es0 = sent marshal (ps_topic p) [act]" "\<not> ps_open p \<longrightarrow> es0 = []"
  proof (cases "waiting unmarshal p1 = waiting unmarshal p @ sent marshal (ps_topic p) [act]")
    case True
    with one that[of "sent marshal (ps_topic p) [act]"] show ?thesis by auto
  next
    case False
    with one that[of "[]"] show ?thesis by auto
  qed
  have "waiting unmarshal q = waiting unmarshal p @ es0 @ es" "subseq (es0 @ es) (sent marshal (ps_topic p) (act # acts))"
    using es es0 one by (simp_all add: sent_Cons[of marshal _ act acts] list_emb_append_mono)
  moreover have "list_all (keeps_subscription k) (act # acts) \<and> ps_open p \<longrightarrow>
      ps_open q \<and> es0 @ es = sent marshal (ps_topic p) (act # acts)" "\<not> ps_open p \<longrightarrow> \<not> ps_open q \<and> es0 @ es = []"
    using es es0 one by (auto simp: sent_Cons[of marshal _ act acts])
  ultimately show ?case using es(1) one by (intro conjI exI[of _ "es0 @ es"]) simp_all
qed

text \<open>An open subscription is known to the bus, so that \<open>Close\<close> reaches it.\<close>

definition subs_known :: "event_bus \<Rightarrow> bool" where
  "subs_known b \<longleftrightarrow> (\<forall>k < length (eb_pubsubs b). ps_open (eb_pubsubs b ! k) \<longrightarrow> k \<in> set (eb_subs b))"

lemma subs_known_step: "subs_known b \<Longrightarrow> subs_known (bus_step marshal unmarshal act b)"
  by (cases act)
    (auto simp: subs_known_def bus_step_def RedisEventBus_Publish_def RedisEventBus_Subscribe_def Subscribe_loop_def
      RedisEventBus_Close_def nth_enumerate_eq nth_append nth_list_update less_Suc_eq split: option.splits if_splits)

lemma subs_known_run: "subs_known (fold (bus_step marshal unmarshal) acts NewEventBus)"
proof -
  have "subs_known b \<Longrightarrow> subs_known (fold (bus_step marshal unmarshal) acts b)" for b
    by (induction acts arbitrary: b) (simp_all add: subs_known_step)
  then show ?thesis by (simp add: subs_known_def NewEventBus_def)
qed

lemma Next_empties:
  assumes "k < length (eb_pubsubs b)" and "length (ps_queue (eb_pubsubs b ! k)) \<le> n"
  shows "ps_queue (eb_pubsubs (fold (bus_step marshal unmarshal) (replicate n (Next k)) b) ! k) = []"
  using assms
proof (induction n arbitrary: b)
  case (Suc n)
  let ?b = "bus_step marshal unmarshal (Next k) b"
  have "length (ps_queue (eb_pubsubs ?b ! k)) \<le> n"
    using Suc.prems by (auto simp: bus_step_def Subscribe_loop_def handle_next_def split: list.splits option.splits)
  with Suc.IH[of ?b] Suc.prems(1) show ?case by (simp add: length_bus_step)
qed simp

lemma Close_closes:
  assumes "subs_known b" and "k < length (eb_pubsubs b)"
    and r: "eb_pubsubs (bus_step marshal unmarshal (CloseBus errs) b) ! k = r"
  shows "\<not> ps_open r" and "waiting unmarshal r = waiting unmarshal (eb_pubsubs b ! k)"
proof -
  have "r = (if k \<in> set (eb_subs b) then (eb_pubsubs b ! k)\<lparr>ps_open := False\<rparr> else eb_pubsubs b ! k)"
    using assms(2) r by (auto simp: bus_step_def RedisEventBus_Close_def nth_enumerate_eq)
  with assms(1,2) show "\<not> ps_open r" "waiting unmarshal r = waiting unmarshal (eb_pubsubs b ! k)"
    by (auto simp: subs_known_def waiting_def split: if_splits)
qed

lemma handled_subseq: "subseq (waiting unmarshal q) es \<Longrightarrow> subseq (ps_handled q) es"
  by (rule subseq_order.trans[OF prefix_imp_subseq]) (simp_all add: waiting_def)

text \<open>What a new subscription has received, and what it has when the bus was closed in between.\<close>

lemma new_subscription:
  assumes rt: "decodes marshal unmarshal" and k: "k = length (eb_pubsubs b)"
    and p: "eb_pubsubs (fold (bus_step marshal unmarshal) (Subscribe topic # post) b) ! k = p"
  shows "ps_topic p = topic" and "subseq (waiting unmarshal p) (sent marshal topic post)"
    and "list_all (keeps_subscription k) post \<Longrightarrow> waiting unmarshal p = sent marshal topic post"
proof -
  let ?b = "bus_step marshal unmarshal (Subscribe topic) b"
  have "k < length (eb_pubsubs ?b)" "eb_pubsubs ?b ! k = \<lparr>ps_topic = topic, ps_open = True, ps_queue = [], ps_handled = []\<rparr>"
    using k by (simp_all add: bus_step_def RedisEventBus_Subscribe_def nth_append)
  from bus_run_one[OF this(1) rt this(2), of post p] p show "ps_topic p = topic" "subseq (waiting unmarshal p) (sent marshal topic post)"
    "list_all (keeps_subscription k) post \<Longrightarrow> waiting unmarshal p = sent marshal topic post"
    by (auto simp: waiting_def List.map_filter_simps)
qed

lemma closed_subscription:
  assumes rt: "decodes marshal unmarshal" and b: "subs_known b" and k: "k < length (eb_pubsubs b)"
    and p: "eb_pubsubs (fold (bus_step marshal unmarshal) (CloseBus errs # late) b) ! k = p"
  shows "waiting unmarshal p = waiting unmarshal (eb_pubsubs b ! k)"
proof -
  let ?b = "bus_step marshal unmarshal (CloseBus errs) b"
  obtain r where r: "eb_pubsubs ?b ! k = r" by simp
  have "k < length (eb_pubsubs ?b)" using k by (simp add: length_bus_step)
  from bus_run_one[OF this rt r, of late p] p Close_closes[OF b k r] show ?thesis by auto
qed

section \<open>Property\<close>

text \<open>
  C40: a subscription to a topic handles, in the order in which they were published, events published
  to its topic after it was made, each at most once, and none that was published after the bus was closed; while the bus
  stays open and Redis loses nothing for it, it handles all of them, once its loop has read what waits.
\<close>

theorem bus_delivers_in_order:
  assumes "decodes marshal unmarshal" and "k = length (filter is_subscribe pre)"
    and "eb_pubsubs (bus_run marshal unmarshal (pre @ Subscribe topic # post)) ! k = p"
    and "length (ps_queue p) \<le> n"
  shows "ps_topic p = topic \<and> subseq (ps_handled p) (sent marshal topic post) \<and>
    (post = early @ CloseBus errs # late \<longrightarrow> subseq (ps_handled p) (sent marshal topic early)) \<and>
    (list_all (keeps_subscription k) post \<longrightarrow>
       ps_handled (eb_pubsubs (bus_run marshal unmarshal (pre @ Subscribe topic # post @ replicate n (Next k))) ! k) =
         sent marshal topic post)"
proof -
  let ?run = "fold (bus_step marshal unmarshal)"
  let ?b = "?run pre NewEventBus" and ?c = "\<lambda>acts. ?run (Subscribe topic # acts) (?run pre NewEventBus)"
  have k: "k = length (eb_pubsubs ?b)" by (simp add: length_bus_run assms(2) NewEventBus_def)
  have len: "k < length (eb_pubsubs (?c acts))" for acts
    using k by (simp add: length_bus_run length_bus_step is_subscribe_def)
  have p: "eb_pubsubs (?c post) ! k = p" using assms(3) by (simp add: bus_run_def)
  note new = new_subscription[OF assms(1) k]
  have closed: "subseq (waiting unmarshal p) (sent marshal topic early)" if "post = early @ CloseBus errs # late"
    using closed_subscription[OF assms(1) _ len[of early], of errs late p]
      subs_known_run[of marshal unmarshal "pre @ Subscribe topic # early"] new(2)[of topic early] p that by simp
  have all: "ps_handled (eb_pubsubs (?c (post @ replicate n (Next k))) ! k) = sent marshal topic post"
    if "list_all (keeps_subscription k) post"
  proof -
    let ?d = "?c (post @ replicate n (Next k))"
    have idle: "sent marshal topic (post @ replicate n (Next k)) = sent marshal topic post"
      "list_all (keeps_subscription k) (replicate n (Next k))"
      by (simp_all add: sent_append sent_Nexts keeps_subscription_def list_all_iff)
    have "ps_queue (eb_pubsubs ?d ! k) = []" using Next_empties[OF len[of post]] assms(4) p by simp
    moreover have "waiting unmarshal (eb_pubsubs ?d ! k) = sent marshal topic (post @ replicate n (Next k))"
      by (rule new(3)[OF refl]) (use that idle(2) in \<open>simp only: list_all_append\<close>)
    ultimately show ?thesis unfolding idle(1) by (simp only: waiting_def List.map_filter_simps append_Nil2)
  qed
  from new(1)[OF p] handled_subseq[OF new(2)[OF p]] handled_subseq[OF closed] all show ?thesis
    by (simp add: bus_run_def)
qed

text \<open>Two events on one topic, one in between that is lost and one on another topic.\<close>

definition ex_event :: "string \<Rightarrow> DomainEvent" where
  "ex_event i = \<lparr>ev_ID = i, ev_Type = EventMarketResolved, ev_Payload = [], ev_Source = ''market-svc'', ev_Timestamp = 0,
     ev_TraceID = '''', ev_SpanID = ''''\<rparr>"

definition ex_encode :: "DomainEvent \<Rightarrow> string option" where
  "ex_encode ev = (if ev = ex_event (ev_ID ev) then Some (ev_ID ev) else None)"

definition ex_decode :: "string \<Rightarrow> DomainEvent option" where
  "ex_decode data = Some (ex_event data)"

definition ex_post :: "bus_action list" where
  "ex_post = [Publish ''a'' (ex_event ''1'') False (\<lambda>_. True), Publish ''b'' (ex_event ''2'') False (\<lambda>_. True),
     Publish ''a'' (ex_event ''3'') False (\<lambda>_. False), Publish ''a'' (ex_event ''4'') True (\<lambda>_. True), Next 0, Next 0,
     CloseBus (\<lambda>_. None), Publish ''a'' (ex_event ''5'') False (\<lambda>_. True)]"

theorem bus_delivers_in_order_witness:
  "map ev_ID (ps_handled (eb_pubsubs (bus_run ex_encode ex_decode (Subscribe ''a'' # ex_post)) ! 0)) = [''1'', ''4''] \<and>
   subseq [''1'', ''4''] (map ev_ID (sent ex_encode ''a'' (take 6 ex_post)))"
proof -
  let ?p = "eb_pubsubs (bus_run ex_encode ex_decode ([] @ Subscribe ''a'' # ex_post)) ! 0"
  have run: "map ev_ID (ps_handled ?p) = [''1'', ''4'']" by code_simp
  have post: "ex_post = take 6 ex_post @ CloseBus (\<lambda>_. None) # drop 7 ex_post" by (simp add: ex_post_def)
  have "decodes ex_encode ex_decode" by (auto simp: decodes_def ex_encode_def ex_decode_def split: if_splits)
  from bus_delivers_in_order[OF this _ refl order_refl, of 0 "[]" "''a''" ex_post "take 6 ex_post"] post
  have "subseq (ps_handled ?p) (sent ex_encode ''a'' (take 6 ex_post))" by auto
  from subseq_map[OF this, of ev_ID] run show ?thesis by simp
qed

end
