(* ===== verification/Processes.thy ===== *)
theory Processes
  imports Config Restore Ranking
begin

text \<open>
  The five processes from start to end: \<open>services/*/cmd/main.go\<close>, with \<open>InitProvider\<close> of \<open>pkg/otel\<close> and \<open>NewPool\<close>
  of \<open>infra/postgres\<close>. A process opens what it needs in order, prepares its state, listens, serves until a signal
  or an error of the server ends it, and closes what it deferred, the latest first; \<open>os.Exit\<close> leaves at once. Which
  attempts to reach something fail is an argument, and so is what happens to the state while requests are
  served. Log records, contexts and objects that only hold references are left out.
\<close>

section \<open>What a process does\<close>

datatype part = TraceExporter | TracerProvider | MetricExporter | MeterProvider

datatype resource = Telemetry part | Pool string | RedisClient string | Conn string | Bus string

datatype deed = Opened resource | Closed resource | Listens string | Stopped | Exits nat

datatype attempt =
    MergeResource | NewTraceExporter string | NewMetricExporter string
  | ParseConfig string | NewWithConfig string | PingPool string
  | NewConn string | PingRedis string | ListenOn string

record proc_env =
  pv_env :: environment
  pv_fails :: "attempt \<Rightarrow> bool"

text \<open>The deeds so far, what the deferred calls will close, the latest first, and the state the requests work on.\<close>

record 's process =
  pr_deeds :: "deed list"
  pr_deferred :: "resource list"
  pr_sys :: 's

type_synonym ('s, 'e, 'a) proc = "('s process, 'e, 'a) comp"

definition does :: "deed \<Rightarrow> ('s, 'e, unit) proc" where
  "does d = modify (\<lambda>p. p\<lparr>pr_deeds := pr_deeds p @ [d]\<rparr>)"

definition defers :: "resource list \<Rightarrow> ('s, 'e, unit) proc" where
  "defers rs = modify (\<lambda>p. p\<lparr>pr_deferred := rs @ pr_deferred p\<rparr>)"

definition on_sys :: "('s \<Rightarrow> 's) \<Rightarrow> ('s, 'e, unit) proc" where
  "on_sys f = modify (\<lambda>p. p\<lparr>pr_sys := f (pr_sys p)\<rparr>)"

text \<open>\<open>if err != nil { log.Error(...); os.Exit(1) }\<close>.\<close>

definition or_exit :: "('s, err, 'a) proc \<Rightarrow> ('s, nat, 'a) proc" where
  "or_exit m s = (case m s of (Inl e, s') \<Rightarrow> (Inl 1, s') | (Inr x, s') \<Rightarrow> (Inr x, s'))"

section \<open>The parts of a start\<close>

text \<open>
  \<open>InitProvider\<close> returns its shutdown function, here the parts it shuts down in the order of their start; on an error it
  has called that function already.
\<close>

definition shutdown :: "part list \<Rightarrow> ('s, 'e, unit) proc" where
  "shutdown parts = for_each (rev parts) (\<lambda>p. does (Closed (Telemetry p)))"

definition InitProvider :: "proc_env \<Rightarrow> string \<Rightarrow> ('s, 'e, part list \<times> bool) proc" where
  "InitProvider pv endpoint =
     (if pv_fails pv MergeResource then ret ([], False)
      else if pv_fails pv (NewTraceExporter endpoint) then andthen (shutdown []) (ret ([], False))
      else
        andthen (does (Opened (Telemetry TraceExporter)))
        (andthen (does (Opened (Telemetry TracerProvider)))
          (if pv_fails pv (NewMetricExporter endpoint)
           then andthen (shutdown [TraceExporter, TracerProvider]) (ret ([TraceExporter, TracerProvider], False))
           else
             andthen (does (Opened (Telemetry MetricExporter)))
             (andthen (does (Opened (Telemetry MeterProvider)))
               (ret ([TraceExporter, TracerProvider, MetricExporter, MeterProvider], True))))))"

definition NewPool :: "proc_env \<Rightarrow> string \<Rightarrow> ('s, err, unit) proc" where
  "NewPool pv dsn =
     andthen (check (\<not> pv_fails pv (ParseConfig dsn)) (Errorf ''postgres: parse config'' (Some DriverError)))
     (andthen (check (\<not> pv_fails pv (NewWithConfig dsn)) (Errorf ''postgres: new pool'' (Some DriverError)))
     (andthen (does (Opened (Pool dsn)))
       (if pv_fails pv (PingPool dsn)
        then andthen (does (Closed (Pool dsn))) (fail (Errorf ''postgres: ping'' (Some DriverError)))
        else ret ())))"

text \<open>The sections of the \<open>main\<close> functions.\<close>

definition open_telemetry :: "proc_env \<Rightarrow> string \<Rightarrow> ('s, nat, unit) proc" where
  "open_telemetry pv endpoint = bnd (InitProvider pv endpoint) (\<lambda>(parts, ok). defers (map Telemetry (rev parts)))"

definition open_pool :: "proc_env \<Rightarrow> string \<Rightarrow> ('s, nat, unit) proc" where
  "open_pool pv dsn = andthen (or_exit (NewPool pv dsn)) (defers [Pool dsn])"

definition open_redis :: "string \<Rightarrow> ('s, nat, unit) proc" where
  "open_redis addr = andthen (does (Opened (RedisClient addr))) (defers [RedisClient addr])"

definition open_bus :: "string \<Rightarrow> ('s, nat, unit) proc" where
  "open_bus addr = andthen (does (Opened (Bus addr))) (defers [Bus addr])"

definition open_conn :: "proc_env \<Rightarrow> string \<Rightarrow> ('s, nat, unit) proc" where
  "open_conn pv addr =
     andthen (check (\<not> pv_fails pv (NewConn addr)) 1)
     (andthen (does (Opened (Conn addr))) (defers [Conn addr]))"

text \<open>Listening, serving, \<open>GracefulStop\<close>.\<close>

definition serve_grpc :: "proc_env \<Rightarrow> string \<Rightarrow> ('s \<Rightarrow> 's) \<Rightarrow> ('s, nat, unit) proc" where
  "serve_grpc pv port run =
     andthen (check (\<not> pv_fails pv (ListenOn port)) 1)
     (andthen (does (Listens port)) (andthen (on_sys run) (does Stopped)))"

text \<open>The gateway listens in its goroutine, where an error only ends the wait for a signal.\<close>

definition serve_http :: "proc_env \<Rightarrow> string \<Rightarrow> ('s \<Rightarrow> 's) \<Rightarrow> ('s, nat, unit) proc" where
  "serve_http pv port run =
     andthen (if pv_fails pv (ListenOn port) then ret () else andthen (does (Listens port)) (on_sys run))
       (does Stopped)"

section \<open>The processes\<close>

definition auth_main :: "proc_env \<Rightarrow> ('s \<Rightarrow> 's) \<Rightarrow> ('s, nat, unit) proc" where
  "auth_main pv run =
     (let cfg = auth_Load (pv_env pv) in
      andthen (open_telemetry pv (ac_OTelEndpoint cfg))
      (andthen (open_pool pv (ac_DatabaseURL cfg))
      (andthen (open_redis (ac_RedisAddr cfg))
        (serve_grpc pv (ac_Port cfg) run))))"

definition market_main :: "proc_env \<Rightarrow> ('s \<Rightarrow> 's) \<Rightarrow> ('s, nat, unit) proc" where
  "market_main pv run =
     (let cfg = market_Load (pv_env pv) in
      andthen (open_telemetry pv (mc_OTelEndpoint cfg))
      (andthen (open_pool pv (mc_DatabaseURL cfg))
      (andthen (open_redis (mc_RedisAddr cfg))
      (andthen (open_conn pv (mc_TradingSvcAddr cfg))
      (andthen (open_bus (mc_RedisAddr cfg))
        (serve_grpc pv (mc_Port cfg) run))))))"

text \<open>An error while the books are restored is logged, and the process serves.\<close>

definition trading_main :: "proc_env \<Rightarrow> (string \<Rightarrow> nat) \<Rightarrow> ('d::linordered_field sys \<Rightarrow> 'd sys) \<Rightarrow> ('d sys, nat, unit) proc" where
  "trading_main pv uuid_rank run =
     (let cfg = trading_Load (pv_env pv) in
      andthen (open_telemetry pv (sc_OTelEndpoint cfg))
      (andthen (open_pool pv (sc_DatabaseURL cfg))
      (andthen (open_redis (sc_RedisAddr cfg))
      (andthen (open_bus (sc_RedisAddr cfg))
      (andthen (on_sys (\<lambda>s. snd (restore_orderbook uuid_rank s)))
        (serve_grpc pv (sc_Port cfg) run))))))"

definition ranking_main ::
    "proc_env \<Rightarrow> (nat \<Rightarrow> nat \<Rightarrow> 'd::linordered_field) \<Rightarrow> ('d ranking_node \<Rightarrow> 'd ranking_node) \<Rightarrow> ('d ranking_node, nat, unit) proc" where
  "ranking_main pv numeric_div run =
     (let cfg = ranking_Load (pv_env pv) in
      andthen (open_telemetry pv (sc_OTelEndpoint cfg))
      (andthen (open_pool pv (sc_DatabaseURL cfg))
      (andthen (open_redis (sc_RedisAddr cfg))
      (andthen (on_sys (\<lambda>s. snd (ranking_start numeric_div s)))
        (serve_grpc pv (sc_Port cfg) run)))))"

text \<open>The gateway serves with a limiter if Redis answers when it starts.\<close>

definition gateway_main :: "proc_env \<Rightarrow> (bool \<Rightarrow> 's \<Rightarrow> 's) \<Rightarrow> ('s, nat, unit) proc" where
  "gateway_main pv run =
     (let cfg = gateway_Load (pv_env pv) in
      andthen (open_telemetry pv (gc_OTelEndpoint cfg))
      (andthen (open_conn pv (gc_AuthSvcAddr cfg))
      (andthen (open_conn pv (gc_MarketSvcAddr cfg))
      (andthen (open_conn pv (gc_TradingSvcAddr cfg))
      (andthen (open_conn pv (gc_RankingSvcAddr cfg))
      (andthen (does (Opened (RedisClient (gc_RedisAddr cfg))))
        (serve_http pv (gc_Port cfg) (run (\<not> pv_fails pv (PingRedis (gc_RedisAddr cfg)))))))))))"

text \<open>A process to its end: the deferred calls run when \<open>main\<close> returns, not on \<open>os.Exit\<close>.\<close>

definition run_main :: "('s, nat, unit) proc \<Rightarrow> 's \<Rightarrow> 's process" where
  "run_main main x =
     (case main \<lparr>pr_deeds = [], pr_deferred = [], pr_sys = x\<rparr> of
        (Inl n, p) \<Rightarrow> p\<lparr>pr_deeds := pr_deeds p @ [Exits n]\<rparr>
      | (Inr _, p) \<Rightarrow> p\<lparr>pr_deeds := pr_deeds p @ map Closed (pr_deferred p) @ [Exits 0], pr_deferred := []\<rparr>)"

section \<open>Starts in general\<close>

text \<open>What \<open>InitProvider\<close> does, and what its caller closes at the end: after an error the same parts twice.\<close>

definition telemetry_parts :: "proc_env \<Rightarrow> string \<Rightarrow> part list" where
  "telemetry_parts pv endpoint =
     (if pv_fails pv MergeResource \<or> pv_fails pv (NewTraceExporter endpoint) then []
      else if pv_fails pv (NewMetricExporter endpoint) then [TraceExporter, TracerProvider]
      else [TraceExporter, TracerProvider, MetricExporter, MeterProvider])"

definition telemetry_deeds :: "proc_env \<Rightarrow> string \<Rightarrow> deed list" where
  "telemetry_deeds pv endpoint =
     (let parts = map Telemetry (telemetry_parts pv endpoint)
      in map Opened parts @ (if pv_fails pv (NewMetricExporter endpoint) then map Closed (rev parts) else []))"

text \<open>Neither listening nor the end.\<close>

fun starting :: "deed \<Rightarrow> bool" where
  "starting (Listens port) = False"
| "starting (Exits n) = False"
| "starting _ = True"

lemma starting_Opened [simp]: "list_all starting (map Opened rs)"
  by (simp add: list_all_iff)

text \<open>
  A section of \<open>main\<close> that needs some attempts to succeed, opens resources, defers their closing and prepares the
  state; if one of the attempts fails, the process exits.
\<close>

definition acquires :: "proc_env \<Rightarrow> attempt list \<Rightarrow> resource list \<Rightarrow> ('s \<Rightarrow> 's) \<Rightarrow> ('s, nat, unit) proc \<Rightarrow> bool" where
  "acquires pv needs rs prep m \<longleftrightarrow>
     (\<forall>p. if list_ex (pv_fails pv) needs
          then \<exists>q ds. m p = (Inl 1, q) \<and> pr_deeds q = pr_deeds p @ ds \<and> list_all starting ds
          else m p = (Inr (), p\<lparr>pr_deeds := pr_deeds p @ map Opened rs, pr_deferred := rev rs @ pr_deferred p,
                 pr_sys := prep (pr_sys p)\<rparr>))"

lemma acquires_andthen:
  assumes "acquires pv n1 r1 f m1" and "acquires pv n2 r2 g m2"
  shows "acquires pv (n1 @ n2) (r1 @ r2) (g \<circ> f) (andthen m1 m2)"
  unfolding acquires_def
proof (intro allI)
  fix p :: "'a process"
  let ?q = "p\<lparr>pr_deeds := pr_deeds p @ map Opened r1, pr_deferred := rev r1 @ pr_deferred p, pr_sys := f (pr_sys p)\<rparr>"
  consider "list_ex (pv_fails pv) n1" | "\<not> list_ex (pv_fails pv) n1" "list_ex (pv_fails pv) n2"
    | "\<not> list_ex (pv_fails pv) (n1 @ n2)" by auto
  then show "if list_ex (pv_fails pv) (n1 @ n2)
      then \<exists>q ds. andthen m1 m2 p = (Inl 1, q) \<and> pr_deeds q = pr_deeds p @ ds \<and> list_all starting ds
      else andthen m1 m2 p = (Inr (), p\<lparr>pr_deeds := pr_deeds p @ map Opened (r1 @ r2), pr_deferred := rev (r1 @ r2) @ pr_deferred p,
             pr_sys := (g \<circ> f) (pr_sys p)\<rparr>)"
  proof cases
    case 1
    with assms(1) obtain q ds where "m1 p = (Inl 1, q)" "pr_deeds q = pr_deeds p @ ds" "list_all starting ds"
      unfolding acquires_def by meson
    with 1 show ?thesis by (auto simp: andthen_def bnd_def)
  next
    case 2
    with assms obtain q ds where "m1 p = (Inr (), ?q)" "m2 ?q = (Inl 1, q)" "pr_deeds q = pr_deeds ?q @ ds" "list_all starting ds"
      unfolding acquires_def by meson
    with 2 show ?thesis by (auto simp: andthen_def bnd_def intro!: exI[of _ "map Opened r1 @ ds"] simp del: list.pred_map)
  next
    case 3
    with assms have "m1 p = (Inr (), ?q)" "m2 ?q = (Inr (), ?q\<lparr>pr_deeds := pr_deeds ?q @ map Opened r2,
        pr_deferred := rev r2 @ pr_deferred ?q, pr_sys := g (pr_sys ?q)\<rparr>)"
      unfolding acquires_def by (auto split: if_splits)
    with 3 show ?thesis by (simp add: andthen_def bnd_def)
  qed
qed

lemmas deed_defs = andthen_def bnd_def modify_def does_def defers_def on_sys_def or_exit_def check_def ret_def fail_def

lemma acquires_sections:
  "acquires pv [ParseConfig dsn, NewWithConfig dsn, PingPool dsn] [Pool dsn] id (open_pool pv dsn)"
  "acquires pv [] [RedisClient addr] id (open_redis addr)" "acquires pv [] [Bus addr] id (open_bus addr)"
  "acquires pv [NewConn addr] [Conn addr] id (open_conn pv addr)" "acquires pv [] [] f (on_sys f)"
  by (auto simp: acquires_def open_pool_def NewPool_def open_redis_def open_bus_def open_conn_def deed_defs)

lemma open_telemetry_eq:
  "open_telemetry pv e p =
     (Inr (), p\<lparr>pr_deeds := pr_deeds p @ telemetry_deeds pv e,
        pr_deferred := rev (map Telemetry (telemetry_parts pv e)) @ pr_deferred p\<rparr>)"
  by (simp add: open_telemetry_def InitProvider_def shutdown_def telemetry_deeds_def telemetry_parts_def deed_defs rev_map)

lemma telemetry_starts: "list_all starting (telemetry_deeds pv e)"
  by (auto simp: telemetry_deeds_def Let_def list_all_iff)

section \<open>From start to end\<close>

text \<open>
  The run of a service: if an attempt it needs fails it never listens and exits with 1; otherwise it listens when
  everything is open and prepared, and once stopped closes it in the opposite order.
\<close>

definition runs_through :: "proc_env \<Rightarrow> string \<Rightarrow> attempt list \<Rightarrow> resource list \<Rightarrow> string \<Rightarrow> 's \<Rightarrow> 's process \<Rightarrow> bool" where
  "runs_through pv endpoint needs rs port final p \<longleftrightarrow>
     (if list_ex (pv_fails pv) needs then \<exists>ds. pr_deeds p = ds @ [Exits 1] \<and> list_all starting ds
      else pr_deeds p = telemetry_deeds pv endpoint @ map Opened rs @ [Listens port, Stopped] @
             map Closed (rev (map Telemetry (telemetry_parts pv endpoint) @ rs)) @ [Exits 0] \<and>
           pr_sys p = final)"

lemma service_runs_through:
  assumes "acquires pv needs rs prep m"
  shows "runs_through pv e (needs @ [ListenOn port]) rs port (run (prep x))
    (run_main (andthen (open_telemetry pv e) (andthen m (serve_grpc pv port run))) x)"
proof -
  let ?p = "\<lparr>pr_deeds = telemetry_deeds pv e, pr_deferred = rev (map Telemetry (telemetry_parts pv e)), pr_sys = x\<rparr>"
  let ?q = "\<lparr>pr_deeds = telemetry_deeds pv e @ map Opened rs,
    pr_deferred = rev rs @ rev (map Telemetry (telemetry_parts pv e)), pr_sys = prep x\<rparr>"
  have start: "andthen (open_telemetry pv e) (andthen m (serve_grpc pv port run)) \<lparr>pr_deeds = [], pr_deferred = [], pr_sys = x\<rparr> =
      andthen m (serve_grpc pv port run) ?p"
    by (simp add: open_telemetry_eq andthen_def bnd_def)
  consider (no) q ds where "list_ex (pv_fails pv) needs" "m ?p = (Inl 1, q)" "pr_deeds q = pr_deeds ?p @ ds" "list_all starting ds"
    | (yes) "\<not> list_ex (pv_fails pv) needs" "m ?p = (Inr (), ?q)"
    using assms[unfolded acquires_def, rule_format, of ?p] by (auto split: if_splits)
  then show ?thesis
  proof cases
    case no
    with start telemetry_starts show ?thesis by (simp add: runs_through_def run_main_def andthen_def bnd_def)
  next
    case yes
    with start telemetry_starts show ?thesis
      by (simp add: runs_through_def run_main_def serve_grpc_def deed_defs list_all_append del: list.pred_map)
  qed
qed

lemma andthen_assoc: "andthen (andthen a b) c = andthen a (andthen b c)"
  by (rule ext) (simp add: andthen_def bnd_def split: prod.splits sum.splits)

lemmas service_start = service_runs_through[OF acquires_andthen, unfolded andthen_assoc]

text \<open>
  The four services: what each needs, opens and prepares. The trading service listens when its books are restored,
  or could not be; the ranking service when its view is refreshed, or could not be.
\<close>

abbreviation pool_needs :: "string \<Rightarrow> attempt list" where
  "pool_needs dsn \<equiv> [ParseConfig dsn, NewWithConfig dsn, PingPool dsn]"

lemma acquires_pool_redis:
  "acquires pv (pool_needs dsn) [Pool dsn, RedisClient addr] id (andthen (open_pool pv dsn) (open_redis addr))"
  using acquires_andthen[OF acquires_sections(1,2)] by simp

lemma auth_runs_through:
  fixes pv :: proc_env and cfg defines "cfg \<equiv> auth_Load (pv_env pv)"
  shows "runs_through pv (ac_OTelEndpoint cfg) (pool_needs (ac_DatabaseURL cfg) @ [ListenOn (ac_Port cfg)])
    [Pool (ac_DatabaseURL cfg), RedisClient (ac_RedisAddr cfg)] (ac_Port cfg) (run x) (run_main (auth_main pv run) x)"
  using service_runs_through[OF acquires_pool_redis, where run = run and x = x]
  by (simp add: auth_main_def cfg_def Let_def andthen_assoc)

lemma market_runs_through:
  fixes pv :: proc_env and cfg defines "cfg \<equiv> market_Load (pv_env pv)"
  shows "runs_through pv (mc_OTelEndpoint cfg)
    (pool_needs (mc_DatabaseURL cfg) @ [NewConn (mc_TradingSvcAddr cfg), ListenOn (mc_Port cfg)])
    [Pool (mc_DatabaseURL cfg), RedisClient (mc_RedisAddr cfg), Conn (mc_TradingSvcAddr cfg), Bus (mc_RedisAddr cfg)]
    (mc_Port cfg) (run x) (run_main (market_main pv run) x)"
  using service_start[OF acquires_pool_redis acquires_andthen[OF acquires_sections(4,3)], where run = run and x = x]
  by (simp add: market_main_def cfg_def Let_def andthen_assoc)

lemma trading_runs_through:
  fixes pv :: proc_env and cfg defines "cfg \<equiv> trading_Load (pv_env pv)"
  shows "runs_through pv (sc_OTelEndpoint cfg) (pool_needs (sc_DatabaseURL cfg) @ [ListenOn (sc_Port cfg)])
    [Pool (sc_DatabaseURL cfg), RedisClient (sc_RedisAddr cfg), Bus (sc_RedisAddr cfg)] (sc_Port cfg)
    (run (snd (restore_orderbook uuid_rank x))) (run_main (trading_main pv uuid_rank run) x)"
  using service_start[OF acquires_pool_redis acquires_andthen[OF acquires_sections(3,5)], where run = run and x = x]
  by (simp add: trading_main_def cfg_def Let_def andthen_assoc)

lemma ranking_runs_through:
  fixes pv :: proc_env and cfg defines "cfg \<equiv> ranking_Load (pv_env pv)"
  shows "runs_through pv (sc_OTelEndpoint cfg) (pool_needs (sc_DatabaseURL cfg) @ [ListenOn (sc_Port cfg)])
    [Pool (sc_DatabaseURL cfg), RedisClient (sc_RedisAddr cfg)] (sc_Port cfg)
    (run (snd (ranking_start numeric_div x))) (run_main (ranking_main pv numeric_div run) x)"
  using service_start[OF acquires_pool_redis acquires_sections(5), where run = run and x = x]
  by (simp add: ranking_main_def cfg_def Let_def andthen_assoc)

text \<open>
  The gateway does not need Redis, does not close its client, and ends with 0 when it cannot listen.
\<close>

definition gateway_conns :: "gateway_config \<Rightarrow> string list" where
  "gateway_conns cfg = [gc_AuthSvcAddr cfg, gc_MarketSvcAddr cfg, gc_TradingSvcAddr cfg, gc_RankingSvcAddr cfg]"

lemma acquires_conns:
  "acquires pv (map NewConn (gateway_conns cfg)) (map Conn (gateway_conns cfg)) id
     (andthen (open_conn pv (gc_AuthSvcAddr cfg)) (andthen (open_conn pv (gc_MarketSvcAddr cfg))
       (andthen (open_conn pv (gc_TradingSvcAddr cfg)) (open_conn pv (gc_RankingSvcAddr cfg)))))"
  using acquires_andthen[OF acquires_sections(4) acquires_andthen[OF acquires_sections(4)
      acquires_andthen[OF acquires_sections(4) acquires_sections(4)]]]
  by (simp add: gateway_conns_def)

lemma gateway_runs:
  fixes pv :: proc_env and cfg defines "cfg \<equiv> gateway_Load (pv_env pv)"
  assumes "run_main (gateway_main pv run) x = p"
  shows "if list_ex (pv_fails pv) (map NewConn (gateway_conns cfg))
    then \<exists>ds. pr_deeds p = ds @ [Exits 1] \<and> list_all starting ds
    else pr_deeds p = telemetry_deeds pv (gc_OTelEndpoint cfg) @ map Opened (map Conn (gateway_conns cfg) @ [RedisClient (gc_RedisAddr cfg)]) @
           (if pv_fails pv (ListenOn (gc_Port cfg)) then [] else [Listens (gc_Port cfg)]) @ [Stopped] @
           map Closed (rev (map Telemetry (telemetry_parts pv (gc_OTelEndpoint cfg)) @ map Conn (gateway_conns cfg))) @ [Exits 0] \<and>
         pr_sys p = (if pv_fails pv (ListenOn (gc_Port cfg)) then x else run (\<not> pv_fails pv (PingRedis (gc_RedisAddr cfg))) x)"
proof -
  let ?p = "\<lparr>pr_deeds = telemetry_deeds pv (gc_OTelEndpoint cfg),
    pr_deferred = rev (map Telemetry (telemetry_parts pv (gc_OTelEndpoint cfg))), pr_sys = x\<rparr>"
  let ?conns = "andthen (open_conn pv (gc_AuthSvcAddr cfg)) (andthen (open_conn pv (gc_MarketSvcAddr cfg))
    (andthen (open_conn pv (gc_TradingSvcAddr cfg)) (open_conn pv (gc_RankingSvcAddr cfg))))"
  let ?rest = "andthen (does (Opened (RedisClient (gc_RedisAddr cfg))))
    (serve_http pv (gc_Port cfg) (run (\<not> pv_fails pv (PingRedis (gc_RedisAddr cfg)))))"
  have start: "gateway_main pv run \<lparr>pr_deeds = [], pr_deferred = [], pr_sys = x\<rparr> = andthen ?conns ?rest ?p"
    unfolding gateway_main_def Let_def cfg_def[symmetric] andthen_assoc
    by (subst andthen_def, subst bnd_def) (simp add: open_telemetry_eq)
  show ?thesis
    using acquires_conns[of pv cfg, unfolded acquires_def, rule_format, of ?p] assms(2) telemetry_starts[of pv "gc_OTelEndpoint cfg"]
    unfolding run_main_def start
    by (auto simp: serve_http_def deed_defs simp del: list.pred_map split: if_splits)
qed

end
