(* ===== verification/Calls.thy ===== *)
theory Calls
  imports Router
begin

text \<open>
  What requests can bring about: a request changes the state only by the calls it makes, so
  whatever relation between states every call respects (an invariant that is kept, a
  progress that is never undone), every request and every sequence of requests respects.
\<close>

section \<open>Relations that computations respect\<close>

named_theorems following \<open>rules for what a computation may change\<close>

definition follows :: "('s \<Rightarrow> 's \<Rightarrow> bool) \<Rightarrow> ('s, 'e, 'a) comp \<Rightarrow> bool" where
  "follows R m \<longleftrightarrow> (\<forall>s. R s (snd (m s)))"

lemma followsI: "(\<And>s. R s (snd (m s))) \<Longrightarrow> follows R m"
  by (simp add: follows_def)

lemma followsD: "follows R m \<Longrightarrow> m s = (r, s') \<Longrightarrow> R s s'"
  by (metis follows_def snd_conv)

lemma follows_keeps: "keeps f m \<Longrightarrow> follows (\<lambda>s s'. f s' = f s) m"
  by (simp add: follows_def keeps_def)

lemma follows_maintains: "follows (\<lambda>s s'. P s \<longrightarrow> P s') m \<longleftrightarrow> maintains P m"
  by (simp add: follows_def maintains_def)

lemma follows_both: "follows R m \<Longrightarrow> follows Q m \<Longrightarrow> follows (\<lambda>s s'. R s s' \<and> Q s s') m"
  by (simp add: follows_def)

lemma follows_weaken: "follows R m \<Longrightarrow> (\<And>s s'. R s s' \<Longrightarrow> Q s s') \<Longrightarrow> follows Q m"
  by (simp add: follows_def)

locale step_order =
  fixes R :: "'s \<Rightarrow> 's \<Rightarrow> bool"
  assumes refl: "R s s"
    and trans: "R s t \<Longrightarrow> R t u \<Longrightarrow> R s u"
begin

lemma follows_ret [following]: "follows R (ret x)"
  by (simp add: follows_def ret_def refl)

lemma follows_fail [following]: "follows R (fail e)"
  by (simp add: follows_def fail_def refl)

lemma follows_gets [following]: "follows R (gets f)"
  by (simp add: follows_def gets_def refl)

lemma follows_check [following]: "follows R (check b e)"
  by (simp add: follows_def check_def ret_def fail_def refl)

lemma follows_modify [following]: "(\<And>s. R s (f s)) \<Longrightarrow> follows R (modify f)"
  by (simp add: follows_def modify_def)

lemma follows_bnd [following]:
  assumes "follows R m" and "\<And>x. follows R (n x)"
  shows "follows R (bnd m n)"
proof (rule followsI)
  fix s
  obtain r t where m: "m s = (r, t)" by (cases "m s")
  show "R s (snd (bnd m n s))"
  proof (cases r)
    case (Inl e)
    with m followsD[OF assms(1) m] show ?thesis by (simp add: bnd_def)
  next
    case (Inr x)
    have "R t (snd (n x t))" using assms(2) by (simp add: follows_def)
    with m Inr trans[OF followsD[OF assms(1) m]] show ?thesis by (simp add: bnd_def)
  qed
qed

lemma follows_andthen [following]: "follows R m \<Longrightarrow> follows R n \<Longrightarrow> follows R (andthen m n)"
  unfolding andthen_def by (intro follows_bnd)

lemma follows_handle [following]:
  assumes "follows R m" and "\<And>e. follows R (h e)"
  shows "follows R (handle m h)"
proof (rule followsI)
  fix s
  obtain r t where m: "m s = (r, t)" by (cases "m s")
  show "R s (snd (handle m h s))"
  proof (cases r)
    case (Inl e)
    have "R t (snd (h e t))" using assms(2) by (simp add: follows_def)
    with m Inl trans[OF followsD[OF assms(1) m]] show ?thesis by (simp add: handle_def)
  next
    case (Inr x)
    with m followsD[OF assms(1) m] show ?thesis by (simp add: handle_def)
  qed
qed

lemma follows_if [following]: "follows R m \<Longrightarrow> follows R n \<Longrightarrow> follows R (if b then m else n)"
  by simp

lemma follows_option [following]:
  "follows R m \<Longrightarrow> (\<And>y. follows R (n y)) \<Longrightarrow> follows R (case x of None \<Rightarrow> m | Some y \<Rightarrow> n y)"
  by (cases x) auto

lemma follows_list [following]:
  "follows R m \<Longrightarrow> (\<And>y ys. follows R (n y ys)) \<Longrightarrow> follows R (case xs of [] \<Rightarrow> m | y # ys \<Rightarrow> n y ys)"
  by (cases xs) auto

lemma follows_sum [following]:
  "(\<And>e. follows R (m e)) \<Longrightarrow> (\<And>y. follows R (n y)) \<Longrightarrow> follows R (case x of Inl e \<Rightarrow> m e | Inr y \<Rightarrow> n y)"
  by (cases x) auto

lemma follows_pair [following]: "(\<And>a b. follows R (f a b)) \<Longrightarrow> follows R (case p of (a, b) \<Rightarrow> f a b)"
  by (cases p) auto

lemma follows_for_each [following]: "(\<And>x. follows R (f x)) \<Longrightarrow> follows R (for_each xs f)"
  by (induction xs) (auto intro: follows_ret follows_andthen)

lemma follows_collect [following]: "(\<And>x. follows R (f x)) \<Longrightarrow> follows R (collect xs f)"
  by (induction xs) (auto intro!: follows_ret follows_bnd)

lemma follows_require [following]: "follows R (require x e)"
  unfolding require_def by (intro follows_option follows_fail follows_ret)

lemma follows_rpc [following]: "follows R m \<Longrightarrow> follows R (rpc tr m)"
  by (auto simp: follows_def rpc_def split: prod.splits sum.splits) (metis snd_conv)+

lemma follows_call [following]: "follows R m \<Longrightarrow> follows R (call tr m)"
  by (auto simp: follows_def call_def split: prod.splits sum.splits) (metis snd_conv)+

end

section \<open>Requests\<close>

text \<open>Requests served one after the other.\<close>

definition serve_all :: "'s clients \<Rightarrow> gw_env \<Rightarrow> http_request list \<Rightarrow> 's \<Rightarrow> 's" where
  "serve_all cl env hreqs s = fold (\<lambda>hreq s. snd (serve cl env hreq s)) hreqs s"

locale respectful_services = step_order R for R :: "'s \<Rightarrow> 's \<Rightarrow> bool" +
  fixes cl :: "'s clients"
  assumes auth: "follows R (cl_GenerateNonce cl)" "follows R (cl_VerifySignature cl message signature wallet)"
      "follows R (cl_ValidateToken cl token)" "follows R (cl_ValidateAPIKey cl apiKey)" "follows R (cl_CreateAPIKey cl i label)"
    and market: "follows R (cl_ListMarkets cl lreq)" "follows R (cl_GetMarket cl i)" "follows R (cl_CreateMarket cl creq)"
      "follows R (cl_ResolveMarket cl i win)" "follows R (cl_UpdateMarketStatus cl i st)"
    and trading: "follows R (cl_PlaceOrder cl preq)" "follows R (cl_MintTokens cl i mkt qty)" "follows R (cl_CancelOrder cl i oid)"
      "follows R (cl_ListOrders cl oreq)" "follows R (cl_GetPositions cl i mkt)" "follows R (cl_GetOrderbook cl mkt outcome)"
    and ranking: "follows R (cl_GetLeaderboard cl rreq)" "follows R (cl_GetUserRanking cl i)" "follows R (cl_RefreshRankings cl)"
    and limiter: "cl_Allow cl = Some allow \<Longrightarrow> follows R (allow key limit window)"
begin

lemma follows_current_user: "follows R (current_user ctx)"
  unfolding current_user_def by (intro following)

lemma follows_handler: "follows R (handler_of cl env hreq r ctx)"
  unfolding handler_of_def AuthHandler_GetNonce_def AuthHandler_Verify_def AuthHandler_Me_def AuthHandler_CreateAPIKey_def
    MarketHandler_ListMarkets_def MarketHandler_GetMarket_def OrderHandler_GetOrderbook_def OrderHandler_MintTokens_def
    OrderHandler_PlaceOrder_def OrderHandler_CancelOrder_def OrderHandler_ListOrders_def OrderHandler_GetPositions_def
    RankingHandler_GetLeaderboard_def RankingHandler_GetUserRanking_def AdminHandler_CreateMarket_def
    AdminHandler_UpdateMarketStatus_def AdminHandler_ResolveMarket_def AdminHandler_CreateAgentUser_def
    AdminHandler_RefreshRankings_def fetch_market_def requireAdmin_def bound_def
  by (cases r; simp only: route.case) (intro following follows_current_user auth market trading ranking)+

lemma follows_limit: "follows R (limit_group cl hreq r)"
proof -
  have "follows R (RateLimitMiddleware cl limit window hreq ctx)" for limit window ctx
  proof (rule followsI)
    fix s
    show "R s (snd (RateLimitMiddleware cl limit window hreq ctx s))"
    proof (cases "cl_Allow cl")
      case None
      then show ?thesis by (simp add: RateLimitMiddleware_def refl)
    next
      case (Some allow)
      with followsD[OF limiter[OF Some]] show ?thesis
        by (auto simp: RateLimitMiddleware_def split: prod.splits sum.splits)
    qed
  qed
  then show ?thesis by (simp add: limit_group_def follows_ret split: option.splits)
qed

lemma follows_auth: "follows R (AuthMiddleware cl hreq)"
  unfolding AuthMiddleware_def Let_def by (intro following auth)

lemma follows_route: "follows R (run_route cl env hreq r)"
  unfolding run_route_def
  by (intro following follows_limit follows_auth follows_handler)

text \<open>One request, and any sequence of them.\<close>

lemma serves: "R s (snd (serve cl env hreq s))"
proof -
  have "R s (snd (finish (run_route cl env hreq r) s))" for r
    using followsD[OF follows_route] by (auto simp: finish_def split: prod.splits sum.splits)
  then show ?thesis by (auto simp: serve_def refl split: option.splits prod.splits) (metis snd_conv)
qed

lemma serves_all: "R s (serve_all cl env hreqs s)"
  unfolding serve_all_def by (induction hreqs arbitrary: s) (auto intro: refl trans serves)

end

end
