(* ===== verification/Books.thy ===== *)
theory Books
  imports Calls MarketServer
begin

text \<open>
  The books over all that the platform does: identifiers are issued once, no operation but those
  of the engine touches the books, and placing and cancelling through the service keep every book of
  every market well formed and uncrossed.
\<close>

section \<open>Issued identifiers\<close>

text \<open>The source of identifiers only moves on.\<close>

definition ages :: "world \<Rightarrow> world \<Rightarrow> bool" where
  "ages w w' \<longleftrightarrow> w_uuid w' = w_uuid w \<and> w_nuuid w \<le> w_nuuid w'"

definition issued :: "world \<Rightarrow> string set" where
  "issued w = w_uuid w ` {..<w_nuuid w}"

lemma ages_refl [simp]: "ages w w"
  by (simp add: ages_def)

lemma ages_trans: "ages w v \<Longrightarrow> ages v u \<Longrightarrow> ages w u"
  by (simp add: ages_def)

lemma ages_issued: "ages w w' \<Longrightarrow> i \<in> issued w \<Longrightarrow> i \<in> issued w'"
  by (fastforce simp: ages_def issued_def)

lemma ages_sources [simp]:
  "ages w (snd (next_fault w))" "ages w (snd (time_now w))" "ages w (snd (new_uuid w))"
  by (simp_all add: ages_def next_fault_def time_now_def new_uuid_def)

lemma ages_on: "ages w v \<Longrightarrow> ages w (snd (next_fault v))" "ages w v \<Longrightarrow> ages w (snd (time_now v))"
    "ages w v \<Longrightarrow> ages w (snd (new_uuid v))"
  by (blast intro: ages_trans ages_sources)+

lemma fresh_not_issued:
  assumes "inj (w_uuid w)"
  shows "fst (new_uuid w) \<notin> issued w" "fst (new_uuid w) \<in> issued (snd (new_uuid w))"
  using assms by (auto simp: new_uuid_def issued_def dest: injD)

section \<open>What a database operation leaves alone\<close>

definition aging :: "('d, 'z) node_scheme \<Rightarrow> ('d, 'z) node_scheme \<Rightarrow> bool" where
  "aging s s' \<longleftrightarrow> ages (n_world s) (n_world s')"

definition calm :: "('d, 'z) node_scheme \<Rightarrow> ('d, 'z) node_scheme \<Rightarrow> bool" where
  "calm s s' \<longleftrightarrow> ages (n_world s) (n_world s') \<and> node.more s' = node.more s"

interpretation aging_order: step_order aging
  by unfold_locales (auto simp: aging_def intro: ages_trans)

interpretation calm_order: step_order calm
  by unfold_locales (auto simp: calm_def intro: ages_trans)

lemma calm_aging: "follows calm m \<Longrightarrow> follows aging m"
  by (erule follows_weaken) (auto simp: calm_def aging_def)

lemma calm_statement [following]: "follows calm (statement what ok f)"
proof (rule followsI)
  fix s :: "('a, 'b) node_scheme"
  obtain bad w where w: "next_fault (n_world s) = (bad, w)" by (cases "next_fault (n_world s)")
  then have "ages (n_world s) w" using ages_sources(1) by (metis snd_conv)
  then show "calm s (snd (statement what ok f s))"
    by (simp add: statement_def calm_def w case_prod_unfold Let_def)
qed

lemma calm_sources [following]: "follows calm now" "follows calm fresh_id"
proof -
  show "follows calm now"
    by (rule followsI) (simp add: now_def calm_def case_prod_unfold Let_def)
  show "follows calm fresh_id"
    by (rule followsI) (simp add: fresh_id_def calm_def case_prod_unfold Let_def)
qed

lemma calm_queries [following]:
  "follows calm (query what f)" "follows calm (page_query what l p q)" "follows calm (one_row what g)"
  "follows calm (execute what ok h)" "follows calm (update_rows what ok k)"
  unfolding query_def page_query_def one_row_def execute_def update_rows_def
  by (intro following)+

text \<open>A transaction does to the process and to the source of identifiers what its body does.\<close>

lemma follows_WithTx:
  fixes R :: "('d, 'z) node_scheme \<Rightarrow> ('d, 'z) node_scheme \<Rightarrow> bool"
  assumes R: "step_order R" and world: "\<And>s w. ages (n_world s) w \<Longrightarrow> R s (s\<lparr>n_world := w\<rparr>)"
    and db: "\<And>s d. R s (s\<lparr>n_db := d\<rparr>)" and tx: "\<And>s t. R s (s\<lparr>n_tx := t\<rparr>)" and fn: "follows R fn"
  shows "follows R (WithTx fn)"
proof (rule followsI)
  fix s :: "('d, 'z) node_scheme"
  note trans = step_order.trans[OF R]
  have aged: "ages v u" if "next_fault v = (b, u)" for v u b
    using that ages_sources(1)[of v] by simp
  obtain bad w where w: "next_fault (n_world s) = (bad, w)" by (cases "next_fault (n_world s)")
  obtain r s1 where f: "fn (s\<lparr>n_world := w, n_tx := ActiveTx\<rparr>) = (r, s1)"
    by (cases "fn (s\<lparr>n_world := w, n_tx := ActiveTx\<rparr>)")
  obtain bad' w' where w': "next_fault (n_world s1) = (bad', w')" by (cases "next_fault (n_world s1)")
  have start: "R s (s\<lparr>n_world := w\<rparr>)" using world aged[OF w] .
  then have "R s (s\<lparr>n_world := w, n_tx := ActiveTx\<rparr>)" by (rule trans) (rule tx)
  then have body: "R s s1" by (rule trans) (rule followsD[OF fn f])
  have undone: "R s (s1\<lparr>n_db := d, n_tx := t\<rparr>)" "R s (s1\<lparr>n_tx := t\<rparr>)" for d t
    by (rule trans[OF trans[OF body db] tx], rule trans[OF body tx])
  have "R s (s1\<lparr>n_db := d, n_tx := t, n_world := w'\<rparr>)" "R s (s1\<lparr>n_tx := t, n_world := w'\<rparr>)" for d t
    by (rule trans[OF undone(1) world] trans[OF undone(2) world], simp add: aged[OF w'])+
  with start undone show "R s (snd (WithTx fn s))"
    by (simp add: WithTx_def w f w' split: sum.splits)
qed

lemma calm_WithTx [following]: "follows calm fn \<Longrightarrow> follows calm (WithTx fn)"
  by (rule follows_WithTx[OF calm_order.step_order_axioms]) (auto simp: calm_def)

lemmas repo_defs = UserRepo_GetByID_def UserRepo_GetByWallet_def UserRepo_Create_def UserRepo_UpdateBalance_def
  MarketRepo_Create_def MarketRepo_GetByID_def MarketRepo_Update_def MarketRepo_List_def OutcomeRepo_CreateBatch_def
  OutcomeRepo_ListByMarket_def OutcomeRepo_SetWinner_def OrderRepo_Create_def OrderRepo_GetByID_def
  OrderRepo_UpdateStatus_def OrderRepo_ListOpenByMarket_def OrderRepo_ListByUser_def TradeRepo_Create_def
  TradeRepo_CreateMintTx_def PositionRepo_Upsert_def PositionRepo_GetByUserAndOutcome_def PositionRepo_ListByUser_def
  PositionRepo_ListByMarket_def

lemma calm_repos [following]:
  "follows calm (UserRepo_GetByID i)" "follows calm (UserRepo_GetByWallet a)" "follows calm (UserRepo_Create u)"
  "follows calm (UserRepo_UpdateBalance i x y)"
  "follows calm (MarketRepo_Create m)" "follows calm (MarketRepo_GetByID i)" "follows calm (MarketRepo_Update m)"
  "follows calm (MarketRepo_List mflt)" "follows calm (OutcomeRepo_CreateBatch xs)" "follows calm (OutcomeRepo_ListByMarket i)"
  "follows calm (OutcomeRepo_SetWinner i)" "follows calm (OrderRepo_Create ord)" "follows calm (OrderRepo_GetByID i)"
  "follows calm (OrderRepo_UpdateStatus i st q)" "follows calm (OrderRepo_ListOpenByMarket i)"
  "follows calm (OrderRepo_ListByUser i l p)" "follows calm (TradeRepo_Create tr)" "follows calm (TradeRepo_CreateMintTx mt)"
  "follows calm (PositionRepo_Upsert pos)" "follows calm (PositionRepo_GetByUserAndOutcome i j)"
  "follows calm (PositionRepo_ListByUser i)" "follows calm (PositionRepo_ListByMarket i)"
  unfolding repo_defs Let_def by (intro following)+


section \<open>The engines of all markets\<close>

definition registry_uncrossed :: "'d::linordered_field mem \<Rightarrow> 'd Registry \<Rightarrow> bool" where
  "registry_uncrossed m rg \<longleftrightarrow> (\<forall>k e. (k, e) \<in> set (rg_engines rg) \<longrightarrow> engine_uncrossed m e)"

lemma engine_uncrossed_static:
  assumes "engine_inv m e" and "engine_uncrossed m e" and "\<And>x. static_of (cell m' x) = static_of (cell m x)"
  shows "engine_uncrossed m' e"
  unfolding engine_uncrossed_def
proof (intro allI impI)
  fix i ob assume "e_orderbooks e i = Some ob"
  with assms(1,2) have "book_inv (cell m) ob" "uncrossed (cell m) ob"
    by (auto simp: engine_inv_def engine_uncrossed_def)
  then show "uncrossed (cell m') ob"
    using uncrossed_mono[of "cell m" ob "cell m'" ob] book_inv_static[of "cell m'" "cell m" ob] assms(3) by blast
qed

lemma in_put_engine:
  "(k', e') \<in> set (rg_engines (put_engine k e rg)) \<Longrightarrow> k' = k \<and> e' = e \<or> k' \<noteq> k \<and> (k', e') \<in> set (rg_engines rg)"
  by (auto simp: put_engine_def)

text \<open>One engine changes; what rests in the others is, but for its status, what it was.\<close>

lemma registry_put_uncrossed:
  assumes "registry_inv m rg" and "registry_uncrossed m rg" and "engine_uncrossed m' e'"
    and "\<And>x. static_of (cell m' x) = static_of (cell m x)"
  shows "registry_uncrossed m' (put_engine k e' rg)"
  unfolding registry_uncrossed_def
proof (intro allI impI)
  fix j e assume "(j, e) \<in> set (rg_engines (put_engine k e' rg))"
  then consider "e = e'" | "(j, e) \<in> set (rg_engines rg)" by (auto dest: in_put_engine)
  then show "engine_uncrossed m' e"
  proof cases
    case 2
    with assms(1,2) have "engine_inv m e" "engine_uncrossed m e" by (auto simp: registry_inv_def registry_uncrossed_def)
    then show ?thesis using engine_uncrossed_static[of m e m'] assms(4) by blast
  qed (use assms(3) in simp)
qed

lemma rests_put_engine:
  "registry_rests (put_engine k e rg) x \<Longrightarrow> rests e x \<or> registry_rests rg x"
  unfolding registry_rests_def using in_put_engine by blast

lemma Engine_PlaceOrder_ages: "Engine_PlaceOrder r m w e = (res, m', w', e') \<Longrightarrow> ages w w'"
proof -
  have loop: "ages w (ms_world (match_loop t s))" if "ages w (ms_world s)" for t and s :: "'a matching"
  proof (rule match_loop_invariant[where P = "\<lambda>s. ages w (ms_world s)", THEN conjunct1])
    fix s s' :: "'a matching"
    assume a: "ages w (ms_world s)" and st: "match_step t s = Some s'"
    from st have "ms_world s' \<in> {ms_world s, snd (time_now (snd (time_now (snd (new_uuid (ms_world s))))))}"
      by (auto simp: match_step_def Let_def case_prod_unfold split: if_splits option.splits)
    with a show "ages w (ms_world s')" by (elim insertE emptyE; simp add: ages_on)
  qed (rule that)
  assume "Engine_PlaceOrder r m w e = (res, m', w', e')"
  then show ?thesis
    by (auto simp: Engine_PlaceOrder_def matchOrder_def Let_def case_prod_unfold split: if_splits
        intro: ages_on(2)[OF loop])
qed

lemma Registry_PlaceOrder_books:
  fixes m :: "'d::linordered_field mem"
  assumes inv: "registry_inv m rg" and un: "registry_uncrossed m rg" and new: "registry_new m rg r" "o_FilledQty (cell m r) = 0"
    and res: "Registry_PlaceOrder r m w rg = (res', m', w', rg')"
  shows "registry_uncrossed m' rg'" "ages w w'" "\<And>x. registry_rests rg' x \<Longrightarrow> registry_rests rg x \<or> x = r"
    "\<And>x. o_ID (cell m' x) = o_ID (cell m x)"
proof -
  let ?k = "o_MarketID (cell m r)"
  obtain e rg1 where g: "getOrCreate ?k rg = (e, rg1)" by (cases "getOrCreate ?k rg")
  note G = getOrCreate_spec[OF inv g]
  have new1: "registry_new m rg1 r" using new(1) G(3) by (simp add: registry_new_def)
  obtain e' where P: "Engine_PlaceOrder r m w e = (res', m', w', e')" and rg': "rg' = put_engine ?k e' rg1"
    using res g by (auto simp: Registry_PlaceOrder_def Let_def split: prod.splits)
  show "ages w w'" by (rule Engine_PlaceOrder_ages[OF P])
  have ei: "engine_inv m e" using G(1,2) by (auto simp: registry_inv_def)
  have no: "new_order m e r" by (rule registry_new_engine(3)[OF new1 G(1) new(2)])
  have "engine_uncrossed m (NewEngine k)" for k by (simp add: engine_uncrossed_def NewEngine_def)
  then have un1: "registry_uncrossed m rg1"
    using un g by (auto simp: registry_uncrossed_def getOrCreate_def split: option.splits)
  then have ue: "engine_uncrossed m e" using G(1) by (auto simp: registry_uncrossed_def)
  have "(\<forall>x. static_of (cell m' x) = static_of (cell m x)) \<and> (\<forall>x. rests e' x \<longrightarrow> rests e x \<or> x = r)"
  proof (cases res')
    case (Inl err)
    with Engine_PlaceOrder_rejected(1)[of r m w e err] P show ?thesis by auto
  next
    case (Inr mr)
    from Engine_PlaceOrder_books[OF ei no P[unfolded Inr]] obtain ob' where
      b: "e_orderbooks e' = (e_orderbooks e)(o_OutcomeID (cell m r) \<mapsto> ob')"
      and s: "set (book_refs ob') \<subseteq> insert r (set (book_refs (book_of (o_OutcomeID (cell m r)) e)))"
      and st: "\<forall>x. static_of (cell m' x) = static_of (cell m x)" by metis
    have "rests e x \<or> x = r" if "rests e' x" for x using rests_books[OF b that] s book_of_rests by blast
    with st show ?thesis by blast
  qed
  then have st: "static_of (cell m' x) = static_of (cell m x)" and rs: "rests e' x \<Longrightarrow> rests e x \<or> x = r" for x by blast+
  show "registry_uncrossed m' rg'"
    unfolding rg' by (rule registry_put_uncrossed[OF G(2) un1 engine_uncrossed_PlaceOrder[OF ei no ue P] st])
  have on: "registry_rests rg x" if "rests e x" for x
    unfolding G(3)[symmetric] registry_rests_def using G(1) that by blast
  show "registry_rests rg x \<or> x = r" if "registry_rests rg' x" for x
    using rests_put_engine[OF that[unfolded rg']] rs on unfolding G(3) by blast
  show "o_ID (cell m' x) = o_ID (cell m x)" for x using st[of x] by (simp add: static_of_iff)
qed

lemma Registry_CancelOrder_books:
  fixes m :: "'d::linordered_field mem"
  assumes inv: "registry_inv m rg" and un: "registry_uncrossed m rg"
    and res: "Registry_CancelOrder i oid m w rg = (res', m', w', rg')"
  shows "registry_uncrossed m' rg' \<and> ages w w' \<and> (\<forall>x. registry_rests rg' x \<longrightarrow> registry_rests rg x) \<and>
    (\<forall>x. o_ID (cell m' x) = o_ID (cell m x))"
proof (rule Registry_CancelOrder_cases[OF inv, where i = i and oid = oid and w = w])
  assume "Registry_CancelOrder i oid m w rg = (Inl errOrderNotFound, m, w, rg)"
  with res un show ?thesis by simp
next
  fix k e r m2 w2 e'
  assume k: "(k, e) \<in> set (rg_engines rg)" and C: "Engine_CancelOrder i oid m w e = (Inr r, m2, w2, e')"
    and eq: "Registry_CancelOrder i oid m w rg = (Inr r, m2, w2, put_engine k e' rg)"
  have ei: "engine_inv m e" "engine_uncrossed m e" using inv un k by (auto simp: registry_inv_def registry_uncrossed_def)
  have m': "m' = m2" "rg' = put_engine k e' rg" "w' = w2" using res eq by simp_all
  have w: "w2 \<in> {w, snd (time_now w)}" using C
    by (auto simp: Engine_CancelOrder_def Let_def case_prod_unfold split: option.splits if_splits)
  have "(\<forall>x. static_of (cell m2 x) = static_of (cell m x)) \<and> (\<forall>x. rests e' x \<longrightarrow> rests e x)"
    by (rule Engine_CancelOrder_cases[OF ei(1), where i = i and oid = oid and w = w])
      (use C in \<open>auto simp: static_of_def rests_def book_refs_def split: if_splits\<close>)
  then have st: "static_of (cell m2 x) = static_of (cell m x)" and rs: "rests e' x \<Longrightarrow> rests e x" for x by blast+
  have "registry_uncrossed m2 (put_engine k e' rg)"
    by (rule registry_put_uncrossed[OF inv un engine_uncrossed_CancelOrder[OF ei C] st])
  moreover have "registry_rests rg x" if "registry_rests (put_engine k e' rg) x" for x
    using rests_put_engine[OF that] rs k unfolding registry_rests_def by blast
  moreover have "o_ID (cell m2 x) = o_ID (cell m x)" for x using st[of x] by (simp add: static_of_iff)
  ultimately show ?thesis using w by (auto simp: m')
qed


section \<open>The books under the services\<close>

text \<open>
  The state of the trading process between two requests: well formed books without crossing orders,
  whose orders have identifiers that were issued.
\<close>

definition books_ok :: "'d::linordered_field sys \<Rightarrow> bool" where
  "books_ok s \<longleftrightarrow> registry_inv (s_mem s) (s_reg s) \<and> registry_uncrossed (s_mem s) (s_reg s) \<and>
     inj (w_uuid (n_world s)) \<and> (\<forall>r. registry_rests (s_reg s) r \<longrightarrow> o_ID (cell (s_mem s) r) \<in> issued (n_world s))"

definition keeps_books :: "'d::linordered_field sys \<Rightarrow> 'd sys \<Rightarrow> bool" where
  "keeps_books s s' \<longleftrightarrow> (books_ok s \<longrightarrow> books_ok s')"

interpretation books_order: step_order keeps_books
  by unfold_locales (auto simp: keeps_books_def)

lemma books_ok_start: "s_reg s = NewRegistry \<Longrightarrow> inj (w_uuid (n_world s)) \<Longrightarrow> books_ok s"
  by (simp add: books_ok_def registry_inv_def registry_uncrossed_def registry_rests_def NewRegistry_def)

lemma calm_keeps_books: "calm s s' \<Longrightarrow> keeps_books s s'"
  using more_sys[of s' s] ages_issued by (auto simp: calm_def keeps_books_def books_ok_def ages_def)

lemma books_calm: "follows calm m \<Longrightarrow> follows keeps_books m"
  by (erule follows_weaken) (rule calm_keeps_books)

lemma books_WithTx: "follows keeps_books fn \<Longrightarrow> follows keeps_books (WithTx fn)"
proof (rule follows_WithTx[OF books_order.step_order_axioms])
  fix s :: "'a sys" and w assume "ages (n_world s) w"
  then show "keeps_books s (s\<lparr>n_world := w\<rparr>)" by (intro calm_keeps_books) (simp add: calm_def)
qed (auto intro!: calm_keeps_books simp: calm_def)

lemma books_engine_CancelOrder: "follows keeps_books (engine_CancelOrder i oid)"
proof (rule followsI)
  fix s :: "'a sys"
  obtain res m w rg where R: "Registry_CancelOrder i oid (s_mem s) (n_world s) (s_reg s) = (res, m, w, rg)"
    by (metis prod_cases4)
  have "books_ok (s\<lparr>s_mem := m, n_world := w, s_reg := rg\<rparr>)" if "books_ok s"
  proof -
    from that have I: "registry_inv (s_mem s) (s_reg s)" "registry_uncrossed (s_mem s) (s_reg s)" by (simp_all add: books_ok_def)
    have C: "registry_uncrossed m rg" "ages (n_world s) w" "registry_rests rg x \<Longrightarrow> registry_rests (s_reg s) x"
      "o_ID (cell m x) = o_ID (cell (s_mem s) x)" for x
      using Registry_CancelOrder_books[OF I R] by simp_all
    have "o_ID (cell m x) \<in> issued w" if "registry_rests rg x" for x
      using C(3)[OF that] \<open>books_ok s\<close> ages_issued[OF C(2)] unfolding C(4) books_ok_def by blast
    with that C(1,2) registry_inv_CancelOrder[OF I(1) R] show ?thesis by (simp add: books_ok_def ages_def)
  qed
  then show "keeps_books s (snd (engine_CancelOrder i oid s))"
    by (simp add: engine_CancelOrder_def R keeps_books_def)
qed

lemma books_service_cancels:
  "follows keeps_books (OrderService_CancelOrder u oid)" "follows keeps_books (CancelAllOrdersByMarket i)"
  unfolding OrderService_CancelOrder_def CancelAllOrdersByMarket_def cancel_one_def release_funds_def restore_shares_def Let_def
  by (intro following books_engine_CancelOrder calm_repos[THEN books_calm] calm_sources[THEN books_calm])+

text \<open>A new order between its creation and its way to the engine: its identifier is on no book.\<close>

definition order_ready :: "ref \<Rightarrow> 'd::linordered_field sys \<Rightarrow> bool" where
  "order_ready r s \<longleftrightarrow> books_ok s \<and> registry_new (s_mem s) (s_reg s) r \<and> o_FilledQty (cell (s_mem s) r) = 0 \<and>
     o_ID (cell (s_mem s) r) \<in> issued (n_world s)"

definition places :: "ref \<Rightarrow> ('d::linordered_field, 'a) op \<Rightarrow> bool" where
  "places r n \<longleftrightarrow> (\<forall>s. order_ready r s \<longrightarrow> books_ok (snd (n s)))"

lemma calm_ready: "calm s s' \<Longrightarrow> order_ready r s \<Longrightarrow> order_ready r s'"
  using more_sys[of s' s] calm_keeps_books[of s s'] ages_issued by (auto simp: calm_def order_ready_def keeps_books_def)

lemma places_calm:
  assumes "follows calm m" and "\<And>x. places r (n x)"
  shows "places r (bnd m n)"
  unfolding places_def
proof (intro allI impI)
  fix s :: "'a sys" assume r: "order_ready r s"
  obtain y t where m: "m s = (y, t)" by (cases "m s")
  with calm_ready[OF followsD[OF assms(1) m] r] assms(2) show "books_ok (snd (bnd m n s))"
    by (cases y) (simp_all add: bnd_def places_def order_ready_def)
qed

lemma places_calm_andthen: "follows calm m \<Longrightarrow> places r n \<Longrightarrow> places r (andthen m n)"
  unfolding andthen_def by (rule places_calm)

lemma places_engine:
  assumes "\<And>x. follows keeps_books (n x)"
  shows "places r (bnd (engine_PlaceOrder r) n)"
  unfolding places_def
proof (intro allI impI)
  fix s :: "'a sys" assume r: "order_ready r s"
  obtain res m w rg where R: "Registry_PlaceOrder r (s_mem s) (n_world s) (s_reg s) = (res, m, w, rg)"
    by (metis prod_cases4)
  from r have I: "registry_inv (s_mem s) (s_reg s)" "registry_uncrossed (s_mem s) (s_reg s)"
    "registry_new (s_mem s) (s_reg s) r" "o_FilledQty (cell (s_mem s) r) = 0" by (simp_all add: order_ready_def books_ok_def)
  note P = Registry_PlaceOrder_books[OF I R]
  let ?s = "s\<lparr>s_mem := m, n_world := w, s_reg := rg\<rparr>"
  have "o_ID (cell m x) \<in> issued w" if "registry_rests rg x" for x
    using P(3)[OF that] r ages_issued[OF P(2)] unfolding P(4) order_ready_def books_ok_def by blast
  then have ok: "books_ok ?s"
    using P(1,2) r registry_inv_PlaceOrder[OF I(1,3,4) R] by (simp add: books_ok_def order_ready_def ages_def)
  have e: "engine_PlaceOrder r s = (res, ?s)" by (simp add: engine_PlaceOrder_def R)
  have "keeps_books ?s (snd (n x ?s))" for x using assms by (simp add: follows_def)
  with ok show "books_ok (snd (bnd (engine_PlaceOrder r) n s))"
    by (cases res) (simp_all add: bnd_def e keeps_books_def)
qed

lemma new_object_ready:
  assumes ok: "books_ok s" and "new_object x s = (Inr r, s')" and new: "o_FilledQty x = 0" "o_ID x \<in> issued (n_world s)"
    "\<And>y. registry_rests (s_reg s) y \<Longrightarrow> o_ID (cell (s_mem s) y) \<noteq> o_ID x"
  shows "order_ready r s'"
proof -
  obtain m where al: "(r, m) = alloc x (s_mem s)" and s': "s' = s\<lparr>s_mem := m\<rparr>"
    using assms(2) by (auto simp: new_object_def split: prod.splits)
  have inv: "registry_inv (s_mem s) (s_reg s)" using ok by (simp add: books_ok_def)
  note A = registry_alloc[OF inv al]
  have "uncrossed (cell m) ob" if e: "(k, e) \<in> set (rg_engines (s_reg s))" "e_orderbooks e i = Some ob" for k e i ob
  proof -
    have same: "cell m y = cell (s_mem s) y" if "y \<in> set (book_refs ob)" for y
      using A(4)[of y] that e unfolding registry_rests_def rests_def by blast
    have "uncrossed (cell (s_mem s)) ob"
      using ok e by (auto simp: books_ok_def registry_uncrossed_def engine_uncrossed_def)
    with same show ?thesis by (simp add: uncrossed_def book_refs_def)
  qed
  then have "registry_uncrossed m (s_reg s)" by (auto simp: registry_uncrossed_def engine_uncrossed_def)
  with A ok new show ?thesis by (simp add: order_ready_def books_ok_def registry_new_def s')
qed

lemma calm_settle:
  "follows calm (lock_funds preq)" "follows calm (take_shares preq t)" "follows calm (settle_trade dec_div order t tr)"
  unfolding lock_funds_def take_shares_def settle_trade_def settle_buyer_def credit_position_def settle_seller_def
    settle_maker_def Let_def case_prod_unfold
  by (intro following)+

lemma bnd_Inr: "m s = (Inr x, t) \<Longrightarrow> bnd m f s = f x t"
  by (simp add: bnd_def)

lemma books_PlaceOrder: "follows keeps_books (OrderService_PlaceOrder dec_div req)"
proof -
  have "keeps_books s (snd (place_body dec_div req s))" for s :: "'a sys"
    unfolding keeps_books_def
  proof
    assume ok: "books_ok s"
    obtain t s1 where n: "now s = (Inr t, s1)" by (simp add: now_def case_prod_unfold Let_def)
    have c1: "calm s s1" by (rule followsD[OF calm_sources(1) n])
    obtain i w where u: "new_uuid (n_world s1) = (i, w)" by (cases "new_uuid (n_world s1)")
    define s2 where "s2 = s1\<lparr>n_world := w\<rparr>"
    have f: "fresh_id s1 = (Inr i, s2)" by (simp add: fresh_id_def u s2_def)
    have ok1: "books_ok s1" using calm_keeps_books[OF c1] ok by (simp add: keeps_books_def)
    have ok2: "books_ok s2" using calm_keeps_books[OF followsD[OF calm_sources(2) f]] ok1 by (simp add: keeps_books_def)
    have "inj (w_uuid (n_world s1))" using ok1 by (simp add: books_ok_def)
    note fresh = fresh_not_issued[OF this, unfolded u fst_conv snd_conv]
    let ?x = "order_of_request req i t"
    obtain r s3 where o: "new_object ?x s2 = (Inr r, s3)" by (simp add: new_object_def case_prod_unfold Let_def)
    have "order_ready r s3"
    proof (rule new_object_ready[OF ok2 o])
      show "o_ID (cell (s_mem s2) y) \<noteq> o_ID ?x" if "registry_rests (s_reg s2) y" for y
        using that ok1 fresh(1) by (auto simp: books_ok_def s2_def order_of_request_def)
    qed (use fresh(2) in \<open>simp_all add: order_of_request_def s2_def\<close>)
    moreover have "places r (andthen (if po_Side req = Buy then lock_funds req else take_shares req t)
         (andthen (OrderRepo_Create ?x)
         (bnd (engine_PlaceOrder r) (\<lambda>result.
         andthen (for_each (mr_Trades result) (settle_trade dec_div ?x t))
         (bnd (gets (\<lambda>s. cell (s_mem s) r)) (\<lambda>placed.
         andthen (if o_FilledQty placed > 0
                  then OrderRepo_UpdateStatus (o_ID placed) (o_Status placed) (o_FilledQty placed) else ret ())
           (ret (r, mr_Trades result))))))))"
      by (intro places_calm_andthen places_engine books_calm following calm_settle)
    ultimately show "books_ok (snd (place_body dec_div req s))"
      unfolding place_body_def Let_def bnd_Inr[of now, OF n] bnd_Inr[of fresh_id, OF f] bnd_Inr[of "new_object ?x", OF o] places_def by blast
  qed
  then have "follows keeps_books (place_body dec_div req :: ('a, ref \<times> 'a Trade list) op)" by (simp add: follows_def)
  then show ?thesis
    unfolding OrderService_PlaceOrder_def by (intro following books_WithTx)
qed

section \<open>The other operations\<close>

lemma calm_services:
  "follows calm (MintTokens u i q)" "follows calm (GetPositions u i)" "follows calm (OrderService_GetOrder oid)"
  "follows calm (OrderService_ListOrders flt)" "follows calm (CreateMarket creq)" "follows calm (GetMarket i)"
  "follows calm (ListMarkets mflt)" "follows calm (UpdateMarketStatus i st)"
  unfolding MintTokens_def mint_body_def mint_outcome_def GetPositions_def OrderService_GetOrder_def OrderService_ListOrders_def
    CreateMarket_def validate_create_def new_outcome_def generateID_def GetMarket_def ListMarkets_def UpdateMarketStatus_def
    Let_def
  by (intro following)+

lemma books_Settlement:
  assumes "\<And>j. follows keeps_books (cancel_all j)" and "\<And>topic ev. follows keeps_books (publish topic ev)"
  shows "follows keeps_books (Settlement_ResolveMarket cancel_all publish i win)"
proof -
  have 1: "follows calm (resolve_body m i win)" for m
    unfolding resolve_body_def pay_winner_def Let_def by (intro following)
  have 2: "follows calm (check_resolvable i win)" unfolding check_resolvable_def by (intro following)
  show ?thesis
    unfolding Settlement_ResolveMarket_def generateID_def
    by (intro following assms books_calm 1 2)
qed

end
