(* ===== verification/Platform.thy ===== *)
theory Platform
  imports Books HttpContract
begin

text \<open>
  The platform as a whole, the way the processes of \<open>services/*/cmd\<close> are wired: the gateway calls the
  four services over gRPC, the market service calls the trading service, all of them share one
  database and one Redis, and any call may be lost on its way there or back.
\<close>

section \<open>The state of all processes\<close>

record 'd platform =
  pl_sys :: "'d sys"
  pl_keys :: "APIKey list"
  pl_redis :: redis
  pl_random :: "nat \<Rightarrow> nat \<Rightarrow> char"
  pl_nrandom :: nat
  pl_view :: "'d rank_row list"

text \<open>
  What the services are given: the conversions of decimals, the hashes, JSON, the texts of errors, and
  whether Redis answered the gateway when it started.
\<close>

record 'd platform_env =
  pe_dec :: "string \<Rightarrow> 'd option"
  pe_str :: "'d \<Rightarrow> string"
  pe_drv :: "err \<Rightarrow> string"
  pe_status :: "grpc_error \<Rightarrow> string"
  pe_div :: "'d \<Rightarrow> 'd \<Rightarrow> 'd"
  pe_numeric_div :: "nat \<Rightarrow> nat \<Rightarrow> 'd"
  pe_jwt :: jwt_env
  pe_hash :: "string \<Rightarrow> string"
  pe_marshal :: "DomainEvent \<Rightarrow> string option"
  pe_redis_up :: bool

abbreviation pl_db :: "'d platform \<Rightarrow> 'd DB" where
  "pl_db s \<equiv> n_db (pl_sys s)"

text \<open>Each service sees its part of the state.\<close>

definition on_sys :: "('d sys, 'e, 'a) comp \<Rightarrow> ('d platform, 'e, 'a) comp" where
  "on_sys m s = (let (r, t) = m (pl_sys s) in (r, s\<lparr>pl_sys := t\<rparr>))"

definition auth_node_of :: "'d platform \<Rightarrow> 'd auth_node" where
  "auth_node_of s = \<lparr>n_db = pl_db s, n_tx = n_tx (pl_sys s), n_world = n_world (pl_sys s),
     an_keys = pl_keys s, an_redis = pl_redis s, an_random = pl_random s, an_nrandom = pl_nrandom s\<rparr>"

definition on_auth :: "('d auth_node, 'e, 'a) comp \<Rightarrow> ('d platform, 'e, 'a) comp" where
  "on_auth m s =
     (let (r, t) = m (auth_node_of s)
      in (r, s\<lparr>pl_sys := (pl_sys s)\<lparr>n_db := n_db t, n_tx := n_tx t, n_world := n_world t\<rparr>,
               pl_keys := an_keys t, pl_redis := an_redis t, pl_random := an_random t, pl_nrandom := an_nrandom t\<rparr>))"

definition ranking_node_of :: "'d platform \<Rightarrow> 'd ranking_node" where
  "ranking_node_of s = \<lparr>n_db = pl_db s, n_tx = n_tx (pl_sys s), n_world = n_world (pl_sys s), rk_view = pl_view s\<rparr>"

definition on_ranking :: "('d ranking_node, 'e, 'a) comp \<Rightarrow> ('d platform, 'e, 'a) comp" where
  "on_ranking m s =
     (let (r, t) = m (ranking_node_of s)
      in (r, s\<lparr>pl_sys := (pl_sys s)\<lparr>n_db := n_db t, n_tx := n_tx t, n_world := n_world t\<rparr>, pl_view := rk_view t\<rparr>))"

definition on_redis :: "'a rop \<Rightarrow> ('d platform, err, 'a) comp" where
  "on_redis m s =
     (let (r, (w, rd)) = m (n_world (pl_sys s), pl_redis s)
      in (r, s\<lparr>pl_sys := (pl_sys s)\<lparr>n_world := w\<rparr>, pl_redis := rd\<rparr>))"

section \<open>The network\<close>

text \<open>A call may fail before the service has seen it, or after it was served.\<close>

definition unavailable :: grpc_error where
  "unavailable = (Unavailable, ''connection error'')"

definition transported ::
    "('s \<Rightarrow> world) \<Rightarrow> (world \<Rightarrow> 's \<Rightarrow> 's) \<Rightarrow> ('s, grpc_error, 'a) comp \<Rightarrow> ('s, grpc_error, 'a) comp" where
  "transported world set_world m s =
     (let (lost, w) = next_fault (world s) in
      if lost then (Inl unavailable, set_world w s)
      else let (r, s1) = m (set_world w s); (cut, w1) = next_fault (world s1)
           in (if cut then Inl unavailable else r, set_world w1 s1))"

definition remote :: "('d platform, grpc_error, 'a) comp \<Rightarrow> ('d platform, 'a) client" where
  "remote m = over_grpc (transported (\<lambda>s. n_world (pl_sys s)) (\<lambda>w s. s\<lparr>pl_sys := (pl_sys s)\<lparr>n_world := w\<rparr>\<rparr>) m)"

section \<open>The wiring\<close>

text \<open>The market service has the trading service cancel the orders of a market over gRPC.\<close>

definition market_canceller :: "'d platform_env \<Rightarrow> string \<Rightarrow> ('d::linordered_field, nat) op" where
  "market_canceller pe = tradingOrderCanceller (pe_status pe)
     (\<lambda>i. transported n_world (\<lambda>w s. s\<lparr>n_world := w\<rparr>) (Server_CancelAllOrdersByMarket (pe_drv pe) i))"

text \<open>
  \<open>RedisEventBus.Publish\<close> of \<open>infra/redis/publisher.go\<close>. No process subscribes: the message is gone
  once the server took it.
\<close>

definition EventBus_Publish :: "(DomainEvent \<Rightarrow> string option) \<Rightarrow> string \<Rightarrow> DomainEvent \<Rightarrow> ('d, 'z, unit) dbop" where
  "EventBus_Publish marshal topic ev s =
     (case marshal ev of
        None \<Rightarrow> (Inl (Errorf ''marshal event'' (Some DriverError)), s)
      | Some data \<Rightarrow>
          let (bad, w) = next_fault (n_world s)
          in (if bad then Inl DriverError else Inr (), s\<lparr>n_world := w\<rparr>))"

text \<open>Without an answer of Redis when it starts, the gateway limits nobody.\<close>

definition gateway_limiter :: "bool \<Rightarrow> (string \<Rightarrow> int \<Rightarrow> time \<Rightarrow> ('d platform, err, bool) comp) option" where
  "gateway_limiter up = (if up then Some (\<lambda>key limit window. on_redis (RateLimiter_Allow key limit window)) else None)"

definition platform_clients :: "'d::linordered_field platform_env \<Rightarrow> 'd platform clients" where
  "platform_clients pe =
     \<lparr>cl_GenerateNonce = remote (on_auth (Server_GenerateNonce (pe_drv pe))),
      cl_VerifySignature = (\<lambda>message signature wallet. remote (on_auth
        (bnd (Server_VerifySignature (pe_str pe) (pe_drv pe) (pe_jwt pe) message signature wallet) (\<lambda>(u, t). ret (Some u, t))))),
      cl_ValidateToken = (\<lambda>token. remote (on_auth
        (bnd (Server_ValidateToken (pe_str pe) (pe_drv pe) (pe_jwt pe) token) (\<lambda>u. ret (Some u))))),
      cl_ValidateAPIKey = (\<lambda>apiKey. remote (on_auth
        (bnd (Server_ValidateAPIKey (pe_str pe) (pe_drv pe) (pe_hash pe) apiKey) (\<lambda>u. ret (Some u))))),
      cl_CreateAPIKey = (\<lambda>i label. remote (on_auth (Server_CreateAPIKey (pe_drv pe) (pe_hash pe) i label))),
      cl_ListMarkets = (\<lambda>req. remote (on_sys (Server_ListMarkets (pe_drv pe) req))),
      cl_GetMarket = (\<lambda>i. remote (on_sys (Server_GetMarket (pe_drv pe) i))),
      cl_CreateMarket = (\<lambda>req. remote (on_sys (Server_CreateMarket (pe_drv pe) req))),
      cl_ResolveMarket = (\<lambda>i win. remote (on_sys
        (Server_ResolveMarket (pe_drv pe) (market_canceller pe) (EventBus_Publish (pe_marshal pe)) i win))),
      cl_UpdateMarketStatus = (\<lambda>i st. remote (on_sys (Server_UpdateMarketStatus (pe_drv pe) i st))),
      cl_PlaceOrder = (\<lambda>req. remote (on_sys (Server_PlaceOrder (pe_dec pe) (pe_str pe) (pe_drv pe) (pe_div pe) req))),
      cl_MintTokens = (\<lambda>i m q. remote (on_sys (Server_MintTokens (pe_dec pe) (pe_str pe) (pe_drv pe) i m q))),
      cl_CancelOrder = (\<lambda>i oid. remote (on_sys (Server_CancelOrder (pe_str pe) (pe_drv pe) i oid))),
      cl_ListOrders = (\<lambda>req. remote (on_sys (Server_ListOrders (pe_str pe) (pe_drv pe) req))),
      cl_GetPositions = (\<lambda>i m. remote (on_sys (Server_GetPositions (pe_str pe) (pe_drv pe) i m))),
      cl_GetOrderbook = (\<lambda>m outcome. remote (on_sys (Server_GetOrderbook True (pe_str pe) outcome))),
      cl_GetLeaderboard = (\<lambda>req. remote (on_ranking (Server_GetLeaderboard (pe_str pe) (pe_drv pe) req))),
      cl_GetUserRanking = (\<lambda>i. remote (on_ranking (Server_GetUserRanking (pe_str pe) (pe_drv pe) i))),
      cl_RefreshRankings = remote (on_ranking (Server_RefreshRankings (pe_numeric_div pe) (pe_drv pe))),
      cl_Allow = gateway_limiter (pe_redis_up pe)\<rparr>"

section \<open>What no request can undo\<close>

text \<open>
  Markets move along the table of transitions only, resolved and cancelled ones not at all; the
  books stay well formed and uncrossed.
\<close>

definition markets_move :: "'d DB \<Rightarrow> 'd DB \<Rightarrow> bool" where
  "markets_move db db' \<longleftrightarrow>
     (\<forall>i m. find_market i db = Some m \<longrightarrow> (\<exists>m'. find_market i db' = Some m' \<and>
        isValidTransition\<^sup>*\<^sup>* (m_Status m) (m_Status m') \<and>
        (m_Status m = MResolved \<or> m_Status m = MCancelled \<longrightarrow> m' = m)))"

lemma markets_move_refl: "db_markets db' = db_markets db \<Longrightarrow> markets_move db db'"
  by (auto simp: markets_move_def find_market_def)

lemma markets_move_trans:
  assumes "markets_move a b" and "markets_move b c"
  shows "markets_move a c"
  unfolding markets_move_def
proof (intro allI impI)
  fix i m assume "find_market i a = Some m"
  with assms(1) obtain m1 where m1: "find_market i b = Some m1" "isValidTransition\<^sup>*\<^sup>* (m_Status m) (m_Status m1)"
    "m_Status m = MResolved \<or> m_Status m = MCancelled \<longrightarrow> m1 = m" unfolding markets_move_def by blast
  with assms(2) obtain m2 where "find_market i c = Some m2" "isValidTransition\<^sup>*\<^sup>* (m_Status m1) (m_Status m2)"
    "m_Status m1 = MResolved \<or> m_Status m1 = MCancelled \<longrightarrow> m2 = m1" unfolding markets_move_def by blast
  with m1 show "\<exists>m'. find_market i c = Some m' \<and> isValidTransition\<^sup>*\<^sup>* (m_Status m) (m_Status m') \<and>
      (m_Status m = MResolved \<or> m_Status m = MCancelled \<longrightarrow> m' = m)"
    using rtranclp_trans[of isValidTransition] by auto
qed

lemma evolve_moves:
  assumes "markets_evolve db db'"
  shows "markets_move db db'"
  unfolding markets_move_def
proof (intro allI impI)
  fix i m assume "find_market i db = Some m"
  with assms obtain m' where m': "find_market i db' = Some m'" "m' = m \<or> isValidTransition (m_Status m) (m_Status m')"
    unfolding markets_evolve_def by blast
  moreover have "m' = m" if "m_Status m = MResolved \<or> m_Status m = MCancelled"
    using m'(2) terminal_no_transition[OF that] by blast
  ultimately show "\<exists>m'. find_market i db' = Some m' \<and> isValidTransition\<^sup>*\<^sup>* (m_Status m) (m_Status m') \<and>
      (m_Status m = MResolved \<or> m_Status m = MCancelled \<longrightarrow> m' = m)" by blast
qed

definition orderly :: "'d::linordered_field sys \<Rightarrow> 'd sys \<Rightarrow> bool" where
  "orderly s s' \<longleftrightarrow> markets_move (n_db s) (n_db s') \<and> keeps_books s s'"

definition undisturbed :: "'d::linordered_field platform \<Rightarrow> 'd platform \<Rightarrow> bool" where
  "undisturbed s s' \<longleftrightarrow> orderly (pl_sys s) (pl_sys s')"

text \<open>For the services that keep no books it is enough that they leave the markets alone.\<close>

definition modest :: "('d, 'z) node_scheme \<Rightarrow> ('d, 'z) node_scheme \<Rightarrow> bool" where
  "modest s s' \<longleftrightarrow> ages (n_world s) (n_world s') \<and> db_markets (n_db s') = db_markets (n_db s)"

interpretation orderly_order: step_order orderly
  by unfold_locales
    (auto simp: orderly_def intro: markets_move_refl markets_move_trans books_order.refl books_order.trans)

interpretation undisturbed_order: step_order undisturbed
  by unfold_locales (auto simp: undisturbed_def intro: orderly_order.refl orderly_order.trans)

interpretation modest_order: step_order modest
  by unfold_locales (auto simp: modest_def intro: ages_trans)

lemma orderly_calm: "follows calm m \<Longrightarrow> keeps markets_of m \<Longrightarrow> follows orderly m"
  using calm_keeps_books by (auto simp: follows_def keeps_def orderly_def intro: markets_move_refl)

lemma orderly_books: "follows keeps_books m \<Longrightarrow> keeps markets_of m \<Longrightarrow> follows orderly m"
  by (auto simp: follows_def keeps_def orderly_def intro: markets_move_refl)

lemma orderly_evolve: "follows keeps_books m \<Longrightarrow> (\<And>s. markets_evolve (n_db s) (n_db (snd (m s)))) \<Longrightarrow> follows orderly m"
  by (auto simp: follows_def orderly_def intro: evolve_moves)

lemma modest_calm: "follows calm m \<Longrightarrow> keeps markets_of m \<Longrightarrow> follows modest m"
  by (auto simp: follows_def keeps_def modest_def calm_def)

lemma orderly_aged: "ages (n_world s) w \<Longrightarrow> orderly s (s\<lparr>n_world := w\<rparr>)"
  by (auto simp: orderly_def calm_def intro!: markets_move_refl calm_keeps_books)

section \<open>What a call can do\<close>

lemma follows_transported:
  assumes R: "step_order R" and w: "\<And>s w. ages (world s) w \<Longrightarrow> R s (set_world w s)" and m: "follows R m"
  shows "follows R (transported world set_world m)"
proof (rule followsI)
  fix s
  note trans = step_order.trans[OF R]
  have aged: "ages v u" if "next_fault v = (b, u)" for v u b using that ages_sources(1)[of v] by simp
  obtain lost w1 where n: "next_fault (world s) = (lost, w1)" by (cases "next_fault (world s)")
  obtain r s1 where r: "m (set_world w1 s) = (r, s1)" by (cases "m (set_world w1 s)")
  obtain cut w2 where c: "next_fault (world s1) = (cut, w2)" by (cases "next_fault (world s1)")
  have 1: "R s (set_world w1 s)" using w aged[OF n] .
  have "R s1 (set_world w2 s1)" using w aged[OF c] .
  with trans[OF trans[OF 1 followsD[OF m r]]] 1 show "R s (snd (transported world set_world m s))"
    by (simp add: transported_def n r c)
qed

lemma follows_over_grpc: "follows R m \<Longrightarrow> follows R (over_grpc m)"
  by (auto simp: follows_def over_grpc_def split: prod.splits sum.splits) (metis snd_conv)+

lemma undisturbed_remote: "follows undisturbed m \<Longrightarrow> follows undisturbed (remote m)"
  unfolding remote_def
  by (intro follows_over_grpc follows_transported[OF undisturbed_order.step_order_axioms])
    (auto simp: undisturbed_def intro: orderly_aged)

lemma on_sys_follows: "follows orderly m \<Longrightarrow> follows undisturbed (on_sys m)"
  by (simp add: follows_def on_sys_def undisturbed_def case_prod_unfold Let_def)

lemma part_orderly:
  assumes "modest s t" and "n_db s = n_db u" "n_world s = n_world u"
  shows "orderly u (u\<lparr>n_db := n_db t, n_tx := x, n_world := n_world t\<rparr>)"
  using assms ages_issued[of "n_world u" "n_world t"]
  by (auto simp: orderly_def modest_def calm_def intro!: markets_move_refl calm_keeps_books)

lemma on_auth_follows: "follows modest m \<Longrightarrow> follows undisturbed (on_auth m)"
  by (auto simp: follows_def on_auth_def undisturbed_def case_prod_unfold Let_def intro!: part_orderly)
    (simp_all add: auth_node_of_def)

lemma on_ranking_follows: "follows modest m \<Longrightarrow> follows undisturbed (on_ranking m)"
  by (auto simp: follows_def on_ranking_def undisturbed_def case_prod_unfold Let_def intro!: part_orderly)
    (simp_all add: ranking_node_of_def)

text \<open>Commands of Redis only move the sources of the world on.\<close>

lemma redis_cmd_ages: "ages w (fst (snd (redis_cmd f (w, rd))))"
  by (auto simp: redis_cmd_def Let_def case_prod_unfold intro: ages_on)

interpretation redis_order: step_order "\<lambda>p q. ages (fst p) (fst q)"
  by unfold_locales (auto intro: ages_trans)

lemma follows_redis_cmd [following]: "follows (\<lambda>p q. ages (fst p) (fst q)) (redis_cmd f)"
  by (rule followsI) (metis prod.collapse redis_cmd_ages)

lemma follows_rops:
  "follows (\<lambda>p q. ages (fst p) (fst q)) (SessionStore_Set k v t)" "follows (\<lambda>p q. ages (fst p) (fst q)) (SessionStore_Get k)"
  "follows (\<lambda>p q. ages (fst p) (fst q)) (SessionStore_Delete k)"
  "follows (\<lambda>p q. ages (fst p) (fst q)) (RateLimiter_Allow k l win)"
  unfolding SessionStore_Set_def SessionStore_Get_def SessionStore_Delete_def RateLimiter_Allow_def
  by (intro following)+

lemma undisturbed_limiter: "follows undisturbed (on_redis (RateLimiter_Allow key limit win))"
proof (rule followsI)
  fix s :: "'a platform"
  obtain r w rd where A: "RateLimiter_Allow key limit win (n_world (pl_sys s), pl_redis s) = (r, (w, rd))"
    by (metis prod_cases3)
  from followsD[OF follows_rops(4) A] show "undisturbed s (snd (on_redis (RateLimiter_Allow key limit win) s))"
    by (simp add: on_redis_def A undisturbed_def orderly_aged)
qed

section \<open>The services\<close>

lemma orderly_trading:
  "follows orderly (OrderService_PlaceOrder dec_div preq)" "follows orderly (OrderService_CancelOrder u oid)"
  "follows orderly (CancelAllOrdersByMarket i)" "follows orderly (MintTokens u i q)"
  by (rule orderly_books[OF books_PlaceOrder keeps_markets_place] orderly_books[OF books_service_cancels(1) keeps_markets_cancel]
      orderly_books[OF books_service_cancels(2) keeps_markets_cancel_all] orderly_calm[OF calm_services(1) keeps_markets_mint])+

lemma keeps_markets_reads:
  "keeps markets_of (GetPositions u i)" "keeps markets_of (OrderService_GetOrder oid)"
  "keeps markets_of (OrderService_ListOrders flt)" "keeps markets_of (GetMarket i)" "keeps markets_of (ListMarkets mflt)"
  unfolding GetPositions_def OrderService_GetOrder_def OrderService_ListOrders_def GetMarket_def ListMarkets_def
    OrderRepo_ListByUser_def MarketRepo_List_def Let_def case_prod_unfold
  by (intro keeping)+

lemma orderly_reads:
  "follows orderly (GetPositions u i)" "follows orderly (OrderService_GetOrder oid)" "follows orderly (OrderService_ListOrders flt)"
  "follows orderly (GetMarket i)" "follows orderly (ListMarkets mflt)"
  by (rule orderly_calm[OF calm_services(2) keeps_markets_reads(1)] orderly_calm[OF calm_services(3) keeps_markets_reads(2)]
      orderly_calm[OF calm_services(4) keeps_markets_reads(3)] orderly_calm[OF calm_services(6) keeps_markets_reads(4)]
      orderly_calm[OF calm_services(7) keeps_markets_reads(5)])+

lemma follows_canceller:
  assumes "\<And>i. follows R (client i)"
  shows "follows R (tradingOrderCanceller status_text client i)"
  using assms by (auto simp: follows_def tradingOrderCanceller_def split: prod.splits sum.splits) (metis snd_conv)+

lemma canceller_follows:
  assumes R: "step_order R" and w: "\<And>s w. ages (n_world s) w \<Longrightarrow> R s (s\<lparr>n_world := w\<rparr>)"
    and c: "\<And>i. follows R (CancelAllOrdersByMarket i)"
  shows "follows R (market_canceller pe i)"
  unfolding market_canceller_def Server_CancelAllOrdersByMarket_def
  by (intro follows_canceller follows_transported[OF R] w step_order.follows_rpc[OF R] c)

lemma keeps_markets_canceller: "keeps markets_of (market_canceller pe i)"
proof -
  have same: "step_order (\<lambda>s s' :: 'a sys. markets_of s' = markets_of s)" by unfold_locales auto
  have "follows (\<lambda>s s' :: 'a sys. markets_of s' = markets_of s) (market_canceller pe i)"
    by (rule canceller_follows[OF same]) (auto intro: follows_keeps keeps_markets_cancel_all)
  then show ?thesis by (simp add: follows_def keeps_def)
qed

lemma books_canceller: "follows keeps_books (market_canceller pe i)"
  by (rule canceller_follows[OF books_order.step_order_axioms])
    (auto intro!: calm_keeps_books books_service_cancels(2) simp: calm_def)

lemma Publish_leaves: "keeps n_db (EventBus_Publish marshal topic ev)" "follows calm (EventBus_Publish marshal topic ev)"
  by (auto simp: keeps_def follows_def calm_def EventBus_Publish_def case_prod_unfold Let_def split: option.splits)

lemma orderly_market:
  "follows orderly (CreateMarket creq)" "follows orderly (UpdateMarketStatus i st)"
  "follows orderly (Settlement_ResolveMarket (market_canceller pe) (EventBus_Publish marshal) i win)"
proof -
  show "follows orderly (CreateMarket creq)"
    by (rule orderly_evolve[OF books_calm[OF calm_services(5)] evolve_CreateMarket])
  show "follows orderly (UpdateMarketStatus i st)"
    by (rule orderly_evolve[OF books_calm[OF calm_services(8)] evolve_UpdateMarketStatus])
  show "follows orderly (Settlement_ResolveMarket (market_canceller pe) (EventBus_Publish marshal) i win)"
    by (rule orderly_evolve[OF books_Settlement[OF books_canceller books_calm[OF Publish_leaves(2)]]
          evolve_Settlement_ResolveMarket[OF keeps_markets_canceller Publish_leaves(1)]])
qed

text \<open>The gRPC servers add no more than translations.\<close>

lemma orderly_list_one: "follows orderly (list_one m)"
proof (rule followsI)
  fix s :: "'a sys"
  show "orderly s (snd (list_one m s))"
    using followsD[OF orderly_reads(4)[of "m_ID m"], of s] by (auto simp: list_one_def split: prod.splits sum.splits)
qed

lemma orderly_servers:
  "follows orderly (Server_PlaceOrder dec str drv dec_div preq)" "follows orderly (Server_CancelOrder str drv u oid)"
  "follows orderly (Server_MintTokens dec str drv u i qty)" "follows orderly (Server_ListOrders str drv oreq)"
  "follows orderly (Server_GetPositions str drv u i)" "follows orderly (Server_GetOrderbook b str outcome)"
  "follows orderly (Server_ListMarkets drv lreq)" "follows orderly (Server_GetMarket drv i)"
  "follows orderly (Server_CreateMarket drv creq)" "follows orderly (Server_UpdateMarketStatus drv i st)"
  "follows orderly (Server_ResolveMarket drv (market_canceller pe) (EventBus_Publish marshal) i win)"
  unfolding Server_PlaceOrder_def Server_CancelOrder_def Server_MintTokens_def Server_ListOrders_def Server_GetPositions_def
    Server_GetOrderbook_def Server_ListMarkets_def Server_GetMarket_def Server_CreateMarket_def Server_UpdateMarketStatus_def
    Server_ResolveMarket_def adapter_CreateMarket_def adapter_ResolveMarket_def Let_def
  by (intro following orderly_trading orderly_reads orderly_market orderly_list_one)+

section \<open>Authentication and rankings\<close>

lemma keeps_markets_users:
  "keeps markets_of (UserRepo_GetByID i)" "keeps markets_of (UserRepo_GetByWallet a)" "keeps markets_of (UserRepo_Create u)"
  unfolding UserRepo_GetByID_def UserRepo_GetByWallet_def UserRepo_Create_def
  by (intro keeping keeps_execute_db; simp)+

lemma modest_users [following]:
  "follows modest (UserRepo_GetByID i)" "follows modest (UserRepo_GetByWallet a)" "follows modest (UserRepo_Create u)"
  "follows modest now" "follows modest (query what f)"
  by (intro modest_calm calm_repos calm_sources calm_queries keeps_markets_users keeping)+

lemma modest_parts [following]:
  "follows modest (rand_Read n)" "follows modest (key_statement what ok f)"
  by (rule followsI, auto simp: modest_def rand_Read_def key_statement_def Let_def case_prod_unfold)+

lemma modest_with_redis: "follows (\<lambda>p q. ages (fst p) (fst q)) m \<Longrightarrow> follows modest (with_redis m)"
  by (rule followsI) (auto simp: follows_def modest_def with_redis_def case_prod_unfold Let_def)

lemma follows_jvalue [following]:
  "(\<And>x. follows R (a x)) \<Longrightarrow> (\<And>x. follows R (b x)) \<Longrightarrow> follows R c \<Longrightarrow>
   follows R (case y of JString x \<Rightarrow> a x | JNumber x \<Rightarrow> b x | JOther \<Rightarrow> c)"
  by (cases y) auto

lemma modest_auth:
  "follows modest (GenerateNonce :: ('d::linordered_field, string) aop)" "follows modest (VerifySIWE env message signature wallet)"
  "follows modest (ValidateToken env token :: ('d, 'd User) aop)" "follows modest (ValidateAPIKey hash apiKey)"
  "follows modest (GenerateAPIKey hash i label)"
  unfolding GenerateNonce_def VerifySIWE_def take_nonce_def create_user_def generateJWT_def auth_generateID_def wrapped_def
    unauthorized_def ValidateToken_def token_claims_def token_expired_def token_subject_def ValidateAPIKey_def
    APIKeyRepo_GetByHash_def GenerateAPIKey_def APIKeyRepo_Create_def Let_def
  by (intro following modest_with_redis follows_rops)+

lemma modest_rankings: "follows modest (rankings_by_dim dims i rankings)"
proof (induction dims arbitrary: rankings)
  case Nil
  show ?case unfolding rankings_by_dim.simps by (intro following)
next
  case (Cons dm dims)
  show ?case unfolding rankings_by_dim.simps view_query_def by (intro following Cons)
qed

lemma modest_ranking:
  "follows modest (GetLeaderboard dm t n k)" "follows modest (GetUserRanking i)" "follows modest (RefreshRankings numeric_div)"
  unfolding GetLeaderboard_def RankingRepo_List_def view_query_def GetUserRanking_def RankingRepo_GetByUser_def
    RefreshRankings_def RankingRepo_RefreshMaterializedView_def Let_def
  by (intro following modest_rankings; simp add: modest_def)+

lemma modest_servers:
  "follows modest (Server_GenerateNonce drv :: ('d::linordered_field, string) ahandler)"
  "follows modest (Server_VerifySignature str drv env message signature wallet)"
  "follows modest (Server_ValidateToken str drv env token)" "follows modest (Server_ValidateAPIKey str drv hash apiKey)"
  "follows modest (Server_CreateAPIKey drv hash i label)" "follows modest (Server_GetLeaderboard str drv rreq)"
  "follows modest (Server_GetUserRanking str drv i)" "follows modest (Server_RefreshRankings numeric_div drv)"
  unfolding Server_GenerateNonce_def Server_VerifySignature_def Server_ValidateToken_def Server_ValidateAPIKey_def
    Server_CreateAPIKey_def Server_GetLeaderboard_def Server_GetUserRanking_def Server_RefreshRankings_def Let_def
  by (intro following modest_auth modest_ranking)+

section \<open>Requests\<close>

text \<open>All calls of the platform respect the relation, hence all requests do.\<close>

interpretation platform: respectful_services undisturbed "platform_clients pe" for pe :: "'d::linordered_field platform_env"
proof (unfold_locales, unfold platform_clients_def clients.simps)
  fix allow :: "string \<Rightarrow> int \<Rightarrow> time \<Rightarrow> ('d platform, err, bool) comp" and key limit win
  assume "gateway_limiter (pe_redis_up pe) = Some allow"
  then show "follows undisturbed (allow key limit win)" using undisturbed_limiter by (auto simp: gateway_limiter_def split: if_splits)
qed (intro undisturbed_remote on_sys_follows on_auth_follows on_ranking_follows orderly_servers modest_servers following)+

section \<open>Placing an order over HTTP\<close>

definition order_request :: "PbUser \<Rightarrow> placeOrderRequest \<Rightarrow> 'd \<Rightarrow> 'd \<Rightarrow> 'd PlaceOrderRequest" where
  "order_request u b price qty =
     \<lparr>po_UserID = pu_Id u, po_MarketID = bo_MarketID b, po_OutcomeID = bo_OutcomeID b,
      po_Side = (if bo_Side b = ''buy'' then Buy else Sell), po_Price = price, po_Quantity = qty\<rparr>"

text \<open>The service has placed the order of the body, once, for the user whose credentials the request has.\<close>

definition placed_over_http ::
    "'d::linordered_field platform_env \<Rightarrow> gw_env \<Rightarrow> http_request \<Rightarrow> 'd platform \<Rightarrow> 'd platform \<Rightarrow> bool" where
  "placed_over_http pe gw hreq s s' \<longleftrightarrow>
     (\<exists>ctx s0 u b price qty w r trades t.
        admitted (platform_clients pe) hreq PlaceOrderRoute s = (Inr ctx, s0) \<and> cx_user ctx = Some (Some u) \<and>
        ge_order gw (request_body hreq) = Some b \<and> bo_Side b \<in> {''buy'', ''sell''} \<and>
        pe_dec pe (bo_Price b) = Some price \<and> pe_dec pe (bo_Quantity b) = Some qty \<and>
        OrderService_PlaceOrder (pe_div pe) (order_request u b price qty) ((pl_sys s0)\<lparr>n_world := w\<rparr>) = (Inr (r, trades), t) \<and>
        pl_db s0 = pl_db s \<and> pl_db s' = n_db t)"

lemma Server_PlaceOrder_cases:
  assumes "Server_PlaceOrder dec str drv dec_div preq s = (res, t)"
  obtains (placed) price qty r trades x where "dec (pq_Price preq) = Some price" "dec (pq_Quantity preq) = Some qty"
      "OrderService_PlaceOrder dec_div \<lparr>po_UserID = pq_UserId preq, po_MarketID = pq_MarketId preq, po_OutcomeID = pq_OutcomeId preq,
         po_Side = protoOrderSideToDomain (pq_Side preq), po_Price = price, po_Quantity = qty\<rparr> s = (Inr (r, trades), t)" "res = Inr x"
  | (refused) e where "res = Inl e" "n_db t = n_db s"
proof (cases res)
  case (Inr x)
  obtain order trades where x: "x = (order, trades)" by (cases x)
  from assms[unfolded Inr x] show ?thesis
    by (auto simp: Server_PlaceOrder_def Let_def succeeds x Inr intro: placed)
next
  case (Inl e)
  have "n_db t = n_db s"
    using assms Inl
    by (auto simp: Server_PlaceOrder_def OrderService_PlaceOrder_def Let_def failing succeeds case_prod_unfold
        split: if_splits dest!: WithTx_failed)
  with Inl show ?thesis by (rule refused)
qed

text \<open>The checks before a handler read the tables only.\<close>

definition still :: "('d, 'z) node_scheme \<Rightarrow> ('d, 'z) node_scheme \<Rightarrow> bool" where
  "still s s' \<longleftrightarrow> n_db s' = n_db s"

definition pl_still :: "'d platform \<Rightarrow> 'd platform \<Rightarrow> bool" where
  "pl_still s s' \<longleftrightarrow> pl_db s' = pl_db s"

interpretation still_order: step_order still
  by unfold_locales (auto simp: still_def)

interpretation pl_still_order: step_order pl_still
  by unfold_locales (auto simp: pl_still_def)

lemma still_parts [following]:
  "follows still now" "follows still (UserRepo_GetByID i)" "follows still (key_statement what ok f)"
proof -
  show "follows still now" "follows still (UserRepo_GetByID i)"
    using keeps_now_db[of "\<lambda>db. db"] keeps_UserRepo_GetByID[of "\<lambda>db. db"] by (simp_all add: keeps_def follows_def still_def)
  show "follows still (key_statement what ok f)"
    by (rule followsI) (simp add: still_def key_statement_def Let_def case_prod_unfold)
qed

lemma still_credentials:
  "follows still (Server_ValidateToken str drv env token :: ('d, PbUser) ahandler)" "follows still (Server_ValidateAPIKey str drv hash apiKey)"
  unfolding Server_ValidateToken_def Server_ValidateAPIKey_def ValidateToken_def token_claims_def token_expired_def
    token_subject_def unauthorized_def ValidateAPIKey_def APIKeyRepo_GetByHash_def wrapped_def Let_def
  by (intro following)+

lemma pl_still_remote: "follows pl_still m \<Longrightarrow> follows pl_still (remote m)"
  unfolding remote_def
  by (intro follows_over_grpc follows_transported[OF pl_still_order.step_order_axioms]) (auto simp: pl_still_def)

lemma on_auth_still: "follows still m \<Longrightarrow> follows pl_still (on_auth m)"
  by (auto simp: follows_def still_def pl_still_def on_auth_def auth_node_of_def Let_def case_prod_unfold)

lemma still_admitted: "follows pl_still (admitted (platform_clients pe) hreq r)"
proof -
  have "follows pl_still (RateLimitMiddleware (platform_clients pe) limit window hreq ctx)" for limit window ctx
    by (rule followsI) (auto simp: RateLimitMiddleware_def platform_clients_def gateway_limiter_def on_redis_def pl_still_def Let_def
        split: prod.splits sum.splits)
  then have "follows pl_still (limit_group (platform_clients pe) hreq r)"
    by (simp add: limit_group_def pl_still_order.follows_ret split: option.splits)
  moreover have "follows pl_still (AuthMiddleware (platform_clients pe) hreq)"
    unfolding AuthMiddleware_def Let_def platform_clients_def clients.simps
    by (intro following pl_still_remote on_auth_still still_credentials)
  ultimately show ?thesis unfolding admitted_def by (rule pl_still_order.follows_andthen)
qed

text \<open>The call: served and answered, served with the answer lost, or without effect on the tables.\<close>

lemma call_PlaceOrder_cases:
  assumes "cl_PlaceOrder (platform_clients pe) preq s = (res, s')"
  obtains (placed) price qty w r trades t where "pe_dec pe (pq_Price preq) = Some price" "pe_dec pe (pq_Quantity preq) = Some qty"
      "OrderService_PlaceOrder (pe_div pe) \<lparr>po_UserID = pq_UserId preq, po_MarketID = pq_MarketId preq,
         po_OutcomeID = pq_OutcomeId preq, po_Side = protoOrderSideToDomain (pq_Side preq), po_Price = price, po_Quantity = qty\<rparr>
         ((pl_sys s)\<lparr>n_world := w\<rparr>) = (Inr (r, trades), t)"
      "pl_db s' = n_db t" "\<And>e. res = Inl e \<Longrightarrow> e = StatusError unavailable"
  | (unplaced) e where "res = Inl e" "pl_db s' = pl_db s"
proof -
  obtain lost w where n: "next_fault (n_world (pl_sys s)) = (lost, w)" by (cases "next_fault (n_world (pl_sys s))")
  obtain q t where q: "Server_PlaceOrder (pe_dec pe) (pe_str pe) (pe_drv pe) (pe_div pe) preq ((pl_sys s)\<lparr>n_world := w\<rparr>) = (q, t)"
    by fastforce
  obtain cut w1 where c: "next_fault (n_world t) = (cut, w1)" by (cases "next_fault (n_world t)")
  have run: "cl_PlaceOrder (platform_clients pe) preq s =
    (if lost then (Inl (StatusError unavailable), s\<lparr>pl_sys := (pl_sys s)\<lparr>n_world := w\<rparr>\<rparr>)
     else (if cut then Inl (StatusError unavailable) else map_sum StatusError id q, s\<lparr>pl_sys := t\<lparr>n_world := w1\<rparr>\<rparr>))"
    by (cases q) (simp_all add: platform_clients_def remote_def over_grpc_def transported_def n on_sys_def q c)
  from q show thesis
  proof (cases rule: Server_PlaceOrder_cases)
    case (placed price qty r trades x)
    with assms run that show thesis by (cases lost) (auto split: if_splits)
  next
    case (refused e)
    with assms run that(2) show thesis by (cases lost) (auto split: if_splits)
  qed
qed

lemma handler_PlaceOrder_cases:
  assumes "OrderHandler_PlaceOrder (platform_clients pe) gw hreq ctx s = (res, s')"
  obtains (placed) u b price qty w r trades t where "cx_user ctx = Some (Some u)" "ge_order gw (request_body hreq) = Some b"
      "bo_Side b \<in> {''buy'', ''sell''}" "pe_dec pe (bo_Price b) = Some price" "pe_dec pe (bo_Quantity b) = Some qty"
      "OrderService_PlaceOrder (pe_div pe) (order_request u b price qty) ((pl_sys s)\<lparr>n_world := w\<rparr>) = (Inr (r, trades), t)"
      "pl_db s' = n_db t" "hp_status (case res of Inl p \<Rightarrow> p | Inr p \<Rightarrow> p) \<in> {201, 500}"
  | (unplaced) p where "res = Inl p" "pl_db s' = pl_db s" "hp_status p \<noteq> 201"
proof -
  have err: "hp_status (handleGRPCError e) \<noteq> 201" for e
    by (simp add: handleGRPCError_def error_response_def response_def split: call_error.splits prod.splits grpc_code.splits)
  have refused: thesis if "\<exists>p. res = Inl p \<and> hp_status p \<noteq> 201" "s' = s" using that unplaced by blast
  show thesis
  proof (cases "ge_order gw (request_body hreq)")
    case None
    with assms have "\<exists>p. res = Inl p \<and> hp_status p \<noteq> 201" "s' = s"
      by (auto simp: OrderHandler_PlaceOrder_def bound_def require_def comp_defs error_response_def response_def)
    then show thesis by (rule refused)
  next
    case (Some b)
    note b = Some
    show thesis
    proof (cases "\<exists>u. cx_user ctx = Some (Some u) \<and> bo_Side b \<in> {''buy'', ''sell''}")
      case False
      with assms b have "\<exists>p. res = Inl p \<and> hp_status p \<noteq> 201" "s' = s"
        by (auto simp: OrderHandler_PlaceOrder_def bound_def require_def current_user_def comp_defs error_response_def
            response_def split: option.splits if_splits)
      then show thesis by (rule refused)
    next
      case True
      then obtain u where u: "cx_user ctx = Some (Some u)" and sd: "bo_Side b \<in> {''buy'', ''sell''}" by blast
      let ?n = "if bo_Side b = ''buy'' then 1 else 2 :: int"
      let ?preq = "\<lparr>pq_UserId = pu_Id u, pq_MarketId = bo_MarketID b, pq_OutcomeId = bo_OutcomeID b, pq_Side = ?n,
        pq_Price = bo_Price b, pq_Quantity = bo_Quantity b\<rparr>"
      have req: "order_request u b price qty = \<lparr>po_UserID = pq_UserId ?preq, po_MarketID = pq_MarketId ?preq,
         po_OutcomeID = pq_OutcomeId ?preq, po_Side = protoOrderSideToDomain (pq_Side ?preq), po_Price = price, po_Quantity = qty\<rparr>"
        for price qty by (simp add: order_request_def protoOrderSideToDomain_def)
      obtain q t where q: "cl_PlaceOrder (platform_clients pe) ?preq s = (q, t)"
        by (cases "cl_PlaceOrder (platform_clients pe) ?preq s")
      have run: "s' = t" "res = (case q of Inl e \<Rightarrow> Inl (handleGRPCError e) | Inr (order, trades) \<Rightarrow>
         Inr (ok_response 201 (JSObject (orderResponse order @
            (if trades \<noteq> [] then [(''trades'', JSArray (map tradeResponse trades))] else [])))))"
        using assms b u sd q
        by (auto simp: OrderHandler_PlaceOrder_def bound_def require_def current_user_def call_def comp_defs
            split: sum.splits prod.splits)
      from q show thesis
      proof (cases rule: call_PlaceOrder_cases)
        case (placed price qty w r trades v)
        have "hp_status (case res of Inl p \<Rightarrow> p | Inr p \<Rightarrow> p) \<in> {201, 500}"
          using placed(5) run(2)
          by (auto simp: ok_response_def response_def handleGRPCError_def unavailable_def error_response_def
              split: sum.splits prod.splits)
        with placed that(1)[OF u b sd, of price qty w r trades v] run(1) show thesis by (simp add: req)
      next
        case (unplaced e)
        with run err that(2) show thesis by simp
      qed
    qed
  qed
qed

lemma serve_PlaceOrder_cases:
  assumes "hq_method hreq = ''POST''" and "hq_path hreq = [''api'', ''v1'', ''trading'', ''orders'']"
    and "serve (platform_clients pe) gw hreq s = (p, s')"
  shows "placed_over_http pe gw hreq s s' \<and> hp_status p \<in> {201, 500} \<or> pl_db s' = pl_db s \<and> hp_status p \<noteq> 201"
proof -
  have r: "hq_method hreq \<noteq> ''OPTIONS''" "route_of (hq_method hreq) (hq_path hreq) = Some PlaceOrderRoute" "needs_auth PlaceOrderRoute"
    by (simp_all add: assms(1,2) route_of_def needs_auth_def)
  obtain q s0 where a: "admitted (platform_clients pe) hreq PlaceOrderRoute s = (q, s0)"
    by (cases "admitted (platform_clients pe) hreq PlaceOrderRoute s")
  have db: "pl_db s0 = pl_db s" using followsD[OF still_admitted a] by (simp add: pl_still_def)
  show ?thesis
  proof (cases q)
    case (Inl x)
    with a admitted_refuses[of "platform_clients pe" hreq PlaceOrderRoute s x s0] assms(3) db show ?thesis
      by (auto simp: serve_route[OF r(1,2)] run_route_admitted[OF r(3)] finish_bnd)
  next
    case (Inr ctx)
    obtain h t where h: "OrderHandler_PlaceOrder (platform_clients pe) gw hreq ctx s0 = (h, t)"
      by (cases "OrderHandler_PlaceOrder (platform_clients pe) gw hreq ctx s0")
    have run: "bnd (admitted (platform_clients pe) hreq PlaceOrderRoute)
        (handler_of (platform_clients pe) gw hreq PlaceOrderRoute) s = (h, t)"
      using h by (simp add: bnd_def a Inr handler_of_def)
    have p: "hp_status p = hp_status (case h of Inl p \<Rightarrow> p | Inr p \<Rightarrow> p)" "s' = t"
      using assms(3)
      by (auto simp: serve_route[OF r(1,2)] run_route_admitted[OF r(3)] finish_def run split: sum.splits)
    from h show ?thesis
    proof (cases rule: handler_PlaceOrder_cases)
      case (placed u b price qty w r trades v)
      have "placed_over_http pe gw hreq s s'"
        unfolding placed_over_http_def p(2) by (intro exI conjI) (rule a[unfolded Inr] db placed)+
      with placed(8) p(1) show ?thesis by simp
    qed (use p db in simp)
  qed
qed

end
