(* ===== verification/Spec2Isabelle.thy ===== *)
theory Spec2Isabelle
  imports MatchSpec Registry OrderService MintService Lifecycle Restore MarketServer Hub SignIn
    Access HttpContract RateLimit Memory Convert Caches Rounds KeyRows EventBus Processes Platform
begin

text \<open>
  A verification development for \<open>truth-market\<close>, a prediction market: four services that talk
  gRPC (\<open>services/auth-svc\<close>, \<open>market-svc\<close>, \<open>trading-svc\<close>, \<open>ranking-svc\<close>), a gateway that
  serves HTTP and WebSockets, PostgreSQL, and Redis.

  The program. A user signs in through the authentication service with a message for a nonce kept
  in Redis, or with an API key, and gets a token. The gateway checks it, limits the requests of an
  address with counters in Redis, and turns each request into calls of the services. The trading
  service locks the funds of a buy order or takes the shares of a sell order, asks the matching
  engine of the market (an order book per outcome) for trades, and settles each trade between the
  two accounts, all in one transaction; it also mints sets of shares for money. The market service
  creates markets, moves them along a table of transitions, and resolves or cancels them, which
  pays or refunds the holders. The ranking service reads a materialized view of the accounts and
  positions. All services share one database; the trading service alone keeps state in memory,
  its books, and rebuilds them from the database when it starts.

  The theories, in the order of their imports.

  \<^item> \<open>Prelude\<close>: computations of a state with a result that is an error or a value, as Go
    functions return \<open>(T, error)\<close>; the rules that say what a computation may yield or change;
    lemmas on lists. \<open>DomainTypes\<close> is \<open>pkg/domain\<close>, \<open>AppErrors\<close> is \<open>pkg/errors\<close>: error chains,
    with \<open>errors.Is\<close> and \<open>errors.As\<close> along them.

  \<^item> \<open>OrderQueue\<close>, \<open>Orderbook\<close>, \<open>Engine\<close>, \<open>Registry\<close> are the four files of
    \<open>trading-svc/internal/matching\<close>. Orders are shared between the caller, the queues and the
    indexes, so they live in a store and are reached through references. \<open>Matching\<close> and
    \<open>MatchSpec\<close> are the specification: the levels of a book are sorted and not empty, a queue is in
    the order of arrival, indexes and queues agree; the loop of \<open>matchOrder\<close> refines a sweep
    over the opposite orders in price-time order, written without books and pointers; from it follow
    which trades happen, that nobody trades with himself, that no fillable order is passed over,
    and, over all sequences of operations, that every resting order has something left to fill
    and no book is crossed except between orders of one user. \<open>Rounds\<close>: how often the loop runs, on
    any book.

  \<^item> \<open>Database\<close> and \<open>Repos\<close>: \<open>infra/postgres\<close>. Tables are lists of rows, a query of
    \<open>infra/postgres/queries\<close> is a function on them, the constraints of \<open>migrations\<close> are
    conditions of the statements that write, any statement may fail, and a failed statement
    aborts its transaction. \<open>Convert\<close> is \<open>convert.go\<close>, UUIDs as sixteen bytes. \<open>Memory\<close> is
    \<open>infra/memory\<close>.

  \<^item> \<open>Sqlc\<close>, \<open>SqlRepos\<close>, \<open>SqlRefinement\<close>, \<open>KeyRows\<close>: the same repositories one level
    down. \<open>Sqlc\<close> has the queries of \<open>infra/postgres/sqlcgen\<close> on rows as they are stored: enumerations
    as texts, instants and texts that may be null, the winner of a market as bytes; no statement stores a text
    that is no value. \<open>SqlRepos\<close> has the methods of \<open>*_repo.go\<close> over these queries, with
    the conversions of \<open>convert.go\<close>, and \<open>SqlRefinement\<close> shows that they implement the operations of
    \<open>Repos\<close>, which the services are proved over: same results, same errors, same tables.
    \<open>KeyRows\<close> does it for the API keys.

  \<^item> \<open>Accounts\<close>: what the services rely on of a store of accounts, a locale with the interface
    \<open>repository.UserRepository\<close>; its lemmas say how a charge moves money. It is interpreted on the
    repository on the database and on the one in memory.

  \<^item> \<open>OrderService\<close>, \<open>MintService\<close> (\<open>trading-svc/internal/service\<close>), \<open>MarketService\<close>,
    \<open>Settlement\<close> (\<open>market-svc/internal/service\<close>): each operation with all its early returns; what a
    success does to the tables, exactly; what a failure leaves; that money is neither made nor
    lost by trading. \<open>Lifecycle\<close> puts both services on one database as a step relation, with
    any requests in any order and any failures.

  \<^item> \<open>GrpcStatus\<close>, \<open>TradingServer\<close>, \<open>MarketServer\<close>, \<open>AuthServer\<close>: the gRPC layers, with
    the translations of errors and enumerations, and the adapters of \<open>cmd/main.go\<close>. \<open>Restore\<close>: the
    restoration of the books when the trading service starts.

  \<^item> \<open>Encoding\<close> (hexadecimal, base64, splitting), \<open>Redis\<close> (\<open>session_store.go\<close>,
    \<open>rate_limiter.go\<close>), \<open>Auth\<close> and \<open>SignIn\<close> (\<open>auth-svc/internal/service\<close>): nonces, tokens,
    API keys; what holds over all histories of requests is proved once, in a locale of invariants
    of the steps of the service. \<open>Caches\<close>: \<open>ranking_cache.go\<close>, \<open>orderbook_cache.go\<close>.
    \<open>EventBus\<close> is \<open>publisher.go\<close>, with the goroutine of a subscription as steps of its own: what a
    handler sees, in which order. \<open>Config\<close>: the configuration of each service from its environment, and
    that the defaults of the services agree on addresses and stores.

  \<^item> \<open>Ranking\<close>: the view of migration 8, the repository, the service and the gRPC layer of the
    rankings and portfolios.

  \<^item> \<open>Hub\<close>: \<open>gateway/internal/ws\<close>, a step relation over the buffers of the channels: an
    invariant of all interleavings, and the absence of panics when a client is registered before
    it is heard and gone after its last message.

  \<^item> \<open>Gateway\<close> (\<open>handler\<close>), \<open>Router\<close> (\<open>middleware\<close>, \<open>router.go\<close>), and what they promise
    together: \<open>Access\<close> (which calls a request can make: none without credentials, none for an
    administrator by anybody else, none in the name of another user), \<open>HttpContract\<close> (status
    codes from end to end, numbers of the query, length of listings), \<open>RateLimit\<close>. The services are
    a record of calls; the theorems hold for whatever these do, and \<open>HttpContract\<close> puts the modelled
    servers behind them.

  \<^item> \<open>Calls\<close>, \<open>Books\<close>, \<open>Platform\<close>: the composition. \<open>Calls\<close> has a call of a service over
    gRPC, which may be lost on the way or answered with a status; \<open>Books\<close> carries the invariant of the
    books through the trading server; \<open>Platform\<close> puts the gateway, the four services, the database, Redis
    and the publication of events into one state, with the clients of \<open>gateway/cmd/main.go\<close>, and interprets
    the locale of \<open>Calls\<close> that says what every request keeps. The theorems below are about it: an order from the HTTP request to the
    tables, the books after any requests, the life of a market under any requests.

  \<^item> \<open>Processes\<close>: the five \<open>main\<close> functions: what each process needs, opens in order, prepares
    before it listens, and closes at the end, in the opposite order; which failed attempts make it exit.

  Numbers. \<open>shopspring/decimal\<close> is exact on the operations the program uses, except division:
  a decimal is an element of any linearly ordered field, and the witnesses compute with rational
  numbers. Rounding to \<open>DECIMAL(20,8)\<close> when a row is written is left out. Where the width of
  an integer can be seen (page numbers and durations in \<open>int32\<close>, bytes of UUIDs) it is written out.

  Loops. \<open>match_loop\<close>, \<open>search_loop\<close> and \<open>Split\<close> are total functions with a termination
  proof each; there is no fuel anywhere, so every operation returns. \<open>Rounds\<close> bounds the rounds of the
  first. The loop of a subscription of the event bus waits for messages: each round is a step.

  Arguments of the model. Fresh identifiers and the clock are streams of the state of the world;
  which statements and commands fail is a stream too, so that theorems hold for all failures.
  The hash functions, JSON, the parsing and printing of decimals and times, the
  order in which Go runs through a map, and the division of the database are functions given to the
  definitions; what a theorem needs of one of them is one of its hypotheses.

  Not modelled. Two requests at the same time within one service: the mutexes of the engine and
  the isolation of concurrent transactions are not described, an operation is atomic, or (in
  \<open>Database\<close>) a transaction is. A commit whose outcome is unknown to the caller. Identifiers
  that differ as texts and are one UUID; in \<open>SqlRefinement\<close> the winner of a market that is written is in
  canonical form. Redirections, panics and their recovery in \<open>gin\<close>. Pings, deadlines and the limit of
  the size of a message on WebSockets. Which subscriptions a message reaches is an argument of \<open>EventBus\<close>, and no
  process of the repository subscribes; a pipeline of Redis commands is one command. Functions on strings
  that treat non-ASCII letters specially. Log records and spans, the contexts of the processes and their
  time limits. The generated
  messages of \<open>proto/gen\<close>, columns that the program neither reads nor writes, the frontend, and the tests.
\<close>

section \<open>From HTTP to the tables and the books\<close>

text \<open>The market service publishes with the operation of the event bus; its answer does not depend on who listens.\<close>

lemma publishes_on_bus:
  "fst (EventBus_Publish marshal topic ev s) =
     fst (RedisEventBus_Publish marshal (fst (next_fault (n_world s))) reaches topic ev b)"
  by (simp add: EventBus_Publish_def RedisEventBus_Publish_def Let_def case_prod_unfold split: option.split)

text \<open>
  C6: whatever HTTP requests the platform serves, one after the other, by whomever, and whatever
  statements, commands and calls between the processes fail: a market that exists stays, its status moves
  only along the table of transitions, and a resolved or cancelled market keeps its row unchanged.
\<close>

theorem http_market_lifecycle:
  assumes "find_market i (pl_db s) = Some m"
  shows "\<exists>m'. find_market i (pl_db (serve_all (platform_clients pe) gw hreqs s)) = Some m' \<and>
    isValidTransition\<^sup>*\<^sup>* (m_Status m) (m_Status m') \<and> status_rank (m_Status m) \<le> status_rank (m_Status m') \<and>
    (m_Status m \<in> {MResolved, MCancelled} \<longrightarrow> m' = m)"
proof -
  have "markets_move (pl_db s) (pl_db (serve_all (platform_clients pe) gw hreqs s))"
    using platform.serves_all[of s pe gw hreqs] by (simp add: undisturbed_def orderly_def)
  with assms status_rank_mono show ?thesis unfolding markets_move_def by blast
qed

text \<open>
  C4: from the start of the trading service on, after whatever HTTP requests and failures, every
  book of every market is well formed, holds only live orders of its market and outcome, and has no bid
  at or above an ask of another user, as long as the source of identifiers repeats none.
\<close>

theorem http_books_safe:
  assumes "s_reg (pl_sys s) = NewRegistry" and "inj (w_uuid (n_world (pl_sys s)))"
    and "pl_sys (serve_all (platform_clients pe) gw hreqs s) = t"
    and "(k, e) \<in> set (rg_engines (s_reg t))" and "e_orderbooks e i = Some ob"
  shows "book_inv (cell (s_mem t)) ob \<and> uncrossed (cell (s_mem t)) ob \<and>
    (\<forall>r \<in> set (GetBids ob @ GetAsks ob). resting_ok (cell (s_mem t) r) \<and>
       o_MarketID (cell (s_mem t) r) = k \<and> o_OutcomeID (cell (s_mem t) r) = i)"
proof -
  have refs: "set (GetBids ob @ GetAsks ob) = set (book_refs ob)"
    by (simp add: book_refs_def GetBids_def GetAsks_def flat_def)
  have "books_ok (pl_sys s)" using assms(1,2) by (rule books_ok_start)
  moreover have "undisturbed s (serve_all (platform_clients pe) gw hreqs s)" by (rule platform.serves_all)
  ultimately have "books_ok t"
    unfolding assms(3)[symmetric] undisturbed_def orderly_def keeps_books_def by blast
  then have e: "engine_inv (s_mem t) e" "engine_uncrossed (s_mem t) e" "\<forall>r. rests e r \<longrightarrow> o_MarketID (cell (s_mem t) r) = k"
    using assms(4) by (auto simp: books_ok_def registry_inv_def registry_uncrossed_def)
  moreover have "rests e r" if "r \<in> set (book_refs ob)" for r using assms(5) that unfolding rests_def by blast
  ultimately show ?thesis using assms(5) unfolding refs engine_inv_def engine_uncrossed_def by blast
qed

text \<open>
  Alice and Bob on the market of the examples, with an API key each: Alice offers 10 at 0.60.
\<close>

definition ex_pe :: "rat platform_env" where
  "ex_pe = \<lparr>pe_dec = (\<lambda>x. if x = ''0.60'' then Some (6 / 10) else if x = ''0.70'' then Some (7 / 10)
       else if x = ''10'' then Some 10 else if x = ''4'' then Some 4 else None),
     pe_str = (\<lambda>_. ''''), pe_drv = (\<lambda>_. ''''), pe_status = snd, pe_div = (/), pe_numeric_div = (\<lambda>_ _. 0), pe_jwt = ex_env,
     pe_hash = (\<lambda>x. x), pe_marshal = (\<lambda>_. None), pe_redis_up = True\<rparr>"

definition ex_key_of :: "string \<Rightarrow> string \<Rightarrow> APIKey" where
  "ex_key_of i user = \<lparr>ak_ID = i, ak_UserID = user, ak_KeyHash = hex_EncodeToString user, ak_KeyPrefix = take 10 user,
     ak_IsActive = True, ak_ExpiresAt = None, ak_CreatedAt = 0\<rparr>"

definition ex_platform :: "rat platform" where
  "ex_platform = \<lparr>pl_sys = ex_sys 0, pl_keys = [ex_key_of ''1'' ''alice'', ex_key_of ''2'' ''bob''],
     pl_redis = \<lparr>rd_values = Map.empty, rd_counters = Map.empty\<rparr>, pl_random = (\<lambda>_ _. CHR ''x''), pl_nrandom = 0, pl_view = []\<rparr>"

definition ex_orders_gw :: gw_env where
  "ex_orders_gw = ex_gw\<lparr>ge_order := (\<lambda>(b, _). Some (if b = ''offer''
     then \<lparr>bo_MarketID = ''m'', bo_OutcomeID = ''yes'', bo_Side = ''sell'', bo_Price = ''0.60'', bo_Quantity = ''10''\<rparr>
     else \<lparr>bo_MarketID = ''m'', bo_OutcomeID = ''yes'', bo_Side = ''buy'', bo_Price = ''0.70'', bo_Quantity = ''4''\<rparr>))\<rparr>"

definition ex_post_order :: "string \<Rightarrow> string \<Rightarrow> http_request" where
  "ex_post_order key body = \<lparr>hq_method = ''POST'', hq_path = [''api'', ''v1'', ''trading'', ''orders''],
     hq_header = (\<lambda>h. if h = ''X-API-Key'' then key else ''''), hq_query = (\<lambda>_. ''''), hq_body = body, hq_ip = ''::1''\<rparr>"

text \<open>A short body is read in full; the limit of a megabyte need not be counted out.\<close>

lemma request_body_short [code]:
  "request_body hreq = (if length (hq_body hreq) < 20 then (hq_body hreq, False)
     else (take (2 ^ 20) (hq_body hreq), 2 ^ 20 < length (hq_body hreq)))"
  by (simp add: request_body_def)

definition ex_offer :: http_request where
  "ex_offer = ex_post_order ''alice'' ''offer''"

lemma ex_offer_runs:
  "(\<lambda>(p, s). (hp_status p, holding (pl_db s) ''alice'' ''yes'', users_ok (pl_db ex_platform),
       map (\<lambda>(k, e). (k, map_option GetAsks (e_orderbooks e ''yes''))) (rg_engines (s_reg (pl_sys s)))))
     (serve (platform_clients ex_pe) ex_orders_gw ex_offer ex_platform) = (201, 0, True, [(''m'', Some [0])])"
proof -
  have r: "hq_method ex_offer \<noteq> ''OPTIONS''" "route_of (hq_method ex_offer) (hq_path ex_offer) = Some PlaceOrderRoute"
    "needs_auth PlaceOrderRoute"
    by (simp_all add: ex_offer_def ex_post_order_def route_of_def needs_auth_def)
  show ?thesis
    unfolding serve_route[OF r(1,2)] run_route_admitted[OF r(3)] admitted_def limit_group_def RateLimitMiddleware_def[abs_def]
      AuthMiddleware_def handler_of_def route.case OrderHandler_PlaceOrder_def platform_clients_def clients.simps
      gateway_limiter_def group_limit_def option.case
    by code_simp
qed

definition ex_offered :: "rat platform" where
  "ex_offered = serve_all (platform_clients ex_pe) ex_orders_gw [ex_offer] ex_platform"

lemma ex_offered_eq: "ex_offered = snd (serve (platform_clients ex_pe) ex_orders_gw ex_offer ex_platform)"
  by (simp add: ex_offered_def serve_all_def)

theorem http_books_safe_witness:
  "\<exists>e ob. (''m'', e) \<in> set (rg_engines (s_reg (pl_sys ex_offered))) \<and> e_orderbooks e ''yes'' = Some ob \<and> GetAsks ob = [0] \<and>
     uncrossed (cell (s_mem (pl_sys ex_offered))) ob \<and> o_MarketID (cell (s_mem (pl_sys ex_offered)) 0) = ''m''"
proof -
  have "map (\<lambda>(k, e). (k, map_option GetAsks (e_orderbooks e ''yes''))) (rg_engines (s_reg (pl_sys ex_offered))) = [(''m'', Some [0])]"
    using ex_offer_runs by (auto simp: ex_offered_eq case_prod_unfold)
  then obtain e ob where e: "(''m'', e) \<in> set (rg_engines (s_reg (pl_sys ex_offered)))" "e_orderbooks e ''yes'' = Some ob"
    "GetAsks ob = [0]" by (auto simp: map_eq_Cons_conv)
  have "s_reg (pl_sys ex_platform) = NewRegistry" "inj (w_uuid (n_world (pl_sys ex_platform)))"
    by (auto simp: ex_platform_def ex_sys_def ex_sources_def inj_def replicate_eq_replicate)
  from http_books_safe[OF this ex_offered_def[symmetric, THEN arg_cong, of pl_sys] e(1,2)] e show ?thesis by auto
qed

text \<open>A resolved market, and the offer of Alice afterwards.\<close>

theorem http_market_lifecycle_witness:
  "find_market ''m'' (pl_db (serve_all (platform_clients ex_pe) ex_orders_gw [ex_offer] (ex_platform\<lparr>pl_sys := ex_life2\<rparr>))) =
     find_market ''m'' (n_db ex_life2)"
proof -
  have "map_option m_Status (find_market ''m'' (n_db ex_life2)) = Some MResolved" by code_simp
  then obtain m where m: "find_market ''m'' (n_db ex_life2) = Some m" "m_Status m = MResolved" by auto
  then have "find_market ''m'' (pl_db (ex_platform\<lparr>pl_sys := ex_life2\<rparr>)) = Some m" by simp
  from http_market_lifecycle[OF this, of ex_pe ex_orders_gw "[ex_offer]"] m show ?thesis by auto
qed



end
